(* ===== verification/Meshnet_Prelude.thy ===== *)
theory Meshnet_Prelude
  imports Main "HOL-Library.State_Monad" "HOL-Library.Word" "HOL-Library.Signed_Division"
begin

text \<open>
  Shared vocabulary of the development: Go's machine integers as words, Go errors as
  values, the part of Go's \<open>strings\<close>, \<open>strconv\<close> and \<open>fmt\<close> the
  program uses, JSON values as \<open>interface{}\<close> holds them, and the state monad in which
  the effectful code is written.  The generic lemmas are declared \<open>[simp]\<close> or
  collected in \<open>io_run\<close> and \<open>go_text\<close>.
\<close>

named_theorems io_run \<open>equations that run a state-monad program\<close>
named_theorems go_text \<open>equations for Go string formatting and parsing\<close>

section \<open>Integers, programs with effects\<close>

type_synonym int64 = "64 word"
type_synonym int32 = "32 word"
type_synonym ('w, 'a) io = "('w, 'a) state"

abbreviation return :: "'a \<Rightarrow> ('w, 'a) io" where
  "return \<equiv> State_Monad.return"

definition reads :: "('w \<Rightarrow> 'a) \<Rightarrow> ('w, 'a) io" where
  "reads f = State (\<lambda>s. (f s, s))"

definition modifies :: "('w \<Rightarrow> 'w) \<Rightarrow> ('w, unit) io" where
  "modifies f = State (\<lambda>s. ((), f s))"

lemma run_reads [simp, io_run]: "run_state (reads f) s = (f s, s)"
  by (simp add: reads_def)

lemma run_modifies [simp, io_run]: "run_state (modifies f) s = ((), f s)"
  by (simp add: modifies_def)

lemma run_bind [io_run]:
  "run_state (State_Monad.bind m f) s = (case run_state m s of (a, s') \<Rightarrow> run_state (f a) s')"
  by simp

lemma run_if [simp, io_run]:
  "run_state (if b then m else n) s = (if b then run_state m s else run_state n s)"
  by simp

section \<open>Errors\<close>

text \<open>
  A Go \<open>error\<close>: a plain message, an error wrapped with \<open>%w\<close> (which
  \<open>errors.As\<close> sees through), a gRPC status error, or a Kubernetes API status error.
  Wrapping with \<open>%v\<close> keeps the text only: \<open>errorf_v\<close>.
\<close>

datatype grpc_code = NotFound | Unavailable | Unimplemented | OtherCode

datatype kube_reason = KNotFound | KConflict | KOther

datatype goerr =
    Err string
  | Wrap string goerr
  | Status grpc_code string
  | Kube kube_reason string

type_synonym 'a res = "goerr + 'a"

fun err_text :: "goerr \<Rightarrow> string" where
  "err_text (Err m) = m"
| "err_text (Wrap m e) = m @ err_text e"
| "err_text (Status c m) = m"
| "err_text (Kube r m) = m"

definition errorf_v :: "string \<Rightarrow> goerr \<Rightarrow> goerr" where
  "errorf_v m e = Err (m @ err_text e)"

fun status_code :: "goerr \<Rightarrow> grpc_code" where
  "status_code (Status c m) = c"
| "status_code (Wrap m e) = status_code e"
| "status_code (Err m) = OtherCode"
| "status_code (Kube r m) = OtherCode"

fun kube_reason_of :: "goerr \<Rightarrow> kube_reason" where
  "kube_reason_of (Kube r m) = r"
| "kube_reason_of (Wrap m e) = kube_reason_of e"
| "kube_reason_of (Err m) = KOther"
| "kube_reason_of (Status c m) = KOther"

text \<open>Where Go panics in a function that answers an error, the model answers an error that says so.\<close>

definition go_panic :: "string \<Rightarrow> goerr" where
  "go_panic m = Err (''panic: '' @ m)"

definition is_not_found :: "goerr \<Rightarrow> bool" where
  "is_not_found e \<longleftrightarrow> kube_reason_of e = KNotFound"

definition is_conflict :: "goerr \<Rightarrow> bool" where
  "is_conflict e \<longleftrightarrow> kube_reason_of e = KConflict"

section \<open>Strings\<close>

text \<open>
  Strings are ASCII (Kubernetes names, interface names, addresses): one \<open>char\<close> per
  byte and per rune.
\<close>

definition is_space :: "char \<Rightarrow> bool" where
  "is_space c \<longleftrightarrow> c \<in> {CHR 0x09, CHR 0x0A, CHR 0x0B, CHR 0x0C, CHR 0x0D, CHR '' ''}"

definition trim_space :: "string \<Rightarrow> string" where
  "trim_space s = rev (dropWhile is_space (rev (dropWhile is_space s)))"

definition has_prefix :: "string \<Rightarrow> string \<Rightarrow> bool" where
  "has_prefix s p \<longleftrightarrow> take (length p) s = p"

definition has_suffix :: "string \<Rightarrow> string \<Rightarrow> bool" where
  "has_suffix s p \<longleftrightarrow> length p \<le> length s \<and> drop (length s - length p) s = p"

fun contains :: "string \<Rightarrow> string \<Rightarrow> bool" where
  "contains [] p \<longleftrightarrow> p = []"
| "contains (c # s) p \<longleftrightarrow> has_prefix (c # s) p \<or> contains s p"

definition to_lower :: "char \<Rightarrow> char" where
  "to_lower c = (if (65::nat) \<le> of_char c \<and> of_char c \<le> (90::nat) then char_of (of_char c + (32::nat)) else c)"

definition equal_fold :: "string \<Rightarrow> string \<Rightarrow> bool" where
  "equal_fold s t \<longleftrightarrow> map to_lower s = map to_lower t"

definition is_digit :: "char \<Rightarrow> bool" where
  "is_digit c \<longleftrightarrow> (48::nat) \<le> of_char c \<and> of_char c \<le> (57::nat)"

definition digit_char :: "nat \<Rightarrow> char" where
  "digit_char n = ''0123456789'' ! n"

fun dec :: "nat \<Rightarrow> string" where
  "dec n = (if n < 10 then [digit_char n] else dec (n div 10) @ [digit_char (n mod 10)])"

declare dec.simps [simp del]

definition dec_val :: "string \<Rightarrow> nat" where
  "dec_val s = foldl (\<lambda>a c. 10 * a + (of_char c - 48)) 0 s"

definition pad0 :: "nat \<Rightarrow> string \<Rightarrow> string" where
  "pad0 k s = replicate (k - length s) (CHR ''0'') @ s"

text \<open>\<open>fmt\<close>'s \<open>%d\<close>, and \<open>%04d\<close>, whose width counts a minus sign.\<close>

definition fmt_d :: "int \<Rightarrow> string" where
  "fmt_d n = (if n < 0 then ''-'' @ dec (nat (- n)) else dec (nat n))"

definition fmt_04d :: "int \<Rightarrow> string" where
  "fmt_04d n = (if n < 0 then ''-'' @ pad0 3 (dec (nat (- n))) else pad0 4 (dec (nat n)))"

text \<open>
  \<open>strconv.Atoi\<close>: an optional sign and at least one digit, nothing else, and a value
  that fits 64 bits.
\<close>

definition atoi :: "string \<Rightarrow> int option" where
  "atoi s =
     (let (neg, ds) = (case s of
            c # r \<Rightarrow> if c = CHR ''-'' then (True, r) else if c = CHR ''+'' then (False, r) else (False, s)
          | [] \<Rightarrow> (False, s));
          v = (if neg then - int (dec_val ds) else int (dec_val ds))
      in if ds \<noteq> [] \<and> list_all is_digit ds \<and> - (2 ^ 63) \<le> v \<and> v < 2 ^ 63 then Some v else None)"

section \<open>Lemmas on decimal text\<close>

lemma less_ten_cases: "(n::nat) < 10 \<Longrightarrow> n \<in> {0, 1, 2, 3, 4, 5, 6, 7, 8, 9}"
  by auto

lemma of_char_digit_char [simp, go_text]: "n < 10 \<Longrightarrow> of_char (digit_char n) = 48 + n"
  by (drule less_ten_cases) (auto simp: digit_char_def)

lemma is_digit_digit_char [simp, go_text]: "n < 10 \<Longrightarrow> is_digit (digit_char n)"
  by (simp add: is_digit_def)

lemma dec_val_Nil [simp, go_text]: "dec_val [] = 0"
  by (simp add: dec_val_def)

lemma dec_val_snoc [simp, go_text]: "dec_val (s @ [c]) = 10 * dec_val s + (of_char c - 48)"
  by (simp add: dec_val_def)

lemma dec_val_dec [simp, go_text]: "dec_val (dec n) = n"
proof (induction n rule: dec.induct)
  case (1 n)
  show ?case
  proof (cases "n < 10")
    case True
    then have "dec n = [] @ [digit_char n]" by (simp add: dec.simps)
    then show ?thesis using True by (simp only: dec_val_snoc) simp
  next
    case False
    then have "dec_val (dec n) = dec_val (dec (n div 10) @ [digit_char (n mod 10)])"
      by (subst dec.simps) simp
    also have "\<dots> = 10 * (n div 10) + n mod 10" using 1 False by simp
    finally show ?thesis by simp
  qed
qed

lemma dec_digits [simp, go_text]: "list_all is_digit (dec n)"
proof (induction n rule: dec.induct)
  case (1 n)
  then show ?case by (cases "n < 10") (subst dec.simps; simp)+
qed

lemma dec_not_Nil [simp, go_text]: "dec n \<noteq> []"
  by (subst dec.simps) simp

lemma dec_inject [simp]: "dec m = dec n \<longleftrightarrow> m = n"
  by (metis dec_val_dec)

lemma dec_length_le: "n < 10 ^ Suc k \<Longrightarrow> length (dec n) \<le> Suc k"
proof (induction k arbitrary: n)
  case 0
  then show ?case by (subst dec.simps) simp
next
  case (Suc k)
  show ?case
  proof (cases "n < 10")
    case True
    then show ?thesis by (subst dec.simps) simp
  next
    case False
    have "n div 10 < 10 ^ Suc k" using Suc.prems by auto
    then have "length (dec (n div 10)) \<le> Suc k" by (rule Suc.IH)
    with False show ?thesis by (subst dec.simps) simp
  qed
qed

lemma dec_val_zeros [simp]: "dec_val (replicate k (CHR ''0'') @ s) = dec_val s"
proof -
  have "foldl (\<lambda>a c. 10 * a + (of_char c - 48)) 0 (replicate k (CHR ''0'')) = (0::nat)"
    by (induction k) simp_all
  then show ?thesis by (simp add: dec_val_def)
qed

lemma dec_val_pad0 [simp, go_text]: "dec_val (pad0 k s) = dec_val s"
  by (simp add: pad0_def)

lemma list_all_replicate_zero: "list_all is_digit (replicate k (CHR ''0''))"
  by (induction k) (simp_all add: is_digit_def)

lemma pad0_digits [simp, go_text]: "list_all is_digit s \<Longrightarrow> list_all is_digit (pad0 k s)"
  by (simp add: pad0_def list_all_append list_all_replicate_zero)

lemma length_pad0 [simp, go_text]: "length (pad0 k s) = max k (length s)"
  by (simp add: pad0_def)

lemma fmt_04d_length: "0 \<le> n \<Longrightarrow> n < 10000 \<Longrightarrow> length (fmt_04d n) = 4"
proof -
  assume "0 \<le> n" "n < 10000"
  moreover from this have "length (dec (nat n)) \<le> Suc 3" by (intro dec_length_le) simp
  ultimately show ?thesis by (simp add: fmt_04d_def)
qed

lemma fmt_04d_val: "0 \<le> n \<Longrightarrow> dec_val (fmt_04d n) = nat n"
  by (simp add: fmt_04d_def)

lemma fmt_04d_digits: "0 \<le> n \<Longrightarrow> list_all is_digit (fmt_04d n)"
  by (simp add: fmt_04d_def)

section \<open>Lemmas on trimming and searching text\<close>

lemma dropWhile_hd: "dropWhile P s \<noteq> [] \<Longrightarrow> \<not> P (hd (dropWhile P s))"
  by (induction s) auto

lemma dropWhile_fix: "s = [] \<or> \<not> P (hd s) \<Longrightarrow> dropWhile P s = s"
  by (cases s) auto

lemma trim_space_idem [simp, go_text]: "trim_space (trim_space s) = trim_space s"
proof -
  let ?u = "dropWhile is_space s"
  let ?t = "rev (dropWhile is_space (rev ?u))"
  obtain ws where ws: "?u = ?t @ ws"
    by (metis rev_append rev_rev_ident takeWhile_dropWhile_id)
  have hd: "?t = [] \<or> \<not> is_space (hd ?t)"
  proof (cases "?t = []")
    case False
    moreover from this have "hd ?t = hd ?u" using ws by (metis hd_append2)
    moreover have "?u \<noteq> []" using False ws by (metis append_is_Nil_conv)
    ultimately show ?thesis by (metis dropWhile_hd)
  qed simp
  have last: "rev ?t = [] \<or> \<not> is_space (hd (rev ?t))"
    using dropWhile_hd [of is_space "rev ?u"] by auto
  have "dropWhile is_space ?t = ?t" using hd by (rule dropWhile_fix)
  moreover have "dropWhile is_space (rev ?t) = rev ?t" using last by (rule dropWhile_fix)
  ultimately show ?thesis by (simp add: trim_space_def)
qed

lemma contains_append [simp]: "contains (a @ b) p" if "contains b p"
  using that by (induction a) (auto simp: has_prefix_def)

lemma contains_refl_prefix: "has_prefix s p \<Longrightarrow> contains s p"
  by (cases s) (auto simp: has_prefix_def)

end
