(* ===== verification/Messages.thy ===== *)
theory Messages
  imports Meshnet_Prelude
begin

text \<open>
  The messages of \<open>daemon/proto/meshnet/v1beta1\<close> (as the structs of
  \<open>meshnet.pb.go\<close>) and the custom-resource types of \<open>api/types/v1beta1\<close>.  A field
  keeps its Go name behind a short prefix that names its struct.  A message pointer that
  can be nil is an \<open>option\<close> where the code depends on it.
\<close>

section \<open>gRPC messages\<close>

record Link =
  lk_PeerPod :: string
  lk_LocalIntf :: string
  lk_PeerIntf :: string
  lk_LocalIp :: string
  lk_PeerIp :: string
  lk_Uid :: int64
  lk_Mtu :: int32

record Pod =
  pod_Name :: string
  pod_SrcIp :: string
  pod_NetNs :: string
  pod_KubeNs :: string
  pod_Links :: "Link list"
  pod_NodeIp :: string
  pod_NodeIntf :: string
  pod_ContainerId :: string

record PodQuery =
  pq_Name :: string
  pq_KubeNs :: string

record SkipQuery =
  sq_Pod :: string
  sq_Peer :: string
  sq_KubeNs :: string
  sq_LinkId :: int64

record BoolResponse =
  br_Response :: bool

record RemotePod =
  rp_NetNs :: string
  rp_IntfName :: string
  rp_IntfIp :: string
  rp_PeerVtep :: string
  rp_KubeNs :: string
  rp_Vni :: int64
  rp_NodeIntf :: string
  rp_Mtu :: int32

record WireDef =
  wd_WireIfIdOnPeerNode :: int64
  wd_PeerNodeIp :: string
  wd_IntfNameInPod :: string
  wd_LocalPodNetNs :: string
  wd_LinkUid :: int64
  wd_LocalPodName :: string
  wd_WireIfNameOnLocalNode :: string
  wd_TopoNs :: string
  wd_LocalPodIp :: string
  wd_Mtu :: int32

record WireCreateResponse =
  wcr_Response :: bool
  wcr_PeerIntfId :: int64

record WireDownResponse =
  wdr_Response :: bool

record WireLinkState =
  wls_LinkUid :: int64
  wls_LocalPodNetNs :: string
  wls_Up :: bool
  wls_PeerIfaceId :: int64

record VxlanLinkDef =
  vld_LinkUid :: int64
  vld_NetNs :: string
  vld_IntfName :: string
  vld_PeerNodeIp :: string
  vld_KubeNs :: string

record Packet =
  pkt_RemotIntfId :: int64
  pkt_Frame :: "8 word list"

record GenerateNodeInterfaceNameRequest =
  gnr_PodIntfName :: string
  gnr_PodName :: string

record GenerateNodeInterfaceNameResponse =
  gns_Ok :: bool
  gns_NodeIntfName :: string

text \<open>
  A gRPC handler that returns a nil message and a nil error answers the client with the
  message whose fields all have the zero value.
\<close>

definition zero_Pod :: Pod where
  "zero_Pod = \<lparr>pod_Name = '''', pod_SrcIp = '''', pod_NetNs = '''', pod_KubeNs = '''',
     pod_Links = [], pod_NodeIp = '''', pod_NodeIntf = '''', pod_ContainerId = ''''\<rparr>"

definition zero_WireDef :: WireDef where
  "zero_WireDef = \<lparr>wd_WireIfIdOnPeerNode = 0, wd_PeerNodeIp = '''', wd_IntfNameInPod = '''',
     wd_LocalPodNetNs = '''', wd_LinkUid = 0, wd_LocalPodName = '''',
     wd_WireIfNameOnLocalNode = '''', wd_TopoNs = '''', wd_LocalPodIp = '''', wd_Mtu = 0\<rparr>"

abbreviation ok_response :: BoolResponse where
  "ok_response \<equiv> \<lparr>br_Response = True\<rparr>"

abbreviation no_response :: BoolResponse where
  "no_response \<equiv> \<lparr>br_Response = False\<rparr>"

section \<open>Custom resources\<close>

record Skipped =
  sk_PodName :: string
  sk_LinkId :: int64

record GWireStatus =
  gs_LocalNodeName :: string
  gs_LinkId :: int64
  gs_TopoNamespace :: string
  gs_LocalPodNetNs :: string
  gs_LocalPodName :: string
  gs_LocalPodIp :: string
  gs_LocalPodIfaceName :: string
  gs_WireIfaceNameOnLocalNode :: string
  gs_WireIfaceIdOnPeerNode :: int64
  gs_GWirePeerNodeIp :: string

record GWireKNodeStatus =
  gns_GWireKItems :: "GWireStatus list"

record GWireKObj =
  gk_Kind :: string
  gk_APIVersion :: string
  gk_Name :: string
  gk_Namespace :: string
  gk_Status :: GWireKNodeStatus

record TopoLink =
  tl_LocalIntf :: string
  tl_LocalIP :: string
  tl_PeerIntf :: string
  tl_PeerIP :: string
  tl_PeerPod :: string
  tl_UID :: int64
  tl_MTU :: int64

record TopologySpec =
  ts_Links :: "TopoLink list"

record TopologyStatus =
  tst_Skipped :: "Skipped list"
  tst_SrcIP :: string
  tst_NetNS :: string
  tst_ContainerID :: string

record Topology =
  tp_Kind :: string
  tp_APIVersion :: string
  tp_Name :: string
  tp_Namespace :: string
  tp_Status :: TopologyStatus
  tp_Spec :: TopologySpec

text \<open>The constants of \<open>register.go\<close>.\<close>

definition GroupName :: string where "GroupName = ''networkop.co.uk''"
definition GroupVersion :: string where "GroupVersion = ''v1beta1''"
definition GWireResNamePlural :: string where "GWireResNamePlural = ''gwirekobjs''"

end
