(* ===== verification/Environment.thy ===== *)
theory Environment
  imports Messages
begin

text \<open>
  What the program calls and the repository does not hold: the Kubernetes API and the
  apimachinery converters, the kernel's network interfaces (netlink, network namespaces,
  pcap, ethtool), the file system and the clock.  Each is a record of operations that the
  definitions take as an argument.  An operation runs in the state monad over a world of
  an arbitrary type, so it may fail and may change the world.  The predicates at the end
  of each section state documented behaviour; a theorem that needs one has it as a named
  hypothesis.
\<close>

section \<open>JSON values and the unstructured converter\<close>

text \<open>The dynamic types an \<open>interface{}\<close> of an unstructured object can hold.\<close>

datatype json =
    JNull
  | JBool bool
  | JInt int64
  | JStr string
  | JList "json list"
  | JObj "(string \<times> json) list"
  | JFloat string

text \<open>The type assertion \<open>v.(map[string]interface{})\<close>.\<close>

fun is_map :: "json \<Rightarrow> bool" where
  "is_map (JObj m) \<longleftrightarrow> True"
| "is_map _ \<longleftrightarrow> False"

text \<open>
  \<open>NestedX\<close> answers value, found and error; a nil slice is \<open>None\<close>.
  \<open>SetNestedField\<close> mutates the object it is given: the model returns it.
\<close>

record unstr_lib =
  NestedString :: "json \<Rightarrow> string list \<Rightarrow> string \<times> bool \<times> goerr option"
  NestedInt64 :: "json \<Rightarrow> string list \<Rightarrow> int64 \<times> bool \<times> goerr option"
  NestedSlice :: "json \<Rightarrow> string list \<Rightarrow> json list option \<times> bool \<times> goerr option"
  SetNestedField :: "json \<Rightarrow> json \<Rightarrow> string list \<Rightarrow> json \<times> goerr option"
  GetName :: "json \<Rightarrow> string"
  FromSkipped :: "json \<Rightarrow> Skipped res"
  ToSkipped :: "Skipped \<Rightarrow> json res"
  FromGWireStatus :: "json \<Rightarrow> GWireStatus res"
  ToGWireStatus :: "GWireStatus \<Rightarrow> json res"
  ToGWireKObj :: "GWireKObj \<Rightarrow> json res"
  FromTopology :: "json \<Rightarrow> Topology res"
  ToTopology :: "Topology \<Rightarrow> json res"

text \<open>A slice written at a path is read back there; other paths keep their values.\<close>

definition set_slice_law :: "unstr_lib \<Rightarrow> string list \<Rightarrow> bool" where
  "set_slice_law u p \<longleftrightarrow>
     (\<forall>ob vs ob'. SetNestedField u ob (JList vs) p = (ob', None) \<longrightarrow>
        NestedSlice u ob' p = (Some vs, True, None))"

definition set_string_law :: "unstr_lib \<Rightarrow> string list \<Rightarrow> bool" where
  "set_string_law u p \<longleftrightarrow>
     (\<forall>ob v ob'. SetNestedField u ob (JStr v) p = (ob', None) \<longrightarrow>
        NestedString u ob' p = (v, True, None))"

definition frame_law :: "unstr_lib \<Rightarrow> string list \<Rightarrow> string list \<Rightarrow> bool" where
  "frame_law u p q \<longleftrightarrow>
     (\<forall>ob v. NestedSlice u (fst (SetNestedField u ob v p)) q = NestedSlice u ob q
           \<and> NestedString u (fst (SetNestedField u ob v p)) q = NestedString u ob q)"

definition name_law :: "unstr_lib \<Rightarrow> string list \<Rightarrow> bool" where
  "name_law u p \<longleftrightarrow> (\<forall>ob v. GetName u (fst (SetNestedField u ob v p)) = GetName u ob)"

text \<open>Converting a struct to a map and back gives the struct.\<close>

definition skipped_codec :: "unstr_lib \<Rightarrow> bool" where
  "skipped_codec u \<longleftrightarrow>
     (\<forall>s j. ToSkipped u s = Inr j \<longrightarrow> is_map j \<and> FromSkipped u j = Inr s)"

definition gwire_codec :: "unstr_lib \<Rightarrow> bool" where
  "gwire_codec u \<longleftrightarrow>
     (\<forall>s j. ToGWireStatus u s = Inr j \<longrightarrow> is_map j \<and> FromGWireStatus u j = Inr s)"

section \<open>The Kubernetes API\<close>

datatype address_type = NodeInternalIP | NodeExternalIP | NodeOtherAddress

record Taint =
  tn_Key :: string
  tn_Value :: string
  tn_Effect :: string

record Node =
  nd_Name :: string
  nd_ResourceVersion :: nat
  nd_Addresses :: "(address_type \<times> string) list"
  nd_Taints :: "Taint list"

record 'w kube_env =
  TopoGet :: "string \<Rightarrow> string \<Rightarrow> ('w, json res) io"
  TopoUpdateStatus :: "string \<Rightarrow> json \<Rightarrow> ('w, json res) io"
  GwList :: "string \<Rightarrow> ('w, json list res) io"
  GwGet :: "string \<Rightarrow> string \<Rightarrow> ('w, json res) io"
  GwCreate :: "string \<Rightarrow> json \<Rightarrow> ('w, json res) io"
  GwUpdate :: "string \<Rightarrow> json \<Rightarrow> ('w, json res) io"
  NodesList :: "('w, Node list res) io"
  NodeGet :: "string \<Rightarrow> ('w, Node res) io"
  NodeUpdate :: "Node \<Rightarrow> ('w, Node res) io"
  RetryOnConflict :: "('w, goerr option) io \<Rightarrow> ('w, goerr option) io"

text \<open>
  \<open>attempts fn w r w'\<close>: calling \<open>fn\<close> at least once and again only after a
  conflict error gives the answer \<open>r\<close> of the last call.
\<close>

inductive attempts :: "('w, goerr option) io \<Rightarrow> 'w \<Rightarrow> goerr option \<Rightarrow> 'w \<Rightarrow> bool" where
  last_attempt: "run_state fn w = (r, w') \<Longrightarrow> attempts fn w r w'"
| again: "run_state fn w = (Some e, w1) \<Longrightarrow> is_conflict e \<Longrightarrow> attempts fn w1 r w' \<Longrightarrow>
     attempts fn w r w'"

definition retry_law :: "'w kube_env \<Rightarrow> bool" where
  "retry_law k \<longleftrightarrow>
     (\<forall>fn w r w'. run_state (RetryOnConflict k fn) w = (r, w') \<longrightarrow> attempts fn w r w')"

text \<open>If a failing attempt leaves what \<open>f\<close> reads alone, only the last attempt counts.\<close>

lemma attempts_last:
  assumes "attempts fn w r w'"
    and "\<And>w e w'. run_state fn w = (Some e, w') \<Longrightarrow> f w' = f w"
  shows "\<exists>w0. f w0 = f w \<and> run_state fn w0 = (r, w')"
  using assms by (induction rule: attempts.induct) (blast, metis)

lemma retry_last:
  assumes "retry_law k" "run_state (RetryOnConflict k fn) w = (r, w')"
    and "\<And>w e w'. run_state fn w = (Some e, w') \<Longrightarrow> f w' = f w"
  obtains w0 where "f w0 = f w" "run_state fn w0 = (r, w')"
  using attempts_last [of fn w r w' f] assms by (auto simp: retry_law_def)

text \<open>
  A store as a map from namespace and name to the object.  A read returns what is stored
  or an error, and not-found only when nothing is stored; a successful write stores the
  object under its own name, a failed one stores nothing; a list returns the objects of
  that name in all namespaces.
\<close>

definition get_law :: "unstr_lib \<Rightarrow> ('w \<Rightarrow> string \<Rightarrow> string \<Rightarrow> json option) \<Rightarrow>
    (string \<Rightarrow> string \<Rightarrow> ('w, json res) io) \<Rightarrow> bool" where
  "get_law u st get \<longleftrightarrow>
     (\<forall>w ns n r w'. run_state (get ns n) w = (r, w') \<longrightarrow>
        st w' = st w \<and> (\<forall>ob. r = Inr ob \<longrightarrow> st w ns n = Some ob \<and> GetName u ob = n)
        \<and> (\<forall>e. r = Inl e \<longrightarrow> is_not_found e \<longrightarrow> st w ns n = None))"

definition put_law :: "unstr_lib \<Rightarrow> ('w \<Rightarrow> string \<Rightarrow> string \<Rightarrow> json option) \<Rightarrow>
    (string \<Rightarrow> json \<Rightarrow> ('w, json res) io) \<Rightarrow> bool" where
  "put_law u st put \<longleftrightarrow>
     (\<forall>w ns ob r w'. run_state (put ns ob) w = (r, w') \<longrightarrow>
        (\<forall>ob'. r = Inr ob' \<longrightarrow> st w' = (st w)(ns := (st w ns)(GetName u ob \<mapsto> ob))) \<and>
        (\<forall>e. r = Inl e \<longrightarrow> st w' = st w))"

definition list_law :: "('w \<Rightarrow> string \<Rightarrow> string \<Rightarrow> json option) \<Rightarrow>
    (string \<Rightarrow> ('w, json list res) io) \<Rightarrow> bool" where
  "list_law st ls \<longleftrightarrow>
     (\<forall>w n r w'. run_state (ls n) w = (r, w') \<longrightarrow>
        st w' = st w \<and> (\<forall>obs. r = Inr obs \<longrightarrow> set obs = {ob. \<exists>ns. st w ns n = Some ob}))"

lemma get_lawD:
  assumes "get_law u st get" "run_state (get ns n) w = (r, w')"
  shows "st w' = st w" "r = Inr ob \<Longrightarrow> st w ns n = Some ob \<and> GetName u ob = n"
    "r = Inl e \<Longrightarrow> is_not_found e \<Longrightarrow> st w ns n = None"
  using assms unfolding get_law_def by blast+

lemma put_lawD:
  assumes "put_law u st put" "run_state (put ns ob) w = (r, w')"
  shows "r = Inr ob' \<Longrightarrow> st w' = (st w)(ns := (st w ns)(GetName u ob \<mapsto> ob))"
    "r = Inl e \<Longrightarrow> st w' = st w"
  using assms unfolding put_law_def by blast+

lemma list_lawD:
  assumes "list_law st ls" "run_state (ls n) w = (r, w')"
  shows "st w' = st w" "r = Inr obs \<Longrightarrow> set obs = {ob. \<exists>ns. st w ns n = Some ob}"
  using assms unfolding list_law_def by blast+

definition gw_store :: "unstr_lib \<Rightarrow> 'w kube_env \<Rightarrow> ('w \<Rightarrow> string \<Rightarrow> string \<Rightarrow> json option) \<Rightarrow> bool" where
  "gw_store u k st \<longleftrightarrow> get_law u st (GwGet k) \<and> list_law st (GwList k) \<and>
     put_law u st (GwUpdate k) \<and> put_law u st (GwCreate k)"

definition topo_store :: "unstr_lib \<Rightarrow> 'w kube_env \<Rightarrow> ('w \<Rightarrow> string \<Rightarrow> string \<Rightarrow> json option) \<Rightarrow> bool" where
  "topo_store u k topo \<longleftrightarrow> get_law u topo (TopoGet k) \<and> put_law u topo (TopoUpdateStatus k)"

definition set_object :: "('n \<Rightarrow> 'm \<Rightarrow> json option) \<Rightarrow> 'n \<Rightarrow> 'm \<Rightarrow> json \<Rightarrow> ('n \<Rightarrow> 'm \<Rightarrow> json option)" where
  "set_object st ns n ob = st(ns := (st ns)(n \<mapsto> ob))"

text \<open>A new wire object lists the statuses it was made from and has the name given.\<close>

definition kobj_law :: "unstr_lib \<Rightarrow> string list \<Rightarrow> bool" where
  "kobj_law u p \<longleftrightarrow>
     (\<forall>ob j. ToGWireKObj u ob = Inr j \<longrightarrow> GetName u j = gk_Name ob \<and>
        (\<exists>js. NestedSlice u j p = (Some js, True, None) \<and> (\<forall>x \<in> set js. is_map x) \<and>
           map (FromGWireStatus u) js = map Inr (gns_GWireKItems (gk_Status ob))))"

section \<open>The kernel's network state\<close>

type_synonym ip = "8 word list"

record IPNet =
  ipn_IP :: ip
  ipn_Mask :: ip

datatype link_kind =
    KindVeth string
  | KindVxlan int ip
  | KindMacvlan
  | KindOther

datatype oper_state = OperUpState | OperDownState | OperOtherState

record nlink =
  nl_Name :: string
  nl_Index :: int
  nl_MTU :: int
  nl_RawFlags :: int32
  nl_Flags :: int64
  nl_OperState :: oper_state
  nl_Kind :: link_kind

record netns =
  ns_Path :: string
  ns_Fd :: nat

text \<open>The namespace a thread is in: its own, or the one \<open>NetNS.Do\<close> entered.\<close>

datatype nsctx = CurrentNs | InNs netns

text \<open>The arguments of \<open>netlink.LinkAdd\<close> the program builds.\<close>

datatype new_link =
    NewVeth string string int
  | NewVxlan string int int ip int int
  | NewMacvlan string int

record 'w net_env =
  GetCurrentNS :: "('w, netns res) io"
  GetNS :: "string \<Rightarrow> ('w, netns res) io"
  EnterNS :: "netns \<Rightarrow> ('w, goerr option) io"
  LinkByName :: "nsctx \<Rightarrow> string \<Rightarrow> ('w, nlink res) io"
  LinkByIndex :: "nsctx \<Rightarrow> int \<Rightarrow> ('w, nlink res) io"
  LinkAdd :: "nsctx \<Rightarrow> new_link \<Rightarrow> ('w, goerr option) io"
  LinkDel :: "nsctx \<Rightarrow> nlink \<Rightarrow> ('w, goerr option) io"
  LinkSetNsFd :: "nlink \<Rightarrow> nat \<Rightarrow> ('w, goerr option) io"
  LinkSetName :: "nsctx \<Rightarrow> nlink \<Rightarrow> string \<Rightarrow> ('w, goerr option) io"
  LinkSetUp :: "nsctx \<Rightarrow> nlink \<Rightarrow> ('w, goerr option) io"
  LinkSetDown :: "nsctx \<Rightarrow> nlink \<Rightarrow> ('w, goerr option) io"
  AddrAdd :: "nsctx \<Rightarrow> nlink \<Rightarrow> IPNet \<Rightarrow> ('w, goerr option) io"
  Sysctl :: "nsctx \<Rightarrow> string \<Rightarrow> string \<Rightarrow> ('w, goerr option) io"
  NewHandle :: "nsctx \<Rightarrow> ('w, goerr option) io"
  Interfaces :: "('w, (string \<times> ip list) list res) io"
  RouteGet :: "ip \<Rightarrow> ('w, (ip \<times> int) list \<times> goerr option) io"
  RandomUint32 :: "('w, int32) io"
  EthtoolOpen :: "nsctx \<Rightarrow> ('w, goerr option) io"
  EthtoolChange :: "nsctx \<Rightarrow> string \<Rightarrow> (string \<times> bool) list \<Rightarrow> ('w, goerr option) io"
  PcapOpenLive :: "string \<Rightarrow> ('w, nat res) io"
  PcapSetDirectionIn :: "nat \<Rightarrow> ('w, goerr option) io"
  PcapWrite :: "nat \<Rightarrow> 8 word list \<Rightarrow> ('w, goerr option) io"
  ParseIP :: "string \<Rightarrow> ip option"
  IPString :: "ip \<Rightarrow> string"
  ParseCIDR :: "string \<Rightarrow> (ip \<times> IPNet) res"

section \<open>Files, environment variables, clock\<close>

record 'w os_env =
  LookupEnv :: "string \<Rightarrow> string option"
  Hostname :: "('w, string res) io"
  Now :: "('w, int) io"
  Sleep :: "int \<Rightarrow> ('w, unit) io"
  ReadFile :: "string \<Rightarrow> ('w, string res) io"

definition Getenv :: "'w os_env \<Rightarrow> string \<Rightarrow> string" where
  "Getenv os v = (case LookupEnv os v of None \<Rightarrow> '''' | Some s \<Rightarrow> s)"

text \<open>Durations are nanoseconds.\<close>

definition seconds :: "int \<Rightarrow> int" where "seconds n = n * 1000000000"
definition milliseconds :: "int \<Rightarrow> int" where "milliseconds n = n * 1000000"

section \<open>Remote daemons\<close>

text \<open>Dialing a URL and the calls of the \<open>Remote\<close> and \<open>WireProtocol\<close> clients on it.\<close>

record 'w rpc_env =
  Dial :: "string \<Rightarrow> ('w, goerr option) io"
  RemUpdate :: "string \<Rightarrow> RemotePod \<Rightarrow> ('w, BoolResponse option res) io"
  RemAddGRPCWireRemote :: "string \<Rightarrow> WireDef \<Rightarrow> ('w, WireCreateResponse res) io"
  RemGRPCWireDownRemote :: "string \<Rightarrow> WireDef \<Rightarrow> ('w, WireDownResponse res) io"
  RemSetPeerLinkState :: "string \<Rightarrow> WireLinkState \<Rightarrow> ('w, BoolResponse option res) io"
  RemSendToOnce :: "string \<Rightarrow> Packet \<Rightarrow> ('w, BoolResponse res) io"

definition GRPCDefaultPort :: nat where "GRPCDefaultPort = 51111"

definition peer_url :: "string \<Rightarrow> string" where
  "peer_url ip = trim_space (ip @ '':'' @ dec GRPCDefaultPort)"

section \<open>Decoded packets\<close>

text \<open>
  What the code reads of a \<open>gopacket.Packet\<close>: the layers that were found, with the fields
  used of each.  Addresses are in their printed form.  \<open>NewPacket\<close> decodes bytes from a
  given first layer on.
\<close>

datatype layer_type =
    LayerEthernet | LayerIPv4 | LayerIPv6 | LayerLLC | LayerARP | LayerDot1Q | LayerZero | LayerUnknown nat

record ip_layer =
  ipl_Length :: "16 word"
  ipl_Src :: string
  ipl_Dst :: string
  ipl_Proto :: "8 word"

record llc_layer =
  llc_DSAP :: "8 word"
  llc_SSAP :: "8 word"
  llc_Control :: "16 word"
  llc_Payload :: "8 word list"

record dot1q_layer =
  dq_Next :: layer_type
  dq_Type :: "16 word"
  dq_Payload :: "8 word list"

record packet =
  pk_Ethernet :: "(layer_type \<times> 16 word) option"
  pk_IPv4 :: "ip_layer option"
  pk_IPv6 :: "ip_layer option"
  pk_LLC :: "llc_layer option"
  pk_Dot1Q :: "dot1q_layer option"
  pk_TCP :: "16 word option"

record pkt_lib =
  NewPacket :: "8 word list \<Rightarrow> layer_type \<Rightarrow> packet"

text \<open>What follows a VLAN tag is shorter than the bytes the tag was found in.\<close>

definition packet_law :: "pkt_lib \<Rightarrow> bool" where
  "packet_law lib \<longleftrightarrow>
     (\<forall>b l v. pk_Dot1Q (NewPacket lib b l) = Some v \<longrightarrow> length (dq_Payload v) < length b)"

section \<open>Everything outside the daemon\<close>

text \<open>\<open>sy_errs\<close> is the error \<open>errlist.List\<close> makes of several.\<close>

record 'w sys =
  sy_lib :: unstr_lib
  sy_os :: "'w os_env"
  sy_kube :: "'w kube_env"
  sy_net :: "'w net_env"
  sy_rpc :: "'w rpc_env"
  sy_errs :: "goerr list \<Rightarrow> goerr"
  sy_pkt :: pkt_lib

section \<open>Derived operations\<close>

text \<open>\<open>NetNS.Do\<close>: enter the namespace, run the body there, come back.\<close>

definition ns_Do :: "'w net_env \<Rightarrow> netns \<Rightarrow> (nsctx \<Rightarrow> ('w, 'a res) io) \<Rightarrow> ('w, 'a res) io" where
  "ns_Do nt n body = do {
     r \<leftarrow> EnterNS nt n;
     (case r of Some e \<Rightarrow> return (Inl e) | None \<Rightarrow> body (InNs n))
   }"

text \<open>An operation that answers an error or nothing, as a result.\<close>

definition as_res :: "('w, goerr option) io \<Rightarrow> ('w, unit res) io" where
  "as_res m = do { r \<leftarrow> m; return (case r of Some e \<Rightarrow> Inl e | None \<Rightarrow> Inr ()) }"

definition as_err :: "('w, 'a res) io \<Rightarrow> ('w, goerr option) io" where
  "as_err m = do { r \<leftarrow> m; return (case r of Inl e \<Rightarrow> Some e | Inr _ \<Rightarrow> None) }"

lemma run_as_err [simp]:
  "run_state (as_err m) w = (r, w') \<longleftrightarrow>
     (\<exists>x. run_state m w = (x, w') \<and> r = (case x of Inl e \<Rightarrow> Some e | Inr _ \<Rightarrow> None))"
  by (auto simp: as_err_def split: prod.splits sum.splits)

text \<open>\<open>net.IP\<close>: \<open>To4\<close> and \<open>Equal\<close> on 4- and 16-byte addresses.\<close>

definition v4in6_prefix :: ip where
  "v4in6_prefix = replicate 10 0 @ [0xFF, 0xFF]"

definition To4 :: "ip \<Rightarrow> ip option" where
  "To4 a = (if length a = 4 then Some a
            else if length a = 16 \<and> take 12 a = v4in6_prefix then Some (drop 12 a) else None)"

definition ip_Equal :: "ip \<Rightarrow> ip \<Rightarrow> bool" where
  "ip_Equal a b =
     (if length a = length b then a = b
      else if length a = 4 \<and> length b = 16 then take 12 b = v4in6_prefix \<and> a = drop 12 b
      else if length a = 16 \<and> length b = 4 then take 12 a = v4in6_prefix \<and> b = drop 12 a
      else False)"

end
