(* ===== verification/Cni_Conf.thy ===== *)
theory Cni_Conf
  imports Environment
begin

text \<open>
  The host files by which the daemon configures the plugin (\<open>internal/cniconf\<close>), the
  link-type helper of \<open>utils/wireutil\<close>, and the interface-name test of
  \<open>internal/koko\<close>.
\<close>

definition DatapathIfacePrefixConf :: string where
  "DatapathIfacePrefixConf = ''/etc/cni/net.d/meshnet-datapath-iface-prefix''"
definition DefaultLinkMTUConf :: string where
  "DefaultLinkMTUConf = ''/etc/cni/net.d/meshnet-default-link-mtu''"
definition InterNodeLinkTypeConf :: string where
  "InterNodeLinkTypeConf = ''/etc/cni/net.d/meshnet-inter-node-link-type''"

definition INTER_NODE_LINK_VXLAN :: string where "INTER_NODE_LINK_VXLAN = ''VXLAN''"
definition INTER_NODE_LINK_GRPC :: string where "INTER_NODE_LINK_GRPC = ''GRPC''"

definition ResolveInterNodeLinkType :: "string \<Rightarrow> string" where
  "ResolveInterNodeLinkType v =
     (if trim_space v = INTER_NODE_LINK_VXLAN then INTER_NODE_LINK_VXLAN
      else if trim_space v = INTER_NODE_LINK_GRPC then INTER_NODE_LINK_GRPC
      else INTER_NODE_LINK_GRPC)"

definition LookupDatapathIfacePrefix :: "'w os_env \<Rightarrow> ('w, string \<times> bool) io" where
  "LookupDatapathIfacePrefix os = do {
     r \<leftarrow> ReadFile os DatapathIfacePrefixConf;
     return (case r of Inl e \<Rightarrow> ('''', False) | Inr b \<Rightarrow> (trim_space b, True))
   }"

definition parse_mtu :: "string \<Rightarrow> int \<times> bool" where
  "parse_mtu b = (case atoi (trim_space b) of
       None \<Rightarrow> (0, False)
     | Some v \<Rightarrow> if v \<le> 0 then (0, False) else (v, True))"

definition ReadDefaultLinkMTU :: "'w os_env \<Rightarrow> ('w, int \<times> bool) io" where
  "ReadDefaultLinkMTU os = do {
     r \<leftarrow> ReadFile os DefaultLinkMTUConf;
     return (case r of Inl e \<Rightarrow> (0, False) | Inr b \<Rightarrow> parse_mtu b)
   }"

definition LookupInterNodeLinkType :: "'w os_env \<Rightarrow> ('w, string) io" where
  "LookupInterNodeLinkType os = do {
     r \<leftarrow> ReadFile os InterNodeLinkTypeConf;
     return (case r of Inl e \<Rightarrow> INTER_NODE_LINK_GRPC | Inr b \<Rightarrow> ResolveInterNodeLinkType b)
   }"

section \<open>Datapath interfaces\<close>

definition isDatapathIface :: "string \<Rightarrow> string \<Rightarrow> bool" where
  "isDatapathIface name prefix =
     (if prefix = '''' \<or> \<not> has_prefix name prefix then False
      else (let suffix = drop (length prefix) name
            in if suffix = '''' then False else list_all is_digit suffix))"

definition shouldLeaveAdminDown :: "'w os_env \<Rightarrow> string \<Rightarrow> ('w, bool) io" where
  "shouldLeaveAdminDown os name = do {
     pc \<leftarrow> LookupDatapathIfacePrefix os;
     (case pc of (prefix, configured) \<Rightarrow>
        return (if \<not> configured then False
                else if prefix = '''' then True
                else isDatapathIface name prefix))
   }"

section \<open>Properties\<close>

text \<open>
  An interface counts as a datapath port exactly when its name is the configured,
  non-empty prefix followed by one or more decimal digits and nothing else.
\<close>

theorem datapath_iface_iff:
  "isDatapathIface name prefix \<longleftrightarrow>
     prefix \<noteq> '''' \<and> (\<exists>ds. name = prefix @ ds \<and> ds \<noteq> '''' \<and> list_all is_digit ds)"
proof
  assume a: "isDatapathIface name prefix"
  let ?ds = "drop (length prefix) name"
  have "name = prefix @ ?ds" "prefix \<noteq> []" "?ds \<noteq> []" "list_all is_digit ?ds"
    using a by (auto simp: isDatapathIface_def has_prefix_def Let_def split: if_splits)
      (metis append_take_drop_id)
  then show "prefix \<noteq> [] \<and> (\<exists>ds. name = prefix @ ds \<and> ds \<noteq> [] \<and> list_all is_digit ds)" by blast
qed (auto simp: isDatapathIface_def has_prefix_def Let_def)

text \<open>
  The link type the plugin reads is always one of the two, VXLAN exactly when the
  trimmed file content says so, and GRPC when the file is missing; reading back what the
  daemon resolved and wrote gives the same type.
\<close>

theorem link_type_resolution:
  "fst (run_state (LookupInterNodeLinkType os) w) \<in> {INTER_NODE_LINK_VXLAN, INTER_NODE_LINK_GRPC} \<and>
   (fst (run_state (LookupInterNodeLinkType os) w) = INTER_NODE_LINK_VXLAN \<longleftrightarrow>
      (\<exists>b. fst (run_state (ReadFile os InterNodeLinkTypeConf) w) = Inr b \<and> trim_space b = INTER_NODE_LINK_VXLAN)) \<and>
   ResolveInterNodeLinkType (ResolveInterNodeLinkType v) = ResolveInterNodeLinkType v"
  by (auto simp: LookupInterNodeLinkType_def ResolveInterNodeLinkType_def INTER_NODE_LINK_VXLAN_def
      INTER_NODE_LINK_GRPC_def trim_space_def is_space_def split: prod.splits sum.splits)

lemma parse_mtu_pos: "parse_mtu b = (v, True) \<Longrightarrow> 0 < v \<and> v < 2 ^ 63"
  by (auto simp: parse_mtu_def atoi_def Let_def split: option.splits if_splits list.splits prod.splits)

end
