(* ===== verification/Reference_Env.thy ===== *)
theory Reference_Env
  imports Environment "HOL-Library.AList"
begin

text \<open>
  An environment that satisfies the laws of \<open>Environment\<close>: the apimachinery helpers on
  JSON trees, and an API server that keeps the objects in maps.  It shows that the laws
  can hold, and the witnesses of the theorems that assume them run on it.
\<close>

section \<open>Nested fields\<close>

definition type_error :: goerr where
  "type_error = Err ''accessor error: not of the type map[string]interface{}''"

fun jget :: "json \<Rightarrow> string list \<Rightarrow> json option res" where
  "jget j [] = Inr (Some j)"
| "jget (JObj m) (f # fs) = (case map_of m f of None \<Rightarrow> Inr None | Some v \<Rightarrow> jget v fs)"
| "jget JNull (f # fs) = Inr None"
| "jget j (f # fs) = Inl type_error"

fun jset :: "json \<Rightarrow> json \<Rightarrow> string list \<Rightarrow> json res" where
  "jset j v [] = Inr v"
| "jset (JObj m) v (f # fs) =
     (case jset (case map_of m f of None \<Rightarrow> JObj [] | Some x \<Rightarrow> if fs = [] then JObj [] else x) v fs of
        Inl e \<Rightarrow> Inl e
      | Inr x \<Rightarrow> Inr (JObj (AList.update f x m)))"
| "jset j v (f # fs) = Inl type_error"

definition ref_slice :: "json \<Rightarrow> string list \<Rightarrow> json list option \<times> bool \<times> goerr option" where
  "ref_slice ob p =
     (case jget ob p of
        Inl e \<Rightarrow> (None, False, Some e)
      | Inr None \<Rightarrow> (None, False, None)
      | Inr (Some (JList l)) \<Rightarrow> (Some l, True, None)
      | Inr (Some _) \<Rightarrow> (None, False, Some type_error))"

definition ref_string :: "json \<Rightarrow> string list \<Rightarrow> string \<times> bool \<times> goerr option" where
  "ref_string ob p =
     (case jget ob p of
        Inl e \<Rightarrow> ('''', False, Some e)
      | Inr None \<Rightarrow> ('''', False, None)
      | Inr (Some (JStr s)) \<Rightarrow> (s, True, None)
      | Inr (Some _) \<Rightarrow> ('''', False, Some type_error))"

definition ref_int :: "json \<Rightarrow> string list \<Rightarrow> int64 \<times> bool \<times> goerr option" where
  "ref_int ob p =
     (case jget ob p of
        Inl e \<Rightarrow> (0, False, Some e)
      | Inr None \<Rightarrow> (0, False, None)
      | Inr (Some (JInt i)) \<Rightarrow> (i, True, None)
      | Inr (Some _) \<Rightarrow> (0, False, Some type_error))"

definition ref_set :: "json \<Rightarrow> json \<Rightarrow> string list \<Rightarrow> json \<times> goerr option" where
  "ref_set ob v p = (case jset ob v p of Inl e \<Rightarrow> (ob, Some e) | Inr ob' \<Rightarrow> (ob', None))"

definition ref_name :: "json \<Rightarrow> string" where
  "ref_name ob = fst (ref_string ob [''metadata'', ''name''])"

lemma jget_jset: "jset ob v p = Inr ob' \<Longrightarrow> jget ob' p = Inr (Some v)"
  by (induction ob v p arbitrary: ob' rule: jset.induct)
     (auto split: sum.splits option.splits if_splits simp: update_conv')

text \<open>Two paths that differ in their first step do not meet.\<close>

lemma jget_jset_other:
  assumes "jset ob v (f # fs) = Inr ob'" "g \<noteq> f"
  shows "jget ob' (g # gs) = jget ob (g # gs)"
  using assms by (cases ob) (auto split: sum.splits option.splits if_splits simp: update_conv')

lemma jget_jset_second:
  assumes "jset ob v [f, h] = Inr ob'" "g \<noteq> h"
  shows "jget ob' [f, g] = jget ob [f, g] \<or>
     (jget ob [f, g] = Inr None \<and> jget ob' [f, g] = Inr None)"
proof (cases ob)
  case (JObj m)
  then show ?thesis using assms
    by (cases "map_of m f") (auto split: sum.splits option.splits simp: update_conv' jget_jset_other)
qed (use assms in auto)

section \<open>The converters\<close>

fun field :: "string \<Rightarrow> json \<Rightarrow> string" where
  "field f j = fst (ref_string j [f])"

fun ifield :: "string \<Rightarrow> json \<Rightarrow> int64" where
  "ifield f j = fst (ref_int j [f])"

definition from_skipped :: "json \<Rightarrow> Skipped res" where
  "from_skipped j = (if is_map j then Inr \<lparr>sk_PodName = field ''pod_name'' j, sk_LinkId = ifield ''link_id'' j\<rparr>
     else Inl type_error)"

definition to_skipped :: "Skipped \<Rightarrow> json res" where
  "to_skipped s = Inr (JObj [(''pod_name'', JStr (sk_PodName s)), (''link_id'', JInt (sk_LinkId s))])"

definition from_gwire :: "json \<Rightarrow> GWireStatus res" where
  "from_gwire j = (if is_map j then Inr
     \<lparr>gs_LocalNodeName = field ''local_node_name'' j, gs_LinkId = ifield ''link_id'' j,
      gs_TopoNamespace = field ''topo_namespace'' j, gs_LocalPodNetNs = field ''local_pod_net_ns'' j,
      gs_LocalPodName = field ''local_pod_name'' j, gs_LocalPodIp = field ''local_pod_ip'' j,
      gs_LocalPodIfaceName = field ''local_pod_iface_name'' j,
      gs_WireIfaceNameOnLocalNode = field ''wire_iface_name_on_local_node'' j,
      gs_WireIfaceIdOnPeerNode = ifield ''wire_iface_id_on_peer_node'' j,
      gs_GWirePeerNodeIp = field ''gwire_peer_node_ip'' j\<rparr>
     else Inl type_error)"

definition to_gwire :: "GWireStatus \<Rightarrow> json res" where
  "to_gwire s = Inr (JObj
     [(''local_node_name'', JStr (gs_LocalNodeName s)), (''link_id'', JInt (gs_LinkId s)),
      (''topo_namespace'', JStr (gs_TopoNamespace s)), (''local_pod_net_ns'', JStr (gs_LocalPodNetNs s)),
      (''local_pod_name'', JStr (gs_LocalPodName s)), (''local_pod_ip'', JStr (gs_LocalPodIp s)),
      (''local_pod_iface_name'', JStr (gs_LocalPodIfaceName s)),
      (''wire_iface_name_on_local_node'', JStr (gs_WireIfaceNameOnLocalNode s)),
      (''wire_iface_id_on_peer_node'', JInt (gs_WireIfaceIdOnPeerNode s)),
      (''gwire_peer_node_ip'', JStr (gs_GWirePeerNodeIp s))])"

definition to_kobj :: "GWireKObj \<Rightarrow> json res" where
  "to_kobj ob = Inr (JObj
     [(''kind'', JStr (gk_Kind ob)), (''apiVersion'', JStr (gk_APIVersion ob)),
      (''metadata'', JObj [(''name'', JStr (gk_Name ob)), (''namespace'', JStr (gk_Namespace ob))]),
      (''status'', JObj [(''grpcWireItems'',
         JList (map (\<lambda>s. projr (to_gwire s)) (gns_GWireKItems (gk_Status ob))))])])"

definition ref_lib :: unstr_lib where
  "ref_lib = \<lparr>NestedString = ref_string, NestedInt64 = ref_int, NestedSlice = ref_slice,
     SetNestedField = ref_set, GetName = ref_name, FromSkipped = from_skipped,
     ToSkipped = to_skipped, FromGWireStatus = from_gwire, ToGWireStatus = to_gwire,
     ToGWireKObj = to_kobj, FromTopology = \<lambda>j. Inl type_error, ToTopology = \<lambda>t. Inl type_error\<rparr>"

lemma ref_lib_simps [simp]:
  "NestedString ref_lib = ref_string" "NestedInt64 ref_lib = ref_int" "NestedSlice ref_lib = ref_slice"
  "SetNestedField ref_lib = ref_set" "GetName ref_lib = ref_name" "FromSkipped ref_lib = from_skipped"
  "ToSkipped ref_lib = to_skipped" "FromGWireStatus ref_lib = from_gwire"
  "ToGWireStatus ref_lib = to_gwire" "ToGWireKObj ref_lib = to_kobj"
  by (simp_all add: ref_lib_def)

lemma ref_set_slice: "set_slice_law ref_lib p"
  by (auto simp: set_slice_law_def ref_set_def ref_slice_def jget_jset split: sum.splits)

lemma ref_set_string: "set_string_law ref_lib p"
  by (auto simp: set_string_law_def ref_set_def ref_string_def jget_jset split: sum.splits)

lemma ref_set_keeps_name: "f \<noteq> ''metadata'' \<Longrightarrow> name_law ref_lib (f # fs)"
  by (auto simp: name_law_def ref_set_def ref_name_def ref_string_def jget_jset_other split: sum.splits)

lemma ref_frame: "g \<noteq> h \<Longrightarrow> frame_law ref_lib [f, h] [f, g]"
  unfolding frame_law_def ref_lib_simps
proof (intro allI)
  fix ob v assume "g \<noteq> h"
  then have "jget (fst (ref_set ob v [f, h])) [f, g] = jget ob [f, g]"
    using jget_jset_second [of ob v f h _ g] by (auto simp: ref_set_def split: sum.split)
  then show "ref_slice (fst (ref_set ob v [f, h])) [f, g] = ref_slice ob [f, g] \<and>
     ref_string (fst (ref_set ob v [f, h])) [f, g] = ref_string ob [f, g]"
    by (simp add: ref_slice_def ref_string_def)
qed

lemma ref_skipped_codec: "skipped_codec ref_lib"
  by (auto simp: skipped_codec_def to_skipped_def from_skipped_def ref_string_def ref_int_def)

lemma from_to_gwire: "from_gwire (projr (to_gwire s)) = Inr s"
  by (simp add: to_gwire_def from_gwire_def ref_string_def ref_int_def)

lemma ref_gwire_codec: "gwire_codec ref_lib"
  using from_to_gwire by (auto simp: gwire_codec_def to_gwire_def)

lemma ref_kobj: "kobj_law ref_lib [''status'', ''grpcWireItems'']"
  by (auto simp: kobj_law_def to_kobj_def ref_name_def ref_string_def ref_slice_def from_to_gwire comp_def)
     (auto simp: to_gwire_def)

section \<open>An API server\<close>

type_synonym objects = "((string \<times> string) \<times> json) list"

record api =
  a_topo :: objects
  a_gw :: objects
  a_nodes :: "Node list"

definition topo_of :: "api \<Rightarrow> string \<Rightarrow> string \<Rightarrow> json option" where
  "topo_of a ns n = map_of (a_topo a) (ns, n)"

definition gw_of :: "api \<Rightarrow> string \<Rightarrow> string \<Rightarrow> json option" where
  "gw_of a ns n = map_of (a_gw a) (ns, n)"

definition read_obj :: "(api \<Rightarrow> string \<Rightarrow> string \<Rightarrow> json option) \<Rightarrow> string \<Rightarrow> string \<Rightarrow> (api, json res) io" where
  "read_obj st ns n = reads (\<lambda>a. case st a ns n of
       Some ob \<Rightarrow> if ref_name ob = n then Inr ob else Inl (Kube KOther ''corrupt'')
     | None \<Rightarrow> Inl (Kube KNotFound ''not found''))"

definition put_topo :: "string \<Rightarrow> json \<Rightarrow> (api, json res) io" where
  "put_topo ns ob = do {
     modifies (\<lambda>a. a\<lparr>a_topo := AList.update (ns, ref_name ob) ob (a_topo a)\<rparr>);
     return (Inr ob)
   }"

definition put_gw :: "string \<Rightarrow> json \<Rightarrow> (api, json res) io" where
  "put_gw ns ob = do {
     modifies (\<lambda>a. a\<lparr>a_gw := AList.update (ns, ref_name ob) ob (a_gw a)\<rparr>);
     return (Inr ob)
   }"

definition named :: "string \<Rightarrow> objects \<Rightarrow> json list" where
  "named n obs = map snd (filter (\<lambda>e. snd (fst e) = n) (AList.clearjunk obs))"

definition ref_kube :: "api kube_env" where
  "ref_kube = \<lparr>TopoGet = read_obj topo_of, TopoUpdateStatus = put_topo,
     GwList = (\<lambda>n. reads (\<lambda>a. Inr (named n (a_gw a)))),
     GwGet = read_obj gw_of, GwCreate = put_gw, GwUpdate = put_gw,
     NodesList = reads (\<lambda>a. Inr (a_nodes a)),
     NodeGet = (\<lambda>n. reads (\<lambda>a. case find (\<lambda>d. nd_Name d = n) (a_nodes a) of
        None \<Rightarrow> Inl (Kube KNotFound ''not found'') | Some d \<Rightarrow> Inr d)),
     NodeUpdate = (\<lambda>d. do {
        modifies (\<lambda>a. a\<lparr>a_nodes := map (\<lambda>e. if nd_Name e = nd_Name d then d else e) (a_nodes a)\<rparr>);
        return (Inr d)
     }),
     RetryOnConflict = id\<rparr>"

lemma ref_kube_simps [simp]:
  "TopoGet ref_kube = read_obj topo_of" "TopoUpdateStatus ref_kube = put_topo"
  "GwGet ref_kube = read_obj gw_of" "GwCreate ref_kube = put_gw" "GwUpdate ref_kube = put_gw"
  "GwList ref_kube n = reads (\<lambda>a. Inr (named n (a_gw a)))" "RetryOnConflict ref_kube m = m"
  "NodesList ref_kube = reads (\<lambda>a. Inr (a_nodes a))"
  by (simp_all add: ref_kube_def)

lemma ref_retry: "retry_law ref_kube"
  by (auto simp: retry_law_def intro: attempts.intros)

lemma read_obj_law: "get_law ref_lib st (read_obj st)"
  by (auto simp: get_law_def read_obj_def split: option.splits if_splits)
     (auto simp: is_not_found_def)

lemma put_topo_law: "put_law ref_lib topo_of put_topo"
  by (auto simp: put_law_def put_topo_def topo_of_def update_conv' fun_eq_iff)

lemma put_gw_law: "put_law ref_lib gw_of put_gw"
  by (auto simp: put_law_def put_gw_def gw_of_def update_conv' fun_eq_iff)

lemma set_named: "set (named n obs) = {ob. \<exists>ns. map_of obs (ns, n) = Some ob}"
proof -
  have "(k, ob) \<in> set (AList.clearjunk obs) \<longleftrightarrow> map_of obs k = Some ob" for k ob
    by (metis distinct_clearjunk map_of_clearjunk map_of_eq_Some_iff)
  then show ?thesis by (force simp: named_def image_iff)
qed

lemma ref_list_law: "list_law gw_of (GwList ref_kube)"
  by (auto simp: list_law_def set_named gw_of_def)

lemma ref_topo_store: "topo_store ref_lib ref_kube topo_of"
  by (simp add: topo_store_def read_obj_law put_topo_law)

lemma ref_gw_store: "gw_store ref_lib ref_kube gw_of"
  using ref_list_law by (simp add: gw_store_def read_obj_law put_gw_law)

section \<open>Environment variables and the clock\<close>

definition ref_os :: "(string \<Rightarrow> string option) \<Rightarrow> 'w os_env" where
  "ref_os env = \<lparr>LookupEnv = env, Hostname = return (Inr ''node1''), Now = return 0,
     Sleep = (\<lambda>d. return ()), ReadFile = (\<lambda>f. return (Inl (Err ''no such file'')))\<rparr>"

lemma ref_os_simps [simp]: "LookupEnv (ref_os env) = env" "Hostname (ref_os env) = return (Inr ''node1'')"
  "Now (ref_os env) = return 0"
  by (simp_all add: ref_os_def)

section \<open>A kernel and peers\<close>

text \<open>One interface index per name asked for; every change succeeds and is not recorded.\<close>

definition ref_link :: "string \<Rightarrow> int \<Rightarrow> nlink" where
  "ref_link n i = \<lparr>nl_Name = n, nl_Index = i, nl_MTU = 1500, nl_RawFlags = 0x40, nl_Flags = 1,
     nl_OperState = OperUpState, nl_Kind = KindVeth ''''\<rparr>"

definition ref_net :: "'w net_env" where
  "ref_net = \<lparr>GetCurrentNS = return (Inr \<lparr>ns_Path = ''/proc/1/ns/net'', ns_Fd = 3\<rparr>),
     GetNS = (\<lambda>p. return (Inr \<lparr>ns_Path = p, ns_Fd = 4\<rparr>)), EnterNS = (\<lambda>n. return None),
     LinkByName = (\<lambda>c n. return (Inr (ref_link n 9))), LinkByIndex = (\<lambda>c i. return (Inr (ref_link ''veth'' i))),
     LinkAdd = (\<lambda>c l. return None), LinkDel = (\<lambda>c l. return None), LinkSetNsFd = (\<lambda>l f. return None),
     LinkSetName = (\<lambda>c l n. return None), LinkSetUp = (\<lambda>c l. return None), LinkSetDown = (\<lambda>c l. return None),
     AddrAdd = (\<lambda>c l a. return None), Sysctl = (\<lambda>c n v. return None), NewHandle = (\<lambda>c. return None),
     Interfaces = return (Inr []), RouteGet = (\<lambda>a. return ([], Some (Err ''no route''))), RandomUint32 = return 7,
     EthtoolOpen = (\<lambda>c. return None), EthtoolChange = (\<lambda>c n f. return None), PcapOpenLive = (\<lambda>n. return (Inr 5)),
     PcapSetDirectionIn = (\<lambda>h. return None), PcapWrite = (\<lambda>h b. return None),
     ParseIP = (\<lambda>s. None), IPString = (\<lambda>a. ''''), ParseCIDR = (\<lambda>s. Inl (Err ''invalid CIDR''))\<rparr>"

definition ref_rpc :: "'w rpc_env" where
  "ref_rpc = \<lparr>Dial = (\<lambda>a. return None), RemUpdate = (\<lambda>a v. return (Inr (Some ok_response))),
     RemAddGRPCWireRemote = (\<lambda>a d. return (Inr \<lparr>wcr_Response = True, wcr_PeerIntfId = 12\<rparr>)),
     RemGRPCWireDownRemote = (\<lambda>a d. return (Inr \<lparr>wdr_Response = True\<rparr>)),
     RemSetPeerLinkState = (\<lambda>a s. return (Inr (Some ok_response))),
     RemSendToOnce = (\<lambda>a p. return (Inr ok_response))\<rparr>"

text \<open>Frames whose contents no decoder knows.\<close>

definition ref_pkt :: pkt_lib where
  "ref_pkt = \<lparr>NewPacket = (\<lambda>b l. \<lparr>pk_Ethernet = (if 14 \<le> length b then Some (LayerUnknown 0, 0) else None), pk_IPv4 = None,
     pk_IPv6 = None, pk_LLC = None, pk_Dot1Q = None, pk_TCP = None\<rparr>)\<rparr>"

definition ref_sys :: "(string \<Rightarrow> string option) \<Rightarrow> api sys" where
  "ref_sys env = \<lparr>sy_lib = ref_lib, sy_os = ref_os env, sy_kube = ref_kube, sy_net = ref_net, sy_rpc = ref_rpc,
     sy_errs = (\<lambda>es. Err (concat (map err_text es))), sy_pkt = ref_pkt\<rparr>"

lemma ref_sys_simps [simp]:
  "sy_lib (ref_sys env) = ref_lib" "sy_os (ref_sys env) = ref_os env" "sy_kube (ref_sys env) = ref_kube"
  "sy_net (ref_sys env) = ref_net" "sy_rpc (ref_sys env) = ref_rpc"
  by (simp_all add: ref_sys_def)

lemma ref_net_simps [simp]:
  "GetCurrentNS ref_net = return (Inr \<lparr>ns_Path = ''/proc/1/ns/net'', ns_Fd = 3\<rparr>)"
  "GetNS ref_net p = return (Inr \<lparr>ns_Path = p, ns_Fd = 4\<rparr>)" "EnterNS ref_net n = return None"
  "LinkByName ref_net c nm = return (Inr (ref_link nm 9))"
  "LinkByIndex ref_net c i = return (Inr (ref_link ''veth'' i))"
  "LinkDel ref_net c l = return None" "LinkAdd ref_net c x = return None"
  "PcapOpenLive ref_net nm = return (Inr 5)" "PcapSetDirectionIn ref_net h = return None"
  "LinkSetNsFd ref_net l fd = return None" "LinkSetName ref_net c l nm = return None"
  "LinkSetUp ref_net c l = return None" "LinkSetDown ref_net c l = return None"
  "RandomUint32 ref_net = return 7" "Sysctl ref_net c nm v = return None" "AddrAdd ref_net c l a = return None"
  "EthtoolOpen ref_net c = return None" "EthtoolChange ref_net c nm f = return None"
  by (simp_all add: ref_net_def)

lemma ref_rpc_simps [simp]:
  "Dial ref_rpc a = return None" "RemSendToOnce ref_rpc a p = return (Inr ok_response)"
  "RemSetPeerLinkState ref_rpc a s = return (Inr (Some ok_response))"
  "RemUpdate ref_rpc a v = return (Inr (Some ok_response))"
  "RemAddGRPCWireRemote ref_rpc a wd = return (Inr \<lparr>wcr_Response = True, wcr_PeerIntfId = 12\<rparr>)"
  "RemGRPCWireDownRemote ref_rpc a wd = return (Inr \<lparr>wdr_Response = True\<rparr>)"
  by (simp_all add: ref_rpc_def)

lemma nl_ref_link [simp]: "nl_Index (ref_link n i) = i" "nl_Name (ref_link n i) = n"
  "nl_Kind (ref_link n i) = KindVeth ''''"
  by (simp_all add: ref_link_def)

end
