(* ===== verification/Koko.thy ===== *)
theory Koko
  imports Cni_Conf Reference_Env
begin

text \<open>
  \<open>internal/koko/koko.go\<close>: veth pairs, VXLAN and macvlan interfaces, created under a
  temporary name in the daemon's namespace and then moved into the pod's.  The kernel is
  the parameter \<open>nt\<close>.
\<close>

record VEth =
  ve_NsName :: string
  ve_LinkName :: string
  ve_IPAddr :: "IPNet list"
  ve_MTU :: int

record VxLan =
  vx_ParentIF :: string
  vx_ID :: int
  vx_IPAddr :: ip
  vx_MTU :: int
  vx_UDPPort :: int

record MacVLan =
  mv_ParentIF :: string

definition DefaultMTU :: int where "DefaultMTU = 1500"
definition VxlanIPv4Overhead :: int where "VxlanIPv4Overhead = 50"

definition file_exists :: goerr where "file_exists = Err ''file exists''"

definition cleanupLink :: "'w net_env \<Rightarrow> nlink \<Rightarrow> ('w, unit) io" where
  "cleanupLink nt l = do { e \<leftarrow> LinkDel nt CurrentNs l; return () }"

definition getRandomIFName :: "'w net_env \<Rightarrow> ('w, string) io" where
  "getRandomIFName nt = do { b \<leftarrow> RandomUint32 nt; return (''koko'' @ dec (unat b)) }"

definition makeVethPair :: "'w net_env \<Rightarrow> string \<Rightarrow> string \<Rightarrow> int \<Rightarrow> ('w, nlink res) io" where
  "makeVethPair nt name peer mtu = do {
     e \<leftarrow> LinkAdd nt CurrentNs (NewVeth name peer mtu);
     return (case e of
         Some e \<Rightarrow> Inl e
       | None \<Rightarrow> Inr \<lparr>nl_Name = name, nl_Index = 0, nl_MTU = mtu, nl_RawFlags = 0, nl_Flags = 1,
                      nl_OperState = OperOtherState, nl_Kind = KindVeth peer\<rparr>)
   }"

definition GetVethPair :: "'w net_env \<Rightarrow> string \<Rightarrow> string \<Rightarrow> int \<Rightarrow> ('w, (nlink \<times> nlink) res) io" where
  "GetVethPair nt name1 name2 mtu = do {
     r1 \<leftarrow> makeVethPair nt name1 name2 (if mtu \<le> 0 then DefaultMTU else mtu);
     (case r1 of
        Inl e \<Rightarrow> return (Inl (if e = file_exists
            then Err (''container veth name provided ('' @ name1 @ '') already exists'')
            else errorf_v ''failed to make veth pair: '' e))
      | Inr link1 \<Rightarrow> do {
          r2 \<leftarrow> LinkByName nt CurrentNs name2;
          return (case r2 of
              Inl e \<Rightarrow> Inl (errorf_v (''failed to lookup '' @ name2 @ '': '') e)
            | Inr link2 \<Rightarrow> Inr (link1, link2))
        })
   }"

text \<open>The MTU of the VXLAN interface: 0 leaves the kernel's choice.\<close>

definition vxlan_mtu :: "int \<Rightarrow> int \<Rightarrow> int" where
  "vxlan_mtu want parentMTU =
     (let maxMTU = parentMTU - VxlanIPv4Overhead;
          mtu = (if want = 0 \<and> 0 < maxMTU then maxMTU else want);
          mtu = (if 0 < maxMTU \<and> maxMTU < mtu then maxMTU else mtu)
      in if 0 < mtu then mtu else 0)"

definition AddVxLanInterface :: "'w net_env \<Rightarrow> VxLan \<Rightarrow> string \<Rightarrow> ('w, goerr option) io" where
  "AddVxLanInterface nt vx devName = do {
     rp \<leftarrow> LinkByName nt CurrentNs (vx_ParentIF vx);
     (case rp of
        Inl e \<Rightarrow> return (Some (errorf_v (''failed to get '' @ vx_ParentIF vx @ '': '') e))
      | Inr parentIF \<Rightarrow> do {
          e \<leftarrow> LinkAdd nt CurrentNs (NewVxlan devName (vx_ID vx) (nl_Index parentIF) (vx_IPAddr vx)
                 (if vx_UDPPort vx \<noteq> 0 then vx_UDPPort vx else 4789)
                 (vxlan_mtu (vx_MTU vx) (nl_MTU parentIF)));
          return (case e of
              None \<Rightarrow> None
            | Some e \<Rightarrow> Some (errorf_v (''failed to add vxlan '' @ devName @ '': '') e))
        })
   }"

definition AddMacVLanInterface :: "'w net_env \<Rightarrow> MacVLan \<Rightarrow> string \<Rightarrow> ('w, goerr option) io" where
  "AddMacVLanInterface nt mv devName = do {
     rp \<leftarrow> LinkByName nt CurrentNs (mv_ParentIF mv);
     (case rp of
        Inl e \<Rightarrow> return (Some (errorf_v (''failed to get '' @ mv_ParentIF mv @ '': '') e))
      | Inr parentIF \<Rightarrow> do {
          e \<leftarrow> LinkAdd nt CurrentNs (NewMacvlan devName (nl_Index parentIF));
          return (case e of
              None \<Rightarrow> None
            | Some e \<Rightarrow> Some (errorf_v (''failed to add macvlan '' @ devName @ '': '') e))
        })
   }"

section \<open>Moving a link into a namespace\<close>

definition open_ns :: "'w net_env \<Rightarrow> string \<Rightarrow> ('w, netns res) io" where
  "open_ns nt nsName = (if nsName = '''' then GetCurrentNS nt else GetNS nt nsName)"

fun add_addrs :: "'w net_env \<Rightarrow> nsctx \<Rightarrow> string \<Rightarrow> nlink \<Rightarrow> IPNet list \<Rightarrow> ('w, goerr option) io" where
  "add_addrs nt c name l [] = return None"
| "add_addrs nt c name l (a # as) = do {
     e6 \<leftarrow> (if To4 (ipn_IP a) = None then Sysctl nt c (''net.ipv6.conf.'' @ name @ ''.disable_ipv6'') ''0''
           else return None);
     (case e6 of
        Some e \<Rightarrow> return (Some (errorf_v (''failed to set ipv6.disable to 0 at '' @ name @ '': '') e))
      | None \<Rightarrow> do {
          ea \<leftarrow> AddrAdd nt c l a;
          (case ea of
             Some e \<Rightarrow> return (Some (errorf_v (''failed to add IP addr to '' @ name @ '': '') e))
           | None \<Rightarrow> add_addrs nt c name l as)
        })
   }"

definition set_link_body ::
    "'w net_env \<Rightarrow> 'w os_env \<Rightarrow> VEth \<Rightarrow> string \<Rightarrow> string \<Rightarrow> nsctx \<Rightarrow> ('w, unit res) io" where
  "set_link_body nt os veth vethLinkName path c = do {
     rl \<leftarrow> LinkByName nt c vethLinkName;
     (case rl of
        Inl e \<Rightarrow> return (Inl (errorf_v (''failed to lookup '' @ ve_LinkName veth @ '' in '' @ path @ '': '') e))
      | Inr link \<Rightarrow> do {
          en \<leftarrow> (if ve_LinkName veth \<noteq> vethLinkName then LinkSetName nt c link (ve_LinkName veth) else return None);
          (case en of
             Some e \<Rightarrow> return (Inl (errorf_v
               (''failed to rename link '' @ vethLinkName @ '' -> '' @ ve_LinkName veth @ '': '') e))
           | None \<Rightarrow> do {
               ea \<leftarrow> add_addrs nt c (ve_LinkName veth) link (ve_IPAddr veth);
               (case ea of
                  Some e \<Rightarrow> return (Inl e)
                | None \<Rightarrow> do {
                    down \<leftarrow> shouldLeaveAdminDown os (ve_LinkName veth);
                    es \<leftarrow> (if down then LinkSetDown nt c link else LinkSetUp nt c link);
                    return (case es of
                        None \<Rightarrow> Inr ()
                      | Some e \<Rightarrow> Inl (errorf_v (''failed to set '' @ ve_LinkName veth @
                          (if down then '' down: '' else '' up: '')) e))
                  })
             })
        })
   }"

definition SetVethLink :: "'w net_env \<Rightarrow> 'w os_env \<Rightarrow> VEth \<Rightarrow> nlink \<Rightarrow> ('w, goerr option) io" where
  "SetVethLink nt os veth link = do {
     rn \<leftarrow> open_ns nt (ve_NsName veth);
     (case rn of
        Inl e \<Rightarrow> return (Some (errorf_v '''' e))
      | Inr vethNs \<Rightarrow>
          if 2 ^ 63 - 1 < ns_Fd vethNs
          then return (Some (Err (''namespace file descriptor '' @ dec (ns_Fd vethNs) @ '' overflows int'')))
          else do {
            em \<leftarrow> LinkSetNsFd nt link (ns_Fd vethNs);
            (case em of
               Some e \<Rightarrow> return (Some (errorf_v '''' e))
             | None \<Rightarrow> as_err (ns_Do nt vethNs (set_link_body nt os veth (nl_Name link) (ns_Path vethNs))))
          })
   }"

definition remove_body :: "'w net_env \<Rightarrow> VEth \<Rightarrow> string \<Rightarrow> nsctx \<Rightarrow> ('w, unit res) io" where
  "remove_body nt veth path c = do {
     rl \<leftarrow> LinkByName nt c (ve_LinkName veth);
     (case rl of
        Inl e \<Rightarrow> return (Inl (errorf_v (''failed to lookup '' @ ve_LinkName veth @ '' in '' @ path @ '': '') e))
      | Inr link \<Rightarrow> do {
          ed \<leftarrow> LinkDel nt c link;
          return (case ed of
              None \<Rightarrow> Inr ()
            | Some e \<Rightarrow> Inl (errorf_v (''failed to remove link '' @ ve_LinkName veth @ '' in '' @ path @ '': '') e))
        })
   }"

definition RemoveVethLink :: "'w net_env \<Rightarrow> VEth \<Rightarrow> ('w, goerr option) io" where
  "RemoveVethLink nt veth = do {
     rn \<leftarrow> open_ns nt (ve_NsName veth);
     (case rn of
        Inl e \<Rightarrow> return (Some (errorf_v '''' e))
      | Inr vethNs \<Rightarrow> as_err (ns_Do nt vethNs (remove_body nt veth (ns_Path vethNs))))
   }"

section \<open>Making the interfaces\<close>

definition MakeVeth :: "'w net_env \<Rightarrow> 'w os_env \<Rightarrow> VEth \<Rightarrow> VEth \<Rightarrow> ('w, goerr option) io" where
  "MakeVeth nt os veth1 veth2 = do {
     temp1 \<leftarrow> (if ve_NsName veth1 \<noteq> '''' then getRandomIFName nt else return (ve_LinkName veth1));
     temp2 \<leftarrow> (if ve_NsName veth2 \<noteq> '''' then getRandomIFName nt else return (ve_LinkName veth2));
     rp \<leftarrow> GetVethPair nt temp1 temp2 (ve_MTU veth1);
     (case rp of
        Inl e \<Rightarrow> return (Some e)
      | Inr (link1, link2) \<Rightarrow> do {
          e1 \<leftarrow> SetVethLink nt os veth1 link1;
          (case e1 of
             Some e \<Rightarrow> do { cleanupLink nt link1; return (Some e) }
           | None \<Rightarrow> do {
               e2 \<leftarrow> SetVethLink nt os veth2 link2;
               (case e2 of
                  Some e \<Rightarrow> do { cleanupLink nt link2; return (Some e) }
                | None \<Rightarrow> return None)
             })
        })
   }"

definition MakeVxLan :: "'w net_env \<Rightarrow> 'w os_env \<Rightarrow> VEth \<Rightarrow> VxLan \<Rightarrow> ('w, goerr option) io" where
  "MakeVxLan nt os veth1 vx = do {
     temp \<leftarrow> getRandomIFName nt;
     ea \<leftarrow> AddVxLanInterface nt vx temp;
     (case ea of
        Some e \<Rightarrow> return (Some (errorf_v ''vxlan add failed: '' e))
      | None \<Rightarrow> do {
          rl \<leftarrow> LinkByName nt CurrentNs temp;
          (case rl of
             Inl e \<Rightarrow> return (Some (errorf_v (''cannot get '' @ temp @ '': '') e))
           | Inr link \<Rightarrow> do {
               es \<leftarrow> SetVethLink nt os veth1 link;
               (case es of
                  Some e \<Rightarrow> do { cleanupLink nt link; return (Some (errorf_v ''cannot add IPaddr/netns: '' e)) }
                | None \<Rightarrow> return None)
             })
        })
   }"

definition MakeMacVLan :: "'w net_env \<Rightarrow> 'w os_env \<Rightarrow> VEth \<Rightarrow> MacVLan \<Rightarrow> ('w, goerr option) io" where
  "MakeMacVLan nt os veth1 mv = do {
     ea \<leftarrow> AddMacVLanInterface nt mv (ve_LinkName veth1);
     (case ea of
        Some e \<Rightarrow> return (Some (errorf_v ''macvlan add failed: '' e))
      | None \<Rightarrow> do {
          rl \<leftarrow> LinkByName nt CurrentNs (ve_LinkName veth1);
          (case rl of
             Inl e \<Rightarrow> return (Some (errorf_v (''cannot get '' @ ve_LinkName veth1 @ '': '') e))
           | Inr link \<Rightarrow> do {
               es \<leftarrow> SetVethLink nt os veth1 link;
               return (case es of None \<Rightarrow> None | Some e \<Rightarrow> Some (errorf_v ''cannot add IPaddr/netns: '' e))
             })
        })
   }"

definition IsExistLinkInNS :: "'w net_env \<Rightarrow> string \<Rightarrow> string \<Rightarrow> ('w, bool \<times> goerr option) io" where
  "IsExistLinkInNS nt nsName linkName = do {
     rn \<leftarrow> open_ns nt nsName;
     (case rn of
        Inl e \<Rightarrow> return (False, Some e)
      | Inr vethNs \<Rightarrow> do {
          r \<leftarrow> ns_Do nt vethNs (\<lambda>c. do {
                 rl \<leftarrow> LinkByName nt c linkName;
                 return (case rl of Inl e \<Rightarrow> Inl e | Inr l \<Rightarrow> Inr True)
               });
          return (case r of Inl e \<Rightarrow> (False, Some e) | Inr b \<Rightarrow> (b, None))
        })
   }"

section \<open>Turning checksum offload off\<close>

definition tx_offloads :: "(string \<times> bool) list" where
  "tx_offloads = [(''tx-checksum-ipv4'', False), (''tx-checksum-ipv6'', False),
     (''tx-checksum-ip-generic'', False), (''tx-tcp-segmentation'', False),
     (''tx-tcp6-segmentation'', False), (''tx-checksum-fcoe-crc'', False),
     (''tx-checksum-sctp'', False), (''tx-tcp-ecn-segmentation'', False),
     (''tx-tcp-mangleid-segmentation'', False)]"

definition SetTxChecksumOff :: "'w net_env \<Rightarrow> string \<Rightarrow> string \<Rightarrow> ('w, goerr option) io" where
  "SetTxChecksumOff nt intfName nsName = do {
     rn \<leftarrow> GetNS nt nsName;
     (case rn of
        Inl e \<Rightarrow> return (Some (errorf_v (''could not get required ns '' @ nsName @ '': '') e))
      | Inr vethNs \<Rightarrow> as_err (ns_Do nt vethNs (\<lambda>c. do {
          eo \<leftarrow> EthtoolOpen nt c;
          (case eo of
             Some e \<Rightarrow> return (Inl (errorf_v ''could not open ethtool handle: '' e))
           | None \<Rightarrow> do {
               ec \<leftarrow> EthtoolChange nt c intfName tx_offloads;
               return (case ec of
                   None \<Rightarrow> Inr ()
                 | Some e \<Rightarrow> Inl (errorf_v (''could not set tx checksum on interface '' @ intfName @
                     '', ns '' @ nsName @ '': '') e))
             })
        })))
   }"

section \<open>Properties\<close>

text \<open>
  A temporary interface name always fits the kernel's limit of 15 characters.
\<close>

theorem random_name_fits:
  "length (fst (run_state (getRandomIFName nt) w)) \<le> 14"
proof -
  obtain b w' where b: "run_state (RandomUint32 nt) w = (b, w')" by fastforce
  have "unat b < 2 ^ 32" using unsigned_less [of b] by simp
  then have "unat b < 10 ^ Suc 9" by simp
  then have "length (dec (unat b)) \<le> Suc 9" by (rule dec_length_le)
  then show ?thesis by (simp add: getRandomIFName_def b)
qed

text \<open>
  C39: When the parent interface leaves room for the VXLAN header, the tunnel's MTU is
  positive and never exceeds what the parent can carry, it is the largest such value when
  none (or too large a one) was asked for, and exactly the one asked for when that fits.
\<close>

theorem vxlan_mtu_fits:
  assumes "VxlanIPv4Overhead < parentMTU" "0 \<le> want"
  shows "0 < vxlan_mtu want parentMTU \<and> vxlan_mtu want parentMTU + VxlanIPv4Overhead \<le> parentMTU \<and>
     (want = 0 \<or> parentMTU < want + VxlanIPv4Overhead \<longrightarrow>
        vxlan_mtu want parentMTU = parentMTU - VxlanIPv4Overhead) \<and>
     (0 < want \<and> want + VxlanIPv4Overhead \<le> parentMTU \<longrightarrow> vxlan_mtu want parentMTU = want)"
  using assms by (auto simp: vxlan_mtu_def Let_def)

theorem vxlan_mtu_fits_witness:
  "vxlan_mtu 0 1500 = 1450 \<and> vxlan_mtu 9000 1500 = 1450 \<and> vxlan_mtu 1400 1500 = 1400"
  using vxlan_mtu_fits [of 1500 0] vxlan_mtu_fits [of 1500 9000] vxlan_mtu_fits [of 1500 1400]
  by (simp add: VxlanIPv4Overhead_def)

end
