(* ===== verification/Frames.thy ===== *)
theory Frames
  imports Koko
begin

text \<open>
  What a program of many calls leaves alone.  \<open>keeps R m\<close>: every run of \<open>m\<close> relates the
  state before to the state after by \<open>R\<close>.  For a reflexive and transitive \<open>R\<close> this is
  checked call by call; the locale proves once that the sequences of kernel calls of
  \<open>internal/koko\<close> keep whatever the single calls keep.
\<close>

definition keeps :: "('s \<Rightarrow> 's \<Rightarrow> bool) \<Rightarrow> ('s, 'a) io \<Rightarrow> bool" where
  "keeps R m \<longleftrightarrow> (\<forall>s r s'. run_state m s = (r, s') \<longrightarrow> R s s')"

lemma keepsD: "keeps R m \<Longrightarrow> run_state m s = (r, s') \<Longrightarrow> R s s'"
  by (simp add: keeps_def)

definition net_keeps :: "('s \<Rightarrow> 's \<Rightarrow> bool) \<Rightarrow> 's net_env \<Rightarrow> bool" where
  "net_keeps R nt \<longleftrightarrow>
     keeps R (GetCurrentNS nt) \<and> (\<forall>p. keeps R (GetNS nt p)) \<and> (\<forall>n. keeps R (EnterNS nt n)) \<and>
     (\<forall>c n. keeps R (LinkByName nt c n)) \<and> (\<forall>c i. keeps R (LinkByIndex nt c i)) \<and>
     (\<forall>c l. keeps R (LinkAdd nt c l)) \<and> (\<forall>c l. keeps R (LinkDel nt c l)) \<and>
     (\<forall>l f. keeps R (LinkSetNsFd nt l f)) \<and> (\<forall>c l n. keeps R (LinkSetName nt c l n)) \<and>
     (\<forall>c l. keeps R (LinkSetUp nt c l)) \<and> (\<forall>c l. keeps R (LinkSetDown nt c l)) \<and>
     (\<forall>c l a. keeps R (AddrAdd nt c l a)) \<and> (\<forall>c n v. keeps R (Sysctl nt c n v)) \<and>
     keeps R (RandomUint32 nt) \<and> (\<forall>c. keeps R (EthtoolOpen nt c)) \<and>
     (\<forall>c n f. keeps R (EthtoolChange nt c n f)) \<and> (\<forall>n. keeps R (PcapOpenLive nt n))"

definition os_keeps :: "('s \<Rightarrow> 's \<Rightarrow> bool) \<Rightarrow> 's os_env \<Rightarrow> bool" where
  "os_keeps R os \<longleftrightarrow> (\<forall>f. keeps R (ReadFile os f)) \<and> keeps R (Now os) \<and> (\<forall>d. keeps R (Sleep os d)) \<and> keeps R (Hostname os)"

locale frame =
  fixes R :: "'s \<Rightarrow> 's \<Rightarrow> bool"
  assumes refl_R: "R s s" and trans_R: "R s t \<Longrightarrow> R t u \<Longrightarrow> R s u"
begin

lemma keeps_return [intro!]: "keeps R (return x)"
  by (simp add: keeps_def refl_R)

lemma keeps_reads [intro!]: "keeps R (reads f)"
  by (simp add: keeps_def refl_R)

lemma keeps_bind [intro]: "keeps R m \<Longrightarrow> (\<And>x. keeps R (f x)) \<Longrightarrow> keeps R (State_Monad.bind m f)"
  unfolding keeps_def run_bind by (metis (no_types, lifting) case_prod_beta prod.collapse trans_R)

lemma keeps_if [intro!]: "(b \<Longrightarrow> keeps R m) \<Longrightarrow> (\<not> b \<Longrightarrow> keeps R n) \<Longrightarrow> keeps R (if b then m else n)"
  by simp

lemma keeps_option [intro!]:
  "(x = None \<Longrightarrow> keeps R m) \<Longrightarrow> (\<And>y. x = Some y \<Longrightarrow> keeps R (f y)) \<Longrightarrow> keeps R (case x of None \<Rightarrow> m | Some y \<Rightarrow> f y)"
  by (cases x) simp_all

lemma keeps_sum [intro!]:
  "(\<And>e. x = Inl e \<Longrightarrow> keeps R (f e)) \<Longrightarrow> (\<And>y. x = Inr y \<Longrightarrow> keeps R (g y)) \<Longrightarrow>
     keeps R (case x of Inl e \<Rightarrow> f e | Inr y \<Rightarrow> g y)"
  by (cases x) simp_all

lemma keeps_prod [intro!]: "(\<And>a b. x = (a, b) \<Longrightarrow> keeps R (f a b)) \<Longrightarrow> keeps R (case x of (a, b) \<Rightarrow> f a b)"
  by (cases x) simp

lemma keeps_as_err [intro!]: "keeps R m \<Longrightarrow> keeps R (as_err m)"
  unfolding as_err_def by blast

lemma keeps_as_res [intro!]: "keeps R m \<Longrightarrow> keeps R (as_res m)"
  unfolding as_res_def by blast

lemma keeps_ns_Do:
  assumes "net_keeps R nt" "\<And>c. keeps R (body c)"
  shows "keeps R (ns_Do nt n body)"
proof -
  have "keeps R (EnterNS nt n)" using assms(1) by (simp add: net_keeps_def)
  then show ?thesis unfolding ns_Do_def by (intro keeps_bind keeps_option keeps_return assms(2))
qed

lemma keeps_open_ns: "net_keeps R nt \<Longrightarrow> keeps R (open_ns nt n)"
  unfolding open_ns_def net_keeps_def by auto

lemma keeps_addrs: "net_keeps R nt \<Longrightarrow> keeps R (add_addrs nt c n l as)"
proof (induction as)
  case (Cons a as)
  then have "keeps R (AddrAdd nt c l a)" "\<And>v. keeps R (Sysctl nt c v ''0'')" by (simp_all add: net_keeps_def)
  then show ?case unfolding add_addrs.simps using Cons by blast
qed (simp add: keeps_return)

lemma keeps_admin_down: "os_keeps R os \<Longrightarrow> keeps R (shouldLeaveAdminDown os n)"
  unfolding shouldLeaveAdminDown_def LookupDatapathIfacePrefix_def os_keeps_def by blast

lemma keeps_link_body:
  assumes "net_keeps R nt" "os_keeps R os"
  shows "keeps R (set_link_body nt os veth n p c)"
proof -
  have n: "\<And>n. keeps R (LinkByName nt c n)" "\<And>l n. keeps R (LinkSetName nt c l n)"
    "\<And>l. keeps R (LinkSetUp nt c l)" "\<And>l. keeps R (LinkSetDown nt c l)"
    using assms(1) by (simp_all add: net_keeps_def)
  note rules = n keeps_addrs [OF assms(1)] keeps_admin_down [OF assms(2)]
  show ?thesis unfolding set_link_body_def by (intro keeps_bind keeps_sum keeps_option keeps_if keeps_return rules)
qed

lemma keeps_SetVethLink:
  assumes "net_keeps R nt" "os_keeps R os"
  shows "keeps R (SetVethLink nt os veth l)"
proof -
  have n: "\<And>l f. keeps R (LinkSetNsFd nt l f)" using assms(1) by (simp add: net_keeps_def)
  note rules = n keeps_open_ns [OF assms(1)] keeps_ns_Do [OF assms(1)] keeps_link_body [OF assms]
  show ?thesis unfolding SetVethLink_def
    by (intro keeps_bind keeps_sum keeps_option keeps_if keeps_return keeps_as_err rules)
qed

lemma keeps_RemoveVethLink:
  assumes "net_keeps R nt"
  shows "keeps R (RemoveVethLink nt veth)"
proof -
  have n: "\<And>c n. keeps R (LinkByName nt c n)" "\<And>c l. keeps R (LinkDel nt c l)"
    using assms by (simp_all add: net_keeps_def)
  note rules = n keeps_open_ns [OF assms] keeps_ns_Do [OF assms]
  show ?thesis unfolding RemoveVethLink_def remove_body_def
    by (intro keeps_bind keeps_sum keeps_option keeps_if keeps_return keeps_as_err rules)
qed

lemma keeps_MakeVeth:
  assumes "net_keeps R nt" "os_keeps R os"
  shows "keeps R (MakeVeth nt os v1 v2)"
proof -
  have n: "keeps R (RandomUint32 nt)" "\<And>c l. keeps R (LinkAdd nt c l)" "\<And>c n. keeps R (LinkByName nt c n)"
    "\<And>c l. keeps R (LinkDel nt c l)"
    using assms(1) by (simp_all add: net_keeps_def)
  note rules = n keeps_SetVethLink [OF assms]
  show ?thesis unfolding MakeVeth_def getRandomIFName_def GetVethPair_def makeVethPair_def cleanupLink_def
    by (intro keeps_bind keeps_sum keeps_option keeps_prod keeps_if keeps_return rules)
qed

lemma keeps_SetTxChecksumOff:
  assumes "net_keeps R nt"
  shows "keeps R (SetTxChecksumOff nt i n)"
proof -
  have n: "\<And>n. keeps R (GetNS nt n)" "\<And>c. keeps R (EthtoolOpen nt c)" "\<And>c n f. keeps R (EthtoolChange nt c n f)"
    using assms by (simp_all add: net_keeps_def)
  note rules = n keeps_ns_Do [OF assms]
  show ?thesis unfolding SetTxChecksumOff_def
    by (intro keeps_bind keeps_sum keeps_option keeps_if keeps_return keeps_as_err rules)
qed

lemma keeps_linkMTU_file: "os_keeps R os \<Longrightarrow> keeps R (ReadDefaultLinkMTU os)"
  unfolding ReadDefaultLinkMTU_def os_keeps_def by blast

end

text \<open>A clock is never turned back: the first interpretation, for any clock \<open>c\<close>.\<close>

interpretation clock: frame "\<lambda>w w'. (c w :: int) \<le> c w'" for c
  by unfold_locales auto

end
