(* ===== verification/Polling.thy ===== *)
theory Polling
  imports Frames
begin

text \<open>
  Go's \<open>for { ... }\<close> loops that poll until something happens or a deadline has passed.
  \<open>forever fuel round\<close> runs rounds until one returns; \<open>None\<close> is running out of fuel.
\<close>

fun forever :: "nat \<Rightarrow> ('s, 'a option) io \<Rightarrow> ('s, 'a option) io" where
  "forever 0 round = return None"
| "forever (Suc fuel) round = do {
     r \<leftarrow> round;
     (case r of Some x \<Rightarrow> return (Some x) | None \<Rightarrow> forever fuel round)
   }"

text \<open>
  A clock \<open>c\<close> that \<open>Now\<close> reads, that \<open>Sleep\<close> advances by at least the time slept,
  and that nothing turns back.
\<close>

definition clock_law :: "'w os_env \<Rightarrow> ('w \<Rightarrow> int) \<Rightarrow> bool" where
  "clock_law os c \<longleftrightarrow>
     (\<forall>w t w'. run_state (Now os) w = (t, w') \<longrightarrow> t = c w \<and> c w \<le> c w') \<and>
     (\<forall>d w u w'. run_state (Sleep os d) w = (u, w') \<longrightarrow> c w + d \<le> c w')"

abbreviation no_earlier :: "('w \<Rightarrow> int) \<Rightarrow> ('w, 'a) io \<Rightarrow> bool" where
  "no_earlier c m \<equiv> keeps (\<lambda>w w'. c w \<le> c w') m"

lemma clock_lawD:
  assumes "clock_law os c"
  shows "run_state (Now os) w = (t, w') \<Longrightarrow> t = c w \<and> c w \<le> c w'"
    "run_state (Sleep os d) w = (u, w') \<Longrightarrow> c w + d \<le> c w'"
  using assms unfolding clock_law_def by blast+

text \<open>
  If a round that goes on was not past the deadline \<open>dl\<close> and takes at least \<open>d\<close>, the loop
  ends as soon as the fuel covers the time left.
\<close>

lemma forever_ends:
  assumes "\<And>w w'. run_state round w = (None, w') \<Longrightarrow> c w \<le> (dl :: int) \<and> c w + d \<le> c w'"
  shows "dl < c w + d * int n \<Longrightarrow> \<exists>r w'. run_state (forever (Suc n) round) w = (Some r, w')"
proof (induction n arbitrary: w)
  case 0
  obtain x w1 where x: "run_state round w = (x, w1)" by fastforce
  have "x \<noteq> None" using assms [of w w1] x 0 by auto
  then show ?case using x by auto
next
  case (Suc n)
  obtain x w1 where x: "run_state round w = (x, w1)" by fastforce
  show ?case
  proof (cases x)
    case None
    then have "c w + d \<le> c w1" using assms x by blast
    then have "dl < c w1 + d * int n" using Suc.prems by (simp add: algebra_simps)
    from Suc.IH [OF this] show ?thesis using x None by auto
  qed (use x in auto)
qed

text \<open>A wait that takes its deadline from the clock.\<close>

lemma timed_wait_ends:
  assumes "clock_law os c" "timeout < d * int n"
    and "\<And>dl w w'. run_state (round dl) w = (None, w') \<Longrightarrow> c w \<le> dl \<and> c w + d \<le> c w'"
  shows "\<exists>r w'. run_state (do { now \<leftarrow> Now os; forever (Suc n) (round (now + timeout)) }) w = (Some r, w')"
proof -
  obtain t w1 where t: "run_state (Now os) w = (t, w1)" by fastforce
  have "t + timeout < c w1 + d * int n" using clock_lawD(1) [OF assms(1) t] assms(2) by simp
  from forever_ends [of "round (t + timeout)" c, OF assms(3) this] t show ?thesis by (simp del: forever.simps)
qed

text \<open>\<open>missed n round w w0\<close>: \<open>n\<close> rounds in a row, none of which returned, lead from \<open>w\<close> to \<open>w0\<close>.\<close>

primrec missed :: "nat \<Rightarrow> ('s, 'a option) io \<Rightarrow> 's \<Rightarrow> 's \<Rightarrow> bool" where
  "missed 0 round w w0 \<longleftrightarrow> w0 = w"
| "missed (Suc n) round w w0 \<longleftrightarrow> (\<exists>w1. run_state round w = (None, w1) \<and> missed n round w1 w0)"

lemma forever_missed:
  assumes "run_state (forever fuel round) w = (Some r, w')"
  shows "\<exists>n w0. n < fuel \<and> missed n round w w0 \<and> run_state round w0 = (Some r, w')"
  using assms
proof (induction fuel arbitrary: w)
  case (Suc fuel)
  obtain x w1 where x: "run_state round w = (x, w1)" by fastforce
  show ?case
  proof (cases x)
    case None
    have "run_state (forever fuel round) w1 = (Some r, w')" using Suc.prems x None by simp
    from Suc.IH [OF this] obtain n w0 where
      n: "n < fuel" "missed n round w1 w0" "run_state round w0 = (Some r, w')" by blast
    have "Suc n < Suc fuel" "missed (Suc n) round w w0" using n x None by auto
    then show ?thesis using n(3) by blast
  next
    case (Some y)
    then have "missed 0 round w w" "run_state round w = (Some r, w')" using Suc.prems x by auto
    then show ?thesis by blast
  qed
qed simp

context frame
begin

lemma keeps_forever [intro]: "keeps R round \<Longrightarrow> keeps R (forever fuel round)"
  by (induction fuel) (simp_all add: keeps_return keeps_bind keeps_option)

text \<open>The round that ended the loop, and what the rounds before it kept.\<close>

lemma forever_last:
  assumes "run_state (forever fuel round) w = (Some r, w')"
    and "\<And>w w'. run_state round w = (None, w') \<Longrightarrow> R w w'"
  shows "\<exists>w0. R w w0 \<and> run_state round w0 = (Some r, w')"
  using assms(1)
proof (induction fuel arbitrary: w)
  case (Suc fuel)
  obtain x w1 where x: "run_state round w = (x, w1)" by fastforce
  show ?case
  proof (cases x)
    case None
    then have "\<exists>w0. R w1 w0 \<and> run_state round w0 = (Some r, w')" using Suc x by simp
    then show ?thesis using assms(2) [OF x [unfolded None]] trans_R by blast
  next
    case (Some y)
    then show ?thesis using Suc.prems x refl_R by auto
  qed
qed simp

end

text \<open>Without anything to keep.\<close>

interpretation any: frame "\<lambda>w w'. True"
  by unfold_locales auto

end
