(* ===== verification/Plugin_Client.thy ===== *)
theory Plugin_Client
  imports Polling "HOL-Library.List_Lexorder" "HOL-Library.Char_ord"
begin

text \<open>
  What the CNI plugin (\<open>plugin/meshnet.go\<close>) works with: the client of the node's own
  daemon, the arguments of a CNI call, and its helper functions.  The plugin is a process
  of its own; the world it runs in is again a parameter, and the daemon's answers are those
  of the record \<open>local_client\<close>.
\<close>

section \<open>The daemon's local service and the CNI call\<close>

record 'w local_client =
  lc_Get :: "PodQuery \<Rightarrow> ('w, Pod res) io"
  lc_SetAlive :: "Pod \<Rightarrow> ('w, BoolResponse option res) io"
  lc_Skip :: "SkipQuery \<Rightarrow> ('w, BoolResponse option res) io"
  lc_SkipReverse :: "SkipQuery \<Rightarrow> ('w, BoolResponse res) io"
  lc_IsSkipped :: "SkipQuery \<Rightarrow> ('w, BoolResponse res) io"
  lc_RemGRPCWire :: "WireDef \<Rightarrow> ('w, BoolResponse res) io"
  lc_AddGRPCWireLocal :: "WireDef \<Rightarrow> ('w, BoolResponse res) io"
  lc_GRPCWireExists :: "WireDef \<Rightarrow> ('w, WireCreateResponse res) io"
  lc_GenerateNodeInterfaceName ::
    "GenerateNodeInterfaceNameRequest \<Rightarrow> ('w, GenerateNodeInterfaceNameResponse res) io"
  lc_RegisterVxlanLink :: "VxlanLinkDef \<Rightarrow> ('w, BoolResponse res) io"
  lc_UnregisterVxlanLink :: "VxlanLinkDef \<Rightarrow> ('w, BoolResponse res) io"

record k8sArgs =
  K8S_POD_NAME :: string
  K8S_POD_NAMESPACE :: string
  K8S_POD_INFRA_CONTAINER_ID :: string

record netConf =
  nc_CNIVersion :: string
  nc_RawPrevResult :: "string option"

record CmdArgs =
  ca_ContainerID :: string
  ca_Netns :: string
  ca_Args :: string
  ca_StdinData :: string

text \<open>
  The CNI library: parsing the configuration, the previous result (kept as the JSON value
  it is) and the argument string, and printing a result.
\<close>

record 'w cni_lib =
  UnmarshalNetConf :: "string \<Rightarrow> netConf res"
  ParsePrevResult :: "netConf \<Rightarrow> json res"
  NewResultFromResult :: "json \<Rightarrow> json res"
  LoadArgs :: "string \<Rightarrow> k8sArgs res"
  PrintResult :: "json \<Rightarrow> string \<Rightarrow> ('w, goerr option) io"

text \<open>\<open>pl_type\<close> is the package variable \<open>interNodeLinkType\<close>.\<close>

record 'w plugin =
  pl_cni :: "'w cni_lib"
  pl_net :: "'w net_env"
  pl_os :: "'w os_env"
  pl_rpc :: "'w rpc_env"
  pl_DialLocal :: "('w, goerr option) io"
  pl_local :: "'w local_client"
  pl_type :: string

definition localhost :: string where "localhost = ''localhost''"
definition vxlanBase :: int64 where "vxlanBase = 5000"
definition localDaemonReadyTimeout :: int where "localDaemonReadyTimeout = seconds 60"
definition localDaemonRetryInterval :: int where "localDaemonRetryInterval = seconds 2"

definition SetInterNodeLinkType :: "'w plugin \<Rightarrow> ('w, 'w plugin) io" where
  "SetInterNodeLinkType pl = do { t \<leftarrow> LookupInterNodeLinkType (pl_os pl); return (pl\<lparr>pl_type := t\<rparr>) }"

definition empty_result :: json where "empty_result = JObj []"

definition loadConf :: "'w cni_lib \<Rightarrow> string \<Rightarrow> (netConf \<times> json) res" where
  "loadConf cni bytes =
     (case UnmarshalNetConf cni bytes of
        Inl e \<Rightarrow> Inl (errorf_v ''failed to load netconf: '' e)
      | Inr n \<Rightarrow>
          if nc_RawPrevResult n = None then Inr (n, empty_result)
          else (case ParsePrevResult cni n of
                  Inl e \<Rightarrow> Inl (errorf_v ''could not parse prevResult: '' e)
                | Inr prev \<Rightarrow>
                    (case NewResultFromResult cni prev of
                       Inl e \<Rightarrow> Inl (errorf_v ''could not convert result to current version: '' e)
                     | Inr result \<Rightarrow> Inr (n, result))))"

section \<open>The VXLAN source\<close>

text \<open>One address of one interface: the interface given by name, or the one with the node's address.\<close>

definition source_at :: "'w net_env \<Rightarrow> string \<Rightarrow> string \<Rightarrow> string \<Rightarrow> ip \<Rightarrow> (string \<times> string) option" where
  "source_at nt nodeIP nodeIntf name a =
     (if nodeIntf \<noteq> '''' \<and> name = nodeIntf then Some (IPString nt a, nodeIntf)
      else (case ParseIP nt nodeIP of
              None \<Rightarrow> None
            | Some nIP \<Rightarrow> if ip_Equal nIP a then Some (nodeIP, name) else None))"

fun source_of_addrs :: "'w net_env \<Rightarrow> string \<Rightarrow> string \<Rightarrow> string \<Rightarrow> ip list \<Rightarrow> (string \<times> string) option" where
  "source_of_addrs nt nodeIP nodeIntf name [] = None"
| "source_of_addrs nt nodeIP nodeIntf name (a # as) =
     (case source_at nt nodeIP nodeIntf name a of
        None \<Rightarrow> source_of_addrs nt nodeIP nodeIntf name as
      | Some r \<Rightarrow> Some r)"

fun source_of_ifaces :: "'w net_env \<Rightarrow> string \<Rightarrow> string \<Rightarrow> (string \<times> ip list) list \<Rightarrow> (string \<times> string) option" where
  "source_of_ifaces nt nodeIP nodeIntf [] = None"
| "source_of_ifaces nt nodeIP nodeIntf ((name, as) # is) =
     (case source_of_addrs nt nodeIP nodeIntf name as of
        None \<Rightarrow> source_of_ifaces nt nodeIP nodeIntf is
      | Some r \<Rightarrow> Some r)"

definition getVxlanSource :: "'w net_env \<Rightarrow> string \<Rightarrow> string \<Rightarrow> ('w, (string \<times> string) res) io" where
  "getVxlanSource nt nodeIP nodeIntf =
     (if nodeIntf = '''' \<and> nodeIP = ''''
      then return (Inl (Err (''meshnetd provided no HOST_IP address: '' @ nodeIP @ '' or HOST_INTF: '' @ nodeIntf)))
      else if ParseIP nt nodeIP = None \<and> nodeIntf = ''''
      then return (Inl (Err (''parsing failed for meshnetd provided no HOST_IP address: '' @ nodeIP @
             '' and node HOST_INTF: '' @ nodeIntf)))
      else do {
        r \<leftarrow> Interfaces nt;
        return (case source_of_ifaces nt nodeIP nodeIntf (case r of Inl e \<Rightarrow> [] | Inr is \<Rightarrow> is) of
            None \<Rightarrow> Inl (Err (''no iface found for address '' @ nodeIP))
          | Some s \<Rightarrow> Inr s)
      })"

section \<open>Small helpers\<close>

definition makeVeth :: "'w net_env \<Rightarrow> string \<Rightarrow> string \<Rightarrow> string \<Rightarrow> int \<Rightarrow> VEth res" where
  "makeVeth nt netNS linkName ip mtu =
     (if ip = '''' then Inr \<lparr>ve_NsName = netNS, ve_LinkName = linkName, ve_IPAddr = [], ve_MTU = mtu\<rparr>
      else (case ParseCIDR nt ip of
              Inl e \<Rightarrow> Inl (errorf_v (''failed to parse CIDR '' @ ip @ '': '') e)
            | Inr (a, n) \<Rightarrow> Inr \<lparr>ve_NsName = netNS, ve_LinkName = linkName,
                 ve_IPAddr = [\<lparr>ipn_IP = a, ipn_Mask = ipn_Mask n\<rparr>], ve_MTU = mtu\<rparr>))"

definition boolResponseErr :: "BoolResponse option res \<Rightarrow> string \<Rightarrow> goerr option" where
  "boolResponseErr r what =
     (case r of
        Inl e \<Rightarrow> Some e
      | Inr None \<Rightarrow> Some (Err (what @ '' rejected''))
      | Inr (Some b) \<Rightarrow> if br_Response b then None else Some (Err (what @ '' rejected'')))"

definition linkMTU :: "'w os_env \<Rightarrow> int32 \<Rightarrow> ('w, int) io" where
  "linkMTU os topologyMtu =
     (if 0 < sint topologyMtu then return (sint topologyMtu)
      else do { d \<leftarrow> ReadDefaultLinkMTU os; return (if snd d then fst d else 0) })"

definition makeVxlan :: "'w net_env \<Rightarrow> string \<Rightarrow> string \<Rightarrow> int64 \<Rightarrow> int \<Rightarrow> VxLan" where
  "makeVxlan nt srcIntf peerIP idx mtu =
     \<lparr>vx_ParentIF = srcIntf, vx_ID = sint (vxlanBase + idx),
      vx_IPAddr = (case ParseIP nt peerIP of None \<Rightarrow> [] | Some a \<Rightarrow> a), vx_MTU = mtu, vx_UDPPort = 0\<rparr>"

text \<open>
  The retry loop of \<open>getLocalPodWithRetry\<close>: \<open>fuel\<close> bounds the attempts, \<open>None\<close> is
  running out of it.  Of the error's text the parenthesis that closes it is left out.  The
  plugin's context is never cancelled, so the wait between two attempts is a \<open>Sleep\<close>.
\<close>

definition not_ready :: "goerr \<Rightarrow> goerr" where
  "not_ready e = Wrap ''local meshnet daemon not ready after 1m0s (last error: '' e"

definition get_round :: "'w plugin \<Rightarrow> int \<Rightarrow> PodQuery \<Rightarrow> ('w, Pod res option) io" where
  "get_round pl deadline q = do {
     r \<leftarrow> lc_Get (pl_local pl) q;
     (case r of
        Inr pod \<Rightarrow> return (Some (Inr pod))
      | Inl e \<Rightarrow>
          if status_code e = NotFound then return (Some (Inl e))
          else do {
            now \<leftarrow> Now (pl_os pl);
            if deadline < now then return (Some (Inl (not_ready e)))
            else do {
              Sleep (pl_os pl) localDaemonRetryInterval;
              return None
            }
          })
   }"

definition getLocalPodWithRetry :: "nat \<Rightarrow> 'w plugin \<Rightarrow> string \<Rightarrow> string \<Rightarrow> ('w, Pod res option) io" where
  "getLocalPodWithRetry fuel pl name ns = do {
     now \<leftarrow> Now (pl_os pl);
     forever fuel (get_round pl (now + localDaemonReadyTimeout) \<lparr>pq_Name = name, pq_KubeNs = ns\<rparr>)
   }"

section \<open>The retry loop always ends\<close>

lemma get_round_on:
  assumes "clock_law (pl_os pl) c" "no_earlier c (lc_Get (pl_local pl) q)"
    and "run_state (get_round pl dl q) w = (None, w')"
  shows "c w \<le> dl \<and> c w + localDaemonRetryInterval \<le> c w'"
proof -
  obtain g w1 where g: "run_state (lc_Get (pl_local pl) q) w = (g, w1)" by fastforce
  obtain t w2 where t: "run_state (Now (pl_os pl)) w1 = (t, w2)" by fastforce
  obtain w3 where u: "run_state (Sleep (pl_os pl) localDaemonRetryInterval) w2 = ((), w3)"
    by (cases "run_state (Sleep (pl_os pl) localDaemonRetryInterval) w2") simp
  have "\<not> dl < t" "w' = w3" using assms(3) g t u by (cases g; auto simp: get_round_def split: if_splits)+
  then show ?thesis using keepsD [OF assms(2) g] clock_lawD [OF assms(1)] t u by fastforce
qed

lemma get_round_ended:
  assumes "clock_law (pl_os pl) c" "no_earlier c (lc_Get (pl_local pl) q)"
    and "run_state (get_round pl dl q) w = (Some (Inl e), w')" "status_code e \<noteq> NotFound"
  shows "dl < c w'"
proof -
  obtain g w1 where g: "run_state (lc_Get (pl_local pl) q) w = (g, w1)" by fastforce
  obtain t w2 where t: "run_state (Now (pl_os pl)) w1 = (t, w2)" by fastforce
  obtain w3 where u: "run_state (Sleep (pl_os pl) localDaemonRetryInterval) w2 = ((), w3)"
    by (cases "run_state (Sleep (pl_os pl) localDaemonRetryInterval) w2") simp
  have "dl < t" "w' = w2" using assms(3,4) g t u by (cases g; auto simp: get_round_def split: if_splits)+
  then show ?thesis using clock_lawD(1) [OF assms(1) t] by simp
qed

text \<open>
  C37: Waiting for the local daemon always comes to an end: with a clock that runs, 32
  attempts are enough, whatever the daemon answers.  The plugin gives up with an error
  other than "no topology" only after the whole timeout of 60 seconds has passed.
\<close>

theorem waiting_for_daemon_ends:
  assumes "clock_law (pl_os pl) c" "\<And>q. no_earlier c (lc_Get (pl_local pl) q)"
  shows "\<exists>r w'. run_state (getLocalPodWithRetry 32 pl name ns) w = (Some r, w') \<and>
     (\<forall>e. r = Inl e \<longrightarrow> status_code e = NotFound \<or> c w + localDaemonReadyTimeout < c w')"
proof -
  let ?q = "\<lparr>pq_Name = name, pq_KubeNs = ns\<rparr>"
  obtain t w1 where t: "run_state (Now (pl_os pl)) w = (t, w1)" by fastforce
  have tw: "t = c w" "c w \<le> c w1" using assms(1) t by (auto simp: clock_law_def)
  have until: "t + localDaemonReadyTimeout < c w1 + localDaemonRetryInterval * int 31"
    using tw by (simp add: localDaemonReadyTimeout_def localDaemonRetryInterval_def seconds_def)
  have on: "c w \<le> t + localDaemonReadyTimeout \<and> c w + localDaemonRetryInterval \<le> c w'"
    if "run_state (get_round pl (t + localDaemonReadyTimeout) ?q) w = (None, w')" for w w'
    by (rule get_round_on [OF assms that])
  obtain r w' where r: "run_state (forever (Suc 31) (get_round pl (t + localDaemonReadyTimeout) ?q)) w1 = (Some r, w')"
    using forever_ends [of _ c, OF on until] by blast
  obtain w0 where "run_state (get_round pl (t + localDaemonReadyTimeout) ?q) w0 = (Some r, w')"
    using any.forever_last [OF r] by blast
  then have "\<forall>e. r = Inl e \<longrightarrow> status_code e = NotFound \<or> t + localDaemonReadyTimeout < c w'"
    using get_round_ended [OF assms] by blast
  moreover have "run_state (getLocalPodWithRetry 32 pl name ns) w = (Some r, w')"
    using t r by (simp add: getLocalPodWithRetry_def eval_nat_numeral del: forever.simps)
  ultimately show ?thesis using tw(1) by blast
qed

text \<open>A world that is just a clock, and a daemon that never gets ready.\<close>

definition clock_os :: "int os_env" where
  "clock_os = (ref_os Map.empty)\<lparr>Now := reads (\<lambda>t. t), Sleep := (\<lambda>d. modifies (\<lambda>t. t + d))\<rparr>"

definition dead_client :: "'w local_client" where
  "dead_client = \<lparr>lc_Get = (\<lambda>q. return (Inl (Status Unavailable ''connection refused''))),
     lc_SetAlive = (\<lambda>p. return (Inl (Err ''''))), lc_Skip = (\<lambda>q. return (Inl (Err ''''))),
     lc_SkipReverse = (\<lambda>q. return (Inl (Err ''''))), lc_IsSkipped = (\<lambda>q. return (Inl (Err ''''))),
     lc_RemGRPCWire = (\<lambda>q. return (Inl (Err ''''))), lc_AddGRPCWireLocal = (\<lambda>q. return (Inl (Err ''''))),
     lc_GRPCWireExists = (\<lambda>q. return (Inl (Err ''''))),
     lc_GenerateNodeInterfaceName = (\<lambda>q. return (Inl (Err ''''))),
     lc_RegisterVxlanLink = (\<lambda>q. return (Inl (Err ''''))), lc_UnregisterVxlanLink = (\<lambda>q. return (Inl (Err '''')))\<rparr>"

definition demo_cni :: "'w cni_lib" where
  "demo_cni = \<lparr>UnmarshalNetConf = (\<lambda>s. Inr \<lparr>nc_CNIVersion = ''0.4.0'', nc_RawPrevResult = None\<rparr>),
     ParsePrevResult = (\<lambda>n. Inr empty_result), NewResultFromResult = Inr,
     LoadArgs = (\<lambda>s. Inr \<lparr>K8S_POD_NAME = ''a'', K8S_POD_NAMESPACE = ''t'', K8S_POD_INFRA_CONTAINER_ID = ''c''\<rparr>),
     PrintResult = (\<lambda>r v. return None)\<rparr>"

definition dead_plugin :: "int plugin" where
  "dead_plugin = \<lparr>pl_cni = demo_cni, pl_net = ref_net, pl_os = clock_os, pl_rpc = ref_rpc,
     pl_DialLocal = return None, pl_local = dead_client, pl_type = INTER_NODE_LINK_GRPC\<rparr>"

theorem waiting_for_daemon_ends_witness:
  "\<exists>r w'. run_state (getLocalPodWithRetry 32 dead_plugin ''a'' ''t'') 0 = (Some r, w') \<and>
     (\<forall>e. r = Inl e \<longrightarrow> status_code e = NotFound \<or> 0 + localDaemonReadyTimeout < w')"
  using waiting_for_daemon_ends [of dead_plugin "\<lambda>t. t" "''a''" "''t''" 0]
  by (simp add: clock_law_def keeps_def dead_plugin_def clock_os_def dead_client_def)

section \<open>The VXLAN source\<close>

text \<open>
  The node's address wins over the interface the user names: if an interface that the
  kernel lists before the one named by \<open>HOST_INTF\<close> carries the node's address, that
  interface and address are chosen, although \<open>HOST_INTF\<close> exists.
\<close>

theorem node_address_beats_named_interface:
  assumes "run_state (Interfaces nt) w = (Inr ((name, as) # is), w')"
    and "ParseIP nt nodeIP = Some nIP" "nodeIntf \<noteq> ''''" "name \<noteq> nodeIntf" "a \<in> set as" "ip_Equal nIP a"
  shows "run_state (getVxlanSource nt nodeIP nodeIntf) w = (Inr (nodeIP, name), w')"
proof -
  have "source_of_addrs nt nodeIP nodeIntf name as = Some (nodeIP, name)"
    using assms(5)
  proof (induction as)
    case (Cons b as)
    then show ?case using assms(2,4,6) by (auto simp: source_at_def)
  qed simp
  then show ?thesis using assms(1-3) by (simp add: getVxlanSource_def)
qed

definition two_ifaces :: "unit net_env" where
  "two_ifaces = ref_net\<lparr>Interfaces := return (Inr [(''eth0'', [[10, 0, 0, 1]]), (''breth2'', [[10, 0, 1, 1]])]),
     ParseIP := (\<lambda>s. if s = ''10.0.0.1'' then Some [10, 0, 0, 1] else None)\<rparr>"

theorem node_address_beats_named_interface_witness:
  "run_state (getVxlanSource two_ifaces ''10.0.0.1'' ''breth2'') () = (Inr (''10.0.0.1'', ''eth0''), ())"
  using node_address_beats_named_interface [of two_ifaces "()" "''eth0''" "[[10, 0, 0, 1]]" "[(''breth2'', [[10, 0, 1, 1]])]"
      "()" "''10.0.0.1''" "[10, 0, 0, 1]" "''breth2''" "[10, 0, 0, 1]"]
  by (simp add: two_ifaces_def ip_Equal_def)

end
