(* ===== verification/Plugin_Wire.thy ===== *)
theory Plugin_Wire
  imports Plugin_Client
begin

text \<open>
  \<open>plugin/grpcwires-plugin.go\<close>: the plugin's part in setting up and taking down a grpc
  wire between two nodes.  The pod that was skipped, or has the greater name, creates the
  wire; the other one polls for it.
\<close>

definition skipStatusRetryInterval :: int where "skipStatusRetryInterval = seconds 2"
definition skipStatusRetryWarnCount :: nat where "skipStatusRetryWarnCount = 5"
definition skipStatusRetryCount :: nat where "skipStatusRetryCount = skipStatusRetryWarnCount * 4"

text \<open>\<open>localPod.Name > peerPod.Name\<close>: Go compares strings byte by byte.\<close>

definition higherPrio :: "string \<Rightarrow> string \<Rightarrow> bool" where
  "higherPrio localName peerName \<longleftrightarrow> peerName < localName"

definition skip_query :: "Pod \<Rightarrow> Pod \<Rightarrow> int64 \<Rightarrow> string \<Rightarrow> SkipQuery" where
  "skip_query localPod peerPod uid ns =
     \<lparr>sq_Pod = pod_Name localPod, sq_Peer = pod_Name peerPod, sq_KubeNs = ns, sq_LinkId = uid\<rparr>"

definition grpc_error :: "Pod \<Rightarrow> string \<Rightarrow> goerr \<Rightarrow> goerr" where
  "grpc_error p m e = errorf_v (''Add-GRPC['' @ pod_Name p @ '']: '' @ m) e"

section \<open>Waiting for the peer\<close>

text \<open>
  What the ticker loop ends with.  \<open>await_peer\<close> counts down the ticks that are left of
  \<open>skipStatusRetryCount\<close>: the code gives up in the twentieth.
\<close>

datatype wait_result = WireFound | PeerSkippedUs | GaveUp | WaitFailed goerr

definition exists_error :: "Pod \<Rightarrow> Pod \<Rightarrow> goerr \<Rightarrow> goerr" where
  "exists_error p peer e = grpc_error p (''could not check grpc wire, '' @ pod_Name p @ ''@'' @ pod_Name peer @ '': '') e"

fun await_peer :: "'w plugin \<Rightarrow> Pod \<Rightarrow> Pod \<Rightarrow> WireDef \<Rightarrow> SkipQuery \<Rightarrow> nat \<Rightarrow> ('w, wait_result) io" where
  "await_peer pl localPod peerPod wd q 0 = return GaveUp"
| "await_peer pl localPod peerPod wd q (Suc n) = do {
     Sleep (pl_os pl) skipStatusRetryInterval;
     r \<leftarrow> lc_GRPCWireExists (pl_local pl) wd;
     (case r of
        Inl e \<Rightarrow> return (WaitFailed (exists_error localPod peerPod e))
      | Inr resp \<Rightarrow>
          if wcr_Response resp then return WireFound
          else do {
            s \<leftarrow> lc_IsSkipped (pl_local pl) q;
            (case s of
               Inl e \<Rightarrow> return (WaitFailed e)
             | Inr b \<Rightarrow> if br_Response b then return PeerSkippedUs
                        else await_peer pl localPod peerPod wd q n)
          })
   }"

section \<open>Creating the wire\<close>

definition wire_query :: "Pod \<Rightarrow> Link \<Rightarrow> WireDef" where
  "wire_query localPod link = zero_WireDef
     \<lparr>wd_LocalPodNetNs := pod_NetNs localPod, wd_LinkUid := lk_Uid link, wd_TopoNs := pod_KubeNs localPod\<rparr>"

definition wire_def_remote :: "Link \<Rightarrow> Pod \<Rightarrow> Pod \<Rightarrow> int \<Rightarrow> int \<Rightarrow> WireDef" where
  "wire_def_remote link localPod peerPod ifIndex mtu = zero_WireDef
     \<lparr>wd_WireIfIdOnPeerNode := word_of_int ifIndex, wd_PeerNodeIp := pod_SrcIp localPod,
      wd_IntfNameInPod := lk_PeerIntf link, wd_LocalPodNetNs := pod_NetNs peerPod,
      wd_LocalPodName := pod_Name peerPod, wd_LinkUid := lk_Uid link, wd_TopoNs := pod_KubeNs peerPod,
      wd_LocalPodIp := lk_PeerIp link, wd_Mtu := word_of_int mtu\<rparr>"

definition wire_def_local :: "Link \<Rightarrow> Pod \<Rightarrow> Pod \<Rightarrow> string \<Rightarrow> int64 \<Rightarrow> int \<Rightarrow> WireDef" where
  "wire_def_local link localPod peerPod nodeIntf peerIntfId mtu = zero_WireDef
     \<lparr>wd_WireIfIdOnPeerNode := peerIntfId, wd_PeerNodeIp := pod_SrcIp peerPod,
      wd_WireIfNameOnLocalNode := nodeIntf, wd_LinkUid := lk_Uid link,
      wd_LocalPodName := pod_Name localPod, wd_IntfNameInPod := lk_LocalIntf link,
      wd_LocalPodNetNs := pod_NetNs localPod, wd_LocalPodIp := lk_LocalIp link,
      wd_TopoNs := pod_KubeNs localPod, wd_Mtu := word_of_int mtu\<rparr>"

definition wire_text :: "string \<Rightarrow> Link \<Rightarrow> Pod \<Rightarrow> Pod \<Rightarrow> string" where
  "wire_text sep link localPod peerPod =
     ''grpc-wire (local-pod:'' @ sep @ pod_Name localPod @ '':'' @ lk_LocalIntf link @ ''@node:'' @ pod_SrcIp localPod @
     '' <----link uid: '' @ fmt_d (sint (lk_Uid link)) @ ''----> remote-pod:'' @ sep @ pod_Name peerPod @ '':'' @
     lk_PeerIntf link @ ''@node:'' @ pod_SrcIp peerPod @ '')''"

text \<open>Dial the peer's daemon, have it create its end, then register the local end.\<close>

definition join_ends :: "'w plugin \<Rightarrow> Link \<Rightarrow> Pod \<Rightarrow> Pod \<Rightarrow> string \<Rightarrow> int \<Rightarrow> ('w, goerr option) io" where
  "join_ends pl link localPod peerPod nodeIntf mtu = do {
     let url = peer_url (pod_SrcIp peerPod);
     ed \<leftarrow> Dial (pl_rpc pl) url;
     (case ed of
        Some e \<Rightarrow> return (Some (Err (''Add-GRPC['' @ pod_Name localPod @
           '']: creating GRPC wire: failed to dial remote gRPC url '' @ url)))
      | None \<Rightarrow> do {
          rl \<leftarrow> LinkByName (pl_net pl) CurrentNs nodeIntf;
          (case rl of
             Inl e \<Rightarrow> return (Some (grpc_error localPod ''could not get interface by name: '' e))
           | Inr locInf \<Rightarrow> do {
               rr \<leftarrow> RemAddGRPCWireRemote (pl_rpc pl) url
                       (wire_def_remote link localPod peerPod (nl_Index locInf) mtu);
               (case rr of
                  Inl e \<Rightarrow> return (Some (grpc_error localPod
                    (''failed to create grpc tunnel ar remote end:'' @ url @ ''  err:'') e))
                | Inr resp \<Rightarrow>
                    if \<not> wcr_Response resp
                    then return (Some (Err (''Add-GRPC['' @ pod_Name localPod @
                      '']: remote end of the '' @ wire_text '''' link localPod peerPod @ '' is not up'')))
                    else do {
                      ra \<leftarrow> lc_AddGRPCWireLocal (pl_local pl)
                              (wire_def_local link localPod peerPod nodeIntf (wcr_PeerIntfId resp) mtu);
                      return (case ra of
                          Inl e \<Rightarrow> Some (grpc_error localPod ''failed to create local end of the tunnel '' e)
                        | Inr b \<Rightarrow> if br_Response b then None
                            else Some (Err (''Add-GRPC['' @ pod_Name localPod @
                              '']: local end of the '' @ wire_text ''-'' link localPod peerPod @
                              '' is not up'')))
                    })
             })
        })
   }"

text \<open>From the point where this pod is the one to create the wire.\<close>

definition create_wire :: "'w plugin \<Rightarrow> Link \<Rightarrow> Pod \<Rightarrow> Pod \<Rightarrow> ('w, goerr option) io" where
  "create_wire pl link localPod peerPod = do {
     re \<leftarrow> lc_GRPCWireExists (pl_local pl) (wire_query localPod link);
     (case re of
        Inl e \<Rightarrow> return (Some (exists_error localPod peerPod e))
      | Inr resp \<Rightarrow>
          if wcr_Response resp then return None
          else do {
            rc \<leftarrow> GetCurrentNS (pl_net pl);
            (case rc of
               Inl e \<Rightarrow> return (Some (grpc_error localPod (''creating GRPC wire for pod '' @ pod_Name localPod @
                 '' : failed to get node ns, err: '') e))
             | Inr currNs \<Rightarrow> do {
                 mtu \<leftarrow> linkMTU (pl_os pl) (lk_Mtu link);
                 (case makeVeth (pl_net pl) (pod_NetNs localPod) (lk_LocalIntf link) (lk_LocalIp link) mtu of
                    Inl e \<Rightarrow> return (Some e)
                  | Inr inContainerVeth \<Rightarrow> do {
                      rn \<leftarrow> lc_GenerateNodeInterfaceName (pl_local pl)
                              \<lparr>gnr_PodIntfName = lk_LocalIntf link, gnr_PodName = pod_Name localPod\<rparr>;
                      (case rn of
                         Inl e \<Rightarrow> return (Some (Err (''Add-GRPC['' @ pod_Name localPod @
                           '']: could not create node interface for local pod '' @ err_text e @ '', peer pod '' @
                           pod_Name localPod @ '': '' @ pod_Name peerPod)))
                       | Inr nm \<Rightarrow> do {
                           em \<leftarrow> MakeVeth (pl_net pl) (pl_os pl) inContainerVeth
                                   \<lparr>ve_NsName = ns_Path currNs, ve_LinkName = gns_NodeIntfName nm, ve_IPAddr = [], ve_MTU = 0\<rparr>;
                           (case em of
                              Some e \<Rightarrow> return (Some (grpc_error localPod
                                (''creating GRPC wire: failed to create vEth-pair inside pod ('' @ pod_Name localPod @
                                 '':'' @ ve_LinkName inContainerVeth @ '') and on host ('' @ gns_NodeIntfName nm @ ''). err:'') e))
                            | None \<Rightarrow> join_ends pl link localPod peerPod (gns_NodeIntfName nm) mtu)
                         })
                    })
               })
          })
   }"

definition CreatGRPCChan :: "'w plugin \<Rightarrow> Link \<Rightarrow> Pod \<Rightarrow> Pod \<Rightarrow> string \<Rightarrow> ('w, goerr option) io" where
  "CreatGRPCChan pl link localPod peerPod ns = do {
     s \<leftarrow> lc_IsSkipped (pl_local pl) (skip_query localPod peerPod (lk_Uid link) ns);
     (case s of
        Inl e \<Rightarrow> return (Some e)
      | Inr b \<Rightarrow> do {
          go \<leftarrow> (if \<not> br_Response b \<and> \<not> higherPrio (pod_Name localPod) (pod_Name peerPod)
                 then await_peer pl localPod peerPod (wire_query localPod link)
                        (skip_query localPod peerPod (lk_Uid link) ns) skipStatusRetryCount
                 else return PeerSkippedUs);
          (case go of
             WireFound \<Rightarrow> return None
           | GaveUp \<Rightarrow> return None
           | WaitFailed e \<Rightarrow> return (Some e)
           | PeerSkippedUs \<Rightarrow> create_wire pl link localPod peerPod)
        })
   }"

section \<open>Taking a wire down\<close>

definition wire_def_down :: "Link \<Rightarrow> Pod \<Rightarrow> Pod \<Rightarrow> WireDef" where
  "wire_def_down link localPod peerPod = zero_WireDef
     \<lparr>wd_PeerNodeIp := pod_SrcIp localPod, wd_IntfNameInPod := lk_PeerIntf link,
      wd_LocalPodNetNs := pod_NetNs peerPod, wd_LocalPodName := pod_Name peerPod,
      wd_LinkUid := lk_Uid link, wd_TopoNs := pod_KubeNs peerPod, wd_LocalPodIp := lk_PeerIp link\<rparr>"

definition MakeGRPCChanDown :: "'w plugin \<Rightarrow> Link \<Rightarrow> Pod \<Rightarrow> Pod \<Rightarrow> ('w, goerr option) io" where
  "MakeGRPCChanDown pl link localPod peerPod = do {
     let url = peer_url (pod_SrcIp peerPod);
     ed \<leftarrow> Dial (pl_rpc pl) url;
     (case ed of
        Some e \<Rightarrow> return (Some (Err (''MakeGRPCChanDown failed to dial remote gRPC url '' @ url)))
      | None \<Rightarrow> do {
          r \<leftarrow> RemGRPCWireDownRemote (pl_rpc pl) url (wire_def_down link localPod peerPod);
          return (case r of
              Inl e \<Rightarrow> Some (errorf_v (''MakeGRPCChanDown: GRPC communication error for : '' @ url @ '', err:'') e)
            | Inr resp \<Rightarrow> if wdr_Response resp then None
                else Some (Err (''MakeGRPCChanDown: remote end of the '' @
                  wire_text '''' link localPod peerPod @ '' is not down'')))
        })
   }"

end
