(* ===== verification/Plugin.thy ===== *)
theory Plugin
  imports Plugin_Wire
begin

text \<open>
  The CNI commands of \<open>plugin/meshnet.go\<close>: ADD connects every link of the pod that has
  been created, DEL disconnects them.  An outer \<open>None\<close> is a retry loop that ran out of
  the fuel given.
\<close>

section \<open>One link of ADD\<close>

definition add_macvlan :: "'w plugin \<Rightarrow> Link \<Rightarrow> VEth \<Rightarrow> ('w, goerr option) io" where
  "add_macvlan pl link myVeth = MakeMacVLan (pl_net pl) (pl_os pl) myVeth \<lparr>mv_ParentIF = lk_PeerIntf link\<rparr>"

text \<open>What two pods on one host do, from which of the two interfaces exist.\<close>

datatype veth_plan = LinkUp | RemovePeerEnd | RemoveMyEnd | AskSkipped

definition veth_decide :: "bool \<Rightarrow> bool \<Rightarrow> veth_plan" where
  "veth_decide iExist pExist =
     (if iExist \<and> pExist then LinkUp
      else if \<not> iExist \<and> pExist then RemovePeerEnd
      else if iExist \<and> \<not> pExist then RemoveMyEnd
      else AskSkipped)"

text \<open>With neither interface there: is this pod the one to connect them?\<close>

definition mine_to_connect :: "bool \<Rightarrow> string \<Rightarrow> string \<Rightarrow> bool" where
  "mine_to_connect skipped localName peerName \<longleftrightarrow> skipped \<or> higherPrio localName peerName"

text \<open>An answer \<open>Inr False\<close>: this pod leaves the link to its peer.\<close>

definition connect_veths :: "'w plugin \<Rightarrow> string \<Rightarrow> Pod \<Rightarrow> Pod \<Rightarrow> Link \<Rightarrow> VEth \<Rightarrow> VEth \<Rightarrow> ('w, bool res) io" where
  "connect_veths pl ns localPod peerPod link myVeth peerVeth = do {
     x \<leftarrow> IsExistLinkInNS (pl_net pl) (ve_NsName myVeth) (ve_LinkName myVeth);
     y \<leftarrow> IsExistLinkInNS (pl_net pl) (ve_NsName peerVeth) (ve_LinkName peerVeth);
     let make = do {
           e \<leftarrow> MakeVeth (pl_net pl) (pl_os pl) myVeth peerVeth;
           return (case e of None \<Rightarrow> Inr True | Some e \<Rightarrow> Inl e)
         };
     (case veth_decide (fst x) (fst y) of
        LinkUp \<Rightarrow> return (Inr True)
      | RemovePeerEnd \<Rightarrow> do {
          e \<leftarrow> RemoveVethLink (pl_net pl) peerVeth;
          (case e of Some e \<Rightarrow> return (Inl e) | None \<Rightarrow> make)
        }
      | RemoveMyEnd \<Rightarrow> do {
          e \<leftarrow> RemoveVethLink (pl_net pl) myVeth;
          (case e of Some e \<Rightarrow> return (Inl e) | None \<Rightarrow> make)
        }
      | AskSkipped \<Rightarrow> do {
          s \<leftarrow> lc_IsSkipped (pl_local pl) (skip_query localPod peerPod (lk_Uid link) ns);
          (case s of
             Inl e \<Rightarrow> return (Inl e)
           | Inr b \<Rightarrow> if mine_to_connect (br_Response b) (pod_Name localPod) (pod_Name peerPod) then make
                      else return (Inr False))
        })
   }"

definition add_same_host :: "'w plugin \<Rightarrow> string \<Rightarrow> Pod \<Rightarrow> Pod \<Rightarrow> Link \<Rightarrow> VEth \<Rightarrow> ('w, goerr option) io" where
  "add_same_host pl ns localPod peerPod link myVeth = do {
     mtu \<leftarrow> linkMTU (pl_os pl) (lk_Mtu link);
     (case makeVeth (pl_net pl) (pod_NetNs peerPod) (lk_PeerIntf link) (lk_PeerIp link) mtu of
        Inl e \<Rightarrow> return (Some e)
      | Inr peerVeth \<Rightarrow> do {
          r \<leftarrow> connect_veths pl ns localPod peerPod link myVeth peerVeth;
          (case r of
             Inl e \<Rightarrow> return (Some e)
           | Inr connected \<Rightarrow>
               if \<not> connected then return None
               else do {
                 e1 \<leftarrow> SetTxChecksumOff (pl_net pl) (ve_LinkName myVeth) (ve_NsName myVeth);
                 e2 \<leftarrow> SetTxChecksumOff (pl_net pl) (ve_LinkName peerVeth) (ve_NsName peerVeth);
                 return None
               })
        })
   }"

definition remote_payload :: "Pod \<Rightarrow> Pod \<Rightarrow> Link \<Rightarrow> string \<Rightarrow> string \<Rightarrow> int \<Rightarrow> RemotePod" where
  "remote_payload localPod peerPod link ns srcIntf mtu =
     \<lparr>rp_NetNs = pod_NetNs peerPod, rp_IntfName = lk_PeerIntf link, rp_IntfIp = lk_PeerIp link,
      rp_PeerVtep = pod_SrcIp localPod, rp_KubeNs = ns, rp_Vni = lk_Uid link + vxlanBase,
      rp_NodeIntf = srcIntf, rp_Mtu = word_of_int mtu\<rparr>"

definition vxlan_def :: "Pod \<Rightarrow> Link \<Rightarrow> string \<Rightarrow> VEth \<Rightarrow> VxlanLinkDef" where
  "vxlan_def peerPod link ns myVeth =
     \<lparr>vld_LinkUid = lk_Uid link, vld_NetNs = ve_NsName myVeth, vld_IntfName = ve_LinkName myVeth,
      vld_PeerNodeIp = pod_SrcIp peerPod, vld_KubeNs = ns\<rparr>"

definition update_remote_vtep ::
    "'w plugin \<Rightarrow> string \<Rightarrow> Pod \<Rightarrow> Pod \<Rightarrow> Link \<Rightarrow> string \<Rightarrow> ('w, goerr option) io" where
  "update_remote_vtep pl ns localPod peerPod link srcIntf = do {
     mtu \<leftarrow> linkMTU (pl_os pl) (lk_Mtu link);
     let url = pod_SrcIp peerPod @ '':'' @ dec GRPCDefaultPort;
     ed \<leftarrow> Dial (pl_rpc pl) url;
     (case ed of
        Some e \<Rightarrow> return (Some e)
      | None \<Rightarrow> do {
          ok \<leftarrow> RemUpdate (pl_rpc pl) url (remote_payload localPod peerPod link ns srcIntf mtu);
          return (boolResponseErr ok ''remote Update'')
        })
   }"

definition add_vxlan :: "'w plugin \<Rightarrow> string \<Rightarrow> Pod \<Rightarrow> Pod \<Rightarrow> Link \<Rightarrow> string \<Rightarrow> VEth \<Rightarrow> ('w, goerr option) io" where
  "add_vxlan pl ns localPod peerPod link srcIntf myVeth = do {
     mtu \<leftarrow> linkMTU (pl_os pl) (lk_Mtu link);
     x \<leftarrow> IsExistLinkInNS (pl_net pl) (ve_NsName myVeth) (ve_LinkName myVeth);
     er \<leftarrow> (if fst x then RemoveVethLink (pl_net pl) myVeth else return None);
     (case er of
        Some e \<Rightarrow> return (Some e)
      | None \<Rightarrow> do {
          em \<leftarrow> MakeVxLan (pl_net pl) (pl_os pl) myVeth
                  (makeVxlan (pl_net pl) srcIntf (pod_SrcIp peerPod) (lk_Uid link) mtu);
          (case em of
             Some e \<Rightarrow> return (Some e)
           | None \<Rightarrow> do {
               rr \<leftarrow> lc_RegisterVxlanLink (pl_local pl) (vxlan_def peerPod link ns myVeth);
               (case rr of
                  Inl e \<Rightarrow> return (Some e)
                | Inr b \<Rightarrow> update_remote_vtep pl ns localPod peerPod link srcIntf)
             })
        })
   }"

definition isAlive :: "Pod \<Rightarrow> bool" where
  "isAlive p \<longleftrightarrow> pod_SrcIp p \<noteq> '''' \<and> pod_NetNs p \<noteq> ''''"

text \<open>What is done once the peer's metadata have been read.\<close>

text \<open>A peer that is not alive yet: record that it was skipped, so that it makes the link.\<close>

definition skip_peer :: "'w plugin \<Rightarrow> string \<Rightarrow> Pod \<Rightarrow> Pod \<Rightarrow> Link \<Rightarrow> ('w, goerr option) io" where
  "skip_peer pl ns localPod peerPod link = do {
     ok \<leftarrow> lc_Skip (pl_local pl) (skip_query localPod peerPod (lk_Uid link) ns);
     return (boolResponseErr ok ''Skip'')
   }"

definition add_with_peer ::
    "'w plugin \<Rightarrow> string \<Rightarrow> string \<Rightarrow> Pod \<Rightarrow> Link \<Rightarrow> VEth \<Rightarrow> Pod \<Rightarrow> ('w, goerr option) io" where
  "add_with_peer pl ns srcIntf localPod link myVeth peerPod =
     (if isAlive peerPod
      then (if pod_SrcIp peerPod = pod_SrcIp localPod then add_same_host pl ns localPod peerPod link myVeth
            else if pl_type pl = INTER_NODE_LINK_GRPC then CreatGRPCChan pl link localPod peerPod ns
            else add_vxlan pl ns localPod peerPod link srcIntf myVeth)
      else skip_peer pl ns localPod peerPod link)"

definition add_link :: "'w plugin \<Rightarrow> string \<Rightarrow> string \<Rightarrow> string \<Rightarrow> Pod \<Rightarrow> Link \<Rightarrow> ('w, goerr option) io" where
  "add_link pl ns netns srcIntf localPod link = do {
     mtu \<leftarrow> linkMTU (pl_os pl) (lk_Mtu link);
     (case makeVeth (pl_net pl) netns (lk_LocalIntf link) (lk_LocalIp link) mtu of
        Inl e \<Rightarrow> return (Some e)
      | Inr myVeth \<Rightarrow>
          if lk_PeerPod link = localhost then add_macvlan pl link myVeth
          else do {
            rp \<leftarrow> lc_Get (pl_local pl) \<lparr>pq_Name = lk_PeerPod link, pq_KubeNs = ns\<rparr>;
            (case rp of
               Inl e \<Rightarrow> return (Some e)
             | Inr peerPod \<Rightarrow> add_with_peer pl ns srcIntf localPod link myVeth peerPod)
          })
   }"

fun add_links :: "'w plugin \<Rightarrow> string \<Rightarrow> string \<Rightarrow> string \<Rightarrow> Pod \<Rightarrow> Link list \<Rightarrow> ('w, goerr option) io" where
  "add_links pl ns netns srcIntf localPod [] = return None"
| "add_links pl ns netns srcIntf localPod (l # ls) = do {
     e \<leftarrow> add_link pl ns netns srcIntf localPod l;
     (case e of Some e \<Rightarrow> return (Some e) | None \<Rightarrow> add_links pl ns netns srcIntf localPod ls)
   }"

section \<open>ADD\<close>

text \<open>From the answer of the daemon on: mark the pod alive and connect its links.\<close>

definition add_pod :: "'w plugin \<Rightarrow> CmdArgs \<Rightarrow> string \<Rightarrow> Pod \<Rightarrow> ('w, goerr option) io" where
  "add_pod pl args ns pod = do {
     rs \<leftarrow> getVxlanSource (pl_net pl) (pod_NodeIp pod) (pod_NodeIntf pod);
     (case rs of
        Inl e \<Rightarrow> return (Some e)
      | Inr (srcIP, srcIntf) \<Rightarrow> do {
          let localPod = pod\<lparr>pod_NetNs := ca_Netns args, pod_SrcIp := srcIP, pod_ContainerId := ca_ContainerID args\<rparr>;
          ok \<leftarrow> lc_SetAlive (pl_local pl) localPod;
          (case boolResponseErr ok ''SetAlive'' of
             Some e \<Rightarrow> return (Some e)
           | None \<Rightarrow> add_links pl ns (ca_Netns args) srcIntf localPod (pod_Links localPod))
        })
   }"

definition cmdAdd :: "nat \<Rightarrow> 'w plugin \<Rightarrow> CmdArgs \<Rightarrow> ('w, goerr option option) io" where
  "cmdAdd fuel pl args =
     (case loadConf (pl_cni pl) (ca_StdinData args) of
        Inl e \<Rightarrow> return (Some (Some e))
      | Inr (n, result) \<Rightarrow>
          (case LoadArgs (pl_cni pl) (ca_Args args) of
             Inl e \<Rightarrow> return (Some (Some e))
           | Inr cniArgs \<Rightarrow> do {
               ed \<leftarrow> pl_DialLocal pl;
               (case ed of
                  Some e \<Rightarrow> return (Some (Some e))
                | None \<Rightarrow> do {
                    rp \<leftarrow> getLocalPodWithRetry fuel pl (K8S_POD_NAME cniArgs) (K8S_POD_NAMESPACE cniArgs);
                    (case rp of
                       None \<Rightarrow> return None
                     | Some (Inl e) \<Rightarrow>
                         if status_code e = NotFound
                         then do { p \<leftarrow> PrintResult (pl_cni pl) result (nc_CNIVersion n); return (Some p) }
                         else return (Some (Some e))
                     | Some (Inr pod) \<Rightarrow> do {
                         e \<leftarrow> add_pod pl args (K8S_POD_NAMESPACE cniArgs) pod;
                         (case e of
                            Some e \<Rightarrow> return (Some (Some e))
                          | None \<Rightarrow> do { p \<leftarrow> PrintResult (pl_cni pl) result (nc_CNIVersion n); return (Some p) })
                       })
                  })
             }))"

section \<open>DEL\<close>

text \<open>
  The error of the peer's \<open>Get\<close> is dropped; the answer is then a nil pointer, and reading
  its \<open>SrcIp\<close> panics.
\<close>

definition nil_peer :: goerr where
  "nil_peer = go_panic ''invalid memory address or nil pointer dereference''"

definition del_remote :: "'w plugin \<Rightarrow> string \<Rightarrow> string \<Rightarrow> Pod \<Rightarrow> Pod \<Rightarrow> Link \<Rightarrow> ('w, unit) io" where
  "del_remote pl ns localPodSrcIp localPod peerPod link =
     (if pod_SrcIp peerPod = localPodSrcIp then return ()
      else if pl_type pl = INTER_NODE_LINK_GRPC
      then do { e \<leftarrow> MakeGRPCChanDown pl link localPod peerPod; return () }
      else do {
        e \<leftarrow> lc_UnregisterVxlanLink (pl_local pl)
               \<lparr>vld_LinkUid = lk_Uid link, vld_NetNs = '''', vld_IntfName = '''', vld_PeerNodeIp = '''', vld_KubeNs = ns\<rparr>;
        return ()
      })"

text \<open>\<open>Inl e\<close>: the command ends with \<open>e\<close>, which is nil when the daemon rejected \<open>SkipReverse\<close>.\<close>

definition del_link ::
    "'w plugin \<Rightarrow> string \<Rightarrow> string \<Rightarrow> string \<Rightarrow> Pod \<Rightarrow> Link \<Rightarrow> ('w, goerr option + unit) io" where
  "del_link pl ns netns localPodSrcIp localPod link = do {
     rp \<leftarrow> lc_Get (pl_local pl) \<lparr>pq_Name = lk_PeerPod link, pq_KubeNs = ns\<rparr>;
     (case rp of
        Inl e \<Rightarrow> return (Inl (Some nil_peer))
      | Inr peerPod \<Rightarrow> do {
          del_remote pl ns localPodSrcIp localPod peerPod link;
          mtu \<leftarrow> linkMTU (pl_os pl) (lk_Mtu link);
          (case makeVeth (pl_net pl) netns (lk_LocalIntf link) (lk_LocalIp link) mtu of
             Inl e \<Rightarrow> return (Inl (Some e))
           | Inr myVeth \<Rightarrow> do {
               er \<leftarrow> RemoveVethLink (pl_net pl) myVeth;
               ok \<leftarrow> lc_SkipReverse (pl_local pl)
                       \<lparr>sq_Pod = pod_Name localPod, sq_Peer = lk_PeerPod link, sq_KubeNs = ns, sq_LinkId = lk_Uid link\<rparr>;
               return (case ok of
                   Inl e \<Rightarrow> Inl (Some e)
                 | Inr b \<Rightarrow> if br_Response b then Inr () else Inl None)
             })
        })
   }"

fun del_links :: "'w plugin \<Rightarrow> string \<Rightarrow> string \<Rightarrow> string \<Rightarrow> Pod \<Rightarrow> Link list \<Rightarrow> ('w, goerr option) io" where
  "del_links pl ns netns srcIp localPod [] = return None"
| "del_links pl ns netns srcIp localPod (l # ls) = do {
     r \<leftarrow> del_link pl ns netns srcIp localPod l;
     (case r of Inl e \<Rightarrow> return e | Inr u \<Rightarrow> del_links pl ns netns srcIp localPod ls)
   }"

definition del_pod :: "'w plugin \<Rightarrow> CmdArgs \<Rightarrow> k8sArgs \<Rightarrow> Pod \<Rightarrow> ('w, goerr option) io" where
  "del_pod pl args cniArgs pod = do {
     rr \<leftarrow> lc_RemGRPCWire (pl_local pl)
             (zero_WireDef\<lparr>wd_TopoNs := K8S_POD_NAMESPACE cniArgs, wd_LocalPodName := K8S_POD_NAME cniArgs\<rparr>);
     (case rr of
        Inl e \<Rightarrow> return (Some (errorf_v ''del: could not remove grpc wire: '' e))
      | Inr b \<Rightarrow>
          if \<not> br_Response b then return (Some (Err ''del: could not remove grpc wire: <nil>''))
          else do {
            let localPod = pod\<lparr>pod_NetNs := '''', pod_SrcIp := '''', pod_ContainerId := ''''\<rparr>;
            rs \<leftarrow> lc_SetAlive (pl_local pl) localPod;
            (case rs of
               Inl e \<Rightarrow> return (Some (errorf_v ''del: could not set alive: '' e))
             | Inr ok \<Rightarrow> del_links pl (K8S_POD_NAMESPACE cniArgs) (ca_Netns args) (pod_SrcIp pod) localPod (pod_Links localPod))
          })
   }"

definition cmdDel :: "'w plugin \<Rightarrow> CmdArgs \<Rightarrow> ('w, goerr option) io" where
  "cmdDel pl args =
     (case LoadArgs (pl_cni pl) (ca_Args args) of
        Inl e \<Rightarrow> return (Some e)
      | Inr cniArgs \<Rightarrow>
          (case loadConf (pl_cni pl) (ca_StdinData args) of
             Inl e \<Rightarrow> return (Some e)
           | Inr (n, result) \<Rightarrow> do {
               ed \<leftarrow> pl_DialLocal pl;
               (case ed of
                  Some e \<Rightarrow> return (Some e)
                | None \<Rightarrow> do {
                    rp \<leftarrow> lc_Get (pl_local pl) \<lparr>pq_Name = K8S_POD_NAME cniArgs, pq_KubeNs = K8S_POD_NAMESPACE cniArgs\<rparr>;
                    (case rp of
                       Inl e \<Rightarrow> PrintResult (pl_cni pl) result (nc_CNIVersion n)
                     | Inr pod \<Rightarrow>
                         if pod_ContainerId pod \<noteq> ca_ContainerID args then return None
                         else del_pod pl args cniArgs pod)
                  })
             }))"

definition cmdGet :: "'w plugin \<Rightarrow> CmdArgs \<Rightarrow> goerr option" where
  "cmdGet pl args = (case LoadArgs (pl_cni pl) (ca_Args args) of
     Inl e \<Rightarrow> Some e | Inr cniArgs \<Rightarrow> Some (Err ''not implemented''))"

section \<open>Properties\<close>

lemma add_links_Cons:
  "run_state (add_links pl ns netns srcIntf localPod (l # ls)) w = (None, w') \<longleftrightarrow>
     (\<exists>w1. run_state (add_link pl ns netns srcIntf localPod l) w = (None, w1) \<and>
        run_state (add_links pl ns netns srcIntf localPod ls) w1 = (None, w'))"
  by (auto split: prod.splits option.splits)

text \<open>
  A duplicate DEL, for a container that is not the one the topology records, changes
  nothing: the daemon is asked for the pod and nothing else is done.
\<close>

theorem duplicate_del_is_noop:
  assumes "LoadArgs (pl_cni pl) (ca_Args args) = Inr k" "loadConf (pl_cni pl) (ca_StdinData args) = Inr (n, result)"
    and "run_state (pl_DialLocal pl) w = (None, w1)"
    and "run_state (lc_Get (pl_local pl) \<lparr>pq_Name = K8S_POD_NAME k, pq_KubeNs = K8S_POD_NAMESPACE k\<rparr>) w1 = (Inr pod, w2)"
    and "pod_ContainerId pod \<noteq> ca_ContainerID args"
  shows "run_state (cmdDel pl args) w = (None, w2)"
  using assms by (simp add: cmdDel_def)

text \<open>A daemon that knows the pod under another container.\<close>

definition replaced_pod :: Pod where
  "replaced_pod = zero_Pod\<lparr>pod_Name := ''a'', pod_ContainerId := ''new''\<rparr>"

theorem duplicate_del_is_noop_witness:
  "run_state (cmdDel (dead_plugin\<lparr>pl_local := dead_client\<lparr>lc_Get := \<lambda>q. return (Inr replaced_pod)\<rparr>\<rparr>)
      \<lparr>ca_ContainerID = ''old'', ca_Netns = ''/ns/a'', ca_Args = '''', ca_StdinData = ''''\<rparr>) 5 = (None, 5)"
  by (rule duplicate_del_is_noop [where ?w1.0 = 5 and pod = replaced_pod and result = empty_result
        and n = "\<lparr>nc_CNIVersion = ''0.4.0'', nc_RawPrevResult = None\<rparr>"
        and k = "\<lparr>K8S_POD_NAME = ''a'', K8S_POD_NAMESPACE = ''t'', K8S_POD_INFRA_CONTAINER_ID = ''c''\<rparr>"])
     (simp_all add: dead_plugin_def demo_cni_def loadConf_def replaced_pod_def)

lemma add_pod_run:
  assumes "run_state (add_pod pl args ns pod) w = (None, w')"
  shows "\<exists>srcIP srcIntf w1 b w2. run_state (getVxlanSource (pl_net pl) (pod_NodeIp pod) (pod_NodeIntf pod)) w = (Inr (srcIP, srcIntf), w1) \<and>
     run_state (lc_SetAlive (pl_local pl)
       (pod\<lparr>pod_NetNs := ca_Netns args, pod_SrcIp := srcIP, pod_ContainerId := ca_ContainerID args\<rparr>)) w1 = (Inr (Some b), w2) \<and>
     br_Response b \<and> run_state (add_links pl ns (ca_Netns args) srcIntf
       (pod\<lparr>pod_NetNs := ca_Netns args, pod_SrcIp := srcIP, pod_ContainerId := ca_ContainerID args\<rparr>) (pod_Links pod)) w2 = (None, w')"
proof -
  obtain s w1 where s: "run_state (getVxlanSource (pl_net pl) (pod_NodeIp pod) (pod_NodeIntf pod)) w = (s, w1)" by fastforce
  obtain srcIP srcIntf where i: "s = Inr (srcIP, srcIntf)" using assms s by (cases s) (auto simp: add_pod_def)
  let ?p = "pod\<lparr>pod_NetNs := ca_Netns args, pod_SrcIp := srcIP, pod_ContainerId := ca_ContainerID args\<rparr>"
  obtain ok w2 where ok: "run_state (lc_SetAlive (pl_local pl) ?p) w1 = (ok, w2)" by fastforce
  have n: "boolResponseErr ok ''SetAlive'' = None" using assms s i ok by (auto simp: add_pod_def Let_def split: option.splits)
  then obtain b where b: "ok = Inr (Some b)" "br_Response b"
    by (auto simp: boolResponseErr_def split: sum.splits option.splits if_splits)
  have "run_state (add_links pl ns (ca_Netns args) srcIntf ?p (pod_Links pod)) w2 = (None, w')"
    using assms s i ok n by (simp add: add_pod_def Let_def)
  with s i ok b show ?thesis by blast
qed

text \<open>
  ADD reports success only when it has dialled the daemon and, after a number of rounds
  in which the daemon was not ready, a round of the wait answered: either that the pod has
  no topology, after which nothing but the result is printed; or the pod, after which it was
  marked alive and every one of its links was handled without an error.
\<close>

lemma add_run:
  assumes "run_state (cmdAdd fuel pl args) w = (Some None, w')"
  shows "\<exists>n result k w0 w1 now i w2 w3 w4. loadConf (pl_cni pl) (ca_StdinData args) = Inr (n, result) \<and>
     LoadArgs (pl_cni pl) (ca_Args args) = Inr k \<and> run_state (pl_DialLocal pl) w = (None, w0) \<and>
     run_state (Now (pl_os pl)) w0 = (now, w1) \<and> i < fuel \<and>
     missed i (get_round pl (now + localDaemonReadyTimeout) \<lparr>pq_Name = K8S_POD_NAME k, pq_KubeNs = K8S_POD_NAMESPACE k\<rparr>) w1 w2 \<and>
     run_state (PrintResult (pl_cni pl) result (nc_CNIVersion n)) w4 = (None, w') \<and>
     ((\<exists>e. run_state (lc_Get (pl_local pl) \<lparr>pq_Name = K8S_POD_NAME k, pq_KubeNs = K8S_POD_NAMESPACE k\<rparr>) w2 = (Inl e, w3) \<and>
         status_code e = NotFound \<and> w4 = w3) \<or>
      (\<exists>pod. run_state (lc_Get (pl_local pl) \<lparr>pq_Name = K8S_POD_NAME k, pq_KubeNs = K8S_POD_NAMESPACE k\<rparr>) w2 = (Inr pod, w3) \<and>
         run_state (add_pod pl args (K8S_POD_NAMESPACE k) pod) w3 = (None, w4)))"
proof -
  obtain n result where n: "loadConf (pl_cni pl) (ca_StdinData args) = Inr (n, result)"
    using assms by (cases "loadConf (pl_cni pl) (ca_StdinData args)") (auto simp: cmdAdd_def)
  obtain k where k: "LoadArgs (pl_cni pl) (ca_Args args) = Inr k"
    using assms n by (cases "LoadArgs (pl_cni pl) (ca_Args args)") (auto simp: cmdAdd_def)
  let ?q = "\<lparr>pq_Name = K8S_POD_NAME k, pq_KubeNs = K8S_POD_NAMESPACE k\<rparr>"
  obtain ed w0 where ed: "run_state (pl_DialLocal pl) w = (ed, w0)" by fastforce
  have edn: "ed = None" using assms n k ed by (cases ed) (auto simp: cmdAdd_def)
  obtain now w1 where now: "run_state (Now (pl_os pl)) w0 = (now, w1)" by fastforce
  let ?r = "get_round pl (now + localDaemonReadyTimeout) ?q"
  obtain rp w3 where rp: "run_state (forever fuel ?r) w1 = (rp, w3)" by fastforce
  obtain x where x: "rp = Some x" using assms n k ed edn now rp
    by (cases rp) (auto simp: cmdAdd_def getLocalPodWithRetry_def)
  from forever_missed [OF rp [unfolded x]] obtain i w2 where
    i: "i < fuel" "missed i ?r w1 w2" and r: "run_state ?r w2 = (Some x, w3)" by blast
  obtain g wg where g: "run_state (lc_Get (pl_local pl) ?q) w2 = (g, wg)" by fastforce
  show ?thesis
  proof (cases x)
    case (Inl e)
    have p: "status_code e = NotFound" "run_state (PrintResult (pl_cni pl) result (nc_CNIVersion n)) w3 = (None, w')"
      using assms n k ed edn now rp x Inl by (auto simp: cmdAdd_def getLocalPodWithRetry_def split: if_splits prod.splits)
    have "g = Inl e" "wg = w3" using r g p(1) Inl
      by (cases g; auto simp: get_round_def not_ready_def split: if_splits prod.splits)+
    then show ?thesis using n k ed edn now i p g by blast
  next
    case (Inr pod)
    have gp: "g = Inr pod" "wg = w3" using r g Inr by (cases g; auto simp: get_round_def split: if_splits prod.splits)+
    obtain ea w4 where ea: "run_state (add_pod pl args (K8S_POD_NAMESPACE k) pod) w3 = (ea, w4)" by fastforce
    have "ea = None" "run_state (PrintResult (pl_cni pl) result (nc_CNIVersion n)) w4 = (None, w')"
      using assms n k ed edn now rp x Inr ea by (cases ea; auto simp: cmdAdd_def getLocalPodWithRetry_def split: prod.splits)+
    then show ?thesis using n k ed edn now i ea g gp by blast
  qed
qed

end
