(* ===== verification/Skip_Ledger.thy ===== *)
theory Skip_Ledger
  imports Reference_Env
begin

text \<open>
  The topology status handlers of \<open>daemon/meshnet/handler.go\<close> that write Kubernetes
  objects: \<open>SetAlive\<close>, \<open>Skip\<close>, \<open>SkipReverse\<close> and \<open>IsSkipped\<close>.  A pod's
  object carries the list of peers it skipped; two pods agree through these lists on who
  creates a link.
\<close>

section \<open>Reading and writing the object\<close>

definition skipped_path :: "string list" where
  "skipped_path = [''status'', ''skipped'']"
definition src_ip_path :: "string list" where
  "src_ip_path = [''status'', ''src_ip'']"
definition net_ns_path :: "string list" where
  "net_ns_path = [''status'', ''net_ns'']"
definition container_path :: "string list" where
  "container_path = [''status'', ''container_id'']"

definition getPod :: "'w kube_env \<Rightarrow> string \<Rightarrow> string \<Rightarrow> ('w, json res) io" where
  "getPod k name ns = TopoGet k ns name"

definition updateStatus :: "'w kube_env \<Rightarrow> json \<Rightarrow> string \<Rightarrow> ('w, goerr option) io" where
  "updateStatus k ob ns = as_err (TopoUpdateStatus k ns ob)"

definition bool_reply :: "goerr option \<Rightarrow> BoolResponse \<times> goerr option" where
  "bool_reply e = (case e of None \<Rightarrow> (ok_response, None) | Some e \<Rightarrow> (no_response, Some e))"

definition set_alive_attempt :: "unstr_lib \<Rightarrow> 'w kube_env \<Rightarrow> Pod \<Rightarrow> ('w, goerr option) io" where
  "set_alive_attempt u k pod = do {
     r \<leftarrow> getPod k (pod_Name pod) (pod_KubeNs pod);
     (case r of
        Inl e \<Rightarrow> return (Some e)
      | Inr ob \<Rightarrow>
          (let o1 = fst (SetNestedField u ob (JStr (pod_SrcIp pod)) src_ip_path);
               o2 = fst (SetNestedField u o1 (JStr (pod_NetNs pod)) net_ns_path);
               o3 = fst (SetNestedField u o2 (JStr (pod_ContainerId pod)) container_path)
           in updateStatus k o3 (pod_KubeNs pod)))
   }"

definition SetAlive :: "unstr_lib \<Rightarrow> 'w kube_env \<Rightarrow> Pod \<Rightarrow> ('w, BoolResponse \<times> goerr option) io" where
  "SetAlive u k pod = do { e \<leftarrow> RetryOnConflict k (set_alive_attempt u k pod); return (bool_reply e) }"

section \<open>The skip lists\<close>

text \<open>\<open>el.(map[string]interface{})\<close> and \<open>FromUnstructured\<close> of one element.\<close>

definition decode_skip :: "unstr_lib \<Rightarrow> json \<Rightarrow> Skipped option" where
  "decode_skip u el =
     (if is_map el then (case FromSkipped u el of Inl e \<Rightarrow> None | Inr s \<Rightarrow> Some s) else None)"

definition skip_list :: "json list option \<Rightarrow> json list" where
  "skip_list v = (case v of None \<Rightarrow> [] | Some l \<Rightarrow> l)"

definition skip_attempt :: "unstr_lib \<Rightarrow> 'w kube_env \<Rightarrow> SkipQuery \<Rightarrow> ('w, goerr option) io" where
  "skip_attempt u k q = do {
     r \<leftarrow> getPod k (sq_Pod q) (sq_KubeNs q);
     (case r of
        Inl e \<Rightarrow> return (Some e)
      | Inr ob \<Rightarrow>
          (case NestedSlice u ob skipped_path of
             (skipped, found, err) \<Rightarrow>
               if found \<and> err \<noteq> None then return err
               else (case ToSkipped u \<lparr>sk_PodName = sq_Peer q, sk_LinkId = sq_LinkId q\<rparr> of
                       Inl e \<Rightarrow> return (Some e)
                     | Inr newItem \<Rightarrow>
                         (case SetNestedField u ob (JList (skip_list skipped @ [newItem])) skipped_path of
                            (ob', Some e) \<Rightarrow> return (Some e)
                          | (ob', None) \<Rightarrow> updateStatus k ob' (sq_KubeNs q)))))
   }"

definition Skip :: "unstr_lib \<Rightarrow> 'w kube_env \<Rightarrow> SkipQuery \<Rightarrow> ('w, BoolResponse \<times> goerr option) io" where
  "Skip u k q = do { e \<leftarrow> RetryOnConflict k (skip_attempt u k q); return (bool_reply e) }"

definition lists_skip :: "unstr_lib \<Rightarrow> string \<Rightarrow> int64 \<Rightarrow> json list \<Rightarrow> bool" where
  "lists_skip u pod link els \<longleftrightarrow>
     list_ex (\<lambda>el. case decode_skip u el of None \<Rightarrow> False
        | Some s \<Rightarrow> pod = sk_PodName s \<and> link = sk_LinkId s) els"

definition reverse_peer_attempt :: "unstr_lib \<Rightarrow> 'w kube_env \<Rightarrow> SkipQuery \<Rightarrow> ('w, goerr option) io" where
  "reverse_peer_attempt u k q = do {
     r \<leftarrow> getPod k (sq_Peer q) (sq_KubeNs q);
     (case r of
        Inl e \<Rightarrow> return (Some e)
      | Inr peerPod \<Rightarrow>
          if fst (NestedString u peerPod src_ip_path) = '''' \<or> fst (NestedString u peerPod net_ns_path) = ''''
          then return None
          else (case NestedSlice u peerPod skipped_path of
                  (peerSkipped, found, err) \<Rightarrow>
                    if found \<and> err \<noteq> None then return err
                    else (case (if lists_skip u (sq_Pod q) (sq_LinkId q) (skip_list peerSkipped)
                                then Inr (skip_list peerSkipped)
                                else (case ToSkipped u \<lparr>sk_PodName = sq_Pod q, sk_LinkId = sq_LinkId q\<rparr> of
                                        Inl e \<Rightarrow> Inl e | Inr newItem \<Rightarrow> Inr (skip_list peerSkipped @ [newItem]))) of
                            Inl e \<Rightarrow> return (Some e)
                          | Inr newPeerSkipped \<Rightarrow>
                              (case SetNestedField u peerPod (JList newPeerSkipped) skipped_path of
                                 (ob', Some e) \<Rightarrow> return (Some e)
                               | (ob', None) \<Rightarrow> updateStatus k ob' (sq_KubeNs q)))))
   }"

text \<open>The entries the second half keeps: another peer \<open>and\<close> another link.\<close>

definition reverse_keep :: "unstr_lib \<Rightarrow> SkipQuery \<Rightarrow> json \<Rightarrow> bool" where
  "reverse_keep u q el =
     (case decode_skip u el of
        None \<Rightarrow> False
      | Some s \<Rightarrow> sk_PodName s \<noteq> sq_Peer q \<and> sk_LinkId s \<noteq> sq_LinkId q)"

definition reverse_this_attempt :: "unstr_lib \<Rightarrow> 'w kube_env \<Rightarrow> SkipQuery \<Rightarrow> ('w, goerr option) io" where
  "reverse_this_attempt u k q = do {
     r \<leftarrow> getPod k (sq_Pod q) (sq_KubeNs q);
     (case r of
        Inl e \<Rightarrow> return (Some e)
      | Inr thisPod \<Rightarrow>
          (case NestedSlice u thisPod skipped_path of
             (thisSkipped, found, err) \<Rightarrow>
               if found \<and> err \<noteq> None then return err
               else (case SetNestedField u thisPod
                            (JList (filter (reverse_keep u q) (skip_list thisSkipped))) skipped_path of
                       (ob', Some e) \<Rightarrow> return (Some e)
                     | (ob', None) \<Rightarrow> updateStatus k ob' (sq_KubeNs q))))
   }"

definition SkipReverse :: "unstr_lib \<Rightarrow> 'w kube_env \<Rightarrow> SkipQuery \<Rightarrow> ('w, BoolResponse \<times> goerr option) io" where
  "SkipReverse u k q = do {
     e1 \<leftarrow> RetryOnConflict k (reverse_peer_attempt u k q);
     (case e1 of
        Some e \<Rightarrow> return (no_response, Some e)
      | None \<Rightarrow> do {
          e2 \<leftarrow> RetryOnConflict k (reverse_this_attempt u k q);
          return (bool_reply e2)
        })
   }"

definition IsSkipped :: "unstr_lib \<Rightarrow> 'w kube_env \<Rightarrow> SkipQuery \<Rightarrow> ('w, BoolResponse option \<times> goerr option) io" where
  "IsSkipped u k q = do {
     r \<leftarrow> getPod k (sq_Peer q) (sq_KubeNs q);
     return (case r of
         Inl e \<Rightarrow> (None, Some e)
       | Inr ob \<Rightarrow>
           (case NestedSlice u ob skipped_path of
              (skipped, found, err) \<Rightarrow>
                if found \<and> err \<noteq> None then (None, err)
                else if lists_skip u (sq_Pod q) (sq_LinkId q) (skip_list skipped) then (Some ok_response, None)
                else (Some no_response, None)))
   }"

section \<open>What the handlers do to the store\<close>

definition status_laws :: "unstr_lib \<Rightarrow> bool" where
  "status_laws u \<longleftrightarrow> skipped_codec u \<and> set_slice_law u skipped_path \<and> name_law u skipped_path \<and>
     frame_law u skipped_path src_ip_path \<and> frame_law u skipped_path net_ns_path \<and>
     (\<forall>p \<in> {src_ip_path, net_ns_path, container_path}.
        set_string_law u p \<and> name_law u p \<and> frame_law u p skipped_path) \<and>
     frame_law u net_ns_path src_ip_path \<and> frame_law u container_path src_ip_path \<and>
     frame_law u container_path net_ns_path"

text \<open>An object as the handlers see it: who it skipped, and its status strings.\<close>

definition skips_of :: "unstr_lib \<Rightarrow> json \<Rightarrow> Skipped list" where
  "skips_of u ob = List.map_filter (decode_skip u) (skip_list (fst (NestedSlice u ob skipped_path)))"

definition alive_obj :: "unstr_lib \<Rightarrow> json \<Rightarrow> bool" where
  "alive_obj u ob \<longleftrightarrow> fst (NestedString u ob src_ip_path) \<noteq> '''' \<and> fst (NestedString u ob net_ns_path) \<noteq> ''''"

lemma map_filter_simps [simp]:
  "List.map_filter f [] = []"
  "List.map_filter f (x # xs) = (case f x of None \<Rightarrow> List.map_filter f xs | Some y \<Rightarrow> y # List.map_filter f xs)"
  "List.map_filter f (xs @ ys) = List.map_filter f xs @ List.map_filter f ys"
  by (simp_all add: List.map_filter_def split: option.split)

lemma lists_skip_iff:
  "lists_skip u pod link els \<longleftrightarrow> \<lparr>sk_PodName = pod, sk_LinkId = link\<rparr> \<in> set (List.map_filter (decode_skip u) els)"
  by (induction els) (auto simp: lists_skip_def split: option.splits)

lemma decode_new_skip: "skipped_codec u \<Longrightarrow> ToSkipped u s = Inr j \<Longrightarrow> decode_skip u j = Some s"
  by (auto simp: skipped_codec_def decode_skip_def)

lemma reverse_keep_decoded:
  "List.map_filter (decode_skip u) (filter (reverse_keep u q) els) =
     filter (\<lambda>s. sk_PodName s \<noteq> sq_Peer q \<and> sk_LinkId s \<noteq> sq_LinkId q) (List.map_filter (decode_skip u) els)"
  by (induction els) (auto simp: reverse_keep_def split: option.splits)

lemma frame_lawD:
  assumes "frame_law u p q"
  shows "NestedSlice u (fst (SetNestedField u ob v p)) q = NestedSlice u ob q"
    "NestedString u (fst (SetNestedField u ob v p)) q = NestedString u ob q"
  using assms by (simp_all add: frame_law_def)

lemma name_lawD: "name_law u p \<Longrightarrow> GetName u (fst (SetNestedField u ob v p)) = GetName u ob"
  by (simp add: name_law_def)

lemma write_skips:
  assumes L: "status_laws u" and S: "topo_store u k st"
    and set: "SetNestedField u ob (JList vs) skipped_path = (ob', None)"
    and run: "run_state (updateStatus k ob' ns) w = (r, w')"
  shows "(r \<noteq> None \<longrightarrow> st w' = st w) \<and>
     (r = None \<longrightarrow> st w' = set_object (st w) ns (GetName u ob) ob') \<and>
     skips_of u ob' = List.map_filter (decode_skip u) vs \<and> alive_obj u ob' = alive_obj u ob"
proof -
  have put: "put_law u st (TopoUpdateStatus k)" using S by (simp add: topo_store_def)
  have laws: "set_slice_law u skipped_path" "name_law u skipped_path" "frame_law u skipped_path src_ip_path"
    "frame_law u skipped_path net_ns_path" using L by (simp_all add: status_laws_def)
  have nm: "GetName u ob' = GetName u ob" using laws(2) set unfolding name_law_def by (metis fst_conv)
  have sk: "NestedSlice u ob' skipped_path = (Some vs, True, None)"
    using laws(1) set unfolding set_slice_law_def by blast
  have "NestedString u ob' src_ip_path = NestedString u ob src_ip_path"
    "NestedString u ob' net_ns_path = NestedString u ob net_ns_path"
    using laws(3,4) set unfolding frame_law_def by (metis fst_conv)+
  then have al: "alive_obj u ob' = alive_obj u ob" by (simp add: alive_obj_def)
  obtain x where x: "run_state (TopoUpdateStatus k ns ob') w = (x, w')"
    "r = (case x of Inl e \<Rightarrow> Some e | Inr _ \<Rightarrow> None)" using run by (auto simp: updateStatus_def)
  show ?thesis
    using put_lawD [OF put x(1)] x(2) nm sk al
    by (cases x) (auto simp: set_object_def skips_of_def skip_list_def)
qed

text \<open>
  An edit of the object named \<open>n\<close>: it is there, its new version satisfies \<open>Q\<close> of the
  old one, and nothing else in the store changes.
\<close>

definition edited :: "('m \<Rightarrow> 'n \<Rightarrow> json option) \<Rightarrow> ('m \<Rightarrow> 'n \<Rightarrow> json option) \<Rightarrow> 'm \<Rightarrow> 'n \<Rightarrow>
    (json \<Rightarrow> json \<Rightarrow> bool) \<Rightarrow> bool" where
  "edited s s' ns n Q \<longleftrightarrow> (\<exists>ob ob'. s ns n = Some ob \<and> s' = set_object s ns n ob' \<and> Q ob ob')"

lemma edit_done:
  assumes "(r \<noteq> None \<longrightarrow> t' = t) \<and> (r = None \<longrightarrow> t' = set_object t ns nm ob') \<and> P"
    and "t = s" "s ns n = Some ob" "nm = n" "Q ob ob'"
  shows "(r \<noteq> None \<longrightarrow> t' = s) \<and> (r = None \<longrightarrow> edited s t' ns n Q)"
  using assms unfolding edited_def by auto

lemma skip_attempt_effect:
  assumes L: "status_laws u" and S: "topo_store u k st" and run: "run_state (skip_attempt u k q) w = (r, w')"
  shows "(r \<noteq> None \<longrightarrow> st w' = st w) \<and>
     (r = None \<longrightarrow> edited (st w) (st w') (sq_KubeNs q) (sq_Pod q) (\<lambda>ob ob'.
        skips_of u ob' = skips_of u ob @ [\<lparr>sk_PodName = sq_Peer q, sk_LinkId = sq_LinkId q\<rparr>] \<and>
        alive_obj u ob' = alive_obj u ob))"
proof -
  have get: "get_law u st (TopoGet k)" using S by (simp add: topo_store_def)
  have sc: "skipped_codec u" using L by (simp add: status_laws_def)
  obtain g w1 where g: "run_state (TopoGet k (sq_KubeNs q) (sq_Pod q)) w = (g, w1)" by fastforce
  note gd = get_lawD [OF get g]
  note df = skip_attempt_def getPod_def
  show ?thesis
  proof (cases g)
    case (Inl e)
    then show ?thesis using run g gd(1) by (auto simp: df)
  next
    case (Inr ob)
    from gd(2) [OF Inr] have ob: "st w (sq_KubeNs q) (sq_Pod q) = Some ob" "GetName u ob = sq_Pod q" by simp_all
    obtain v f e where sl: "NestedSlice u ob skipped_path = (v, f, e)" by (cases "NestedSlice u ob skipped_path")
    let ?new = "\<lparr>sk_PodName = sq_Peer q, sk_LinkId = sq_LinkId q\<rparr>"
    show ?thesis
    proof (cases "f \<and> e \<noteq> None")
      case True
      then show ?thesis using run Inr g gd(1) sl by (auto simp: df)
    next
      case nf: False
      show ?thesis
      proof (cases "ToSkipped u ?new")
        case (Inl e)
        then show ?thesis using run \<open>g = Inr ob\<close> g gd(1) sl nf by (auto simp: df)
      next
        case j: (Inr j)
        obtain ob' er where set: "SetNestedField u ob (JList (skip_list v @ [j])) skipped_path = (ob', er)" by fastforce
        show ?thesis
        proof (cases er)
          case (Some e)
          then show ?thesis using run \<open>g = Inr ob\<close> g gd(1) sl nf j set by (auto simp: df)
        next
          case None
          have wr: "run_state (updateStatus k ob' (sq_KubeNs q)) w1 = (r, w')"
            using run \<open>g = Inr ob\<close> g gd(1) sl nf j set None by (auto simp: df)
          note ws = write_skips [OF L S set [unfolded None] wr]
          have "List.map_filter (decode_skip u) (skip_list v @ [j]) = skips_of u ob @ [?new]"
            using sl decode_new_skip [OF sc j] by (simp add: skips_of_def)
          then show ?thesis using ws by (intro edit_done [OF ws gd(1) ob]) simp
        qed
      qed
    qed
  qed
qed

lemma reverse_peer_effect:
  assumes L: "status_laws u" and S: "topo_store u k st" and run: "run_state (reverse_peer_attempt u k q) w = (r, w')"
  shows "(r \<noteq> None \<longrightarrow> st w' = st w) \<and>
     (r = None \<longrightarrow> (\<exists>ob. st w (sq_KubeNs q) (sq_Peer q) = Some ob \<and>
        (if alive_obj u ob
         then edited (st w) (st w') (sq_KubeNs q) (sq_Peer q) (\<lambda>ob ob'.
                skips_of u ob' = (if \<lparr>sk_PodName = sq_Pod q, sk_LinkId = sq_LinkId q\<rparr> \<in> set (skips_of u ob)
                   then skips_of u ob
                   else skips_of u ob @ [\<lparr>sk_PodName = sq_Pod q, sk_LinkId = sq_LinkId q\<rparr>]) \<and>
                alive_obj u ob' = alive_obj u ob)
         else st w' = st w)))"
proof -
  have get: "get_law u st (TopoGet k)" using S by (simp add: topo_store_def)
  have sc: "skipped_codec u" using L by (simp add: status_laws_def)
  obtain g w1 where g: "run_state (TopoGet k (sq_KubeNs q) (sq_Peer q)) w = (g, w1)" by fastforce
  note gd = get_lawD [OF get g]
  note df = reverse_peer_attempt_def getPod_def alive_obj_def
  show ?thesis
  proof (cases g)
    case (Inl e)
    then show ?thesis using run g gd(1) by (auto simp: df)
  next
    case (Inr ob)
    from gd(2) [OF Inr] have ob: "st w (sq_KubeNs q) (sq_Peer q) = Some ob" "GetName u ob = sq_Peer q" by simp_all
    obtain v f e where sl: "NestedSlice u ob skipped_path = (v, f, e)" by (cases "NestedSlice u ob skipped_path")
    let ?new = "\<lparr>sk_PodName = sq_Pod q, sk_LinkId = sq_LinkId q\<rparr>"
    show ?thesis
    proof (cases "alive_obj u ob")
      case False
      then show ?thesis using run Inr g gd(1) ob by (auto simp: df)
    next
      case al: True
      show ?thesis
      proof (cases "f \<and> e \<noteq> None")
        case True
        then show ?thesis using run Inr g gd(1) sl al by (auto simp: df)
      next
        case nf: False
        have sk: "skips_of u ob = List.map_filter (decode_skip u) (skip_list v)" using sl by (simp add: skips_of_def)
        let ?l = "if lists_skip u (sq_Pod q) (sq_LinkId q) (skip_list v) then Inr (skip_list v)
           else (case ToSkipped u ?new of Inl e \<Rightarrow> Inl e | Inr newItem \<Rightarrow> Inr (skip_list v @ [newItem]))"
        show ?thesis
        proof (cases ?l)
          case (Inl e)
          then show ?thesis using run \<open>g = Inr ob\<close> g gd(1) sl nf al by (auto simp: df)
        next
          case l: (Inr l)
          obtain ob' er where set: "SetNestedField u ob (JList l) skipped_path = (ob', er)" by fastforce
          have dl: "List.map_filter (decode_skip u) l =
             (if ?new \<in> set (skips_of u ob) then skips_of u ob else skips_of u ob @ [?new])"
            using l decode_new_skip [OF sc] by (auto simp: lists_skip_iff sk split: if_splits sum.splits)
          show ?thesis
          proof (cases er)
            case (Some e)
            then show ?thesis using run \<open>g = Inr ob\<close> g gd(1) sl nf al l set by (auto simp: df)
          next
            case None
            have wr: "run_state (updateStatus k ob' (sq_KubeNs q)) w1 = (r, w')"
              using run \<open>g = Inr ob\<close> g gd(1) sl nf al l set None by (auto simp: df)
            note ws = write_skips [OF L S set [unfolded None] wr]
            let ?Q = "\<lambda>ob ob'. skips_of u ob' = (if ?new \<in> set (skips_of u ob) then skips_of u ob
                   else skips_of u ob @ [?new]) \<and> alive_obj u ob' = alive_obj u ob"
            have "?Q ob ob'" using ws dl by simp
            from edit_done [OF ws gd(1) ob, of ?Q, OF this] show ?thesis using ob(1) al by simp
          qed
        qed
      qed
    qed
  qed
qed

lemma reverse_this_effect:
  assumes L: "status_laws u" and S: "topo_store u k st" and run: "run_state (reverse_this_attempt u k q) w = (r, w')"
  shows "(r \<noteq> None \<longrightarrow> st w' = st w) \<and>
     (r = None \<longrightarrow> edited (st w) (st w') (sq_KubeNs q) (sq_Pod q) (\<lambda>ob ob'.
        skips_of u ob' = filter (\<lambda>s. sk_PodName s \<noteq> sq_Peer q \<and> sk_LinkId s \<noteq> sq_LinkId q) (skips_of u ob) \<and>
        alive_obj u ob' = alive_obj u ob))"
proof -
  have get: "get_law u st (TopoGet k)" using S by (simp add: topo_store_def)
  obtain g w1 where g: "run_state (TopoGet k (sq_KubeNs q) (sq_Pod q)) w = (g, w1)" by fastforce
  note gd = get_lawD [OF get g]
  note df = reverse_this_attempt_def getPod_def
  show ?thesis
  proof (cases g)
    case (Inl e)
    then show ?thesis using run g gd(1) by (auto simp: df)
  next
    case (Inr ob)
    from gd(2) [OF Inr] have ob: "st w (sq_KubeNs q) (sq_Pod q) = Some ob" "GetName u ob = sq_Pod q" by simp_all
    obtain v f e where sl: "NestedSlice u ob skipped_path = (v, f, e)" by (cases "NestedSlice u ob skipped_path")
    show ?thesis
    proof (cases "f \<and> e \<noteq> None")
      case True
      then show ?thesis using run Inr g gd(1) sl by (auto simp: df)
    next
      case nf: False
      obtain ob' er where set: "SetNestedField u ob (JList (filter (reverse_keep u q) (skip_list v))) skipped_path = (ob', er)"
        by fastforce
      show ?thesis
      proof (cases er)
        case (Some e)
        then show ?thesis using run \<open>g = Inr ob\<close> g gd(1) sl nf set by (auto simp: df)
      next
        case None
        have wr: "run_state (updateStatus k ob' (sq_KubeNs q)) w1 = (r, w')"
          using run \<open>g = Inr ob\<close> g gd(1) sl nf set None by (auto simp: df)
        note ws = write_skips [OF L S set [unfolded None] wr]
        have "List.map_filter (decode_skip u) (filter (reverse_keep u q) (skip_list v)) =
            filter (\<lambda>s. sk_PodName s \<noteq> sq_Peer q \<and> sk_LinkId s \<noteq> sq_LinkId q) (skips_of u ob)"
          using sl reverse_keep_decoded by (simp add: skips_of_def)
        then show ?thesis using ws by (intro edit_done [OF ws gd(1) ob]) simp
      qed
    qed
  qed
qed

text \<open>The three strings can be written into the object (its status is a map).\<close>

definition alive_ok :: "unstr_lib \<Rightarrow> Pod \<Rightarrow> json \<Rightarrow> bool" where
  "alive_ok u pod ob \<longleftrightarrow>
     (let (o1, e1) = SetNestedField u ob (JStr (pod_SrcIp pod)) src_ip_path;
          (o2, e2) = SetNestedField u o1 (JStr (pod_NetNs pod)) net_ns_path;
          (o3, e3) = SetNestedField u o2 (JStr (pod_ContainerId pod)) container_path
      in e1 = None \<and> e2 = None \<and> e3 = None)"

lemma set_alive_effect:
  assumes L: "status_laws u" and S: "topo_store u k st" and run: "run_state (set_alive_attempt u k p) w = (r, w')"
    and ok: "\<And>ob. st w (pod_KubeNs p) (pod_Name p) = Some ob \<Longrightarrow> alive_ok u p ob"
  shows "(r \<noteq> None \<longrightarrow> st w' = st w) \<and>
     (r = None \<longrightarrow> edited (st w) (st w') (pod_KubeNs p) (pod_Name p) (\<lambda>ob ob'.
        fst (NestedString u ob' src_ip_path) = pod_SrcIp p \<and> fst (NestedString u ob' net_ns_path) = pod_NetNs p \<and>
        fst (NestedString u ob' container_path) = pod_ContainerId p \<and> skips_of u ob' = skips_of u ob))"
proof -
  have get: "get_law u st (TopoGet k)" and put: "put_law u st (TopoUpdateStatus k)"
    using S by (simp_all add: topo_store_def)
  obtain g w1 where g: "run_state (TopoGet k (pod_KubeNs p) (pod_Name p)) w = (g, w1)" by fastforce
  note gd = get_lawD [OF get g]
  note df = set_alive_attempt_def getPod_def
  show ?thesis
  proof (cases g)
    case (Inl e)
    then show ?thesis using run g gd(1) by (auto simp: df)
  next
    case (Inr ob)
    from gd(2) [OF Inr] have ob: "st w (pod_KubeNs p) (pod_Name p) = Some ob" "GetName u ob = pod_Name p" by simp_all
    let ?o1 = "fst (SetNestedField u ob (JStr (pod_SrcIp p)) src_ip_path)"
    let ?o2 = "fst (SetNestedField u ?o1 (JStr (pod_NetNs p)) net_ns_path)"
    let ?o3 = "fst (SetNestedField u ?o2 (JStr (pod_ContainerId p)) container_path)"
    have s: "SetNestedField u ob (JStr (pod_SrcIp p)) src_ip_path = (?o1, None)"
      "SetNestedField u ?o1 (JStr (pod_NetNs p)) net_ns_path = (?o2, None)"
      "SetNestedField u ?o2 (JStr (pod_ContainerId p)) container_path = (?o3, None)"
      using ok [OF ob(1)] by (auto simp: alive_ok_def case_prod_beta prod_eq_iff Let_def)
    note laws = L [unfolded status_laws_def]
    have law: "\<And>p. p \<in> {src_ip_path, net_ns_path, container_path} \<Longrightarrow>
        set_string_law u p \<and> name_law u p \<and> frame_law u p skipped_path" using laws by blast
    have v: "NestedString u ?o1 src_ip_path = (pod_SrcIp p, True, None)"
      "NestedString u ?o2 net_ns_path = (pod_NetNs p, True, None)"
      "NestedString u ?o3 container_path = (pod_ContainerId p, True, None)"
      using law s unfolding set_string_law_def by blast+
    have fr: "frame_law u net_ns_path src_ip_path" "frame_law u container_path src_ip_path"
      "frame_law u container_path net_ns_path" using laws by blast+
    have keep: "NestedString u ?o3 src_ip_path = NestedString u ?o2 src_ip_path"
      "NestedString u ?o2 src_ip_path = NestedString u ?o1 src_ip_path"
      "NestedString u ?o3 net_ns_path = NestedString u ?o2 net_ns_path"
      using fr unfolding frame_law_def by blast+
    have f3: "frame_law u src_ip_path skipped_path" "frame_law u net_ns_path skipped_path"
      "frame_law u container_path skipped_path" and n3: "name_law u src_ip_path" "name_law u net_ns_path"
      "name_law u container_path" using law by blast+
    have sk: "NestedSlice u ?o3 skipped_path = NestedSlice u ob skipped_path"
      by (simp only: frame_lawD [OF f3(1)] frame_lawD [OF f3(2)] frame_lawD [OF f3(3)])
    have nm: "GetName u ?o3 = pod_Name p"
      by (simp only: name_lawD [OF n3(1)] name_lawD [OF n3(2)] name_lawD [OF n3(3)] ob(2))
    have wr: "run_state (updateStatus k ?o3 (pod_KubeNs p)) w1 = (r, w')"
      using run Inr g by (simp add: df Let_def)
    obtain x where x: "run_state (TopoUpdateStatus k (pod_KubeNs p) ?o3) w1 = (x, w')"
      "r = (case x of Inl e \<Rightarrow> Some e | Inr _ \<Rightarrow> None)" using wr by (auto simp: updateStatus_def)
    have "skips_of u ?o3 = skips_of u ob" by (simp only: skips_of_def sk)
    moreover have "fst (NestedString u ?o3 src_ip_path) = pod_SrcIp p" "fst (NestedString u ?o3 net_ns_path) = pod_NetNs p"
      "fst (NestedString u ?o3 container_path) = pod_ContainerId p" using v keep by simp_all
    ultimately have Q: "fst (NestedString u ?o3 src_ip_path) = pod_SrcIp p \<and> fst (NestedString u ?o3 net_ns_path) = pod_NetNs p \<and>
      fst (NestedString u ?o3 container_path) = pod_ContainerId p \<and> skips_of u ?o3 = skips_of u ob" by blast
    show ?thesis
    proof (cases x)
      case (Inl e)
      then show ?thesis using put_lawD(2) [OF put x(1)] x(2) gd(1) by simp
    next
      case (Inr y)
      then have "st w' = set_object (st w) (pod_KubeNs p) (pod_Name p) ?o3"
        using put_lawD(1) [OF put x(1)] gd(1) by (simp add: set_object_def nm)
      then show ?thesis using Inr x(2) ob(1) Q unfolding edited_def by (simp only: sum.case) blast
    qed
  qed
qed

section \<open>Properties\<close>

lemma bool_reply_None [simp]: "bool_reply e = (r, None) \<longleftrightarrow> e = None \<and> r = ok_response"
  by (cases e) (auto simp: bool_reply_def)

lemma skip_run:
  assumes "status_laws u" "topo_store u k st" "retry_law k" "run_state (Skip u k q) w = ((r, None), w')"
  shows "edited (st w) (st w') (sq_KubeNs q) (sq_Pod q) (\<lambda>ob ob'.
     skips_of u ob' = skips_of u ob @ [\<lparr>sk_PodName = sq_Peer q, sk_LinkId = sq_LinkId q\<rparr>] \<and>
     alive_obj u ob' = alive_obj u ob)"
proof -
  have "run_state (RetryOnConflict k (skip_attempt u k q)) w = (None, w')"
    using assms(4) by (auto simp: Skip_def split: prod.splits)
  from retry_last [OF assms(3) this, of st] skip_attempt_effect [OF assms(1,2)]
  obtain w0 where w0: "st w0 = st w" "run_state (skip_attempt u k q) w0 = (None, w')" by blast
  from skip_attempt_effect [OF assms(1,2) w0(2), unfolded w0(1)] show ?thesis by simp
qed

lemma is_skipped_run:
  assumes "topo_store u k st" "run_state (IsSkipped u k q) w = ((Some b, None), w')"
  shows "st w' = st w \<and> (\<exists>ob. st w (sq_KubeNs q) (sq_Peer q) = Some ob \<and>
     br_Response b = (\<lparr>sk_PodName = sq_Pod q, sk_LinkId = sq_LinkId q\<rparr> \<in> set (skips_of u ob)))"
proof -
  have get: "get_law u st (TopoGet k)" using assms(1) by (simp add: topo_store_def)
  obtain g w1 where g: "run_state (TopoGet k (sq_KubeNs q) (sq_Peer q)) w = (g, w1)" by fastforce
  note gd = get_lawD [OF get g]
  show ?thesis
    using assms(2) g gd
    by (cases g) (auto simp: IsSkipped_def getPod_def skips_of_def lists_skip_iff split: prod.splits if_splits)
qed

text \<open>
  After pod A has skipped its peer B on a link, B (asking whether it was skipped on
  that link by A) is told yes; for every other pod and link the answer A's object gives is
  what it was before, no entry is lost, and no other pod's object changes.
\<close>

theorem skip_then_is_skipped:
  assumes "status_laws u" "topo_store u k st" "retry_law k"
    and "run_state (Skip u k q) w = ((r, None), w1)"
    and "run_state (IsSkipped u k \<lparr>sq_Pod = p, sq_Peer = sq_Pod q, sq_KubeNs = sq_KubeNs q, sq_LinkId = l\<rparr>) w1
           = ((Some b, None), w2)"
  shows "(br_Response b \<longleftrightarrow> (p = sq_Peer q \<and> l = sq_LinkId q) \<or>
       (\<exists>ob. st w (sq_KubeNs q) (sq_Pod q) = Some ob \<and> \<lparr>sk_PodName = p, sk_LinkId = l\<rparr> \<in> set (skips_of u ob))) \<and>
     (\<forall>m n. (m, n) \<noteq> (sq_KubeNs q, sq_Pod q) \<longrightarrow> st w1 m n = st w m n)"
proof -
  from skip_run [OF assms(1-4)] obtain ob ob' where ob: "st w (sq_KubeNs q) (sq_Pod q) = Some ob"
    "st w1 = set_object (st w) (sq_KubeNs q) (sq_Pod q) ob'"
    "skips_of u ob' = skips_of u ob @ [\<lparr>sk_PodName = sq_Peer q, sk_LinkId = sq_LinkId q\<rparr>]"
    unfolding edited_def by blast
  then have "st w1 (sq_KubeNs q) (sq_Pod q) = Some ob'" by (simp add: set_object_def)
  with is_skipped_run [OF assms(2,5)] ob show ?thesis by (auto simp: set_object_def)
qed

lemma ref_status_laws: "status_laws ref_lib"
proof -
  note paths = skipped_path_def src_ip_path_def net_ns_path_def container_path_def
  have "name_law ref_lib [''status'', f]" for f by (rule ref_set_keeps_name) simp
  moreover have "set_string_law ref_lib p" "set_slice_law ref_lib p" for p
    by (rule ref_set_string, rule ref_set_slice)
  ultimately show ?thesis unfolding status_laws_def paths
    by (auto simp: ref_skipped_codec intro: ref_frame)
qed

definition demo_topo :: "string \<Rightarrow> json" where
  "demo_topo nm = JObj [(''metadata'', JObj [(''name'', JStr nm)]),
     (''status'', JObj [(''src_ip'', JStr ''10.0.0.1''), (''net_ns'', JStr ''/ns''),
        (''skipped'', JList [])])]"

definition demo_two :: api where
  "demo_two = \<lparr>a_topo = [((''t'', ''a''), demo_topo ''a''), ((''t'', ''b''), demo_topo ''b'')], a_gw = [], a_nodes = []\<rparr>"

definition demo_skip :: SkipQuery where
  "demo_skip = \<lparr>sq_Pod = ''a'', sq_Peer = ''b'', sq_KubeNs = ''t'', sq_LinkId = 7\<rparr>"

lemmas demo_eval = demo_two_def demo_topo_def demo_skip_def getPod_def read_obj_def topo_of_def ref_name_def
  ref_string_def ref_slice_def skipped_path_def src_ip_path_def net_ns_path_def container_path_def skip_list_def
  to_skipped_def ref_set_def updateStatus_def as_err_def put_topo_def

lemma demo_skip_runs: "\<exists>w1. run_state (Skip ref_lib ref_kube demo_skip) demo_two = ((ok_response, None), w1)"
  by (simp add: Skip_def skip_attempt_def demo_eval bool_reply_def)

lemma ref_is_skipped_runs:
  "topo_of w (sq_KubeNs q) (sq_Peer q) = Some ob \<Longrightarrow> ref_name ob = sq_Peer q \<Longrightarrow>
     \<exists>b. run_state (IsSkipped ref_lib ref_kube q) w = ((Some b, None), w)"
  by (auto simp: IsSkipped_def getPod_def read_obj_def ref_slice_def split: sum.splits option.splits json.splits)

text \<open>An object keeps its name through the edits, so the server hands it out again.\<close>

definition names_ok :: "api \<Rightarrow> bool" where
  "names_ok a \<longleftrightarrow> (\<forall>e \<in> set (a_topo a). ref_name (snd e) = snd (fst e))"

lemma AList_update_set: "set (AList.update k v al) \<subseteq> insert (k, v) (set al)"
  by (induction al) auto

lemma put_topo_names: "names_ok a \<Longrightarrow> run_state (put_topo ns ob) a = (r, a') \<Longrightarrow> names_ok a'"
  using AList_update_set [of "(ns, ref_name ob)" ob "a_topo a"] by (auto simp: names_ok_def put_topo_def)

lemma names_okD: "names_ok a \<Longrightarrow> topo_of a ns n = Some ob \<Longrightarrow> ref_name ob = n"
  using map_of_SomeD [of "a_topo a" "(ns, n)" ob] by (fastforce simp: names_ok_def topo_of_def)

lemma demo_two_names: "names_ok demo_two"
  by (simp add: names_ok_def demo_eval)

lemma read_obj_world: "run_state (read_obj st ns n) w = (r, w') \<Longrightarrow> w' = w"
  by (simp add: read_obj_def)

lemma update_names: "names_ok w \<Longrightarrow> run_state (updateStatus ref_kube ob ns) w = (r, w') \<Longrightarrow> names_ok w'"
  using put_topo_names [of w ns ob] by (auto simp: updateStatus_def)

lemma skip_names: "names_ok w \<Longrightarrow> run_state (Skip ref_lib ref_kube q) w = (r, w') \<Longrightarrow> names_ok w'"
  by (auto simp: Skip_def skip_attempt_def getPod_def split: prod.splits sum.splits if_splits option.splits
      dest!: read_obj_world dest: update_names)

theorem skip_then_is_skipped_witness:
  "\<exists>w1 w2 b. run_state (Skip ref_lib ref_kube demo_skip) demo_two = ((ok_response, None), w1) \<and>
     run_state (IsSkipped ref_lib ref_kube \<lparr>sq_Pod = ''b'', sq_Peer = ''a'', sq_KubeNs = ''t'', sq_LinkId = 7\<rparr>) w1
       = ((Some b, None), w2) \<and> br_Response b"
proof -
  obtain w1 where w1: "run_state (Skip ref_lib ref_kube demo_skip) demo_two = ((ok_response, None), w1)"
    using demo_skip_runs by blast
  let ?q = "\<lparr>sq_Pod = ''b'', sq_Peer = sq_Pod demo_skip, sq_KubeNs = sq_KubeNs demo_skip, sq_LinkId = 7\<rparr>"
  from skip_run [OF ref_status_laws ref_topo_store ref_retry w1]
  obtain ob' where ob': "topo_of w1 (sq_KubeNs demo_skip) (sq_Pod demo_skip) = Some ob'"
    unfolding edited_def set_object_def by force
  then have "\<exists>b. run_state (IsSkipped ref_lib ref_kube ?q) w1 = ((Some b, None), w1)"
    by (intro ref_is_skipped_runs [of _ _ ob']) (simp_all add: names_okD [OF skip_names [OF demo_two_names w1] ob'])
  then obtain b where b: "run_state (IsSkipped ref_lib ref_kube ?q) w1 = ((Some b, None), w1)" by blast
  from skip_then_is_skipped [OF ref_status_laws ref_topo_store ref_retry w1 b] have "br_Response b"
    by (simp add: demo_skip_def)
  then show ?thesis using w1 b by (auto simp: demo_skip_def)
qed

lemma reverse_run:
  assumes "status_laws u" "topo_store u k st" "retry_law k" "run_state (SkipReverse u k q) w = ((r, None), w')"
  obtains w1 where
    "\<exists>ob. st w (sq_KubeNs q) (sq_Peer q) = Some ob \<and>
        (if alive_obj u ob
         then edited (st w) (st w1) (sq_KubeNs q) (sq_Peer q) (\<lambda>ob ob'.
                skips_of u ob' = (if \<lparr>sk_PodName = sq_Pod q, sk_LinkId = sq_LinkId q\<rparr> \<in> set (skips_of u ob)
                   then skips_of u ob
                   else skips_of u ob @ [\<lparr>sk_PodName = sq_Pod q, sk_LinkId = sq_LinkId q\<rparr>]) \<and>
                alive_obj u ob' = alive_obj u ob)
         else st w1 = st w)"
    "edited (st w1) (st w') (sq_KubeNs q) (sq_Pod q) (\<lambda>ob ob'.
        skips_of u ob' = filter (\<lambda>s. sk_PodName s \<noteq> sq_Peer q \<and> sk_LinkId s \<noteq> sq_LinkId q) (skips_of u ob) \<and>
        alive_obj u ob' = alive_obj u ob)"
proof -
  obtain w1 where r1: "run_state (RetryOnConflict k (reverse_peer_attempt u k q)) w = (None, w1)"
    and r2: "run_state (RetryOnConflict k (reverse_this_attempt u k q)) w1 = (None, w')"
    using assms(4) by (auto simp: SkipReverse_def split: prod.splits option.splits)
  from retry_last [OF assms(3) r1, of st] reverse_peer_effect [OF assms(1,2)]
  obtain a where a: "st a = st w" "run_state (reverse_peer_attempt u k q) a = (None, w1)" by blast
  from retry_last [OF assms(3) r2, of st] reverse_this_effect [OF assms(1,2)]
  obtain b where b: "st b = st w1" "run_state (reverse_this_attempt u k q) b = (None, w')" by blast
  show ?thesis
    using that [of w1] reverse_peer_effect [OF assms(1,2) a(2), unfolded a(1)]
      reverse_this_effect [OF assms(1,2) b(2), unfolded b(1)] by blast
qed

text \<open>
  After a deleted pod has reversed its skips on a link with a live peer, the peer's
  list names the pod for that link (so the pod, coming back, finds itself skipped and
  creates the link again), the peer's other entries are kept, and the pod's own list names
  neither that peer nor that link any more.  Reversing does not duplicate an entry that is
  already there.
\<close>

theorem reverse_makes_peer_skip:
  assumes "status_laws u" "topo_store u k st" "retry_law k" "sq_Pod q \<noteq> sq_Peer q"
    and "run_state (SkipReverse u k q) w = ((r, None), w')"
    and "st w (sq_KubeNs q) (sq_Peer q) = Some peer" "alive_obj u peer"
  shows "\<exists>peer' this'. st w' (sq_KubeNs q) (sq_Peer q) = Some peer' \<and> st w' (sq_KubeNs q) (sq_Pod q) = Some this' \<and>
     set (skips_of u peer') = insert \<lparr>sk_PodName = sq_Pod q, sk_LinkId = sq_LinkId q\<rparr> (set (skips_of u peer)) \<and>
     (distinct (skips_of u peer) \<longrightarrow> distinct (skips_of u peer')) \<and>
     (\<forall>s \<in> set (skips_of u this'). sk_PodName s \<noteq> sq_Peer q \<and> sk_LinkId s \<noteq> sq_LinkId q)"
proof -
  let ?new = "\<lparr>sk_PodName = sq_Pod q, sk_LinkId = sq_LinkId q\<rparr>"
  let ?Q = "\<lambda>ob ob'. skips_of u ob' = (if ?new \<in> set (skips_of u ob) then skips_of u ob
        else skips_of u ob @ [?new]) \<and> alive_obj u ob' = alive_obj u ob"
  obtain w1 where
    r1: "\<exists>ob. st w (sq_KubeNs q) (sq_Peer q) = Some ob \<and>
        (if alive_obj u ob then edited (st w) (st w1) (sq_KubeNs q) (sq_Peer q) ?Q else st w1 = st w)" and
    e2: "edited (st w1) (st w') (sq_KubeNs q) (sq_Pod q) (\<lambda>ob ob'.
        skips_of u ob' = filter (\<lambda>s. sk_PodName s \<noteq> sq_Peer q \<and> sk_LinkId s \<noteq> sq_LinkId q) (skips_of u ob) \<and>
        alive_obj u ob' = alive_obj u ob)"
    using reverse_run [OF assms(1-3,5)] by blast
  have e1: "edited (st w) (st w1) (sq_KubeNs q) (sq_Peer q) ?Q"
    using r1 assms(6,7) by simp
  from e1 assms(6) obtain peer' where p: "st w1 = set_object (st w) (sq_KubeNs q) (sq_Peer q) peer'"
    "skips_of u peer' = (if ?new \<in> set (skips_of u peer) then skips_of u peer else skips_of u peer @ [?new])"
    unfolding edited_def by auto
  from e2 obtain this0 this' where t: "st w' = set_object (st w1) (sq_KubeNs q) (sq_Pod q) this'"
    "skips_of u this' = filter (\<lambda>s. sk_PodName s \<noteq> sq_Peer q \<and> sk_LinkId s \<noteq> sq_LinkId q) (skips_of u this0)"
    unfolding edited_def by blast
  have "st w' (sq_KubeNs q) (sq_Peer q) = Some peer'" "st w' (sq_KubeNs q) (sq_Pod q) = Some this'"
    using assms(4) by (simp_all add: t(1) p(1) set_object_def)
  then show ?thesis using p(2) t(2) by (intro exI [of _ peer'] exI [of _ this']) auto
qed

lemma demo_reverse_runs: "\<exists>w1. run_state (SkipReverse ref_lib ref_kube demo_skip) demo_two = ((ok_response, None), w1)"
  by (simp add: SkipReverse_def reverse_peer_attempt_def reverse_this_attempt_def lists_skip_def demo_eval bool_reply_def)

theorem reverse_makes_peer_skip_witness:
  "\<exists>w' peer'. run_state (SkipReverse ref_lib ref_kube demo_skip) demo_two = ((ok_response, None), w') \<and>
     topo_of w' ''t'' ''b'' = Some peer' \<and> \<lparr>sk_PodName = ''a'', sk_LinkId = 7\<rparr> \<in> set (skips_of ref_lib peer')"
proof -
  obtain w' where w': "run_state (SkipReverse ref_lib ref_kube demo_skip) demo_two = ((ok_response, None), w')"
    using demo_reverse_runs by blast
  have "topo_of demo_two (sq_KubeNs demo_skip) (sq_Peer demo_skip) = Some (demo_topo ''b'')"
    "alive_obj ref_lib (demo_topo ''b'')" "sq_Pod demo_skip \<noteq> sq_Peer demo_skip"
    by (simp_all add: alive_obj_def demo_eval)
  from reverse_makes_peer_skip [OF ref_status_laws ref_topo_store ref_retry this(3) w' this(1,2)] w'
  show ?thesis by (auto simp: demo_skip_def)
qed

text \<open>
  Reversing one link drops from the pod's own list every entry with the same peer or
  the same link id, also those of other links with that peer and of other peers: only
  entries that differ in both are kept.
\<close>

theorem reverse_drops_other_links_of_peer:
  assumes "status_laws u" "topo_store u k st" "retry_law k" "sq_Pod q \<noteq> sq_Peer q"
    and "run_state (SkipReverse u k q) w = ((r, None), w')" "st w (sq_KubeNs q) (sq_Pod q) = Some this"
  shows "\<exists>this'. st w' (sq_KubeNs q) (sq_Pod q) = Some this' \<and>
     skips_of u this' = filter (\<lambda>s. \<not> (sk_PodName s = sq_Peer q \<or> sk_LinkId s = sq_LinkId q)) (skips_of u this)"
proof -
  obtain w1 where w1: "\<exists>ob. st w (sq_KubeNs q) (sq_Peer q) = Some ob \<and>
        (if alive_obj u ob
         then edited (st w) (st w1) (sq_KubeNs q) (sq_Peer q) (\<lambda>ob ob'.
                skips_of u ob' = (if \<lparr>sk_PodName = sq_Pod q, sk_LinkId = sq_LinkId q\<rparr> \<in> set (skips_of u ob)
                   then skips_of u ob
                   else skips_of u ob @ [\<lparr>sk_PodName = sq_Pod q, sk_LinkId = sq_LinkId q\<rparr>]) \<and>
                alive_obj u ob' = alive_obj u ob)
         else st w1 = st w)"
    and e2: "edited (st w1) (st w') (sq_KubeNs q) (sq_Pod q) (\<lambda>ob ob'.
        skips_of u ob' = filter (\<lambda>s. sk_PodName s \<noteq> sq_Peer q \<and> sk_LinkId s \<noteq> sq_LinkId q) (skips_of u ob) \<and>
        alive_obj u ob' = alive_obj u ob)"
    using reverse_run [OF assms(1-3,5)] by blast
  have "st w1 (sq_KubeNs q) (sq_Pod q) = Some this"
    using w1 assms(4,6) unfolding edited_def set_object_def by (auto split: if_splits)
  with e2 show ?thesis unfolding edited_def set_object_def by auto
qed

definition demo_two_links :: api where
  "demo_two_links = \<lparr>a_topo =
     [((''t'', ''a''), JObj [(''metadata'', JObj [(''name'', JStr ''a'')]),
         (''status'', JObj [(''skipped'', JList [projr (to_skipped \<lparr>sk_PodName = ''b'', sk_LinkId = 8\<rparr>)])])]),
      ((''t'', ''b''), demo_topo ''b'')], a_gw = [], a_nodes = []\<rparr>"

theorem reverse_drops_other_links_of_peer_witness:
  "\<exists>w' this'. run_state (SkipReverse ref_lib ref_kube demo_skip) demo_two_links = ((ok_response, None), w') \<and>
     topo_of w' ''t'' ''a'' = Some this' \<and> skips_of ref_lib this' = []"
proof -
  obtain w' where w': "run_state (SkipReverse ref_lib ref_kube demo_skip) demo_two_links = ((ok_response, None), w')"
    by (simp add: SkipReverse_def reverse_peer_attempt_def reverse_this_attempt_def lists_skip_def demo_eval
        bool_reply_def demo_two_links_def)
  obtain this where t: "topo_of demo_two_links (sq_KubeNs demo_skip) (sq_Pod demo_skip) = Some this"
    and s: "skips_of ref_lib this = [\<lparr>sk_PodName = ''b'', sk_LinkId = 8\<rparr>]"
    by (simp add: demo_two_links_def demo_eval skips_of_def decode_skip_def from_skipped_def ref_int_def)
  have "sq_Pod demo_skip \<noteq> sq_Peer demo_skip" by (simp add: demo_skip_def)
  from reverse_drops_other_links_of_peer [OF ref_status_laws ref_topo_store ref_retry this w' t] w' s
  show ?thesis by (simp add: demo_skip_def)
qed

text \<open>
  After a pod has been marked alive (or, with empty strings, dead), its object holds
  exactly the source address, the netns and the container id given, its skip list is what
  it was, and no other object changed; a reported failure changed nothing.
\<close>

theorem set_alive_marks_pod:
  assumes "status_laws u" "topo_store u k st" "retry_law k"
    and "\<And>ob. st w (pod_KubeNs p) (pod_Name p) = Some ob \<Longrightarrow> alive_ok u p ob"
    and "run_state (SetAlive u k p) w = ((r, e), w')"
  shows "(e \<noteq> None \<longrightarrow> r = no_response \<and> st w' = st w) \<and>
     (e = None \<longrightarrow> r = ok_response \<and> edited (st w) (st w') (pod_KubeNs p) (pod_Name p) (\<lambda>ob ob'.
        fst (NestedString u ob' src_ip_path) = pod_SrcIp p \<and> fst (NestedString u ob' net_ns_path) = pod_NetNs p \<and>
        fst (NestedString u ob' container_path) = pod_ContainerId p \<and> skips_of u ob' = skips_of u ob))"
proof -
  obtain x where x: "run_state (RetryOnConflict k (set_alive_attempt u k p)) w = (x, w')" "bool_reply x = (r, e)"
    using assms(5) by (auto simp: SetAlive_def split: prod.splits)
  have keep: "st b = st a" if "run_state (set_alive_attempt u k p) a = (Some y, b)" for a y b
  proof -
    have get: "get_law u st (TopoGet k)" and put: "put_law u st (TopoUpdateStatus k)"
      using assms(2) by (simp_all add: topo_store_def)
    obtain g a1 where g: "run_state (TopoGet k (pod_KubeNs p) (pod_Name p)) a = (g, a1)" by fastforce
    show ?thesis
    proof (cases g)
      case (Inl e)
      then show ?thesis using that g get_lawD(1) [OF get g]
        by (simp add: set_alive_attempt_def getPod_def)
    next
      case (Inr ob)
      let ?ob = "fst (SetNestedField u (fst (SetNestedField u (fst (SetNestedField u ob (JStr (pod_SrcIp p))
          src_ip_path)) (JStr (pod_NetNs p)) net_ns_path)) (JStr (pod_ContainerId p)) container_path)"
      obtain x1 a2 where x1: "run_state (TopoUpdateStatus k (pod_KubeNs p) ?ob) a1 = (x1, a2)"
        by fastforce
      show ?thesis
      proof (cases x1)
        case (Inl e)
        then show ?thesis using that g Inr x1 get_lawD(1) [OF get g] put_lawD(2) [OF put]
          by (auto simp: set_alive_attempt_def getPod_def updateStatus_def Let_def)
      next
        case (Inr d)
        then show ?thesis using that g \<open>g = Inr ob\<close> x1
          by (simp add: set_alive_attempt_def getPod_def updateStatus_def Let_def)
      qed
    qed
  qed
  from retry_last [OF assms(3) x(1), of st] keep
  obtain w0 where w0: "st w0 = st w" "run_state (set_alive_attempt u k p) w0 = (x, w')" by blast
  have ok: "\<And>ob. st w0 (pod_KubeNs p) (pod_Name p) = Some ob \<Longrightarrow> alive_ok u p ob" using assms(4) w0(1) by simp
  note eff = set_alive_effect [OF assms(1,2) w0(2) ok, unfolded w0(1)]
  show ?thesis
  proof (cases x)
    case None
    then have "r = ok_response" "e = None" using x(2) by (simp_all add: bool_reply_def)
    with eff None show ?thesis by simp
  next
    case (Some y)
    then have "r = no_response" "e = Some y" using x(2) by (auto simp: bool_reply_def)
    with eff Some show ?thesis by simp
  qed
qed

definition demo_dead :: Pod where
  "demo_dead = zero_Pod\<lparr>pod_Name := ''a'', pod_KubeNs := ''t''\<rparr>"

theorem set_alive_marks_pod_witness:
  "\<exists>w' ob'. run_state (SetAlive ref_lib ref_kube demo_dead) demo_two = ((ok_response, None), w') \<and>
     topo_of w' ''t'' ''a'' = Some ob' \<and> fst (NestedString ref_lib ob' src_ip_path) = ''''"
proof -
  have ok: "\<And>ob. topo_of demo_two (pod_KubeNs demo_dead) (pod_Name demo_dead) = Some ob \<Longrightarrow> alive_ok ref_lib demo_dead ob"
    by (simp add: demo_dead_def zero_Pod_def demo_eval alive_ok_def)
  obtain w' where run: "run_state (SetAlive ref_lib ref_kube demo_dead) demo_two = ((ok_response, None), w')"
    by (simp add: SetAlive_def set_alive_attempt_def demo_dead_def zero_Pod_def demo_eval bool_reply_def)
  from set_alive_marks_pod [OF ref_status_laws ref_topo_store ref_retry ok run]
  obtain ob' where "topo_of w' (pod_KubeNs demo_dead) (pod_Name demo_dead) = Some ob'"
    "fst (NestedString ref_lib ob' src_ip_path) = pod_SrcIp demo_dead"
    unfolding edited_def set_object_def by force
  then show ?thesis using run by (auto simp: demo_dead_def zero_Pod_def)
qed

end
