(* ===== verification/Iface_Names.thy ===== *)
theory Iface_Names
  imports Meshnet_Prelude
begin

text \<open>
  The node-side interface names of \<open>daemon/grpcwire/grpcwire.go\<close>: the global counter
  \<open>indexGen\<close> with \<open>NextIndex\<close>, its seeding from the interfaces already on the
  host, and \<open>GenNodeIfaceName\<close>, whose names fit the kernel's 15 characters.
\<close>

section \<open>The counter and the names\<close>

record intfIndex =
  currId :: int64

definition NextIndex :: "intfIndex \<Rightarrow> int64 \<times> intfIndex" where
  "NextIndex g = (let c = currId g + 1 in (c, g\<lparr>currId := c\<rparr>))"

text \<open>\<open>fmt.Sprintf("%.5s%.5s-%04d", podName, podIfaceName, NextIndex() % 10000)\<close>.\<close>

definition node_iface_name :: "string \<Rightarrow> string \<Rightarrow> int \<Rightarrow> string" where
  "node_iface_name pod ifc i = take 5 pod @ take 5 ifc @ ''-'' @ fmt_04d i"

definition GenNodeIfaceName :: "string \<Rightarrow> string \<Rightarrow> intfIndex \<Rightarrow> string res \<times> intfIndex" where
  "GenNodeIfaceName podName podIfaceName g =
     (let (n, g') = NextIndex g; i = sint n smod 10000
      in (Inr (node_iface_name podName podIfaceName i), g'))"

text \<open>
  \<open>ifaceSuffixRe\<close>, \<open>-(\d{4})$\<close>: a dash and four digits at the very end; the
  answer is the submatch.
\<close>

definition ifaceSuffixRe :: "string \<Rightarrow> string option" where
  "ifaceSuffixRe name =
     (let t = drop (length name - 5) name
      in if 5 \<le> length name \<and> hd t = CHR ''-'' \<and> list_all is_digit (tl t) then Some (tl t) else None)"

text \<open>The loop of \<open>SeedIndexFromHost\<close>: the largest suffix on the host, or 0.\<close>

definition scan_name :: "int64 \<Rightarrow> string \<Rightarrow> int64" where
  "scan_name maxID nm =
     (case ifaceSuffixRe nm of
        None \<Rightarrow> maxID
      | Some d \<Rightarrow>
          (case atoi d of
             None \<Rightarrow> maxID
           | Some v \<Rightarrow> if sint maxID < v then word_of_int v else maxID))"

fun scan_max :: "string list \<Rightarrow> int64 \<Rightarrow> int64" where
  "scan_max [] maxID = maxID"
| "scan_max (nm # nms) maxID = scan_max nms (scan_name maxID nm)"

definition SeedIndexFromHost :: "string list res \<Rightarrow> intfIndex \<Rightarrow> intfIndex" where
  "SeedIndexFromHost ifaces g =
     (case ifaces of
        Inl e \<Rightarrow> g
      | Inr names \<Rightarrow>
          (let maxID = scan_max names 0
           in if 0 < sint maxID \<and> sint (currId g) < sint maxID then g\<lparr>currId := maxID\<rparr> else g))"

text \<open>\<open>k\<close> calls in a row, as many pods being wired make them.\<close>

fun gen_names :: "(string \<times> string) list \<Rightarrow> intfIndex \<Rightarrow> string list \<times> intfIndex" where
  "gen_names [] g = ([], g)"
| "gen_names ((p, i) # rest) g =
     (case GenNodeIfaceName p i g of
        (Inl e, g') \<Rightarrow> ([], g')
      | (Inr nm, g') \<Rightarrow> (case gen_names rest g' of (nms, g'') \<Rightarrow> (nm # nms, g'')))"

section \<open>Lemmas\<close>

lemma sint_plus_one: "sint c < 2 ^ 63 - 1 \<Longrightarrow> sint (c + 1 :: int64) = sint c + 1"
proof -
  assume "sint c < 2 ^ 63 - 1"
  moreover have "- (2 ^ 63) \<le> sint c" using sint_ge [of c] by simp
  ultimately show ?thesis
    by (subst sint_word_ariths(1)) (simp add: signed_take_bit_int_eq_self)
qed

lemma smod_nonneg: "0 \<le> a \<Longrightarrow> a smod 10000 = a mod (10000 :: int)"
  by (cases "a = 0") (simp_all add: signed_modulo_int_def signed_divide_int_def minus_div_mult_eq_mod)

lemma sint_of_int_small: "0 \<le> v \<Longrightarrow> v < 2 ^ 63 \<Longrightarrow> sint (word_of_int v :: int64) = v"
  by (simp add: signed_of_int signed_take_bit_int_eq_self)

lemma length_node_iface_name:
  assumes "0 \<le> i" "i < 10000"
  shows "length (node_iface_name p f i) \<le> 15"
  using fmt_04d_length [OF assms] by (simp add: node_iface_name_def)

lemma ifaceSuffixRe_name:
  assumes "0 \<le> i" "i < 10000"
  shows "ifaceSuffixRe (node_iface_name p f i) = Some (fmt_04d i)"
proof -
  let ?pre = "take 5 p @ take 5 f"
  have len: "length (fmt_04d i) = 4" by (rule fmt_04d_length [OF assms])
  have "drop (length (node_iface_name p f i) - 5) (node_iface_name p f i) = CHR ''-'' # fmt_04d i"
    using len by (simp add: node_iface_name_def)
  then show ?thesis
    using len fmt_04d_digits [OF assms(1)] by (simp add: ifaceSuffixRe_def node_iface_name_def)
qed

lemma ifaceSuffixRe_Some:
  "ifaceSuffixRe nm = Some d \<Longrightarrow> length d = 4 \<and> list_all is_digit d"
  by (auto simp: ifaceSuffixRe_def Let_def split: if_splits)

lemma dec_val_lt: "list_all is_digit s \<Longrightarrow> dec_val s < 10 ^ length s"
  by (induction s rule: rev_induct) (auto simp: is_digit_def)

lemma not_sign_digit: "is_digit c \<Longrightarrow> c \<noteq> CHR ''-'' \<and> c \<noteq> CHR ''+''"
  by (auto simp: is_digit_def)

lemma atoi_digits:
  assumes "list_all is_digit d" "length d = 4"
  shows "atoi d = Some (int (dec_val d))"
proof -
  obtain c r where d: "d = c # r" using assms(2) by (cases d) auto
  have "int (dec_val d) < 2 ^ 63" using dec_val_lt [OF assms(1)] assms(2) by simp
  then show ?thesis using assms not_sign_digit [of c] by (simp add: atoi_def d Let_def)
qed

lemma scan_name_cases:
  obtains "scan_name m nm = m" "ifaceSuffixRe nm = None"
  | d where "ifaceSuffixRe nm = Some d" "dec_val d < 10000"
      "sint (scan_name m nm) = max (sint m) (int (dec_val d))"
proof (cases "ifaceSuffixRe nm")
  case None
  then show ?thesis using that(1) by (simp add: scan_name_def)
next
  case (Some d)
  then have d: "list_all is_digit d" "length d = 4" using ifaceSuffixRe_Some by blast+
  then have lt: "dec_val d < 10000" using dec_val_lt [of d] by simp
  have "sint (word_of_int (int (dec_val d)) :: int64) = int (dec_val d)"
    using lt by (intro sint_of_int_small) simp_all
  then have "sint (scan_name m nm) = max (sint m) (int (dec_val d))"
    using Some d by (simp add: scan_name_def atoi_digits max_def)
  then show ?thesis using that(2) Some lt by blast
qed

lemma scan_name_ge: "sint m \<le> sint (scan_name m nm)"
  by (rule scan_name_cases [of m nm]) auto

lemma scan_name_bound: "sint m < 10000 \<Longrightarrow> sint (scan_name m nm) < 10000"
  by (rule scan_name_cases [of m nm]) auto

lemma scan_max_ge: "sint m \<le> sint (scan_max nms m)"
  by (induction nms arbitrary: m) (auto intro: order_trans [OF scan_name_ge])

lemma scan_max_bound: "sint m < 10000 \<Longrightarrow> sint (scan_max nms m) < 10000"
  by (induction nms arbitrary: m) (auto intro: scan_name_bound)

lemma scan_max_suffix:
  "nm \<in> set nms \<Longrightarrow> ifaceSuffixRe nm = Some d \<Longrightarrow> int (dec_val d) \<le> sint (scan_max nms m)"
proof (induction nms arbitrary: m)
  case (Cons a nms)
  show ?case
  proof (cases "nm = a")
    case True
    have "int (dec_val d) \<le> sint (scan_name m a)"
      using Cons.prems(2) True by (cases rule: scan_name_cases [of m a]) auto
    then show ?thesis using scan_max_ge [of "scan_name m a" nms] by simp
  next
    case False
    then show ?thesis using Cons by simp
  qed
qed simp

lemma NextIndex_run:
  "sint (currId g) < 2 ^ 63 - 1 \<Longrightarrow>
     sint (fst (NextIndex g)) = sint (currId g) + 1 \<and>
     sint (currId (snd (NextIndex g))) = sint (currId g) + 1"
  by (simp add: NextIndex_def Let_def sint_plus_one)

text \<open>The name of one call, with the counter not negative and not at its end.\<close>

lemma GenNodeIfaceName_run:
  assumes "0 \<le> sint (currId g)" "sint (currId g) < 2 ^ 63 - 1"
  shows "GenNodeIfaceName p f g =
     (Inr (node_iface_name p f ((sint (currId g) + 1) mod 10000)), g\<lparr>currId := currId g + 1\<rparr>)"
  using assms sint_plus_one [of "currId g"]
  by (simp add: GenNodeIfaceName_def NextIndex_def Let_def smod_nonneg)

lemma node_iface_name_inject:
  assumes "node_iface_name p f i = node_iface_name p' f' j" "0 \<le> i" "i < 10000" "0 \<le> j" "j < 10000"
  shows "i = j"
proof -
  have "fmt_04d i = fmt_04d j" using ifaceSuffixRe_name assms by (metis option.inject)
  then have "nat i = nat j" using fmt_04d_val assms by metis
  then show ?thesis using assms by simp
qed

lemma mod_window:
  assumes "(c + int j) mod 10000 = (c + int k) mod 10000"
    "int j < int k" "int k < int j + 10000"
  shows False
proof -
  have "10000 dvd (c + int k) - (c + int j)" using assms(1) by (metis mod_eq_dvd_iff)
  then have "10000 \<le> int k - int j" using assms(2) by (intro zdvd_imp_le) simp_all
  then show False using assms(3) by simp
qed

lemma gen_names_nth:
  assumes "0 \<le> sint (currId g)" "sint (currId g) + int (length ps) < 2 ^ 63"
  shows "length (fst (gen_names ps g)) = length ps \<and>
         (\<forall>k < length ps. fst (gen_names ps g) ! k =
            node_iface_name (fst (ps ! k)) (snd (ps ! k)) ((sint (currId g) + 1 + int k) mod 10000))"
  using assms
proof (induction ps arbitrary: g)
  case (Cons pf ps)
  obtain p f where pf: "pf = (p, f)" by (cases pf)
  let ?g = "g\<lparr>currId := currId g + 1\<rparr>"
  have s: "sint (currId g + 1) = sint (currId g) + 1"
    using Cons.prems by (intro sint_plus_one) simp
  have "0 \<le> sint (currId ?g)" "sint (currId ?g) + int (length ps) < 2 ^ 63"
    using Cons.prems s by simp_all
  note IH = Cons.IH [OF this]
  have head: "gen_names ((p, f) # ps) g =
      (node_iface_name p f ((sint (currId g) + 1) mod 10000) # fst (gen_names ps ?g), snd (gen_names ps ?g))"
    using Cons.prems by (simp add: GenNodeIfaceName_run case_prod_beta)
  show ?case
    unfolding pf
  proof (intro conjI allI impI)
    fix k assume "k < length ((p, f) # ps)"
    then show "fst (gen_names ((p, f) # ps) g) ! k =
        node_iface_name (fst (((p, f) # ps) ! k)) (snd (((p, f) # ps) ! k))
          ((sint (currId g) + 1 + int k) mod 10000)"
      using IH s by (cases k) (auto simp: head algebra_simps simp del: gen_names.simps)
  qed (use IH in \<open>simp add: head del: gen_names.simps\<close>)
qed simp

section \<open>Properties\<close>

text \<open>
  A generated node interface name has at most 15 characters, the kernel's limit, and
  the pattern that \<open>SeedIndexFromHost\<close> scans for recovers the index it was made from,
  so a restarted daemon can read back the indices its previous run used.
\<close>
theorem node_name_fits_and_reparses:
  assumes "0 \<le> sint (currId g)" and "sint (currId g) < 2 ^ 63 - 1"
  shows "\<exists>nm d. GenNodeIfaceName p f g = (Inr nm, snd (NextIndex g)) \<and> length nm \<le> 15
           \<and> ifaceSuffixRe nm = Some d
           \<and> atoi d = Some ((sint (currId g) + 1) mod 10000)"
proof -
  let ?i = "(sint (currId g) + 1) mod 10000"
  have i: "0 \<le> ?i" "?i < 10000" by simp_all
  note suf = ifaceSuffixRe_name [OF i, of p f]
  have "atoi (fmt_04d ?i) = Some ?i"
    using fmt_04d_length [OF i] fmt_04d_digits [OF i(1)] fmt_04d_val [OF i(1)]
    by (simp add: atoi_digits)
  then show ?thesis
    using suf length_node_iface_name [OF i, of p f] GenNodeIfaceName_run [OF assms, of p f]
    by (simp add: NextIndex_def Let_def)
qed

theorem node_name_fits_and_reparses_witness:
  "\<exists>nm d. GenNodeIfaceName ''pod-with-long-name'' ''eno1'' \<lparr>currId = 41\<rparr> =
       (Inr nm, snd (NextIndex \<lparr>currId = 41\<rparr>)) \<and> length nm \<le> 15
     \<and> ifaceSuffixRe nm = Some d \<and> atoi d = Some 42"
  using node_name_fits_and_reparses [of "\<lparr>currId = 41\<rparr>" "''pod-with-long-name''" "''eno1''"] by simp

text \<open>
  Up to 10000 names generated in a row on one node are pairwise different, whatever the
  pods and interfaces are called.
\<close>
theorem node_names_distinct:
  assumes "0 \<le> sint (currId g)" and "sint (currId g) + int (length ps) < 2 ^ 63"
    and "length ps \<le> 10000"
  shows "length (fst (gen_names ps g)) = length ps \<and> distinct (fst (gen_names ps g))"
proof -
  note nth = gen_names_nth [OF assms(1,2)]
  have "fst (gen_names ps g) ! j \<noteq> fst (gen_names ps g) ! k"
    if "j < k" "k < length ps" for j k
  proof
    assume "fst (gen_names ps g) ! j = fst (gen_names ps g) ! k"
    then have "(sint (currId g) + 1 + int j) mod 10000 = (sint (currId g) + 1 + int k) mod 10000"
      using nth that by (intro node_iface_name_inject) auto
    moreover have "int j < int k" "int k < int j + 10000" using that assms(3) by simp_all
    ultimately show False by (intro mod_window) auto
  qed
  then have "distinct (fst (gen_names ps g))"
    using nth by (metis distinct_conv_nth nat_neq_iff)
  then show ?thesis using nth by simp
qed

theorem node_names_distinct_witness:
  "distinct (fst (gen_names [(''r1'', ''eth1''), (''r1'', ''eth1'')] \<lparr>currId = 9999\<rparr>))"
  using node_names_distinct [of "\<lparr>currId = 9999\<rparr>" "[(''r1'', ''eth1''), (''r1'', ''eth1'')]"] by simp

text \<open>
  The names are not unique beyond that: because the index is taken modulo 10000, the
  call 10000 calls later for the same pod and interface generates the very same name.
\<close>
theorem node_name_repeats_after_10000:
  assumes "0 \<le> sint (currId g)" and "sint (currId g) < 2 ^ 62" and "sint (currId h) = sint (currId g) + 10000"
  shows "fst (GenNodeIfaceName p f h) = fst (GenNodeIfaceName p f g)"
proof -
  have "0 \<le> sint (currId h)" "sint (currId h) < 2 ^ 63 - 1" "sint (currId g) < 2 ^ 63 - 1"
    using assms by simp_all
  moreover have "(sint (currId g) + 10000 + 1) mod 10000 = (sint (currId g) + 1) mod 10000"
    using mod_add_self2 [of "sint (currId g) + 1" 10000] by (simp add: algebra_simps)
  ultimately show ?thesis using assms by (simp add: GenNodeIfaceName_run)
qed

theorem node_name_repeats_after_10000_witness:
  "fst (GenNodeIfaceName ''r1'' ''eth1'' \<lparr>currId = 10007\<rparr>) =
   fst (GenNodeIfaceName ''r1'' ''eth1'' \<lparr>currId = 7\<rparr>)"
  using node_name_repeats_after_10000 [of "\<lparr>currId = 7\<rparr>" "\<lparr>currId = 10007\<rparr>" "''r1''" "''eth1''"]
  by simp

text \<open>
  C38: After seeding from the interfaces on the host, the next generated name is not the name
  of any of them, as long as the counter is below 9999.
\<close>
theorem seeded_name_is_fresh:
  assumes "0 \<le> sint (currId g)" and "g' = SeedIndexFromHost (Inr names) g"
    and "sint (currId g') < 9999"
  shows "\<exists>nm. fst (GenNodeIfaceName p f g') = Inr nm \<and> nm \<notin> set names"
proof -
  let ?m = "scan_max names 0"
  have m0: "0 \<le> sint ?m" using scan_max_ge [of 0 names] by simp
  have cur: "sint (currId g') = max (sint (currId g)) (sint ?m)"
    using assms(1,2) m0 by (auto simp: SeedIndexFromHost_def Let_def)
  let ?i = "sint (currId g') + 1"
  have i: "0 \<le> ?i" "?i < 10000" using cur assms(1,3) by auto
  have gen: "fst (GenNodeIfaceName p f g') = Inr (node_iface_name p f ?i)"
    using i GenNodeIfaceName_run [of g' p f] assms(1) cur by simp
  have "node_iface_name p f ?i \<notin> set names"
  proof
    assume "node_iface_name p f ?i \<in> set names"
    then have "int (dec_val (fmt_04d ?i)) \<le> sint ?m"
      using scan_max_suffix ifaceSuffixRe_name [OF i] by blast
    then have "?i \<le> sint ?m" using fmt_04d_val [OF i(1)] i(1) by simp
    then show False using cur by simp
  qed
  with gen show ?thesis by blast
qed

theorem seeded_name_is_fresh_witness:
  "\<exists>nm. fst (GenNodeIfaceName ''r1'' ''eth1''
       (SeedIndexFromHost (Inr [''eth0'', ''r1eth1-0007'', ''lo'']) \<lparr>currId = 0\<rparr>)) = Inr nm
     \<and> nm \<notin> set [''eth0'', ''r1eth1-0007'', ''lo'']"
  by (rule seeded_name_is_fresh [of "\<lparr>currId = 0\<rparr>"])
    (simp_all add: SeedIndexFromHost_def scan_name_def ifaceSuffixRe_def atoi_def is_digit_def dec_val_def Let_def)

end
