(* ===== verification/Carrier_Prop.thy ===== *)
theory Carrier_Prop
  imports Environment
begin

text \<open>
  \<open>internal/carrierprop\<close>: reading an interface's operational state, the table of
  echoes to swallow, the debouncer, and the call that asks the peer daemon to mirror a
  link state.  A Go map is a partial function; \<open>range\<close> over a map visits its keys in
  an order the runtime chooses, which the definitions take as an argument.
\<close>

section \<open>Operational state\<close>

definition IFFRunning :: "'a::len word" where "IFFRunning = 0x40"

definition Debounce :: int where "Debounce = milliseconds 300"

definition carrier_Init :: "'w os_env \<Rightarrow> bool" where
  "carrier_Init os =
     (let v = trim_space (Getenv os ''MESHNET_PROPAGATE_CARRIER'')
      in v = ''1'' \<or> equal_fold v ''true'')"

definition OperUp :: "nlink option \<Rightarrow> bool" where
  "OperUp link =
     (case link of
        None \<Rightarrow> False
      | Some l \<Rightarrow>
          if and (nl_RawFlags l) IFFRunning \<noteq> 0 then True
          else if and (nl_Flags l) IFFRunning \<noteq> 0 then True
          else nl_OperState l = OperUpState)"

definition OperUpOnHost :: "'w net_env \<Rightarrow> int \<Rightarrow> ('w, bool res) io" where
  "OperUpOnHost nt ifindex = do {
     r \<leftarrow> LinkByIndex nt CurrentNs ifindex;
     return (case r of Inl e \<Rightarrow> Inl e | Inr l \<Rightarrow> Inr (OperUp (Some l)))
   }"

definition OperUpOnHostByName :: "'w net_env \<Rightarrow> string \<Rightarrow> ('w, bool res) io" where
  "OperUpOnHostByName nt name = do {
     r \<leftarrow> LinkByName nt CurrentNs name;
     return (case r of Inl e \<Rightarrow> Inl e | Inr l \<Rightarrow> Inr (OperUp (Some l)))
   }"

definition OperUpInPodNetNS :: "'w net_env \<Rightarrow> string \<Rightarrow> string \<Rightarrow> ('w, bool res) io" where
  "OperUpInPodNetNS nt netNSPath ifaceName = do {
     rns \<leftarrow> GetNS nt netNSPath;
     (case rns of
        Inl e \<Rightarrow> return (Inl e)
      | Inr podNs \<Rightarrow>
          ns_Do nt podNs (\<lambda>c. do {
            h \<leftarrow> NewHandle nt c;
            (case h of
               Some e \<Rightarrow> return (Inl e)
             | None \<Rightarrow> do {
                 rl \<leftarrow> LinkByName nt c ifaceName;
                 return (case rl of Inl e \<Rightarrow> Inl e | Inr l \<Rightarrow> Inr (OperUp (Some l)))
               })
          }))
   }"

section \<open>Echo suppression\<close>

type_synonym echo_table = "int64 \<rightharpoonup> bool"

definition SuppressEcho :: "int64 \<Rightarrow> bool \<Rightarrow> echo_table \<Rightarrow> echo_table" where
  "SuppressEcho key up t = t(key \<mapsto> up)"

definition ConsumeEcho :: "int64 \<Rightarrow> bool \<Rightarrow> echo_table \<Rightarrow> bool \<times> echo_table" where
  "ConsumeEcho key up t = (if t key = Some up then (True, t(key := None)) else (False, t))"

section \<open>The debouncer\<close>

record Edge =
  ed_Key :: int64
  ed_Up :: bool

record Debouncer =
  debounce :: int
  pending :: "int64 \<rightharpoonup> bool"
  deadline :: "int64 \<rightharpoonup> int"
  emitted :: "int64 \<rightharpoonup> bool"

definition NewDebouncer :: "int \<Rightarrow> Debouncer" where
  "NewDebouncer t = \<lparr>debounce = t, pending = Map.empty, deadline = Map.empty, emitted = Map.empty\<rparr>"

definition Observe :: "int64 \<Rightarrow> bool \<Rightarrow> int \<Rightarrow> Debouncer \<Rightarrow> Debouncer" where
  "Observe key up now d =
     (if pending d key = Some up then d
      else d\<lparr>pending := (pending d)(key \<mapsto> up),
             deadline := (deadline d)(key \<mapsto> now + debounce d)\<rparr>)"

text \<open>One iteration of the loop of \<open>Due\<close>, for a key of the deadline map.\<close>

definition due_step :: "int \<Rightarrow> int64 \<Rightarrow> Debouncer \<Rightarrow> Edge list \<times> Debouncer" where
  "due_step now k d =
     (case deadline d k of
        None \<Rightarrow> ([], d)
      | Some dl \<Rightarrow>
          if now < dl then ([], d)
          else (let d1 = d\<lparr>deadline := (deadline d)(k := None)\<rparr>;
                    up = (case pending d1 k of Some b \<Rightarrow> b | None \<Rightarrow> False)
                in if emitted d1 k = Some up then ([], d1)
                   else ([\<lparr>ed_Key = k, ed_Up = up\<rparr>], d1\<lparr>emitted := (emitted d1)(k \<mapsto> up)\<rparr>)))"

fun due_loop :: "int \<Rightarrow> int64 list \<Rightarrow> Debouncer \<Rightarrow> Edge list \<times> Debouncer" where
  "due_loop now [] d = ([], d)"
| "due_loop now (k # ks) d =
     (case due_step now k d of (es, d1) \<Rightarrow>
        (case due_loop now ks d1 of (es', d2) \<Rightarrow> (es @ es', d2)))"

definition range_order :: "'k list \<Rightarrow> ('k \<rightharpoonup> 'v) \<Rightarrow> bool" where
  "range_order ks m \<longleftrightarrow> distinct ks \<and> set ks = dom m"

definition Due :: "int64 list \<Rightarrow> int \<Rightarrow> Debouncer \<Rightarrow> Edge list \<times> Debouncer" where
  "Due ks now d = due_loop now ks d"

text \<open>
  One tick of a carrier watch: observe every sample that could be read, then pass every
  due edge that is not an expected echo to the peer.
\<close>

fun observe_all :: "(int64 \<times> bool) list \<Rightarrow> int \<Rightarrow> Debouncer \<Rightarrow> Debouncer" where
  "observe_all [] now d = d"
| "observe_all ((k, up) # ss) now d = observe_all ss now (Observe k up now d)"

fun pass_edges :: "Edge list \<Rightarrow> echo_table \<Rightarrow> Edge list \<times> echo_table" where
  "pass_edges [] t = ([], t)"
| "pass_edges (e # es) t =
     (case ConsumeEcho (ed_Key e) (ed_Up e) t of
        (True, t') \<Rightarrow> pass_edges es t'
      | (False, t') \<Rightarrow> (case pass_edges es t' of (out, t'') \<Rightarrow> (e # out, t'')))"

definition watch_tick ::
  "(int64 \<times> bool) list \<Rightarrow> int64 list \<Rightarrow> int \<Rightarrow> Debouncer \<Rightarrow> echo_table \<Rightarrow> Edge list \<times> Debouncer \<times> echo_table" where
  "watch_tick samples ks now d t =
     (case Due ks now (observe_all samples now d) of (es, d') \<Rightarrow>
        (case pass_edges es t of (out, t') \<Rightarrow> (out, d', t')))"

section \<open>Telling the peer\<close>

definition NotifyPeerLinkState :: "'w rpc_env \<Rightarrow> string \<Rightarrow> WireLinkState \<Rightarrow> ('w, goerr option) io" where
  "NotifyPeerLinkState rpc peerIP st = do {
     c \<leftarrow> Dial rpc (peer_url peerIP);
     (case c of
        Some e \<Rightarrow> return (Some (Wrap (''dial '' @ peer_url peerIP @ '': '') e))
      | None \<Rightarrow> do {
          r \<leftarrow> RemSetPeerLinkState rpc (peer_url peerIP) st;
          return (case r of
                    Inl e \<Rightarrow> Some e
                  | Inr None \<Rightarrow> Some (Err ''peer rejected link-state update'')
                  | Inr (Some b) \<Rightarrow>
                      if br_Response b then None else Some (Err ''peer rejected link-state update''))
        })
   }"

section \<open>Lemmas\<close>

lemma due_step_other [simp]:
  "j \<noteq> k \<Longrightarrow> deadline (snd (due_step now k d)) j = deadline d j"
  "j \<noteq> k \<Longrightarrow> emitted (snd (due_step now k d)) j = emitted d j"
  by (auto simp: due_step_def Let_def split: option.splits)

lemma due_step_pending [simp]:
  "pending (snd (due_step now k d)) = pending d"
  "debounce (snd (due_step now k d)) = debounce d"
  by (auto simp: due_step_def Let_def split: option.splits)

text \<open>Whether \<open>Due\<close> emits an edge for a key, and which.\<close>

definition due_now :: "Debouncer \<Rightarrow> int \<Rightarrow> int64 \<Rightarrow> bool option" where
  "due_now d now k =
     (case deadline d k of
        None \<Rightarrow> None
      | Some dl \<Rightarrow>
          (let up = (case pending d k of Some b \<Rightarrow> b | None \<Rightarrow> False)
           in if now < dl \<or> emitted d k = Some up then None else Some up))"

lemma due_step_edges:
  "fst (due_step now k d) = (case due_now d now k of None \<Rightarrow> [] | Some up \<Rightarrow> [\<lparr>ed_Key = k, ed_Up = up\<rparr>])"
  by (auto simp: due_step_def due_now_def Let_def split: option.splits)

lemma due_now_other: "j \<noteq> k \<Longrightarrow> due_now (snd (due_step now k d)) now j = due_now d now j"
  by (simp add: due_now_def split: option.split)

lemma due_loop_edges:
  "distinct ks \<Longrightarrow>
     fst (due_loop now ks d) =
       concat (map (\<lambda>k. case due_now d now k of None \<Rightarrow> [] | Some up \<Rightarrow> [\<lparr>ed_Key = k, ed_Up = up\<rparr>]) ks)"
proof (induction ks arbitrary: d)
  case (Cons k ks)
  let ?d1 = "snd (due_step now k d)"
  have "map (\<lambda>j. case due_now ?d1 now j of None \<Rightarrow> [] | Some up \<Rightarrow> [\<lparr>ed_Key = j, ed_Up = up\<rparr>]) ks =
        map (\<lambda>j. case due_now d now j of None \<Rightarrow> [] | Some up \<Rightarrow> [\<lparr>ed_Key = j, ed_Up = up\<rparr>]) ks"
    using Cons.prems by (intro map_cong refl) (metis due_now_other distinct.simps(2))
  then have "concat (map (\<lambda>j. case due_now ?d1 now j of None \<Rightarrow> [] | Some up \<Rightarrow> [\<lparr>ed_Key = j, ed_Up = up\<rparr>]) ks) =
      concat (map (\<lambda>j. case due_now d now j of None \<Rightarrow> [] | Some up \<Rightarrow> [\<lparr>ed_Key = j, ed_Up = up\<rparr>]) ks)"
    by (rule arg_cong)
  with Cons.IH [of ?d1] Cons.prems
  have "fst (due_loop now ks ?d1) =
      concat (map (\<lambda>j. case due_now d now j of None \<Rightarrow> [] | Some up \<Rightarrow> [\<lparr>ed_Key = j, ed_Up = up\<rparr>]) ks)"
    by (simp only: distinct.simps)
  then show ?case by (simp add: case_prod_beta due_step_edges)
qed simp

lemma due_loop_emitted:
  "distinct ks \<Longrightarrow> k \<in> set ks \<Longrightarrow>
     emitted (snd (due_loop now ks d)) k = (case due_now d now k of None \<Rightarrow> emitted d k | Some up \<Rightarrow> Some up)"
  and due_loop_emitted_other:
  "k \<notin> set ks \<Longrightarrow> emitted (snd (due_loop now ks d)) k = emitted d k"
proof (induction ks arbitrary: d)
  case (Cons j ks)
  have step: "emitted (snd (due_step now j d)) j = (case due_now d now j of None \<Rightarrow> emitted d j | Some up \<Rightarrow> Some up)" for d
    by (auto simp: due_step_def due_now_def Let_def split: option.splits)
  { case 1
    show ?case
    proof (cases "k = j")
      case True
      have "emitted (snd (due_loop now (j # ks) d)) j = emitted (snd (due_step now j d)) j"
        using 1 True Cons.IH(2) by (simp add: case_prod_beta)
      then show ?thesis using step unfolding True by simp
    next
      case False
      then show ?thesis using 1 Cons.IH(1) by (simp add: case_prod_beta due_now_other split: option.split)
    qed
  next
    case 2
    then show ?case using Cons.IH(2) by (simp add: case_prod_beta) }
qed simp_all

lemma due_loop_pending [simp]:
  "pending (snd (due_loop now ks d)) = pending d"
  "debounce (snd (due_loop now ks d)) = debounce d"
  by (induction ks arbitrary: d) (simp_all add: case_prod_beta)

lemma due_loop_deadline:
  "distinct ks \<Longrightarrow> deadline (snd (due_loop now ks d)) k =
     (if k \<in> set ks \<and> (\<exists>dl. deadline d k = Some dl \<and> dl \<le> now) then None else deadline d k)"
proof (induction ks arbitrary: d)
  case (Cons j ks)
  have step: "deadline (snd (due_step now j d)) j =
      (if \<exists>dl. deadline d j = Some dl \<and> dl \<le> now then None else deadline d j)"
    by (auto simp: due_step_def Let_def split: option.splits)
  show ?case
  proof (cases "k = j")
    case True
    then show ?thesis using Cons step by (auto simp: case_prod_beta)
  next
    case False
    then show ?thesis using Cons by (auto simp: case_prod_beta)
  qed
qed simp

text \<open>A run of a carrier watch: ticks with their samples, iteration order and time.\<close>

type_synonym tick = "(int64 \<times> bool) list \<times> int64 list \<times> int"

fun run_watch :: "tick list \<Rightarrow> Debouncer \<Rightarrow> echo_table \<Rightarrow> Edge list \<times> Debouncer \<times> echo_table" where
  "run_watch [] d t = ([], d, t)"
| "run_watch ((ss, ks, now) # ts) d t =
     (case watch_tick ss ks now d t of (out, d', t') \<Rightarrow>
        (case run_watch ts d' t' of (out', d'', t'') \<Rightarrow> (out @ out', d'', t'')))"

text \<open>The edges the debouncer emits during a run, before echoes are swallowed.\<close>

fun run_edges :: "tick list \<Rightarrow> Debouncer \<Rightarrow> Edge list \<times> Debouncer" where
  "run_edges [] d = ([], d)"
| "run_edges ((ss, ks, now) # ts) d =
     (case Due ks now (observe_all ss now d) of (es, d') \<Rightarrow>
        (case run_edges ts d' of (es', d'') \<Rightarrow> (es @ es', d'')))"

fun alternating :: "bool option \<Rightarrow> bool list \<Rightarrow> bool" where
  "alternating l [] \<longleftrightarrow> True"
| "alternating l (u # us) \<longleftrightarrow> l \<noteq> Some u \<and> alternating (Some u) us"

abbreviation ups_of :: "int64 \<Rightarrow> Edge list \<Rightarrow> bool list" where
  "ups_of k es \<equiv> map ed_Up (filter (\<lambda>e. ed_Key e = k) es)"

lemma Observe_emitted [simp]: "emitted (Observe k up now d) = emitted d"
  "debounce (Observe k up now d) = debounce d"
  by (simp_all add: Observe_def)

lemma observe_all_emitted [simp]: "emitted (observe_all ss now d) = emitted d"
  by (induction ss arbitrary: d) auto

lemma concat_one_key:
  "distinct ks \<Longrightarrow>
     ups_of k (concat (map (\<lambda>j. case f j of None \<Rightarrow> [] | Some up \<Rightarrow> [\<lparr>ed_Key = j, ed_Up = up\<rparr>]) ks)) =
       (if k \<in> set ks then (case f k of None \<Rightarrow> [] | Some up \<Rightarrow> [up]) else [])"
  by (induction ks) (auto split: option.split)

lemma Due_ups:
  "distinct ks \<Longrightarrow> ups_of k (fst (Due ks now d)) =
     (if k \<in> set ks then (case due_now d now k of None \<Rightarrow> [] | Some up \<Rightarrow> [up]) else [])"
  by (simp add: Due_def due_loop_edges concat_one_key)

definition last_up :: "bool option \<Rightarrow> bool list \<Rightarrow> bool option" where
  "last_up l us = (if us = [] then l else Some (last us))"

lemma Due_emitted:
  assumes "distinct ks"
  shows "emitted (snd (Due ks now d)) k = last_up (emitted d k) (ups_of k (fst (Due ks now d)))"
  using Due_ups [OF assms, of k now d] assms
  by (cases "k \<in> set ks")
    (auto simp: last_up_def Due_def due_loop_emitted due_loop_emitted_other split: option.split)

lemma alternating_append:
  "alternating l us \<Longrightarrow> alternating (last_up l us) vs \<Longrightarrow> alternating l (us @ vs)"
proof (induction us arbitrary: l)
  case (Cons u us)
  have "last_up (Some u) us = last_up l (u # us)" by (simp add: last_up_def)
  then show ?case using Cons by simp
qed (simp add: last_up_def)

lemma due_now_new: "due_now d now k = Some up \<Longrightarrow> emitted d k \<noteq> Some up"
  by (auto simp: due_now_def Let_def split: option.splits if_splits)

fun observe_seq :: "(int64 \<times> bool \<times> int) list \<Rightarrow> Debouncer \<Rightarrow> Debouncer" where
  "observe_seq [] d = d"
| "observe_seq ((k, up, now) # obs) d = observe_seq obs (Observe k up now d)"

lemma observe_seq_stable:
  assumes "\<forall>(j, u, now) \<in> set obs. j = k \<longrightarrow> u = up" and "pending d k = Some up"
  shows "pending (observe_seq obs d) k = Some up \<and> deadline (observe_seq obs d) k = deadline d k
       \<and> emitted (observe_seq obs d) = emitted d \<and> debounce (observe_seq obs d) = debounce d"
  using assms
proof (induction obs arbitrary: d)
  case (Cons o' obs)
  obtain j u now where o': "o' = (j, u, now)" by (cases o')
  let ?d = "Observe j u now d"
  have "pending ?d k = Some up \<and> deadline ?d k = deadline d k"
    using Cons.prems by (auto simp: o' Observe_def)
  then show ?case using Cons by (simp add: o')
qed simp

lemma in_Due_iff:
  "distinct ks \<Longrightarrow> \<lparr>ed_Key = k, ed_Up = up\<rparr> \<in> set (fst (Due ks now d)) \<longleftrightarrow> k \<in> set ks \<and> due_now d now k = Some up"
  by (auto simp: Due_def due_loop_edges split: option.splits)

text \<open>The samples of one interface that a run of ticks has taken, with the time of each.\<close>

fun sightings :: "int64 \<Rightarrow> tick list \<Rightarrow> (int \<times> bool) list" where
  "sightings k [] = []"
| "sightings k ((ss, ks, now) # ts) = map (\<lambda>(j, u). (now, u)) (filter (\<lambda>(j, u). j = k) ss) @ sightings k ts"

text \<open>\<open>held_since up t0 l\<close>: the samples \<open>l\<close> end in an unbroken stretch of \<open>up\<close> that begins at \<open>t0\<close>.\<close>

definition held_since :: "bool \<Rightarrow> int \<Rightarrow> (int \<times> bool) list \<Rightarrow> bool" where
  "held_since up t0 l \<longleftrightarrow> (\<exists>xs ys. l = xs @ (t0, up) # ys \<and> (\<forall>(t, u) \<in> set ys. u = up))"

text \<open>What the debouncer's tables say about the samples of a key seen so far.\<close>

definition tells_samples :: "Debouncer \<Rightarrow> int64 \<Rightarrow> (int \<times> bool) list \<Rightarrow> bool" where
  "tells_samples d k l \<longleftrightarrow>
     (case pending d k of
        None \<Rightarrow> deadline d k = None
      | Some up \<Rightarrow> \<exists>t0. held_since up t0 l \<and> deadline d k \<in> {None, Some (t0 + debounce d)})"

lemma sightings_append [simp]: "sightings k (ts @ ts') = sightings k ts @ sightings k ts'"
  by (induction k ts rule: sightings.induct) auto

lemma held_since_snoc:
  "held_since up t (l @ [(t, up)])"
  "held_since up t0 l \<Longrightarrow> held_since up t0 (l @ [(t, up)])"
  unfolding held_since_def by fastforce+

lemma Observe_tells:
  "tells_samples d k l \<Longrightarrow> tells_samples (Observe j up now d) k (if j = k then l @ [(now, up)] else l)"
  using held_since_snoc [of up now l] held_since_snoc(2) [of up _ l now]
  by (auto simp: tells_samples_def Observe_def split: option.splits)

lemma observe_all_tells:
  "tells_samples d k l \<Longrightarrow>
     tells_samples (observe_all ss now d) k (l @ map (\<lambda>(j, u). (now, u)) (filter (\<lambda>(j, u). j = k) ss))"
proof (induction ss arbitrary: d l)
  case (Cons s ss)
  obtain j up where s: "s = (j, up)" by (cases s)
  from Cons.IH [OF Observe_tells [OF Cons.prems, of j up now]] show ?case by (cases "j = k") (simp_all add: s)
qed simp

lemma Due_tells:
  "tells_samples d k l \<Longrightarrow> distinct ks \<Longrightarrow> tells_samples (snd (Due ks now d)) k l"
  by (auto simp: tells_samples_def Due_def due_loop_deadline split: option.splits)

lemma run_edges_tells:
  assumes "\<forall>(ss, ks, now) \<in> set ts. distinct ks" and "tells_samples d k l"
  shows "tells_samples (snd (run_edges ts d)) k (l @ sightings k ts)"
  using assms
proof (induction ts arbitrary: d l)
  case (Cons tk ts)
  obtain ss ks now where tk: "tk = (ss, ks, now)" by (cases tk)
  have "tells_samples (snd (Due ks now (observe_all ss now d))) k
      (l @ map (\<lambda>(j, u). (now, u)) (filter (\<lambda>(j, u). j = k) ss))"
    using Cons.prems by (intro Due_tells observe_all_tells) (simp_all add: tk)
  from Cons.IH [OF _ this] Cons.prems show ?case by (simp add: tk case_prod_beta)
qed simp

lemma run_edges_debounce [simp]: "debounce (snd (run_edges ts d)) = debounce d"
proof (induction ts arbitrary: d)
  case (Cons tk ts)
  have "debounce (observe_all ss now d) = debounce d" for ss now d by (induction ss arbitrary: d) auto
  with Cons show ?case by (cases tk) (simp add: Due_def case_prod_beta)
qed simp

lemma run_edges_alternate:
  assumes "\<forall>(ss, ks, now) \<in> set ts. distinct ks"
  shows "alternating (emitted d k) (ups_of k (fst (run_edges ts d)))"
  using assms
proof (induction ts arbitrary: d)
  case (Cons tk ts)
  obtain ss ks now where tk: "tk = (ss, ks, now)" by (cases tk)
  let ?o = "observe_all ss now d"
  let ?d = "snd (Due ks now ?o)"
  have ks: "distinct ks" using Cons.prems by (simp add: tk)
  have "alternating (emitted d k) (ups_of k (fst (Due ks now ?o)))"
    using ks due_now_new [of ?o now k] by (simp add: Due_ups split: option.split)
  moreover have "alternating (emitted ?d k) (ups_of k (fst (run_edges ts ?d)))"
    using Cons by simp
  moreover have "emitted ?d k = last_up (emitted d k) (ups_of k (fst (Due ks now ?o)))"
    using Due_emitted [OF ks, of now ?o k] by simp
  ultimately have "alternating (emitted d k)
      (ups_of k (fst (Due ks now ?o)) @ ups_of k (fst (run_edges ts ?d)))"
    by (metis alternating_append)
  then show ?case by (simp add: tk case_prod_beta)
qed simp

section \<open>Properties\<close>

text \<open>
  Debouncing is exact. A change of a key's sampled state to \<open>up\<close> at time \<open>t\<close>
  that no later sample of that key contradicts makes \<open>Due\<close> emit the edge from
  \<open>t + debounce\<close> on and not before, and only if \<open>up\<close> is not what was emitted last;
  repeated equal samples do not push the deadline forward, and samples of other keys do
  not matter.
\<close>
theorem debounced_edge:
  assumes "pending d k \<noteq> Some up"
    and "\<forall>(j, u, now) \<in> set obs. j = k \<longrightarrow> u = up"
    and "d' = observe_seq obs (Observe k up t d)" and "range_order ks (deadline d')"
  shows "(\<lparr>ed_Key = k, ed_Up = up\<rparr> \<in> set (fst (Due ks now d')) \<longleftrightarrow>
            t + debounce d \<le> now \<and> emitted d k \<noteq> Some up) \<and>
         \<lparr>ed_Key = k, ed_Up = (\<not> up)\<rparr> \<notin> set (fst (Due ks now d'))"
proof -
  have first: "pending (Observe k up t d) k = Some up"
    "deadline (Observe k up t d) k = Some (t + debounce d)"
    using assms(1) by (simp_all add: Observe_def)
  note st = observe_seq_stable [OF assms(2) first(1), folded assms(3)]
  have ks: "distinct ks" "k \<in> set ks" using assms(4) st first(2) by (auto simp: range_order_def)
  show ?thesis
    using ks st first by (auto simp: in_Due_iff due_now_def)
qed

theorem debounced_edge_witness:
  "\<lparr>ed_Key = 1, ed_Up = True\<rparr> \<in> set (fst (Due [1] 350 (observe_seq [(1, True, 100), (1, True, 200)]
      (Observe 1 True 0 (NewDebouncer 300)))))"
  using debounced_edge [THEN conjunct1, of "NewDebouncer 300" 1 True "[(1, True, 100), (1, True, 200)]" _ 0 "[1]" 350]
  by (simp add: NewDebouncer_def Observe_def range_order_def)

text \<open>
  C36: However the ticks fall and in whatever order the runtime walks the map, the edges a
  watch emits for one interface alternate between up and down. An edge is emitted only when
  the interface has been sampled in its new state for the whole debounce interval, from a
  sample that is at least that old up to the tick itself, with no sample to the contrary in
  between: a flap that returns within the interval is never announced.
\<close>
theorem emitted_edges_alternate:
  assumes "\<forall>(ss, ks, now) \<in> set ts. distinct ks"
  shows "alternating None (ups_of k (fst (run_edges ts (NewDebouncer T)))) \<and>
     (\<forall>pre ss ks now post up. ts = pre @ (ss, ks, now) # post \<longrightarrow>
        \<lparr>ed_Key = k, ed_Up = up\<rparr> \<in> set (fst (Due ks now (observe_all ss now (snd (run_edges pre (NewDebouncer T)))))) \<longrightarrow>
        (\<exists>t0. t0 + T \<le> now \<and> held_since up t0 (sightings k (pre @ [(ss, ks, now)]))))"
proof (intro conjI allI impI)
  show "alternating None (ups_of k (fst (run_edges ts (NewDebouncer T))))"
    using run_edges_alternate [OF assms, of "NewDebouncer T" k] by (simp add: NewDebouncer_def)
next
  fix pre ss ks now post up
  let ?d = "snd (run_edges pre (NewDebouncer T))"
  let ?o = "observe_all ss now ?d"
  assume ts: "ts = pre @ (ss, ks, now) # post" and due: "\<lparr>ed_Key = k, ed_Up = up\<rparr> \<in> set (fst (Due ks now ?o))"
  have fresh: "tells_samples (NewDebouncer T) k []" by (simp add: tells_samples_def NewDebouncer_def)
  have ks: "distinct ks" "\<forall>(ss, ks, now) \<in> set pre. distinct ks" using assms ts by auto
  have "tells_samples ?o k (sightings k (pre @ [(ss, ks, now)]))"
    using observe_all_tells [OF run_edges_tells [OF ks(2) fresh], of ss now] by simp
  moreover have "due_now ?o now k = Some up" using due ks(1) by (simp add: in_Due_iff)
  moreover have "debounce ?o = T"
  proof -
    have "debounce (observe_all ss now d) = debounce d" for d by (induction ss arbitrary: d) auto
    then show ?thesis by (simp add: NewDebouncer_def)
  qed
  ultimately show "\<exists>t0. t0 + T \<le> now \<and> held_since up t0 (sightings k (pre @ [(ss, ks, now)]))"
    by (auto simp: tells_samples_def due_now_def Let_def not_less split: option.splits if_splits)
qed

theorem emitted_edges_alternate_witness:
  "alternating None (ups_of 7 (fst (run_edges [([(7, True)], [7], 0), ([(7, True)], [7], 400)] (NewDebouncer 300)))) \<and>
   \<lparr>ed_Key = 7, ed_Up = True\<rparr> \<in> set (fst (Due [7] 400 (observe_all [(7, True)] 400
      (snd (run_edges [([(7, True)], [7], 0)] (NewDebouncer 300)))))) \<and>
   (\<exists>t0 \<le> 100. held_since True t0 [(0, True), (400, True)])"
proof -
  let ?pre = "[([(7, True)], [7], 0)]" and ?ss = "[(7, True)]"
  have due: "\<lparr>ed_Key = 7, ed_Up = True\<rparr> \<in> set (fst (Due [7] 400 (observe_all ?ss 400
      (snd (run_edges ?pre (NewDebouncer 300))))))"
    by (simp add: NewDebouncer_def Observe_def Due_def due_step_def)
  have sound: "\<forall>(ss, ks, now) \<in> set (?pre @ [(?ss, [7], 400)]). distinct ks" by simp
  note shown = emitted_edges_alternate [OF sound, of 7 300]
  have "\<exists>t0. t0 + 300 \<le> 400 \<and> held_since True t0 (sightings 7 (?pre @ [(?ss, [7], 400)]))"
    using shown [THEN conjunct2, rule_format, of ?pre ?ss "[7]" 400 "[]" True] due by simp
  then have "\<exists>t0 \<le> 100. held_since True t0 [(0, True), (400, True)]" by auto
  with shown [THEN conjunct1] due show ?thesis by simp
qed

end
