(* ===== verification/Registry.thy ===== *)
theory Registry
  imports Meshnet_Prelude
begin

text \<open>
  The contract of the daemon's in-memory registries: the grpc wire map
  (\<open>daemon/grpcwire/gwire_map.go\<close>) and the VXLAN link map
  (\<open>daemon/vxlan/link_map.go\<close>) both file a value under a key computed from the value
  itself, look it up by key, and drop a key, which the wire map names by a value and the
  link map directly.  The clients' lemmas, about any sequence of such calls, are proved
  once here.
\<close>

datatype ('d, 'v) reg_call = Put 'v | Del 'd

fun last_effect :: "('v \<Rightarrow> 'k) \<Rightarrow> ('d \<Rightarrow> 'k) \<Rightarrow> ('d, 'v) reg_call list \<Rightarrow> 'k \<Rightarrow> 'v option \<Rightarrow> 'v option" where
  "last_effect ky dk [] k r = r"
| "last_effect ky dk (Put v # cs) k r = last_effect ky dk cs k (if k = ky v then Some v else r)"
| "last_effect ky dk (Del d # cs) k r = last_effect ky dk cs k (if k = dk d then None else r)"

fun run_calls :: "('v \<Rightarrow> 's \<Rightarrow> 's) \<Rightarrow> ('d \<Rightarrow> 's \<Rightarrow> 's) \<Rightarrow> ('d, 'v) reg_call list \<Rightarrow> 's \<Rightarrow> 's" where
  "run_calls pt dl [] s = s"
| "run_calls pt dl (Put v # cs) s = run_calls pt dl cs (pt v s)"
| "run_calls pt dl (Del d # cs) s = run_calls pt dl cs (dl d s)"

fun call_ok :: "('v \<Rightarrow> bool) \<Rightarrow> ('d \<Rightarrow> bool) \<Rightarrow> ('d, 'v) reg_call \<Rightarrow> bool" where
  "call_ok vl dv (Put v) \<longleftrightarrow> vl v"
| "call_ok vl dv (Del d) \<longleftrightarrow> dv d"

locale registry =
  fixes get :: "'k \<Rightarrow> 's \<Rightarrow> 'v option"
    and put :: "'v \<Rightarrow> 's \<Rightarrow> 's"
    and del :: "'d \<Rightarrow> 's \<Rightarrow> 's"
    and key :: "'s \<Rightarrow> 'v \<Rightarrow> 'k"
    and dkey :: "'s \<Rightarrow> 'd \<Rightarrow> 'k"
    and valid :: "'s \<Rightarrow> 'v \<Rightarrow> bool"
    and dvalid :: "'s \<Rightarrow> 'd \<Rightarrow> bool"
  assumes get_put: "valid s v \<Longrightarrow> get k (put v s) = (if k = key s v then Some v else get k s)"
    and get_del: "dvalid s d \<Longrightarrow> get k (del d s) = (if k = dkey s d then None else get k s)"
    and stable_put: "valid s v \<Longrightarrow> key (put v s) = key s \<and> dkey (put v s) = dkey s
       \<and> valid (put v s) = valid s \<and> dvalid (put v s) = dvalid s"
    and stable_del: "dvalid s d \<Longrightarrow> key (del d s) = key s \<and> dkey (del d s) = dkey s
       \<and> valid (del d s) = valid s \<and> dvalid (del d s) = dvalid s"
begin

lemma call_ok_put: "valid s v \<Longrightarrow> call_ok (valid (put v s)) (dvalid (put v s)) c = call_ok (valid s) (dvalid s) c"
  by (cases c) (simp_all add: stable_put)

lemma call_ok_del: "dvalid s d \<Longrightarrow> call_ok (valid (del d s)) (dvalid (del d s)) c = call_ok (valid s) (dvalid s) c"
  by (cases c) (simp_all add: stable_del)

lemma get_run_calls:
  "\<forall>c \<in> set cs. call_ok (valid s) (dvalid s) c \<Longrightarrow>
     get k (run_calls put del cs s) = last_effect (key s) (dkey s) cs k (get k s)"
proof (induction cs arbitrary: s)
  case (Cons c cs)
  show ?case
  proof (cases c)
    case (Put v)
    then have ok: "valid s v" using Cons.prems by simp
    from Cons.prems have "\<forall>c \<in> set cs. call_ok (valid (put v s)) (dvalid (put v s)) c"
      by (simp add: call_ok_put [OF ok])
    from Cons.IH [OF this] show ?thesis using Put ok stable_put [OF ok] by (simp add: get_put)
  next
    case (Del d)
    then have ok: "dvalid s d" using Cons.prems by simp
    from Cons.prems have "\<forall>c \<in> set cs. call_ok (valid (del d s)) (dvalid (del d s)) c"
      by (simp add: call_ok_del [OF ok])
    from Cons.IH [OF this] show ?thesis using Del ok stable_del [OF ok] by (simp add: get_del)
  qed
qed simp

lemma put_put_other:
  "valid s v \<Longrightarrow> valid s w \<Longrightarrow> key s v \<noteq> key s w \<Longrightarrow>
     get k (put v (put w s)) = get k (put w (put v s))"
  by (auto simp: get_put stable_put)

lemma put_twice:
  "valid s v \<Longrightarrow> get k (put v (put v s)) = get k (put v s)"
  by (auto simp: get_put stable_put)

end

end
