(* ===== verification/Wire_Map.thy ===== *)
theory Wire_Map
  imports Environment Registry
begin

text \<open>
  The grpc wire type of \<open>daemon/grpcwire/grpcwire.go\<close> and the in-memory maps of
  \<open>gwire_map.go\<close>.  Wires are shared by pointer, so they live in a heap of addresses;
  a stop channel is a number, with the set of those closed.  Closing a closed channel
  panics in Go: here it sets \<open>panicked\<close>, and the theorems show no step ever does.
  Every operation runs under the map's mutex, so it is one atomic step.
\<close>

section \<open>Wires and the maps\<close>

datatype grpcWireOriginator = HOST_CREATED_WIRE | PEER_CREATED_WIRE

fun originator_String :: "grpcWireOriginator \<Rightarrow> string" where
  "originator_String HOST_CREATED_WIRE = ''host originated''"
| "originator_String PEER_CREATED_WIRE = ''peer originated''"

record GRPCWire =
  gw_UID :: int64
  gw_TopoNamespace :: string
  gw_LocalNodeIfaceID :: int64
  gw_LocalNodeIfaceName :: string
  gw_LocalPodIP :: string
  gw_LocalPodName :: string
  gw_LocalPodIfaceName :: string
  gw_LocalPodNetNS :: string
  gw_WireIfaceIDOnPeerNode :: int64
  gw_PeerNodeIP :: string
  gw_IsReady :: bool
  gw_Originator :: grpcWireOriginator
  gw_OriginatorIP :: string
  gw_StopC :: nat

type_synonym linkKey = "string \<times> int64"

record wireMap =
  wheap :: "nat \<rightharpoonup> GRPCWire"
  wnext :: nat
  wires :: "linkKey \<rightharpoonup> nat"
  handles :: "int64 \<rightharpoonup> nat"
  chnext :: nat
  chclosed :: "nat set"
  panicked :: bool

definition empty_wires :: wireMap where
  "empty_wires = \<lparr>wheap = Map.empty, wnext = 0, wires = Map.empty, handles = Map.empty,
     chnext = 0, chclosed = {}, panicked = False\<rparr>"

definition CreateGWire :: "int64 \<Rightarrow> string \<Rightarrow> nat \<Rightarrow> WireDef \<Rightarrow> GRPCWire" where
  "CreateGWire locIfIndex locIfNm stopC wd =
     \<lparr>gw_UID = wd_LinkUid wd,
      gw_TopoNamespace = wd_TopoNs wd,
      gw_LocalNodeIfaceID = locIfIndex,
      gw_LocalNodeIfaceName = locIfNm,
      gw_LocalPodIP = wd_LocalPodIp wd,
      gw_LocalPodName = wd_LocalPodName wd,
      gw_LocalPodIfaceName = wd_IntfNameInPod wd,
      gw_LocalPodNetNS = wd_LocalPodNetNs wd,
      gw_WireIfaceIDOnPeerNode = wd_WireIfIdOnPeerNode wd,
      gw_PeerNodeIP = wd_PeerNodeIp wd,
      gw_IsReady = True,
      gw_Originator = PEER_CREATED_WIRE,
      gw_OriginatorIP = wd_PeerNodeIp wd,
      gw_StopC = stopC\<rparr>"

section \<open>Go's memory: allocation and channels\<close>

definition make_chan :: "wireMap \<Rightarrow> nat \<times> wireMap" where
  "make_chan m = (chnext m, m\<lparr>chnext := Suc (chnext m)\<rparr>)"

definition close_chan :: "nat \<Rightarrow> wireMap \<Rightarrow> wireMap" where
  "close_chan c m =
     (if c \<in> chclosed m then m\<lparr>panicked := True\<rparr> else m\<lparr>chclosed := insert c (chclosed m)\<rparr>)"

definition new_wire :: "GRPCWire \<Rightarrow> wireMap \<Rightarrow> nat \<times> wireMap" where
  "new_wire w m = (wnext m, m\<lparr>wheap := (wheap m)(wnext m \<mapsto> w), wnext := Suc (wnext m)\<rparr>)"

definition upd_wire :: "nat \<Rightarrow> (GRPCWire \<Rightarrow> GRPCWire) \<Rightarrow> wireMap \<Rightarrow> wireMap" where
  "upd_wire a f m = m\<lparr>wheap := (wheap m)(a := map_option f (wheap m a))\<rparr>"

section \<open>The operations of the map\<close>

definition key_of :: "GRPCWire \<Rightarrow> linkKey" where
  "key_of w = (gw_LocalPodNetNS w, gw_UID w)"

definition GetWire :: "string \<Rightarrow> int64 \<Rightarrow> wireMap \<Rightarrow> nat option" where
  "GetWire namespace linkUID m = wires m (namespace, linkUID)"

definition GetHandle :: "int64 \<Rightarrow> wireMap \<Rightarrow> nat option" where
  "GetHandle k m = handles m k"

definition GetHostIntfHndl :: "int64 \<Rightarrow> wireMap \<Rightarrow> nat res" where
  "GetHostIntfHndl intfID m =
     (case GetHandle intfID m of
        Some h \<Rightarrow> Inr h
      | None \<Rightarrow> Inl (Err (''node interface '' @ fmt_d (sint intfID) @ '' is not found in local db'')))"

definition AddInMem :: "nat \<Rightarrow> nat \<Rightarrow> wireMap \<Rightarrow> wireMap" where
  "AddInMem a handle m =
     (case wheap m a of
        None \<Rightarrow> m\<lparr>panicked := True\<rparr>
      | Some w \<Rightarrow> m\<lparr>wires := (wires m)(key_of w \<mapsto> a),
                     handles := (handles m)(gw_LocalNodeIfaceID w \<mapsto> handle)\<rparr>)"

definition DeleteWoLock :: "nat \<Rightarrow> wireMap \<Rightarrow> wireMap" where
  "DeleteWoLock a m =
     (case wheap m a of
        None \<Rightarrow> m\<lparr>panicked := True\<rparr>
      | Some w \<Rightarrow> m\<lparr>wires := (wires m)(key_of w := None),
                     handles := (handles m)(gw_LocalNodeIfaceID w := None)\<rparr>)"

definition AtomicDelete :: "nat \<Rightarrow> wireMap \<Rightarrow> wireMap" where
  "AtomicDelete a m =
     (case wheap m a of
        None \<Rightarrow> m\<lparr>panicked := True\<rparr>
      | Some w \<Rightarrow> m\<lparr>wires := (wires m)(key_of w := None),
                     handles := (handles m)(gw_LocalNodeIfaceID w := None)\<rparr>)"

definition Delete :: "nat \<Rightarrow> wireMap \<Rightarrow> wireMap" where
  "Delete a m = DeleteWoLock a m"

definition UpdateWire :: "nat \<Rightarrow> int64 \<Rightarrow> nat \<Rightarrow> wireMap \<Rightarrow> wireMap" where
  "UpdateWire a peerIntfId stopC m =
     upd_wire a (\<lambda>w. w\<lparr>gw_StopC := stopC, gw_WireIfaceIDOnPeerNode := peerIntfId, gw_IsReady := True\<rparr>) m"

definition UpdateWireByUID :: "string \<Rightarrow> int64 \<Rightarrow> int64 \<Rightarrow> nat \<Rightarrow> wireMap \<Rightarrow> nat option \<times> wireMap" where
  "UpdateWireByUID namespace linkUID peerIntfId stopC m =
     (case wires m (namespace, linkUID) of
        Some a \<Rightarrow>
          (Some a, upd_wire a
             (\<lambda>w. w\<lparr>gw_StopC := stopC, gw_WireIfaceIDOnPeerNode := peerIntfId, gw_IsReady := True\<rparr>) m)
      | None \<Rightarrow> (None, m))"

text \<open>Stopping a wire's receive thread: close its channel if it is ready, mark it down.\<close>

definition close_if_ready :: "nat \<Rightarrow> wireMap \<Rightarrow> wireMap" where
  "close_if_ready a m =
     (case wheap m a of
        None \<Rightarrow> m\<lparr>panicked := True\<rparr>
      | Some w \<Rightarrow> if gw_IsReady w then close_chan (gw_StopC w) m else m)"

definition mark_down :: "nat \<Rightarrow> wireMap \<Rightarrow> wireMap" where
  "mark_down a m = upd_wire a (\<lambda>w. w\<lparr>gw_IsReady := False\<rparr>) m"

definition stop_wire :: "nat \<Rightarrow> wireMap \<Rightarrow> wireMap" where
  "stop_wire a m = mark_down a (close_if_ready a m)"

definition WireDownByUID :: "string \<Rightarrow> int64 \<Rightarrow> wireMap \<Rightarrow> goerr option \<times> wireMap" where
  "WireDownByUID namespace linkUID m =
     (case wires m (namespace, linkUID) of
        Some a \<Rightarrow> (None, stop_wire a m)
      | None \<Rightarrow> (None, m))"

definition of_pod :: "string \<Rightarrow> string \<Rightarrow> GRPCWire \<Rightarrow> bool" where
  "of_pod namespace podName w \<longleftrightarrow> gw_LocalPodName w = podName \<and> gw_TopoNamespace w = namespace"

text \<open>The loops over the map take the order in which the runtime visits the keys.\<close>

definition GetWiresByPod :: "linkKey list \<Rightarrow> string \<Rightarrow> string \<Rightarrow> wireMap \<Rightarrow> nat list \<times> bool" where
  "GetWiresByPod ks namespace podName m =
     (filter (\<lambda>a. case wheap m a of Some w \<Rightarrow> of_pod namespace podName w | None \<Rightarrow> False)
        (List.map_filter (wires m) ks), True)"

fun ExtractOneWireByPod :: "linkKey list \<Rightarrow> string \<Rightarrow> string \<Rightarrow> wireMap \<Rightarrow> (nat option \<times> bool) \<times> wireMap" where
  "ExtractOneWireByPod [] namespace podName m = ((None, True), m)"
| "ExtractOneWireByPod (k # ks) namespace podName m =
     (case wires m k of
        None \<Rightarrow> ExtractOneWireByPod ks namespace podName m
      | Some a \<Rightarrow>
          (case wheap m a of
             None \<Rightarrow> ExtractOneWireByPod ks namespace podName m
           | Some w \<Rightarrow>
               if of_pod namespace podName w
               then ((Some a, True),
                     m\<lparr>wires := (wires m)(key_of w := None),
                       handles := (handles m)(gw_LocalNodeIfaceID w := None)\<rparr>)
               else ExtractOneWireByPod ks namespace podName m))"

fun GetWireByIfIndex :: "linkKey list \<Rightarrow> int64 \<Rightarrow> wireMap \<Rightarrow> nat option" where
  "GetWireByIfIndex [] ifindex m = None"
| "GetWireByIfIndex (k # ks) ifindex m =
     (case wires m k of
        None \<Rightarrow> GetWireByIfIndex ks ifindex m
      | Some a \<Rightarrow>
          (case wheap m a of
             None \<Rightarrow> GetWireByIfIndex ks ifindex m
           | Some w \<Rightarrow> if gw_LocalNodeIfaceID w = ifindex then Some a else GetWireByIfIndex ks ifindex m))"

definition snapshotWires :: "linkKey list \<Rightarrow> wireMap \<Rightarrow> nat list" where
  "snapshotWires ks m = List.map_filter (wires m) ks"

section \<open>The two maps as registries\<close>

lemma AddInMem_simps [simp]:
  "wheap (AddInMem a h m) = wheap m" "wnext (AddInMem a h m) = wnext m"
  "chnext (AddInMem a h m) = chnext m" "chclosed (AddInMem a h m) = chclosed m"
  "wheap m a = Some w \<Longrightarrow> panicked (AddInMem a h m) = panicked m"
  "wheap m a = Some w \<Longrightarrow> wires (AddInMem a h m) = (wires m)(key_of w \<mapsto> a)"
  "wheap m a = Some w \<Longrightarrow> handles (AddInMem a h m) = (handles m)(gw_LocalNodeIfaceID w \<mapsto> h)"
  by (auto simp: AddInMem_def split: option.split)

lemma AtomicDelete_simps [simp]:
  "wheap (AtomicDelete a m) = wheap m" "wnext (AtomicDelete a m) = wnext m"
  "chnext (AtomicDelete a m) = chnext m" "chclosed (AtomicDelete a m) = chclosed m"
  "wheap m a = Some w \<Longrightarrow> panicked (AtomicDelete a m) = panicked m"
  "wheap m a = Some w \<Longrightarrow> wires (AtomicDelete a m) = (wires m)(key_of w := None)"
  "wheap m a = Some w \<Longrightarrow> handles (AtomicDelete a m) = (handles m)(gw_LocalNodeIfaceID w := None)"
  by (auto simp: AtomicDelete_def split: option.split)

lemma Delete_eq_AtomicDelete: "Delete a m = AtomicDelete a m"
  by (simp add: Delete_def DeleteWoLock_def AtomicDelete_def)

definition wire_at :: "wireMap \<Rightarrow> nat \<Rightarrow> GRPCWire" where
  "wire_at m a = the (wheap m a)"

definition allocated :: "wireMap \<Rightarrow> nat \<Rightarrow> bool" where
  "allocated m a \<longleftrightarrow> wheap m a \<noteq> None"

interpretation wire_reg: registry "\<lambda>k. GetWire (fst k) (snd k)" "\<lambda>a. AddInMem a h" AtomicDelete
    "\<lambda>m a. key_of (wire_at m a)" "\<lambda>m a. key_of (wire_at m a)" allocated allocated for h
  by unfold_locales (auto simp: GetWire_def wire_at_def allocated_def fun_eq_iff)

interpretation handle_reg: registry GetHandle "\<lambda>h. AddInMem a h" "\<lambda>d. AtomicDelete d"
    "\<lambda>m h. gw_LocalNodeIfaceID (wire_at m a)" "\<lambda>m d. gw_LocalNodeIfaceID (wire_at m d)"
    "\<lambda>m h. allocated m a" allocated for a
  by unfold_locales (auto simp: GetHandle_def wire_at_def allocated_def fun_eq_iff)

end
