(* ===== verification/Link_Map.thy ===== *)
theory Link_Map
  imports Environment Registry
begin

text \<open>
  The table of VXLAN endpoints, \<open>daemon/vxlan/link_map.go\<close>: links filed under the
  pod's Kubernetes namespace and the link id.
\<close>

definition BaseVNI :: int where "BaseVNI = 5000"

record vxLink =
  vl_UID :: int64
  vl_KubeNs :: string
  vl_LocalNetNS :: string
  vl_LocalIntfName :: string
  vl_PeerNodeIP :: string

type_synonym vxKey = "string \<times> int64"
type_synonym linkMap = "vxKey \<rightharpoonup> vxLink"

definition RegisterLink :: "vxLink \<Rightarrow> linkMap \<Rightarrow> linkMap" where
  "RegisterLink l m = m((vl_KubeNs l, vl_UID l) \<mapsto> l)"

definition UnregisterLink :: "string \<Rightarrow> int64 \<Rightarrow> linkMap \<Rightarrow> linkMap" where
  "UnregisterLink kubeNs uid m = m((kubeNs, uid) := None)"

definition GetLink :: "string \<Rightarrow> int64 \<Rightarrow> linkMap \<Rightarrow> vxLink option" where
  "GetLink kubeNs uid m = m (kubeNs, uid)"

text \<open>The loops over the map take the order in which the runtime visits the keys.\<close>

fun GetLinkByUID :: "vxKey list \<Rightarrow> int64 \<Rightarrow> linkMap \<Rightarrow> vxLink option" where
  "GetLinkByUID [] uid m = None"
| "GetLinkByUID (k # ks) uid m =
     (case m k of
        None \<Rightarrow> GetLinkByUID ks uid m
      | Some l \<Rightarrow> if vl_UID l = uid then Some l else GetLinkByUID ks uid m)"

definition snapshotLinks :: "vxKey list \<Rightarrow> linkMap \<Rightarrow> vxLink list" where
  "snapshotLinks ks m = List.map_filter m ks"

definition RegisterFromRemotePod :: "RemotePod \<Rightarrow> linkMap \<Rightarrow> linkMap" where
  "RegisterFromRemotePod v m =
     RegisterLink \<lparr>vl_UID = word_of_int (sint (rp_Vni v) - BaseVNI), vl_KubeNs = rp_KubeNs v,
       vl_LocalNetNS = rp_NetNs v, vl_LocalIntfName = rp_IntfName v, vl_PeerNodeIP = rp_PeerVtep v\<rparr> m"

definition RegisterFromDef :: "VxlanLinkDef \<Rightarrow> linkMap \<Rightarrow> linkMap" where
  "RegisterFromDef d m =
     RegisterLink \<lparr>vl_UID = vld_LinkUid d, vl_KubeNs = vld_KubeNs d, vl_LocalNetNS = vld_NetNs d,
       vl_LocalIntfName = vld_IntfName d, vl_PeerNodeIP = vld_PeerNodeIp d\<rparr> m"

interpretation link_reg: registry "\<lambda>k. GetLink (fst k) (snd k)" RegisterLink
    "\<lambda>k. UnregisterLink (fst k) (snd k)" "\<lambda>m l. (vl_KubeNs l, vl_UID l)" "\<lambda>m k. k"
    "\<lambda>m l. True" "\<lambda>m k. True"
  by unfold_locales (auto simp: GetLink_def RegisterLink_def UnregisterLink_def)

section \<open>Looking a link up by its id alone\<close>

definition links_keyed :: "linkMap \<Rightarrow> bool" where
  "links_keyed m \<longleftrightarrow> (\<forall>k l. m k = Some l \<longrightarrow> k = (vl_KubeNs l, vl_UID l))"

lemma links_keyed_ops [simp]:
  "links_keyed Map.empty" "links_keyed m \<Longrightarrow> links_keyed (RegisterLink l m)"
  "links_keyed m \<Longrightarrow> links_keyed (UnregisterLink ns uid m)"
  by (auto simp: links_keyed_def RegisterLink_def UnregisterLink_def)

lemma GetLinkByUID_Some:
  "GetLinkByUID ks uid m = Some l \<Longrightarrow> \<exists>k \<in> set ks. m k = Some l \<and> vl_UID l = uid"
  by (induction ks) (auto split: option.splits if_splits)

lemma GetLinkByUID_None:
  "GetLinkByUID ks uid m = None \<Longrightarrow> k \<in> set ks \<Longrightarrow> m k = Some l \<Longrightarrow> vl_UID l \<noteq> uid"
  by (induction ks) (auto split: option.splits if_splits)

text \<open>
  A link found by its id alone is a registered one with that id; where only one
  namespace uses the id, it is the link registered there, whatever order the map is
  visited in.
\<close>

theorem link_by_uid_unique:
  assumes "links_keyed m" "dom m \<subseteq> set ks" "GetLink ns uid m = Some l"
    and "\<And>ns'. GetLink ns' uid m \<noteq> None \<Longrightarrow> ns' = ns"
  shows "GetLinkByUID ks uid m = Some l"
proof (cases "GetLinkByUID ks uid m")
  case None
  have "(ns, uid) \<in> set ks" using assms(2,3) by (auto simp: GetLink_def)
  with None have "vl_UID l \<noteq> uid" using assms(3) GetLinkByUID_None by (simp add: GetLink_def)
  then show ?thesis using assms(1,3) by (auto simp: links_keyed_def GetLink_def)
next
  case (Some l')
  then obtain k where k: "m k = Some l'" "vl_UID l' = uid" using GetLinkByUID_Some by blast
  then have "k = (vl_KubeNs l', uid)" using assms(1) unfolding links_keyed_def by blast
  with k assms(4) [of "vl_KubeNs l'"] assms(3) Some show ?thesis by (auto simp: GetLink_def)
qed

definition demo_vx :: "string \<Rightarrow> string \<Rightarrow> vxLink" where
  "demo_vx ns netns = \<lparr>vl_UID = 3, vl_KubeNs = ns, vl_LocalNetNS = netns, vl_LocalIntfName = ''eth1'',
     vl_PeerNodeIP = ''10.0.0.2''\<rparr>"

theorem link_by_uid_unique_witness:
  "GetLinkByUID [(''t'', 3)] 3 (RegisterLink (demo_vx ''t'' ''/a'') Map.empty) = Some (demo_vx ''t'' ''/a'')"
  by (rule link_by_uid_unique [where ns = "''t''"])
     (auto simp: RegisterLink_def GetLink_def demo_vx_def links_keyed_def split: if_splits)

text \<open>
  With the same link id in two namespaces, looking a link up by its id alone answers
  either of them, as the map happens to be visited, although both are registered.
\<close>

theorem link_by_uid_ambiguous:
  "\<exists>m a b. links_keyed m \<and> GetLink ''t1'' 3 m = Some a \<and> GetLink ''t2'' 3 m = Some b \<and> a \<noteq> b \<and>
     GetLinkByUID [(''t1'', 3), (''t2'', 3)] 3 m = Some a \<and>
     GetLinkByUID [(''t2'', 3), (''t1'', 3)] 3 m = Some b"
  by (rule exI [of _ "RegisterLink (demo_vx ''t1'' ''/a'') (RegisterLink (demo_vx ''t2'' ''/b'') Map.empty)"])
     (simp add: RegisterLink_def GetLink_def demo_vx_def links_keyed_def)

text \<open>
  After any sequence of registrations and removals the table answers, for every
  namespace and link id, the link registered last there and not removed since.
\<close>

theorem link_map_last_effect:
  "GetLink ns uid (run_calls RegisterLink (\<lambda>k. UnregisterLink (fst k) (snd k)) cs m) =
     last_effect (\<lambda>l. (vl_KubeNs l, vl_UID l)) (\<lambda>k. k) cs (ns, uid) (GetLink ns uid m)"
proof -
  have "\<forall>c \<in> set cs. call_ok (\<lambda>l. True) (\<lambda>k. True) c" by (metis call_ok.elims(3))
  from link_reg.get_run_calls [OF this, of "(ns, uid)" m] show ?thesis by simp
qed

text \<open>
  A link announced by the peer daemon (with its VNI) and the one announced by the
  local CNI plugin (with its link id) are filed under the same key, so either removal or
  lookup finds it: the VNI offset cancels.
\<close>

theorem vni_offset_cancels:
  assumes "rp_Vni v = uid + word_of_int BaseVNI" "rp_KubeNs v = ns"
  shows "GetLink ns uid (RegisterFromRemotePod v m) \<noteq> None"
proof -
  have "word_of_int (sint (rp_Vni v) - BaseVNI) = uid"
    unfolding assms(1) wi_hom_sub [symmetric] by simp
  then show ?thesis using assms(2) by (simp add: GetLink_def RegisterFromRemotePod_def RegisterLink_def)
qed

definition demo_remote :: RemotePod where
  "demo_remote = \<lparr>rp_NetNs = ''/a'', rp_IntfName = ''eth1'', rp_IntfIp = '''', rp_PeerVtep = ''10.0.0.2'',
     rp_KubeNs = ''t'', rp_Vni = 5003, rp_NodeIntf = '''', rp_Mtu = 0\<rparr>"

theorem vni_offset_cancels_witness:
  "GetLink ''t'' 3 (RegisterFromRemotePod demo_remote Map.empty) \<noteq> None"
  by (rule vni_offset_cancels) (simp_all add: demo_remote_def BaseVNI_def)

end
