(* ===== verification/Daemon_State.thy ===== *)
theory Daemon_State
  imports Iface_Names Carrier_Prop Wire_Map Link_Map
begin

text \<open>
  The daemon's global variables, as one record beside the world outside: the interface
  counter, the wire map, the VXLAN link table, the echo table, the cache of node
  addresses, and the receive threads the daemon has started.  A program over the world
  alone is lifted into a program over the daemon.
\<close>

record ip_cache =
  nodeClient :: bool
  nodeIPSet :: "string set option"
  nodeIPCacheExpiry :: int

record 'w daemon =
  dm_world :: 'w
  dm_index :: intfIndex
  dm_wires :: wireMap
  dm_links :: linkMap
  dm_echo :: echo_table
  dm_ips :: ip_cache
  dm_threads :: "(nat \<times> string) list"
  dm_carrier :: bool

type_synonym ('w, 'a) dio = "('w daemon, 'a) io"

definition lift :: "('w, 'a) io \<Rightarrow> ('w, 'a) dio" where
  "lift m = State (\<lambda>d. case run_state m (dm_world d) of (a, w) \<Rightarrow> (a, d\<lparr>dm_world := w\<rparr>))"

definition on_wires :: "(wireMap \<Rightarrow> 'a \<times> wireMap) \<Rightarrow> ('w, 'a) dio" where
  "on_wires f = State (\<lambda>d. case f (dm_wires d) of (a, m) \<Rightarrow> (a, d\<lparr>dm_wires := m\<rparr>))"

definition start_thread :: "nat \<Rightarrow> string \<Rightarrow> ('w, unit) dio" where
  "start_thread a ifc = modifies (\<lambda>d. d\<lparr>dm_threads := dm_threads d @ [(a, ifc)]\<rparr>)"

lemma run_lift [simp, io_run]:
  "run_state (lift m) d = (case run_state m (dm_world d) of (a, w) \<Rightarrow> (a, d\<lparr>dm_world := w\<rparr>))"
  by (simp add: lift_def)

lemma run_on_wires [simp, io_run]:
  "run_state (on_wires f) d = (case f (dm_wires d) of (a, m) \<Rightarrow> (a, d\<lparr>dm_wires := m\<rparr>))"
  by (simp add: on_wires_def)

end
