(* ===== verification/Vxlan.thy ===== *)
theory Vxlan
  imports Daemon_State Koko
begin

text \<open>
  \<open>daemon/vxlan/vxlan.go\<close> and \<open>carrier.go\<close>: creating or replacing the VXLAN
  interface of a pod, and mirroring the carrier of VXLAN links.
\<close>

section \<open>Creating the interface\<close>

definition getSource :: "'w net_env \<Rightarrow> ('w, (ip \<times> string) res) io" where
  "getSource nt = do {
     rr \<leftarrow> RouteGet nt [1, 1, 1, 1];
     (case rr of (r, err) \<Rightarrow>
        (case r of
           [] \<Rightarrow> return (Inl (case err of
                 Some e \<Rightarrow> errorf_v '' MESHNETD: Error getting default route: '' e
               | None \<Rightarrow> go_panic ''index out of range [0] with length 0''))
         | (src, idx) # _ \<Rightarrow> do {
             rl \<leftarrow> LinkByIndex nt CurrentNs idx;
             return (case rl of
                 Inl e \<Rightarrow> Inl (errorf_v '' MESHNETD: Error looking up link by its index: '' e)
               | Inr link \<Rightarrow> Inr (src, nl_Name link))
           }))
   }"

definition resolveLocalParentIF :: "'w net_env \<Rightarrow> string \<Rightarrow> ('w, string res) io" where
  "resolveLocalParentIF nt hint = do {
     present \<leftarrow> (if hint \<noteq> '''' then do {
                   r \<leftarrow> LinkByName nt CurrentNs hint;
                   return (case r of Inl e \<Rightarrow> False | Inr l \<Rightarrow> True)
                 } else return False);
     if present then return (Inr hint)
     else do {
       r \<leftarrow> getSource nt;
       return (case r of Inl e \<Rightarrow> Inl e | Inr (ip, intf) \<Rightarrow> Inr intf)
     }
   }"

definition getLinkFromNS :: "'w net_env \<Rightarrow> string \<Rightarrow> string \<Rightarrow> ('w, nlink option) io" where
  "getLinkFromNS nt nsName linkName = do {
     rn \<leftarrow> GetNS nt nsName;
     (case rn of
        Inl e \<Rightarrow> return None
      | Inr vethNs \<Rightarrow> do {
          r \<leftarrow> ns_Do nt vethNs (\<lambda>c. LinkByName nt c linkName);
          return (case r of Inl e \<Rightarrow> None | Inr l \<Rightarrow> Some l)
        })
   }"

text \<open>What the existing interface calls for, and carrying it out.\<close>

datatype vx_plan = Keep | Replace | RemoveThenCreate | CreateOnly

definition vx_decide :: "nlink option \<Rightarrow> VxLan \<Rightarrow> vx_plan" where
  "vx_decide link vx =
     (case link of
        None \<Rightarrow> CreateOnly
      | Some l \<Rightarrow>
          (case nl_Kind l of
             KindVxlan vid grp \<Rightarrow>
               if vid = vx_ID vx \<and> ip_Equal grp (vx_IPAddr vx) then Keep else Replace
           | _ \<Rightarrow> RemoveThenCreate))"

definition vx_create :: "'w net_env \<Rightarrow> 'w os_env \<Rightarrow> VEth \<Rightarrow> VxLan \<Rightarrow> (goerr \<Rightarrow> goerr) \<Rightarrow> ('w, goerr option) io" where
  "vx_create nt os veth vx wrap = do {
     e \<leftarrow> MakeVxLan nt os veth vx;
     return (case e of
         None \<Rightarrow> None
       | Some e \<Rightarrow> if contains (err_text e) ''file exists'' then None else Some (wrap e))
   }"

definition vx_apply :: "'w net_env \<Rightarrow> 'w os_env \<Rightarrow> VEth \<Rightarrow> VxLan \<Rightarrow> vx_plan \<Rightarrow> ('w, goerr option) io" where
  "vx_apply nt os veth vx plan =
     (case plan of
        Keep \<Rightarrow> return None
      | Replace \<Rightarrow> do {
          e \<leftarrow> RemoveVethLink nt veth;
          (case e of
             Some e \<Rightarrow> return (Some (errorf_v '' MESHNETD: Error when removing an old Vxlan interface with koko: '' e))
           | None \<Rightarrow> vx_create nt os veth vx
               (errorf_v '' MESHNETD: Error when re-creating a Vxlan interface with koko: ''))
        }
      | RemoveThenCreate \<Rightarrow> do {
          e \<leftarrow> RemoveVethLink nt veth;
          (case e of
             Some e \<Rightarrow> return (Some (errorf_v '' MESHNETD: Error when removing an old non-Vxlan interface with koko: '' e))
           | None \<Rightarrow> vx_create nt os veth vx (\<lambda>e. e))
        }
      | CreateOnly \<Rightarrow> vx_create nt os veth vx (\<lambda>e. e))"

definition vx_request :: "'w net_env \<Rightarrow> RemotePod \<Rightarrow> string \<Rightarrow> int \<Rightarrow> VxLan" where
  "vx_request nt v srcIntf mtu =
     \<lparr>vx_ParentIF = srcIntf, vx_ID = sint (rp_Vni v),
      vx_IPAddr = (case ParseIP nt (rp_PeerVtep v) of None \<Rightarrow> [] | Some a \<Rightarrow> a),
      vx_MTU = mtu, vx_UDPPort = 0\<rparr>"

definition pod_veth :: "'w net_env \<Rightarrow> string \<Rightarrow> string \<Rightarrow> string \<Rightarrow> (goerr \<Rightarrow> goerr) \<Rightarrow> VEth res" where
  "pod_veth nt netNs ifName cidr wrap =
     (if cidr = '''' then Inr \<lparr>ve_NsName = netNs, ve_LinkName = ifName, ve_IPAddr = [], ve_MTU = 0\<rparr>
      else (case ParseCIDR nt cidr of
              Inl e \<Rightarrow> Inl (wrap e)
            | Inr (a, n) \<Rightarrow> Inr \<lparr>ve_NsName = netNs, ve_LinkName = ifName,
                 ve_IPAddr = [\<lparr>ipn_IP = a, ipn_Mask = ipn_Mask n\<rparr>], ve_MTU = 0\<rparr>))"

definition CreateOrUpdate :: "'w net_env \<Rightarrow> 'w os_env \<Rightarrow> RemotePod \<Rightarrow> ('w, goerr option) io" where
  "CreateOrUpdate nt os v = do {
     rs \<leftarrow> resolveLocalParentIF nt (rp_NodeIntf v);
     (case rs of
        Inl e \<Rightarrow> return (Some e)
      | Inr srcIntf \<Rightarrow>
          (case pod_veth nt (rp_NetNs v) (rp_IntfName v) (rp_IntfIp v)
                  (errorf_v ('' MESHNETD: Error parsing CIDR '' @ rp_IntfIp v @ '': '')) of
             Inl e \<Rightarrow> return (Some e)
           | Inr veth \<Rightarrow> do {
               mtu \<leftarrow> (if sint (rp_Mtu v) = 0
                       then do { d \<leftarrow> ReadDefaultLinkMTU os; return (if snd d then fst d else 0) }
                       else return (sint (rp_Mtu v)));
               link \<leftarrow> getLinkFromNS nt (ve_NsName veth) (ve_LinkName veth);
               vx_apply nt os veth (vx_request nt v srcIntf mtu)
                 (vx_decide link (vx_request nt v srcIntf mtu))
             }))
   }"

definition vxlanDifferent :: "int \<Rightarrow> ip \<Rightarrow> VxLan \<Rightarrow> bool" where
  "vxlanDifferent vid grp l2 =
     (if vid \<noteq> vx_ID l2 then False else if \<not> ip_Equal grp (vx_IPAddr l2) then False else True)"

section \<open>Carrier of VXLAN links\<close>

definition linkOperUp :: "'w net_env \<Rightarrow> vxLink \<Rightarrow> ('w, bool res) io" where
  "linkOperUp nt l = OperUpInPodNetNS nt (vl_LocalNetNS l) (vl_LocalIntfName l)"

definition vx_link_state :: "vxLink \<Rightarrow> bool \<Rightarrow> WireLinkState" where
  "vx_link_state l up = \<lparr>wls_LinkUid = vl_UID l, wls_LocalPodNetNs = '''', wls_Up = up, wls_PeerIfaceId = 0\<rparr>"

definition vx_propagateEdge :: "'w rpc_env \<Rightarrow> vxKey list \<Rightarrow> int64 \<Rightarrow> bool \<Rightarrow> ('w, unit) dio" where
  "vx_propagateEdge rpc ks uid up = do {
     m \<leftarrow> reads dm_links;
     (case GetLinkByUID ks uid m of
        None \<Rightarrow> return ()
      | Some l \<Rightarrow> do {
          e \<leftarrow> lift (NotifyPeerLinkState rpc (vl_PeerNodeIP l) (vx_link_state l up));
          return ()
        })
   }"

text \<open>One tick of the watch: sample every link that can be read, then the due edges.\<close>

fun vx_samples :: "'w net_env \<Rightarrow> vxLink list \<Rightarrow> int \<Rightarrow> Debouncer \<Rightarrow> ('w, Debouncer) io" where
  "vx_samples nt [] now deb = return deb"
| "vx_samples nt (l # ls) now deb = do {
     r \<leftarrow> linkOperUp nt l;
     vx_samples nt ls now (case r of Inl e \<Rightarrow> deb | Inr up \<Rightarrow> Observe (vl_UID l) up now deb)
   }"

fun vx_edges :: "'w rpc_env \<Rightarrow> vxKey list \<Rightarrow> Edge list \<Rightarrow> ('w, unit) dio" where
  "vx_edges rpc ks [] = return ()"
| "vx_edges rpc ks (e # es) = do {
     t \<leftarrow> reads dm_echo;
     (case ConsumeEcho (ed_Key e) (ed_Up e) t of
        (True, t') \<Rightarrow> do { modifies (\<lambda>d. d\<lparr>dm_echo := t'\<rparr>); vx_edges rpc ks es }
      | (False, t') \<Rightarrow> do { vx_propagateEdge rpc ks (ed_Key e) (ed_Up e); vx_edges rpc ks es })
   }"

definition vx_tick ::
    "'w net_env \<Rightarrow> 'w rpc_env \<Rightarrow> vxKey list \<Rightarrow> int64 list \<Rightarrow> int \<Rightarrow> Debouncer \<Rightarrow> ('w, Debouncer) dio" where
  "vx_tick nt rpc ks order now deb = do {
     m \<leftarrow> reads dm_links;
     deb1 \<leftarrow> lift (vx_samples nt (snapshotLinks ks m) now deb);
     (case Due order now deb1 of (es, deb2) \<Rightarrow> do { vx_edges rpc ks es; return deb2 })
   }"

definition SetLocalLinkState :: "'w net_env \<Rightarrow> vxKey list \<Rightarrow> int64 \<Rightarrow> bool \<Rightarrow> ('w, goerr option) dio" where
  "SetLocalLinkState nt ks uid up = do {
     m \<leftarrow> reads dm_links;
     (case GetLinkByUID ks uid m of
        None \<Rightarrow> return None
      | Some link \<Rightarrow> do {
          modifies (\<lambda>d. d\<lparr>dm_echo := SuppressEcho uid up (dm_echo d)\<rparr>);
          rn \<leftarrow> lift (GetNS nt (vl_LocalNetNS link));
          (case rn of
             Inl e \<Rightarrow> return (Some (Wrap (''SetLocalLinkState: netns '' @ vl_LocalNetNS link @ '': '') e))
           | Inr vethNs \<Rightarrow> lift (as_err (ns_Do nt vethNs (\<lambda>c. do {
               rl \<leftarrow> LinkByName nt c (vl_LocalIntfName link);
               (case rl of
                  Inl e \<Rightarrow> return (Inl (Wrap (''SetLocalLinkState: iface '' @ vl_LocalIntfName link @
                     '' uid '' @ fmt_d (sint uid) @ '': '') e))
                | Inr l \<Rightarrow> as_res (if up then LinkSetUp nt c l else LinkSetDown nt c l))
             }))))
        })
   }"

fun vx_reassert :: "'w net_env \<Rightarrow> 'w rpc_env \<Rightarrow> vxLink list \<Rightarrow> ('w, unit) io" where
  "vx_reassert nt rpc [] = return ()"
| "vx_reassert nt rpc (l # ls) = do {
     r \<leftarrow> linkOperUp nt l;
     (case r of
        Inl e \<Rightarrow> return ()
      | Inr up \<Rightarrow> do {
          e \<leftarrow> NotifyPeerLinkState rpc (vl_PeerNodeIP l) (vx_link_state l up);
          return ()
        });
     vx_reassert nt rpc ls
   }"

definition vx_ReassertLocalLinkStates :: "'w net_env \<Rightarrow> 'w rpc_env \<Rightarrow> vxKey list \<Rightarrow> ('w, unit) dio" where
  "vx_ReassertLocalLinkStates nt rpc ks = do {
     d \<leftarrow> reads id;
     if \<not> dm_carrier d then return () else lift (vx_reassert nt rpc (snapshotLinks ks (dm_links d)))
   }"

section \<open>Properties\<close>

text \<open>
  An interface that already is the tunnel asked for (same VNI and same remote
  endpoint) is left alone: re-running the set-up succeeds and does nothing to the world
  beyond looking; in every other case the name is freed first if it is taken.
\<close>

theorem vxlan_reuse_iff_same:
  "(vx_decide link vx = Keep \<longleftrightarrow>
      (\<exists>l grp. link = Some l \<and> nl_Kind l = KindVxlan (vx_ID vx) grp \<and> ip_Equal grp (vx_IPAddr vx))) \<and>
   (vx_decide link vx = CreateOnly \<longleftrightarrow> link = None) \<and>
   run_state (vx_apply nt os veth vx Keep) w = (None, w) \<and>
   (vx_decide (Some (l\<lparr>nl_Kind := KindVxlan vid grp\<rparr>)) vx = Keep) = vxlanDifferent vid grp vx"
  by (auto simp: vx_decide_def vx_apply_def vxlanDifferent_def split: option.split link_kind.split)

end
