(* ===== verification/Peer_IP.thy ===== *)
theory Peer_IP
  imports Daemon_State Reference_Env
begin

text \<open>
  \<open>daemon/grpcwire/peerip.go\<close>: before the daemon dials a peer, the address must be
  that of a cluster node.  The set of node addresses is cached for
  \<open>nodeIPCacheTTL\<close>.
\<close>

definition nodeIPCacheTTL :: int where "nodeIPCacheTTL = seconds 30"
definition peerNodeIPRetryInterval :: int where "peerNodeIPRetryInterval = seconds 5"

definition SetNodeClient :: "('w, unit) dio" where
  "SetNodeClient = modifies (\<lambda>d. d\<lparr>dm_ips := \<lparr>nodeClient = True, nodeIPSet = None, nodeIPCacheExpiry = 0\<rparr>\<rparr>)"

definition node_ips :: "Node \<Rightarrow> string list" where
  "node_ips n = map snd (filter (\<lambda>(t, a). (t = NodeInternalIP \<or> t = NodeExternalIP) \<and> a \<noteq> '''') (nd_Addresses n))"

definition refreshNodeIPs :: "'w os_env \<Rightarrow> 'w kube_env \<Rightarrow> ('w, string set res) dio" where
  "refreshNodeIPs os k = do {
     r \<leftarrow> lift (NodesList k);
     (case r of
        Inl e \<Rightarrow> return (Inl e)
      | Inr nodes \<Rightarrow> do {
          let s = set (concat (map node_ips nodes));
          now \<leftarrow> lift (Now os);
          modifies (\<lambda>d. d\<lparr>dm_ips := (dm_ips d)\<lparr>nodeIPSet := Some s, nodeIPCacheExpiry := now + nodeIPCacheTTL\<rparr>\<rparr>);
          return (Inr s)
        })
   }"

definition unknown_peer :: "string \<Rightarrow> goerr" where
  "unknown_peer ip = Err (''peer IP '' @ ip @ '' is not a known cluster node address'')"

definition validatePeerNodeIP :: "'w os_env \<Rightarrow> 'w kube_env \<Rightarrow> string \<Rightarrow> ('w, goerr option) dio" where
  "validatePeerNodeIP os k ip = do {
     c \<leftarrow> reads dm_ips;
     if \<not> nodeClient c then return None
     else do {
       expired \<leftarrow> (case nodeIPSet c of
                     None \<Rightarrow> return True
                   | Some s \<Rightarrow> do { now \<leftarrow> lift (Now os); return (nodeIPCacheExpiry c < now) });
       cached \<leftarrow> (if expired then refreshNodeIPs os k
                  else return (Inr (case nodeIPSet c of Some s \<Rightarrow> s | None \<Rightarrow> {})));
       return (case cached of
           Inl e \<Rightarrow> Some (Wrap ''refresh node IP allowlist: '' e)
         | Inr s \<Rightarrow> if ip \<in> s then None else Some (unknown_peer ip))
     }
   }"

definition ValidatePeerNodeIP :: "'w os_env \<Rightarrow> 'w kube_env \<Rightarrow> string \<Rightarrow> ('w, goerr option) dio" where
  "ValidatePeerNodeIP os k ip = validatePeerNodeIP os k ip"

text \<open>
  The loop of \<open>waitForValidPeerNodeIP\<close> consumes the outcomes of its \<open>select\<close>: the
  wire is stopped, or the retry timer fires.  \<open>None\<close>: the given outcomes are used up
  and it is still waiting.
\<close>

datatype wait_event = Stopped | TimerFired

fun waitForValidPeerNodeIP ::
    "'w os_env \<Rightarrow> 'w kube_env \<Rightarrow> string \<Rightarrow> wait_event list \<Rightarrow> ('w, goerr option option) dio" where
  "waitForValidPeerNodeIP os k ip evs = do {
     r \<leftarrow> validatePeerNodeIP os k ip;
     (case r of
        None \<Rightarrow> return (Some None)
      | Some e \<Rightarrow>
          (case evs of
             [] \<Rightarrow> return None
           | Stopped # _ \<Rightarrow> return (Some (Some (Wrap
               (''wire stopped while waiting for peer node IP '' @ ip @
                '' to become a known cluster node: last error: '') e)))
           | TimerFired # rest \<Rightarrow> do {
               lift (Sleep os peerNodeIPRetryInterval);
               waitForValidPeerNodeIP os k ip rest
             }))
   }"

declare waitForValidPeerNodeIP.simps [simp del]

section \<open>Only node addresses pass\<close>

definition lists_only :: "'w kube_env \<Rightarrow> string set \<Rightarrow> bool" where
  "lists_only k K \<longleftrightarrow>
     (\<forall>w nodes w'. run_state (NodesList k) w = (Inr nodes, w') \<longrightarrow> (\<forall>n \<in> set nodes. set (node_ips n) \<subseteq> K))"

definition cache_within :: "string set \<Rightarrow> 'w daemon \<Rightarrow> bool" where
  "cache_within K d \<longleftrightarrow> nodeClient (dm_ips d) \<and> (\<forall>s. nodeIPSet (dm_ips d) = Some s \<longrightarrow> s \<subseteq> K)"

text \<open>What a program that only refreshes the cache leaves as it was.\<close>

definition same_but_ips :: "'w daemon \<Rightarrow> 'w daemon \<Rightarrow> bool" where
  "same_but_ips d d' \<longleftrightarrow> dm_index d' = dm_index d \<and> dm_wires d' = dm_wires d \<and> dm_links d' = dm_links d \<and>
     dm_echo d' = dm_echo d \<and> dm_threads d' = dm_threads d \<and> dm_carrier d' = dm_carrier d"

lemma same_but_ips_trans: "same_but_ips a b \<Longrightarrow> same_but_ips b c \<Longrightarrow> same_but_ips a c"
  by (simp add: same_but_ips_def)

lemma refresh_within:
  assumes "lists_only k K" "cache_within K d" "run_state (refreshNodeIPs os k) d = (r, d')"
  shows "cache_within K d' \<and> same_but_ips d d' \<and> (\<forall>s. r = Inr s \<longrightarrow> s \<subseteq> K)"
proof -
  obtain l w1 where l: "run_state (NodesList k) (dm_world d) = (l, w1)" by fastforce
  show ?thesis
  proof (cases l)
    case (Inl e)
    then show ?thesis using assms l by (auto simp: refreshNodeIPs_def cache_within_def same_but_ips_def)
  next
    case (Inr nodes)
    with l assms(1) have "set (concat (map node_ips nodes)) \<subseteq> K" unfolding lists_only_def by fastforce
    then show ?thesis using assms(2,3) l Inr
      by (auto simp: refreshNodeIPs_def cache_within_def same_but_ips_def Let_def split: prod.splits)
  qed
qed

lemma validate_within:
  assumes "lists_only k K" "cache_within K d" "run_state (validatePeerNodeIP os k ip) d = (r, d')"
  shows "cache_within K d' \<and> same_but_ips d d' \<and> (r = None \<longrightarrow> ip \<in> K)"
proof -
  have client: "nodeClient (dm_ips d)" using assms(2) by (simp add: cache_within_def)
  obtain ex d1 where ex: "run_state (case nodeIPSet (dm_ips d) of None \<Rightarrow> return True
      | Some s \<Rightarrow> do { now \<leftarrow> lift (Now os); return (nodeIPCacheExpiry (dm_ips d) < now) }) d = (ex, d1)"
    by fastforce
  have d1: "cache_within K d1" "same_but_ips d d1" "dm_ips d1 = dm_ips d"
    using ex assms(2) by (auto simp: cache_within_def same_but_ips_def split: option.splits prod.splits)
  show ?thesis
  proof (cases ex)
    case True
    obtain c d2 where c: "run_state (refreshNodeIPs os k) d1 = (c, d2)" by fastforce
    have "d' = d2" "r = (case c of Inl e \<Rightarrow> Some (Wrap ''refresh node IP allowlist: '' e)
         | Inr s \<Rightarrow> if ip \<in> s then None else Some (unknown_peer ip))"
      using assms(3) client ex True c by (auto simp: validatePeerNodeIP_def)
    then show ?thesis
      using refresh_within [OF assms(1) d1(1) c] same_but_ips_trans [OF d1(2)]
      by (auto split: sum.splits if_splits)
  next
    case False
    have "d' = d1" "r = (if ip \<in> (case nodeIPSet (dm_ips d) of Some s \<Rightarrow> s | None \<Rightarrow> {}) then None else Some (unknown_peer ip))"
      using assms(3) client ex False by (auto simp: validatePeerNodeIP_def)
    then show ?thesis using d1 assms(2) by (auto simp: cache_within_def split: option.splits if_splits)
  qed
qed

text \<open>
  With the node client configured, an address passes validation only if it is
  among the internal and external addresses the API server ever lists for the nodes; and validation changes nothing but the cache, which keeps holding node
  addresses only.
\<close>

theorem validated_ip_is_node_ip:
  assumes "lists_only k K" "cache_within K d"
    and "run_state (validatePeerNodeIP os k ip) d = (None, d')"
  shows "ip \<in> K \<and> cache_within K d' \<and> same_but_ips d d'"
  using validate_within [OF assms] by simp

definition demo_nodes :: "Node list" where
  "demo_nodes = [\<lparr>nd_Name = ''n1'', nd_ResourceVersion = 1,
     nd_Addresses = [(NodeInternalIP, ''10.0.0.1''), (NodeOtherAddress, ''h'')], nd_Taints = []\<rparr>]"

definition demo_daemon :: "api daemon" where
  "demo_daemon = \<lparr>dm_world = \<lparr>a_topo = [], a_gw = [], a_nodes = demo_nodes\<rparr>, dm_index = \<lparr>currId = 0\<rparr>,
     dm_wires = empty_wires, dm_links = Map.empty, dm_echo = Map.empty,
     dm_ips = \<lparr>nodeClient = True, nodeIPSet = None, nodeIPCacheExpiry = 0\<rparr>, dm_threads = [], dm_carrier = False\<rparr>"

text \<open>An API server that lists one fixed set of nodes.\<close>

definition fixed_kube :: "api kube_env" where
  "fixed_kube = ref_kube\<lparr>NodesList := return (Inr demo_nodes)\<rparr>"

lemma fixed_lists_only: "lists_only fixed_kube {''10.0.0.1''}"
  by (auto simp: lists_only_def fixed_kube_def demo_nodes_def node_ips_def)

lemma demo_cache: "cache_within K demo_daemon"
  by (simp add: cache_within_def demo_daemon_def)

theorem validated_ip_is_node_ip_witness:
  "\<exists>d'. run_state (validatePeerNodeIP (ref_os Map.empty) fixed_kube ''10.0.0.1'') demo_daemon = (None, d')
     \<and> ''10.0.0.1'' \<in> {''10.0.0.1''} \<and> nodeIPSet (dm_ips d') = Some {''10.0.0.1''}"
proof -
  obtain r d' where run: "run_state (validatePeerNodeIP (ref_os Map.empty) fixed_kube ''10.0.0.1'') demo_daemon = (r, d')"
    by fastforce
  then have r: "r = None" "nodeIPSet (dm_ips d') = Some {''10.0.0.1''}"
    by (auto simp: validatePeerNodeIP_def demo_daemon_def refreshNodeIPs_def fixed_kube_def demo_nodes_def
        node_ips_def Let_def)
  from validated_ip_is_node_ip [OF fixed_lists_only demo_cache run [unfolded r]] run r show ?thesis by blast
qed

lemma wait_accepts_aux:
  assumes "lists_only k K" "cache_within K d"
    and "run_state (waitForValidPeerNodeIP os k ip evs) d = (Some r, d')"
  shows "(r = None \<longrightarrow> ip \<in> K) \<and> (r \<noteq> None \<longrightarrow> Stopped \<in> set evs)"
  using assms(2,3)
proof (induction evs arbitrary: d)
  case Nil
  obtain v d1 where v: "run_state (validatePeerNodeIP os k ip) d = (v, d1)" by fastforce
  show ?case using Nil(2) v validate_within [OF assms(1) Nil(1) v]
    by (auto simp: waitForValidPeerNodeIP.simps split: option.splits)
next
  case (Cons ev evs)
  obtain v d1 where v: "run_state (validatePeerNodeIP os k ip) d = (v, d1)" by fastforce
  note w = validate_within [OF assms(1) Cons.prems(1) v]
  show ?case
  proof (cases v)
    case None
    then show ?thesis using Cons.prems(2) v w by (auto simp: waitForValidPeerNodeIP.simps)
  next
    case (Some e)
    show ?thesis
    proof (cases ev)
      case Stopped
      then show ?thesis using Cons.prems(2) v Some by (auto simp: waitForValidPeerNodeIP.simps [of _ _ _ "_ # _"])
    next
      case TimerFired
      let ?d2 = "snd (run_state (lift (Sleep os peerNodeIPRetryInterval)) d1)"
      have "cache_within K ?d2" using w by (auto simp: cache_within_def split: prod.split)
      moreover have "run_state (waitForValidPeerNodeIP os k ip evs) ?d2 = (Some r, d')"
        using Cons.prems(2) v Some TimerFired
        by (auto simp: waitForValidPeerNodeIP.simps [of _ _ _ "_ # _"] split: prod.splits)
      ultimately show ?thesis using Cons.IH by auto
    qed
  qed
qed

text \<open>
  The receive thread's wait returns success only for an address of a cluster node,
  after any number of retries, and returns an error only when the wire was stopped: a
  node that is not known yet never makes it give up.
\<close>

theorem wait_accepts_only_node_ips:
  assumes "lists_only k K" "cache_within K d"
    and "run_state (waitForValidPeerNodeIP os k ip evs) d = (Some r, d')"
  shows "(r = None \<longrightarrow> ip \<in> K) \<and> (r \<noteq> None \<longrightarrow> Stopped \<in> set evs)"
  using wait_accepts_aux [OF assms] .

theorem wait_accepts_only_node_ips_witness:
  "\<exists>d'. run_state (waitForValidPeerNodeIP (ref_os Map.empty) fixed_kube ''6.6.6.6'' [TimerFired, Stopped]) demo_daemon
      = (Some (Some (Wrap ''wire stopped while waiting for peer node IP 6.6.6.6 to become a known cluster node: last error: ''
          (unknown_peer ''6.6.6.6''))), d') \<and> Stopped \<in> set [TimerFired, Stopped]"
proof -
  obtain r d' where run: "run_state (waitForValidPeerNodeIP (ref_os Map.empty) fixed_kube ''6.6.6.6'' [TimerFired, Stopped]) demo_daemon
      = (Some r, d')"
    and r: "r = Some (Wrap ''wire stopped while waiting for peer node IP 6.6.6.6 to become a known cluster node: last error: ''
          (unknown_peer ''6.6.6.6''))"
    by (simp add: waitForValidPeerNodeIP.simps validatePeerNodeIP_def demo_daemon_def refreshNodeIPs_def fixed_kube_def
        demo_nodes_def node_ips_def Let_def ref_os_def nodeIPCacheTTL_def seconds_def)
  from wait_accepts_only_node_ips [OF fixed_lists_only demo_cache run] run r show ?thesis by auto
qed

end
