(* ===== verification/Wire_Store.thy ===== *)
theory Wire_Store
  imports Wire_Map Reference_Env
begin

text \<open>
  The Kubernetes record of the grpc wires (\<open>daemon/grpcwire/gwire_recon.go\<close>): one
  object per node and topology namespace, whose \<open>status.grpcWireItems\<close> lists the wires
  of that node.  The list is edited as untyped JSON, so an item may be no map or may not
  decode.  The lemmas relate each edit to a specification on the decoded statuses.
\<close>

section \<open>Statuses\<close>

definition kStatus :: string where "kStatus = ''status''"
definition kGrpcWireItems :: string where "kGrpcWireItems = ''grpcWireItems''"

abbreviation items_path :: "string list" where
  "items_path \<equiv> [kStatus, kGrpcWireItems]"

definition CreateWireStatus :: "GRPCWire \<Rightarrow> string \<Rightarrow> GWireStatus" where
  "CreateWireStatus wire nodeName =
     \<lparr>gs_LocalNodeName = nodeName,
      gs_LinkId = gw_UID wire,
      gs_TopoNamespace = gw_TopoNamespace wire,
      gs_LocalPodNetNs = gw_LocalPodNetNS wire,
      gs_LocalPodName = gw_LocalPodName wire,
      gs_LocalPodIp = gw_LocalPodIP wire,
      gs_LocalPodIfaceName = gw_LocalPodIfaceName wire,
      gs_WireIfaceNameOnLocalNode = gw_LocalNodeIfaceName wire,
      gs_WireIfaceIdOnPeerNode = gw_WireIfaceIDOnPeerNode wire,
      gs_GWirePeerNodeIp = gw_PeerNodeIP wire\<rparr>"

definition findNodeName :: "'w os_env \<Rightarrow> ('w, string res) io" where
  "findNodeName os =
     (if Getenv os ''NODE_NAME'' \<noteq> '''' then return (Inr (Getenv os ''NODE_NAME''))
      else do {
        r \<leftarrow> Hostname os;
        return (case r of
            Inl e \<Rightarrow> Inl (errorf_v ''findNodeName: could not get node name from OS: '' e)
          | Inr nm \<Rightarrow> Inr nm)
      })"

section \<open>Editing the item list\<close>

text \<open>\<open>item.(map[string]interface{})\<close> and \<open>FromUnstructured\<close>, as every loop does them.\<close>

definition decode_item :: "unstr_lib \<Rightarrow> json \<Rightarrow> GWireStatus option" where
  "decode_item u it =
     (if is_map it then (case FromGWireStatus u it of Inl e \<Rightarrow> None | Inr st \<Rightarrow> Some st) else None)"

fun upsert_loop :: "unstr_lib \<Rightarrow> json \<Rightarrow> GWireStatus \<Rightarrow> json list \<Rightarrow> bool \<Rightarrow> json list \<times> bool" where
  "upsert_loop u newItem ws [] replaced = ([], replaced)"
| "upsert_loop u newItem ws (it # its) replaced =
     (case decode_item u it of
        None \<Rightarrow> map_prod (Cons it) id (upsert_loop u newItem ws its replaced)
      | Some ex \<Rightarrow>
          if gs_LinkId ex = gs_LinkId ws \<and> gs_LocalPodName ex = gs_LocalPodName ws \<and>
             gs_LocalPodNetNs ex \<noteq> gs_LocalPodNetNs ws
          then upsert_loop u newItem ws its replaced
          else if gs_LinkId ex = gs_LinkId ws \<and> gs_TopoNamespace ex = gs_TopoNamespace ws \<and>
             gs_LocalNodeName ex = gs_LocalNodeName ws \<and> gs_LocalPodNetNs ex = gs_LocalPodNetNs ws
          then (if \<not> replaced then map_prod (Cons newItem) id (upsert_loop u newItem ws its True)
                else upsert_loop u newItem ws its replaced)
          else map_prod (Cons it) id (upsert_loop u newItem ws its replaced))"

definition upsertGRPCWireItems :: "unstr_lib \<Rightarrow> json list \<Rightarrow> GWireStatus \<Rightarrow> json list res" where
  "upsertGRPCWireItems u gwireItems ws =
     (case ToGWireStatus u ws of
        Inl e \<Rightarrow> Inl e
      | Inr newItem \<Rightarrow>
          (case upsert_loop u newItem ws gwireItems False of
             (newList, replaced) \<Rightarrow> Inr (if replaced then newList else newList @ [newItem])))"

fun delete_link_items :: "unstr_lib \<Rightarrow> int64 \<Rightarrow> json list \<Rightarrow> json list" where
  "delete_link_items u linkId [] = []"
| "delete_link_items u linkId (it # its) =
     (case decode_item u it of
        None \<Rightarrow> delete_link_items u linkId its
      | Some st \<Rightarrow> if gs_LinkId st = linkId then delete_link_items u linkId its
                   else it # delete_link_items u linkId its)"

fun delete_pod_items :: "unstr_lib \<Rightarrow> string \<Rightarrow> json list \<Rightarrow> json list \<times> nat" where
  "delete_pod_items u podName [] = ([], 0)"
| "delete_pod_items u podName (it # its) =
     (case delete_pod_items u podName its of
        (newSList, removed) \<Rightarrow>
          (case decode_item u it of
             None \<Rightarrow> (it # newSList, removed)
           | Some st \<Rightarrow> if gs_LocalPodName st = podName then (newSList, Suc removed)
                        else (it # newSList, removed)))"

section \<open>The operations on the data store\<close>

definition GetWireObjGrpUS :: "'w kube_env \<Rightarrow> GWireStatus \<Rightarrow> ('w, json res) io" where
  "GetWireObjGrpUS k ws = GwGet k (gs_TopoNamespace ws) (gs_LocalNodeName ws)"

definition CreateGWireStatInDS :: "unstr_lib \<Rightarrow> 'w kube_env \<Rightarrow> GWireStatus \<Rightarrow> ('w, goerr option) io" where
  "CreateGWireStatInDS u k ws =
     (let wObj = \<lparr>gk_Kind = ''GWireKObj'', gk_APIVersion = GroupName @ ''/'' @ GroupVersion,
                  gk_Name = gs_LocalNodeName ws, gk_Namespace = gs_TopoNamespace ws,
                  gk_Status = \<lparr>gns_GWireKItems = [ws]\<rparr>\<rparr>
      in case ToGWireKObj u wObj of
           Inl e \<Rightarrow> return (Some e)
         | Inr uWbj \<Rightarrow> as_err (GwCreate k (gs_TopoNamespace ws) uWbj))"

definition update_attempt :: "unstr_lib \<Rightarrow> 'w kube_env \<Rightarrow> GWireStatus \<Rightarrow> ('w, goerr option) io" where
  "update_attempt u k ws = do {
     r \<leftarrow> GetWireObjGrpUS k ws;
     (case r of
        Inl e \<Rightarrow> if is_not_found e then CreateGWireStatInDS u k ws else return (Some e)
      | Inr wObjsOnNd \<Rightarrow>
          (case NestedSlice u wObjsOnNd items_path of
             (gwireItems, found, err) \<Rightarrow>
               (case err of
                  Some e \<Rightarrow> return (Some e)
                | None \<Rightarrow>
                    if \<not> found then return err
                    else (case gwireItems of
                            None \<Rightarrow> return err
                          | Some its \<Rightarrow>
                              (case upsertGRPCWireItems u its ws of
                                 Inl e \<Rightarrow> return (Some e)
                               | Inr newItems \<Rightarrow>
                                   (case SetNestedField u wObjsOnNd (JList newItems) items_path of
                                      (ob, Some e) \<Rightarrow> return (Some e)
                                    | (ob, None) \<Rightarrow> as_err (GwUpdate k (gs_TopoNamespace ws) ob)))))))
   }"

definition updateGRPCWireStatus :: "unstr_lib \<Rightarrow> 'w kube_env \<Rightarrow> GWireStatus \<Rightarrow> ('w, goerr option) io" where
  "updateGRPCWireStatus u k ws = RetryOnConflict k (update_attempt u k ws)"

definition K8sStoreGWire :: "unstr_lib \<Rightarrow> 'w os_env \<Rightarrow> 'w kube_env \<Rightarrow> GRPCWire \<Rightarrow> ('w, goerr option) io" where
  "K8sStoreGWire u os k wire = do {
     r \<leftarrow> findNodeName os;
     (case r of
        Inl e \<Rightarrow> return (Some e)
      | Inr nodeName \<Rightarrow> do {
          err \<leftarrow> updateGRPCWireStatus u k (CreateWireStatus wire nodeName);
          return None
        })
   }"

definition delete_attempt :: "unstr_lib \<Rightarrow> 'w kube_env \<Rightarrow> GWireStatus \<Rightarrow> ('w, goerr option) io" where
  "delete_attempt u k ws = do {
     r \<leftarrow> GetWireObjGrpUS k ws;
     (case r of
        Inl e \<Rightarrow> return (Some e)
      | Inr node \<Rightarrow>
          (case NestedSlice u node items_path of
             (gwireItems, found, err) \<Rightarrow>
               (case err of
                  Some e \<Rightarrow> return (Some e)
                | None \<Rightarrow>
                    if \<not> found then return err
                    else (case gwireItems of
                            None \<Rightarrow> return err
                          | Some its \<Rightarrow>
                              (case SetNestedField u node (JList (delete_link_items u (gs_LinkId ws) its)) items_path of
                                 (ob, Some e) \<Rightarrow> return (Some e)
                               | (ob, None) \<Rightarrow> as_err (GwUpdate k (gs_TopoNamespace ws) ob))))))
   }"

definition deleteGRPCWireStatus :: "unstr_lib \<Rightarrow> 'w kube_env \<Rightarrow> GWireStatus \<Rightarrow> ('w, goerr option) io" where
  "deleteGRPCWireStatus u k ws = RetryOnConflict k (delete_attempt u k ws)"

definition K8sDelGWire :: "unstr_lib \<Rightarrow> 'w os_env \<Rightarrow> 'w kube_env \<Rightarrow> GRPCWire \<Rightarrow> ('w, goerr option) io" where
  "K8sDelGWire u os k wire = do {
     r \<leftarrow> findNodeName os;
     deleteGRPCWireStatus u k
       (CreateWireStatus wire (case r of Inl e \<Rightarrow> '''' | Inr nodeName \<Rightarrow> nodeName))
   }"

definition delete_pod_attempt :: "unstr_lib \<Rightarrow> 'w kube_env \<Rightarrow> string \<Rightarrow> string \<Rightarrow> string \<Rightarrow> ('w, goerr option) io" where
  "delete_pod_attempt u k nodeName topoNamespace podName = do {
     r \<leftarrow> GwGet k topoNamespace nodeName;
     (case r of
        Inl e \<Rightarrow> return (if is_not_found e then None else Some e)
      | Inr node \<Rightarrow>
          (case NestedSlice u node items_path of
             (gwireItems, found, err) \<Rightarrow>
               (case err of
                  Some e \<Rightarrow> return (Some e)
                | None \<Rightarrow>
                    if \<not> found then return None
                    else (case gwireItems of
                            None \<Rightarrow> return None
                          | Some its \<Rightarrow>
                              (case delete_pod_items u podName its of
                                 (newSList, removed) \<Rightarrow>
                                   if removed = 0 then return None
                                   else (case SetNestedField u node (JList newSList) items_path of
                                           (ob, Some e) \<Rightarrow> return (Some e)
                                         | (ob, None) \<Rightarrow> as_err (GwUpdate k topoNamespace ob)))))))
   }"

definition deleteGRPCWireStatusByPod ::
    "unstr_lib \<Rightarrow> 'w os_env \<Rightarrow> 'w kube_env \<Rightarrow> string \<Rightarrow> string \<Rightarrow> ('w, goerr option) io" where
  "deleteGRPCWireStatusByPod u os k topoNamespace podName = do {
     r \<leftarrow> findNodeName os;
     (case r of
        Inl e \<Rightarrow> return (Some e)
      | Inr nodeName \<Rightarrow> RetryOnConflict k (delete_pod_attempt u k nodeName topoNamespace podName))
   }"

definition node_items :: "unstr_lib \<Rightarrow> json \<Rightarrow> json list" where
  "node_items u node =
     (case NestedSlice u node items_path of
        (Some its, True, None) \<Rightarrow> its
      | _ \<Rightarrow> [])"

text \<open>\<open>gWClient.di == nil\<close> is the argument \<open>initialised\<close>.\<close>

definition IsWireRecordedInDataStore ::
    "unstr_lib \<Rightarrow> 'w os_env \<Rightarrow> 'w kube_env \<Rightarrow> bool \<Rightarrow> string \<Rightarrow> int64 \<Rightarrow> ('w, bool res) io" where
  "IsWireRecordedInDataStore u os k initialised podNetNs linkUID =
     (if \<not> initialised
      then return (Inl (Err ''IsWireRecordedInDataStore: gwire data-store client not initialised''))
      else do {
        r \<leftarrow> findNodeName os;
        (case r of
           Inl e \<Rightarrow> return (Inl e)
         | Inr nodeName \<Rightarrow> do {
             rl \<leftarrow> GwList k nodeName;
             return (case rl of
                 Inl e \<Rightarrow> Inl e
               | Inr kObjList \<Rightarrow>
                   Inr (list_ex (\<lambda>node. list_ex (\<lambda>item.
                          case decode_item u item of
                            None \<Rightarrow> False
                          | Some ws \<Rightarrow> gs_LinkId ws = linkUID \<and> gs_LocalPodNetNs ws = podNetNs)
                        (node_items u node)) kObjList))
           })
      })"

section \<open>What the edits do to the decoded statuses\<close>

definition decoded :: "unstr_lib \<Rightarrow> json list \<Rightarrow> GWireStatus list" where
  "decoded u its = List.map_filter (decode_item u) its"

definition undecodable :: "unstr_lib \<Rightarrow> json list \<Rightarrow> json list" where
  "undecodable u its = filter (\<lambda>it. decode_item u it = None) its"

text \<open>The identity of a wire record, and a record of an earlier incarnation of its pod.\<close>

definition same_wire :: "GWireStatus \<Rightarrow> GWireStatus \<Rightarrow> bool" where
  "same_wire ws st \<longleftrightarrow> gs_LinkId st = gs_LinkId ws \<and> gs_TopoNamespace st = gs_TopoNamespace ws \<and>
     gs_LocalNodeName st = gs_LocalNodeName ws \<and> gs_LocalPodNetNs st = gs_LocalPodNetNs ws"

definition stale_for :: "GWireStatus \<Rightarrow> GWireStatus \<Rightarrow> bool" where
  "stale_for ws st \<longleftrightarrow> gs_LinkId st = gs_LinkId ws \<and> gs_LocalPodName st = gs_LocalPodName ws \<and>
     gs_LocalPodNetNs st \<noteq> gs_LocalPodNetNs ws"

text \<open>The list after an upsert: the new record once, where its first match was or at the end.\<close>

definition upsert_spec :: "GWireStatus \<Rightarrow> GWireStatus list \<Rightarrow> GWireStatus list" where
  "upsert_spec ws sts =
     (let kept = filter (\<lambda>st. \<not> stale_for ws st) sts;
          before = takeWhile (\<lambda>st. \<not> same_wire ws st) kept;
          after = drop (length before) kept
      in before @ [ws] @ filter (\<lambda>st. \<not> same_wire ws st) after)"

lemma decoded_simps [simp]:
  "decoded u [] = []"
  "decoded u (it # its) = (case decode_item u it of None \<Rightarrow> decoded u its | Some st \<Rightarrow> st # decoded u its)"
  "decoded u (its @ jts) = decoded u its @ decoded u jts"
  by (simp_all add: decoded_def List.map_filter_def split: option.split)

lemma decode_new: "gwire_codec u \<Longrightarrow> ToGWireStatus u ws = Inr j \<Longrightarrow> decode_item u j = Some ws"
  by (auto simp: gwire_codec_def decode_item_def)

lemma same_self [simp]: "same_wire ws ws" "\<not> stale_for ws ws"
  by (simp_all add: same_wire_def stale_for_def)

lemma upsert_spec_Nil [simp]: "upsert_spec ws [] = [ws]"
  by (simp add: upsert_spec_def)

lemma upsert_spec_Cons:
  "upsert_spec ws (st # sts) =
     (if stale_for ws st then upsert_spec ws sts
      else if same_wire ws st then ws # filter (\<lambda>s. \<not> stale_for ws s \<and> \<not> same_wire ws s) sts
      else st # upsert_spec ws sts)"
  by (simp add: upsert_spec_def Let_def conj_commute)

lemma upsert_loop_Cons:
  "upsert_loop u j ws (it # its) r =
     (case decode_item u it of
        None \<Rightarrow> map_prod (Cons it) id (upsert_loop u j ws its r)
      | Some ex \<Rightarrow>
          if stale_for ws ex then upsert_loop u j ws its r
          else if same_wire ws ex
          then (if r then upsert_loop u j ws its r else map_prod (Cons j) id (upsert_loop u j ws its True))
          else map_prod (Cons it) id (upsert_loop u j ws its r))"
  by (simp add: stale_for_def same_wire_def split: option.split)

declare upsert_loop.simps(2) [simp del]
declare upsert_loop_Cons [simp]

lemma upsert_loop_replaced:
  "decoded u (fst (upsert_loop u j ws its True)) =
     filter (\<lambda>st. \<not> stale_for ws st \<and> \<not> same_wire ws st) (decoded u its) \<and>
   snd (upsert_loop u j ws its True)"
  by (induction its) (auto split: option.split)

lemma upsert_loop_decoded:
  assumes "decode_item u j = Some ws"
  shows "decoded u (fst (upsert_loop u j ws its False)) @
       (if snd (upsert_loop u j ws its False) then [] else [ws]) = upsert_spec ws (decoded u its)"
proof (induction its)
  case (Cons it its)
  then show ?case
    using upsert_loop_replaced [of u j ws its] assms
    by (cases "decode_item u it") (auto simp: upsert_spec_Cons)
qed simp

lemma upsert_loop_undecodable:
  assumes "decode_item u j = Some ws"
  shows "undecodable u (fst (upsert_loop u j ws its r)) = undecodable u its"
  using assms by (induction its arbitrary: r) (auto simp: undecodable_def split: option.split)

lemma upsert_decoded:
  assumes "gwire_codec u" "upsertGRPCWireItems u its ws = Inr its'"
  shows "decoded u its' = upsert_spec ws (decoded u its)" "undecodable u its' = undecodable u its"
proof -
  let ?p = "\<lambda>j. upsert_loop u j ws its False"
  from assms(2) obtain j where j: "ToGWireStatus u ws = Inr j"
    "its' = (if snd (?p j) then fst (?p j) else fst (?p j) @ [j])"
    by (auto simp: upsertGRPCWireItems_def case_prod_beta split: sum.splits)
  note dj = decode_new [OF assms(1) j(1)]
  show "decoded u its' = upsert_spec ws (decoded u its)"
    using upsert_loop_decoded [OF dj, of its] dj by (simp add: j(2) split: if_splits)
  show "undecodable u its' = undecodable u its"
    using upsert_loop_undecodable [OF dj, of its False] dj by (simp add: j(2) undecodable_def)
qed

section \<open>The specification's own laws\<close>

lemma set_upsert_spec:
  "set (upsert_spec ws sts) = insert ws {st \<in> set sts. \<not> stale_for ws st \<and> \<not> same_wire ws st}"
  by (induction sts) (auto simp: upsert_spec_Cons)

lemma upsert_spec_once: "length (filter (same_wire ws) (upsert_spec ws sts)) = 1"
proof (induction sts)
  case (Cons st sts)
  have "filter (same_wire ws) (filter (\<lambda>s. \<not> stale_for ws s \<and> \<not> same_wire ws s) sts) = []"
    by (simp add: filter_empty_conv)
  with Cons show ?case by (auto simp: upsert_spec_Cons)
qed simp

lemma upsert_spec_others:
  "filter (\<lambda>st. \<not> same_wire ws st) (upsert_spec ws sts) =
     filter (\<lambda>st. \<not> stale_for ws st \<and> \<not> same_wire ws st) sts"
  by (induction sts) (auto simp: upsert_spec_Cons)

lemma upsert_spec_idem: "upsert_spec ws (upsert_spec ws sts) = upsert_spec ws sts"
proof -
  have keep: "filter (\<lambda>s. \<not> stale_for ws s \<and> \<not> same_wire ws s)
      (filter (\<lambda>s. \<not> stale_for ws s \<and> \<not> same_wire ws s) sts) =
      filter (\<lambda>s. \<not> stale_for ws s \<and> \<not> same_wire ws s) sts" for sts
    by (simp add: filter_id_conv)
  show ?thesis
    by (induction sts) (auto simp: upsert_spec_Cons keep simp del: filter_filter)
qed

lemma delete_link_decoded: "decoded u (delete_link_items u l its) = filter (\<lambda>st. gs_LinkId st \<noteq> l) (decoded u its)"
  by (induction its) (auto split: option.split)

lemma delete_pod_decoded:
  "decoded u (fst (delete_pod_items u p its)) = filter (\<lambda>st. gs_LocalPodName st \<noteq> p) (decoded u its)"
  "undecodable u (fst (delete_pod_items u p its)) = undecodable u its"
  by (induction its) (auto simp: undecodable_def split: option.split prod.split)

lemma delete_pod_removed:
  "snd (delete_pod_items u p its) = length (filter (\<lambda>st. gs_LocalPodName st = p) (decoded u its))"
  by (induction its) (auto split: option.split prod.split)

section \<open>What the operations do to the store\<close>

text \<open>The laws of the converters and of the store that the operations rely on.\<close>

definition items_laws :: "unstr_lib \<Rightarrow> bool" where
  "items_laws u \<longleftrightarrow> gwire_codec u \<and> set_slice_law u items_path \<and> name_law u items_path \<and>
     kobj_law u items_path"

lemma node_items_set:
  assumes "items_laws u" "SetNestedField u ob (JList vs) items_path = (ob', None)"
  shows "node_items u ob' = vs" "GetName u ob' = GetName u ob"
  using assms unfolding items_laws_def set_slice_law_def name_law_def node_items_def
  by (fastforce, metis fst_conv)

lemma decoded_all:
  "\<forall>x \<in> set js. is_map x \<Longrightarrow> map (FromGWireStatus u) js = map Inr sts \<Longrightarrow> decoded u js = sts"
  by (induction js arbitrary: sts) (auto simp: decode_item_def Cons_eq_map_conv)

lemma create_attempt:
  assumes "items_laws u" "gw_store u k st"
    and "run_state (CreateGWireStatInDS u k ws) w = (r, w')"
  shows "(r \<noteq> None \<longrightarrow> st w' = st w) \<and>
     (r = None \<longrightarrow> (\<exists>ob. st w' = set_object (st w) (gs_TopoNamespace ws) (gs_LocalNodeName ws) ob \<and>
        decoded u (node_items u ob) = [ws]))"
proof -
  have put: "put_law u st (GwCreate k)" using assms(2) by (simp add: gw_store_def)
  have ko: "kobj_law u items_path" using assms(1) by (simp add: items_laws_def)
  let ?o = "\<lparr>gk_Kind = ''GWireKObj'', gk_APIVersion = GroupName @ ''/'' @ GroupVersion,
     gk_Name = gs_LocalNodeName ws, gk_Namespace = gs_TopoNamespace ws, gk_Status = \<lparr>gns_GWireKItems = [ws]\<rparr>\<rparr>"
  show ?thesis
  proof (cases "ToGWireKObj u ?o")
    case (Inl e)
    then show ?thesis using assms(3) by (auto simp: CreateGWireStatInDS_def)
  next
    case (Inr j)
    then obtain js where js: "NestedSlice u j items_path = (Some js, True, None)"
      "\<forall>x \<in> set js. is_map x" "map (FromGWireStatus u) js = map Inr [ws]"
      and nm: "GetName u j = gs_LocalNodeName ws"
      using ko unfolding kobj_law_def by fastforce
    have dec: "decoded u (node_items u j) = [ws]"
      using decoded_all [OF js(2,3)] by (simp add: node_items_def js(1))
    from assms(3) Inr obtain x where x: "run_state (GwCreate k (gs_TopoNamespace ws) j) w = (x, w')"
      "r = (case x of Inl e \<Rightarrow> Some e | Inr _ \<Rightarrow> None)"
      by (auto simp: CreateGWireStatInDS_def)
    show ?thesis
    proof (cases x)
      case (Inl e)
      then show ?thesis using put_lawD(2) [OF put x(1)] x(2) by simp
    next
      case (Inr y)
      then show ?thesis using put_lawD(1) [OF put x(1)] x(2) dec nm
        by (auto simp: set_object_def)
    qed
  qed
qed

text \<open>A write of an edited item list, as the three operations end.\<close>

lemma write_items:
  assumes "items_laws u" "gw_store u k st" "SetNestedField u ob (JList vs) items_path = (ob', None)"
    and "run_state (as_err (GwUpdate k ns ob')) w = (r, w')"
  shows "(r \<noteq> None \<longrightarrow> st w' = st w) \<and>
     (r = None \<longrightarrow> st w' = set_object (st w) ns (GetName u ob) ob' \<and> node_items u ob' = vs)"
proof -
  have put: "put_law u st (GwUpdate k)" using assms(2) by (simp add: gw_store_def)
  from assms(4) obtain x where x: "run_state (GwUpdate k ns ob') w = (x, w')"
    "r = (case x of Inl e \<Rightarrow> Some e | Inr _ \<Rightarrow> None)" by auto
  show ?thesis
    using put_lawD [OF put x(1)] x(2) node_items_set [OF assms(1,3)]
    by (cases x) (auto simp: set_object_def)
qed

definition has_items :: "unstr_lib \<Rightarrow> json \<Rightarrow> bool" where
  "has_items u ob \<longleftrightarrow> (\<exists>its. NestedSlice u ob items_path = (Some its, True, None))"

lemma update_attempt_effect:
  assumes L: "items_laws u" and S: "gw_store u k st"
    and run: "run_state (update_attempt u k ws) w = (r, w')"
  shows "(r \<noteq> None \<longrightarrow> st w' = st w) \<and>
     (r = None \<longrightarrow>
       (case st w (gs_TopoNamespace ws) (gs_LocalNodeName ws) of
          None \<Rightarrow> \<exists>ob. st w' = set_object (st w) (gs_TopoNamespace ws) (gs_LocalNodeName ws) ob \<and>
                    decoded u (node_items u ob) = [ws]
        | Some ob \<Rightarrow>
            if has_items u ob
            then \<exists>ob'. st w' = set_object (st w) (gs_TopoNamespace ws) (gs_LocalNodeName ws) ob' \<and>
                    decoded u (node_items u ob') = upsert_spec ws (decoded u (node_items u ob)) \<and>
                    undecodable u (node_items u ob') = undecodable u (node_items u ob)
            else st w' = st w))"
proof -
  let ?ns = "gs_TopoNamespace ws" and ?n = "gs_LocalNodeName ws"
  have get: "get_law u st (GwGet k)" using S by (simp add: gw_store_def)
  obtain g w1 where g: "run_state (GwGet k ?ns ?n) w = (g, w1)" by fastforce
  note gd = get_lawD [OF get g]
  show ?thesis
  proof (cases g)
    case (Inl e)
    show ?thesis
    proof (cases "is_not_found e")
      case True
      then have "run_state (CreateGWireStatInDS u k ws) w1 = (r, w')"
        using run Inl g by (simp add: update_attempt_def GetWireObjGrpUS_def)
      from create_attempt [OF L S this] show ?thesis using gd(1) gd(3) [OF Inl True] by simp
    next
      case False
      then show ?thesis using run Inl g gd(1) by (auto simp: update_attempt_def GetWireObjGrpUS_def)
    qed
  next
    case (Inr ob)
    from gd(2) [OF Inr] have ob: "st w ?ns ?n = Some ob" "GetName u ob = ?n" by simp_all
    obtain its fnd err where sl: "NestedSlice u ob items_path = (its, fnd, err)"
      by (cases "NestedSlice u ob items_path")
    show ?thesis
    proof (cases "has_items u ob")
      case False
      then show ?thesis using run Inr g gd(1) ob sl
        by (auto simp: update_attempt_def GetWireObjGrpUS_def has_items_def split: option.splits if_splits)
    next
      case True
      then obtain l where l: "its = Some l" "fnd" "err = None" using sl by (auto simp: has_items_def)
      then have ni: "node_items u ob = l" using sl by (simp add: node_items_def)
      show ?thesis
      proof (cases "upsertGRPCWireItems u l ws")
        case (Inl e)
        then show ?thesis using run \<open>g = Inr ob\<close> g gd(1) ob sl l
          by (auto simp: update_attempt_def GetWireObjGrpUS_def)
      next
        case up: (Inr l')
        obtain ob' er where set: "SetNestedField u ob (JList l') items_path = (ob', er)" by fastforce
        show ?thesis
        proof (cases er)
          case (Some e)
          then show ?thesis using run \<open>g = Inr ob\<close> g gd(1) ob sl l up set
            by (auto simp: update_attempt_def GetWireObjGrpUS_def)
        next
          case None
          then have wr: "run_state (as_err (GwUpdate k ?ns ob')) w1 = (r, w')"
            using run \<open>g = Inr ob\<close> g gd(1) ob sl l up set
            by (simp add: update_attempt_def GetWireObjGrpUS_def del: run_as_err)
          have gc: "gwire_codec u" using L by (simp add: items_laws_def)
          note set' = set [unfolded None]
          show ?thesis
            using write_items [OF L S set' wr] upsert_decoded [OF gc up] gd(1) ob True ni by auto
        qed
      qed
    qed
  qed
qed

lemma update_effect:
  assumes "items_laws u" "gw_store u k st" "retry_law k"
    and "run_state (updateGRPCWireStatus u k ws) w = (r, w')"
  obtains w0 where "st w0 = st w" "run_state (update_attempt u k ws) w0 = (r, w')"
  using retry_last [OF assms(3) assms(4) [unfolded updateGRPCWireStatus_def], of st]
    update_attempt_effect [OF assms(1,2)] by blast

lemma delete_attempt_effect:
  assumes L: "items_laws u" and S: "gw_store u k st"
    and run: "run_state (delete_attempt u k ws) w = (r, w')"
  shows "(r \<noteq> None \<longrightarrow> st w' = st w) \<and>
     (r = None \<longrightarrow>
       (\<exists>ob. st w (gs_TopoNamespace ws) (gs_LocalNodeName ws) = Some ob \<and>
          (if has_items u ob
           then \<exists>ob'. st w' = set_object (st w) (gs_TopoNamespace ws) (gs_LocalNodeName ws) ob' \<and>
                  decoded u (node_items u ob') =
                    filter (\<lambda>s. gs_LinkId s \<noteq> gs_LinkId ws) (decoded u (node_items u ob))
           else st w' = st w)))"
proof -
  let ?ns = "gs_TopoNamespace ws" and ?n = "gs_LocalNodeName ws"
  have get: "get_law u st (GwGet k)" using S by (simp add: gw_store_def)
  obtain g w1 where g: "run_state (GwGet k ?ns ?n) w = (g, w1)" by fastforce
  note gd = get_lawD [OF get g]
  note df = delete_attempt_def GetWireObjGrpUS_def
  show ?thesis
  proof (cases g)
    case (Inl e)
    then show ?thesis using run g gd(1) by (auto simp: df)
  next
    case (Inr ob)
    from gd(2) [OF Inr] have ob: "st w ?ns ?n = Some ob" "GetName u ob = ?n" by simp_all
    obtain its fnd err where sl: "NestedSlice u ob items_path = (its, fnd, err)"
      by (cases "NestedSlice u ob items_path")
    show ?thesis
    proof (cases "has_items u ob")
      case False
      then show ?thesis using run Inr g gd(1) ob sl
        by (auto simp: df has_items_def split: option.splits if_splits)
    next
      case True
      then obtain l where l: "its = Some l" "fnd" "err = None" using sl by (auto simp: has_items_def)
      then have ni: "node_items u ob = l" using sl by (simp add: node_items_def)
      let ?l = "delete_link_items u (gs_LinkId ws) l"
      obtain ob' er where set: "SetNestedField u ob (JList ?l) items_path = (ob', er)" by fastforce
      show ?thesis
      proof (cases er)
        case (Some e)
        then show ?thesis using run \<open>g = Inr ob\<close> g gd(1) ob sl l set by (auto simp: df)
      next
        case None
        then have wr: "run_state (as_err (GwUpdate k ?ns ob')) w1 = (r, w')"
          using run \<open>g = Inr ob\<close> g gd(1) ob sl l set by (simp add: df del: run_as_err)
        show ?thesis
          using write_items [OF L S set [unfolded None] wr] delete_link_decoded [of u "gs_LinkId ws" l]
            gd(1) ob True ni by auto
      qed
    qed
  qed
qed

lemma delete_pod_attempt_effect:
  assumes L: "items_laws u" and S: "gw_store u k st"
    and run: "run_state (delete_pod_attempt u k nd ns pod) w = (r, w')"
  shows "(r \<noteq> None \<longrightarrow> st w' = st w) \<and>
     (r = None \<longrightarrow>
       (case st w ns nd of
          None \<Rightarrow> st w' = st w
        | Some ob \<Rightarrow>
            \<exists>ob'. st w' = set_object (st w) ns nd ob' \<and>
                 decoded u (node_items u ob') =
                   filter (\<lambda>s. gs_LocalPodName s \<noteq> pod) (decoded u (node_items u ob))))"
proof -
  have get: "get_law u st (GwGet k)" using S by (simp add: gw_store_def)
  obtain g w1 where g: "run_state (GwGet k ns nd) w = (g, w1)" by fastforce
  note gd = get_lawD [OF get g]
  note df = delete_pod_attempt_def
  have same: "\<And>ob. st w ns nd = Some ob \<Longrightarrow> st w = set_object (st w) ns nd ob"
    by (auto simp: set_object_def fun_eq_iff)
  show ?thesis
  proof (cases g)
    case (Inl e)
    then show ?thesis using run g gd(1) gd(3) [OF Inl] by (auto simp: df split: if_splits)
  next
    case (Inr ob)
    from gd(2) [OF Inr] have ob: "st w ns nd = Some ob" "GetName u ob = nd" by simp_all
    obtain its fnd err where sl: "NestedSlice u ob items_path = (its, fnd, err)"
      by (cases "NestedSlice u ob items_path")
    show ?thesis
    proof (cases "has_items u ob")
      case False
      then have "node_items u ob = []"
        by (auto simp: has_items_def node_items_def split: option.split prod.split bool.split)
      moreover have "st w' = st w" using False run Inr g gd(1) ob sl
        by (auto simp: df has_items_def split: option.splits if_splits)
      ultimately show ?thesis using ob same by auto
    next
      case True
      then obtain l where l: "its = Some l" "fnd" "err = None" using sl by (auto simp: has_items_def)
      then have ni: "node_items u ob = l" using sl by (simp add: node_items_def)
      obtain l' n where dl: "delete_pod_items u pod l = (l', n)" by fastforce
      note dd = delete_pod_decoded(1) [of u pod l] delete_pod_removed [of u pod l]
      show ?thesis
      proof (cases "n = 0")
        case True
        then have "decoded u l = filter (\<lambda>s. gs_LocalPodName s \<noteq> pod) (decoded u l)"
          using dd by (simp add: dl filter_empty_conv filter_id_conv)
        moreover have "st w' = st w \<and> r = None"
          using True run Inr g gd(1) ob sl l dl by (auto simp: df)
        ultimately show ?thesis using ob same ni by auto
      next
        case False
        obtain ob' er where set: "SetNestedField u ob (JList l') items_path = (ob', er)" by fastforce
        show ?thesis
        proof (cases er)
          case (Some e)
          then show ?thesis using run \<open>g = Inr ob\<close> g gd(1) ob sl l set dl False by (auto simp: df)
        next
          case None
          then have wr: "run_state (as_err (GwUpdate k ns ob')) w1 = (r, w')"
            using run \<open>g = Inr ob\<close> g gd(1) ob sl l set dl False by (simp add: df del: run_as_err)
          show ?thesis
            using write_items [OF L S set [unfolded None] wr] dd dl gd(1) ob ni by auto
        qed
      qed
    qed
  qed
qed

section \<open>Properties\<close>

lemma ref_items_laws: "items_laws ref_lib"
  using ref_kobj
  by (simp add: items_laws_def ref_gwire_codec ref_set_slice kStatus_def kGrpcWireItems_def
      ref_set_keeps_name)

text \<open>
  C33: Upserting a wire's status leaves exactly one record with that wire's identity (link,
  namespace, node, pod netns), drops every record of an earlier incarnation of the same
  pod on that link, and keeps all other records, and the items that do not decode, in
  their order.
\<close>

theorem upsert_keeps_one_record:
  assumes "gwire_codec u" "upsertGRPCWireItems u its ws = Inr its'"
  shows "filter (same_wire ws) (decoded u its') = [ws] \<and>
     (\<forall>st \<in> set (decoded u its'). \<not> stale_for ws st) \<and>
     filter (\<lambda>st. \<not> same_wire ws st) (decoded u its') =
       filter (\<lambda>st. \<not> stale_for ws st \<and> \<not> same_wire ws st) (decoded u its) \<and>
     undecodable u its' = undecodable u its"
proof -
  have "ws \<in> set (filter (same_wire ws) (decoded u its'))"
    by (simp add: upsert_decoded [OF assms] set_upsert_spec)
  moreover have "length (filter (same_wire ws) (decoded u its')) = 1"
    by (simp only: upsert_decoded [OF assms] upsert_spec_once)
  ultimately have "filter (same_wire ws) (decoded u its') = [ws]"
    by (cases "filter (same_wire ws) (decoded u its')") auto
  then show ?thesis
    using upsert_spec_others [of ws] upsert_decoded [OF assms] by (auto simp: set_upsert_spec)
qed

definition demo_status :: "string \<Rightarrow> GWireStatus" where
  "demo_status netns = \<lparr>gs_LocalNodeName = ''node1'', gs_LinkId = 7, gs_TopoNamespace = ''t'',
     gs_LocalPodNetNs = netns, gs_LocalPodName = ''a'', gs_LocalPodIp = '''',
     gs_LocalPodIfaceName = ''eth1'', gs_WireIfaceNameOnLocalNode = ''aeth1-0001'',
     gs_WireIfaceIdOnPeerNode = 4, gs_GWirePeerNodeIp = ''10.0.0.2''\<rparr>"

theorem upsert_keeps_one_record_witness:
  "\<exists>its'. upsertGRPCWireItems ref_lib [projr (to_gwire (demo_status ''/old'')), JNull] (demo_status ''/new'') = Inr its'
     \<and> filter (same_wire (demo_status ''/new'')) (decoded ref_lib its') = [demo_status ''/new'']
     \<and> undecodable ref_lib its' = [JNull]"
proof -
  let ?its = "[projr (to_gwire (demo_status ''/old'')), JNull]"
  obtain its' where up: "upsertGRPCWireItems ref_lib ?its (demo_status ''/new'') = Inr its'"
    by (simp add: upsertGRPCWireItems_def to_gwire_def case_prod_beta)
  have "undecodable ref_lib ?its = [JNull]"
    by (simp add: undecodable_def decode_item_def from_to_gwire) (simp add: to_gwire_def)
  note und = this
  note ok = upsert_keeps_one_record [OF ref_gwire_codec up]
  show ?thesis
    by (intro exI conjI, rule up, rule ok [THEN conjunct1])
       (simp only: ok [THEN conjunct2, THEN conjunct2, THEN conjunct2] und)
qed

text \<open>Upserting the same status again changes no decoded record: retries are harmless.\<close>

theorem upsert_twice:
  assumes "gwire_codec u" "upsertGRPCWireItems u its ws = Inr its1" "upsertGRPCWireItems u its1 ws = Inr its2"
  shows "decoded u its2 = decoded u its1"
  using upsert_decoded(1) [OF assms(1,2)] upsert_decoded(1) [OF assms(1,3)]
  by (simp add: upsert_spec_idem)

theorem upsert_twice_witness:
  "\<exists>l1 l2. upsertGRPCWireItems ref_lib [JNull] (demo_status ''/n'') = Inr l1 \<and>
     upsertGRPCWireItems ref_lib l1 (demo_status ''/n'') = Inr l2 \<and> decoded ref_lib l2 = decoded ref_lib l1"
proof -
  obtain l1 where l1: "upsertGRPCWireItems ref_lib [JNull] (demo_status ''/n'') = Inr l1"
    by (simp add: upsertGRPCWireItems_def to_gwire_def case_prod_beta)
  obtain l2 where l2: "upsertGRPCWireItems ref_lib l1 (demo_status ''/n'') = Inr l2"
    by (simp add: upsertGRPCWireItems_def to_gwire_def case_prod_beta)
  show ?thesis using l1 l2 upsert_twice [OF ref_gwire_codec l1 l2] by blast
qed

text \<open>The node's name, when the daemon set gives it.\<close>

definition node_named :: "'w os_env \<Rightarrow> string \<Rightarrow> bool" where
  "node_named os nd \<longleftrightarrow> LookupEnv os ''NODE_NAME'' = Some nd \<and> nd \<noteq> ''''"

lemma findNodeName_named [simp]: "node_named os nd \<Longrightarrow> findNodeName os = return (Inr nd)"
  by (simp add: node_named_def findNodeName_def Getenv_def)

lemma update_records:
  assumes "items_laws u" "gw_store u k st" "retry_law k"
    and "run_state (updateGRPCWireStatus u k ws) w = (None, w1)"
    and "\<And>ob. st w (gs_TopoNamespace ws) (gs_LocalNodeName ws) = Some ob \<Longrightarrow> has_items u ob"
  obtains ob where "st w1 = set_object (st w) (gs_TopoNamespace ws) (gs_LocalNodeName ws) ob"
    "ws \<in> set (decoded u (node_items u ob))"
proof -
  obtain w0 where w0: "st w0 = st w" "run_state (update_attempt u k ws) w0 = (None, w1)"
    using update_effect [OF assms(1-4)] by blast
  note eff = update_attempt_effect [OF assms(1,2) w0(2), THEN conjunct2, unfolded w0(1)]
  show ?thesis
  proof (cases "st w (gs_TopoNamespace ws) (gs_LocalNodeName ws)")
    case None
    with eff obtain ob where "st w1 = set_object (st w) (gs_TopoNamespace ws) (gs_LocalNodeName ws) ob"
      "decoded u (node_items u ob) = [ws]" by auto
    then show ?thesis using that [of ob] by simp
  next
    case (Some ob)
    with eff assms(5) [OF Some] obtain ob' where
      "st w1 = set_object (st w) (gs_TopoNamespace ws) (gs_LocalNodeName ws) ob'"
      "decoded u (node_items u ob') = upsert_spec ws (decoded u (node_items u ob))" by auto
    then show ?thesis using that [of ob'] by (simp add: set_upsert_spec)
  qed
qed

lemma mem_decoded: "s \<in> set (decoded u its) \<Longrightarrow> \<exists>it \<in> set its. decode_item u it = Some s"
  by (induction its) (auto split: option.splits)

text \<open>
  C34: Once storing a wire's status has succeeded (and the node's object, if there is one,
  has an item list), the query that decides whether an interface found in the pod belongs
  to an established wire answers yes for that pod namespace and link, so a live wire is
  never classified as a stale remnant.
\<close>

theorem stored_wire_is_recorded:
  assumes "items_laws u" "gw_store u k st" "retry_law k" "node_named os nd"
    and "run_state (updateGRPCWireStatus u k (CreateWireStatus wire nd)) w = (None, w1)"
    and "\<And>ob. st w (gw_TopoNamespace wire) nd = Some ob \<Longrightarrow> has_items u ob"
    and "run_state (IsWireRecordedInDataStore u os k True (gw_LocalPodNetNS wire) (gw_UID wire)) w1 = (Inr b, w2)"
  shows "b"
proof -
  let ?ws = "CreateWireStatus wire nd"
  obtain ob where ob: "st w1 = set_object (st w) (gw_TopoNamespace wire) nd ob"
    "?ws \<in> set (decoded u (node_items u ob))"
    using update_records [OF assms(1-3,5)] assms(6) by (auto simp: CreateWireStatus_def)
  then have at: "st w1 (gw_TopoNamespace wire) nd = Some ob" by (simp add: set_object_def)
  obtain it where it: "it \<in> set (node_items u ob)" "decode_item u it = Some ?ws"
    using mem_decoded [OF ob(2)] by blast
  from assms(7) obtain obs where ls: "run_state (GwList k nd) w1 = (Inr obs, w2)"
    and b: "b = list_ex (\<lambda>node. list_ex (\<lambda>item. case decode_item u item of None \<Rightarrow> False
        | Some ws \<Rightarrow> gs_LinkId ws = gw_UID wire \<and> gs_LocalPodNetNs ws = gw_LocalPodNetNS wire)
        (node_items u node)) obs"
    by (auto simp: IsWireRecordedInDataStore_def findNodeName_named [OF assms(4)] split: prod.splits sum.splits)
  have "list_law st (GwList k)" using assms(2) by (simp add: gw_store_def)
  from list_lawD(2) [OF this ls] at have "ob \<in> set obs" by auto
  then show ?thesis using it unfolding b list_ex_iff by (force simp: CreateWireStatus_def)
qed

definition demo_env :: "string \<Rightarrow> string option" where
  "demo_env v = (if v = ''NODE_NAME'' then Some ''node1'' else None)"

definition demo_wire_a :: GRPCWire where
  "demo_wire_a = CreateGWire 3 ''aeth1-0001'' 0 (zero_WireDef\<lparr>wd_LinkUid := 7, wd_TopoNs := ''t'',
     wd_LocalPodNetNs := ''/new'', wd_LocalPodName := ''a''\<rparr>)"

definition demo_api :: api where
  "demo_api = \<lparr>a_topo = [], a_gw = [], a_nodes = []\<rparr>"

lemma demo_node_named: "node_named (ref_os demo_env) ''node1''"
  by (simp add: node_named_def demo_env_def)

lemma demo_store_runs:
  "\<exists>w1. run_state (updateGRPCWireStatus ref_lib ref_kube ws) demo_api = (None, w1)"
  by (simp add: updateGRPCWireStatus_def update_attempt_def GetWireObjGrpUS_def read_obj_def demo_api_def
      gw_of_def is_not_found_def CreateGWireStatInDS_def to_kobj_def put_gw_def as_err_def Let_def)

lemma demo_query_runs:
  "\<exists>b w2. run_state (IsWireRecordedInDataStore ref_lib (ref_os demo_env) ref_kube True ns l) w = (Inr b, w2)"
  by (simp add: IsWireRecordedInDataStore_def findNodeName_named [OF demo_node_named])

theorem stored_wire_is_recorded_witness:
  "\<exists>w1 w2. run_state (updateGRPCWireStatus ref_lib ref_kube (CreateWireStatus demo_wire_a ''node1'')) demo_api = (None, w1)
     \<and> run_state (IsWireRecordedInDataStore ref_lib (ref_os demo_env) ref_kube True ''/new'' 7) w1 = (Inr True, w2)"
proof -
  obtain w1 where w1: "run_state (updateGRPCWireStatus ref_lib ref_kube (CreateWireStatus demo_wire_a ''node1'')) demo_api = (None, w1)"
    using demo_store_runs by blast
  obtain b w2 where q: "run_state (IsWireRecordedInDataStore ref_lib (ref_os demo_env) ref_kube True
      (gw_LocalPodNetNS demo_wire_a) (gw_UID demo_wire_a)) w1 = (Inr b, w2)"
    using demo_query_runs by blast
  have "b" by (rule stored_wire_is_recorded [OF ref_items_laws ref_gw_store ref_retry demo_node_named w1 _ q])
     (simp add: gw_of_def demo_api_def)
  moreover have "gw_LocalPodNetNS demo_wire_a = ''/new''" "gw_UID demo_wire_a = 7"
    by (simp_all add: demo_wire_a_def CreateGWire_def zero_WireDef_def)
  ultimately show ?thesis using w1 q by auto
qed

lemma delete_pod_effect:
  assumes "items_laws u" "gw_store u k st" "retry_law k" "node_named os nd"
    and "run_state (deleteGRPCWireStatusByPod u os k ns pod) w = (r, w')"
  obtains w0 where "st w0 = st w" "run_state (delete_pod_attempt u k nd ns pod) w0 = (r, w')"
proof -
  have "run_state (RetryOnConflict k (delete_pod_attempt u k nd ns pod)) w = (r, w')"
    using assms(5) by (simp add: deleteGRPCWireStatusByPod_def findNodeName_named [OF assms(4)])
  from retry_last [OF assms(3) this, of st] delete_pod_attempt_effect [OF assms(1,2)] that
  show ?thesis by blast
qed

text \<open>
  When removing a pod's records reports success, the node's object lists no record of
  that pod in that namespace any more, the records of other pods are unchanged, and no
  other object is touched; when it reports an error nothing at all has changed.
\<close>

theorem pod_records_removed:
  assumes "items_laws u" "gw_store u k st" "retry_law k" "node_named os nd"
    and "run_state (deleteGRPCWireStatusByPod u os k ns pod) w = (r, w')"
  shows "if r = None
     then (\<forall>m n. (m, n) \<noteq> (ns, nd) \<longrightarrow> st w' m n = st w m n) \<and>
       (case (st w ns nd, st w' ns nd) of
          (None, None) \<Rightarrow> True
        | (Some ob, Some ob') \<Rightarrow> decoded u (node_items u ob') =
             filter (\<lambda>s. gs_LocalPodName s \<noteq> pod) (decoded u (node_items u ob))
        | _ \<Rightarrow> False)
     else st w' = st w"
proof -
  obtain w0 where w0: "st w0 = st w" "run_state (delete_pod_attempt u k nd ns pod) w0 = (r, w')"
    using delete_pod_effect [OF assms] by blast
  note eff = delete_pod_attempt_effect [OF assms(1,2) w0(2), unfolded w0(1)]
  show ?thesis
  proof (cases "r = None")
    case True
    show ?thesis
    proof (cases "st w ns nd")
      case None
      then show ?thesis using eff True by simp
    next
      case (Some ob)
      with eff True obtain ob' where o: "st w' = set_object (st w) ns nd ob'"
        "decoded u (node_items u ob') = filter (\<lambda>s. gs_LocalPodName s \<noteq> pod) (decoded u (node_items u ob))"
        by auto
      then have "st w' ns nd = Some ob'" by (simp add: set_object_def)
      moreover have "\<forall>m n. (m, n) \<noteq> (ns, nd) \<longrightarrow> st w' m n = st w m n"
        by (auto simp: o(1) set_object_def)
      ultimately show ?thesis using Some o(2) True by simp
    qed
  next
    case False
    then show ?thesis using eff by (simp only: if_False) blast
  qed
qed

definition demo_api_pod :: api where
  "demo_api_pod = \<lparr>a_topo = [], a_gw = [((''t'', ''node1''), projr (to_kobj
     \<lparr>gk_Kind = ''GWireKObj'', gk_APIVersion = '''', gk_Name = ''node1'', gk_Namespace = ''t'',
      gk_Status = \<lparr>gns_GWireKItems = [demo_status ''/old'', demo_status ''/new'',
         (demo_status ''/b'')\<lparr>gs_LocalPodName := ''b''\<rparr>]\<rparr>\<rparr>))], a_nodes = []\<rparr>"

lemma demo_api_pod_items:
  "decoded ref_lib (node_items ref_lib (the (gw_of demo_api_pod ''t'' ''node1''))) =
     [demo_status ''/old'', demo_status ''/new'', (demo_status ''/b'')\<lparr>gs_LocalPodName := ''b''\<rparr>]"
  "gw_of demo_api_pod ''t'' ''node1'' \<noteq> None"
  by (simp_all add: gw_of_def demo_api_pod_def node_items_def to_kobj_def ref_slice_def kStatus_def
      kGrpcWireItems_def decode_item_def from_to_gwire) (simp add: to_gwire_def)

lemma demo_pod_run:
  "\<exists>w'. run_state (deleteGRPCWireStatusByPod ref_lib (ref_os demo_env) ref_kube ''t'' ''a'') demo_api_pod = (None, w')"
  by (simp add: deleteGRPCWireStatusByPod_def findNodeName_named [OF demo_node_named] delete_pod_attempt_def
      read_obj_def demo_api_pod_def gw_of_def to_kobj_def ref_name_def ref_string_def ref_slice_def
      kStatus_def kGrpcWireItems_def ref_set_def put_gw_def as_err_def case_prod_beta)

theorem pod_records_removed_witness:
  "\<exists>w' ob'. run_state (deleteGRPCWireStatusByPod ref_lib (ref_os demo_env) ref_kube ''t'' ''a'') demo_api_pod = (None, w')
     \<and> gw_of w' ''t'' ''node1'' = Some ob'
     \<and> decoded ref_lib (node_items ref_lib ob') = [(demo_status ''/b'')\<lparr>gs_LocalPodName := ''b''\<rparr>]"
proof -
  obtain w' where w': "run_state (deleteGRPCWireStatusByPod ref_lib (ref_os demo_env) ref_kube ''t'' ''a'') demo_api_pod = (None, w')"
    using demo_pod_run by blast
  obtain ob where ob: "gw_of demo_api_pod ''t'' ''node1'' = Some ob" using demo_api_pod_items(2) by blast
  from pod_records_removed [OF ref_items_laws ref_gw_store ref_retry demo_node_named w'] ob
  obtain ob' where "gw_of w' ''t'' ''node1'' = Some ob'"
    "decoded ref_lib (node_items ref_lib ob') =
       filter (\<lambda>s. gs_LocalPodName s \<noteq> ''a'') (decoded ref_lib (node_items ref_lib ob))"
    by (auto split: option.splits)
  then show ?thesis using w' demo_api_pod_items(1) ob by (simp add: demo_status_def)
qed

text \<open>
  When the node's object exists but its item list is missing (or of the wrong shape
  reported as not found), storing a wire answers success while the store keeps exactly
  what it had: the wire is not recorded, and a restarted daemon will not re-adopt it.
\<close>

theorem store_loses_wire_without_item_list:
  assumes "items_laws u" "gw_store u k st" "retry_law k" "node_named os nd"
    and "st w (gw_TopoNamespace wire) nd = Some ob" "NestedSlice u ob items_path = (its, False, None)"
    and "run_state (K8sStoreGWire u os k wire) w = (r, w')"
  shows "r = None \<and> st w' = st w"
proof -
  let ?ws = "CreateWireStatus wire nd"
  obtain e where "run_state (updateGRPCWireStatus u k ?ws) w = (e, w')" and r: "r = None"
    using assms(7) by (auto simp: K8sStoreGWire_def findNodeName_named [OF assms(4)] split: prod.splits)
  then obtain w0 where w0: "st w0 = st w" "run_state (update_attempt u k ?ws) w0 = (e, w')"
    using update_effect [OF assms(1-3)] by blast
  have "st w (gs_TopoNamespace ?ws) (gs_LocalNodeName ?ws) = Some ob"
    using assms(5) by (simp add: CreateWireStatus_def)
  moreover have "\<not> has_items u ob" using assms(6) by (simp add: has_items_def)
  ultimately have "st w' = st w"
    using update_attempt_effect [OF assms(1,2) w0(2), unfolded w0(1)] by (cases e) auto
  with r show ?thesis by simp
qed

definition demo_bare :: json where
  "demo_bare = JObj [(''metadata'', JObj [(''name'', JStr ''node1'')])]"

theorem store_loses_wire_without_item_list_witness:
  "\<exists>w'. run_state (K8sStoreGWire ref_lib (ref_os demo_env) ref_kube demo_wire_a)
        (demo_api\<lparr>a_gw := [((''t'', ''node1''), demo_bare)]\<rparr>) = (None, w')
     \<and> gw_of w' ''t'' ''node1'' = Some demo_bare"
proof -
  let ?w = "demo_api\<lparr>a_gw := [((''t'', ''node1''), demo_bare)]\<rparr>"
  obtain r w' where run: "run_state (K8sStoreGWire ref_lib (ref_os demo_env) ref_kube demo_wire_a) ?w = (r, w')"
    by fastforce
  have ns: "gw_TopoNamespace demo_wire_a = ''t''"
    by (simp add: demo_wire_a_def CreateGWire_def zero_WireDef_def)
  have at: "gw_of ?w (gw_TopoNamespace demo_wire_a) ''node1'' = Some demo_bare"
    by (simp add: gw_of_def ns)
  have sl: "NestedSlice ref_lib demo_bare items_path = (None, False, None)"
    by (simp add: demo_bare_def ref_slice_def kStatus_def kGrpcWireItems_def)
  from store_loses_wire_without_item_list [OF ref_items_laws ref_gw_store ref_retry demo_node_named at sl run]
  show ?thesis using run at ns by auto
qed

text \<open>
  Deleting a wire's status, when it succeeds, leaves no record of that link in the
  node's object, keeps the records of all other links in order, and touches no other
  object; on error nothing changes.
\<close>

theorem link_records_removed:
  assumes "items_laws u" "gw_store u k st" "retry_law k" "node_named os nd"
    and "run_state (K8sDelGWire u os k wire) w = (r, w')"
    and "\<And>ob. st w (gw_TopoNamespace wire) nd = Some ob \<Longrightarrow> has_items u ob"
  shows "if r = None
     then (\<exists>ob ob'. st w (gw_TopoNamespace wire) nd = Some ob \<and>
             st w' = (st w)(gw_TopoNamespace wire := (st w (gw_TopoNamespace wire))(nd \<mapsto> ob')) \<and>
             decoded u (node_items u ob') =
               filter (\<lambda>s. gs_LinkId s \<noteq> gw_UID wire) (decoded u (node_items u ob)))
     else st w' = st w"
proof -
  let ?ws = "CreateWireStatus wire nd"
  have run: "run_state (RetryOnConflict k (delete_attempt u k ?ws)) w = (r, w')"
    using assms(5) by (simp add: K8sDelGWire_def findNodeName_named [OF assms(4)] deleteGRPCWireStatus_def)
  obtain w0 where w0: "st w0 = st w" "run_state (delete_attempt u k ?ws) w0 = (r, w')"
    using retry_last [OF assms(3) run, of st] delete_attempt_effect [OF assms(1,2)] by blast
  have f: "gs_TopoNamespace ?ws = gw_TopoNamespace wire" "gs_LocalNodeName ?ws = nd" "gs_LinkId ?ws = gw_UID wire"
    by (simp_all add: CreateWireStatus_def)
  note eff = delete_attempt_effect [OF assms(1,2) w0(2), unfolded w0(1) f]
  show ?thesis
  proof (cases "r = None")
    case True
    with eff obtain ob where ob: "st w (gw_TopoNamespace wire) nd = Some ob"
      "if has_items u ob
       then \<exists>ob'. st w' = set_object (st w) (gw_TopoNamespace wire) nd ob' \<and>
              decoded u (node_items u ob') = filter (\<lambda>s. gs_LinkId s \<noteq> gw_UID wire) (decoded u (node_items u ob))
       else st w' = st w" by blast
    with assms(6) [OF ob(1)] True show ?thesis unfolding set_object_def by auto
  next
    case False
    then show ?thesis using eff by (simp only: if_False) blast
  qed
qed

lemma demo_link_run:
  "\<exists>w'. run_state (K8sDelGWire ref_lib (ref_os demo_env) ref_kube demo_wire_a) demo_api_pod = (None, w')"
  by (simp add: K8sDelGWire_def findNodeName_named [OF demo_node_named] deleteGRPCWireStatus_def delete_attempt_def
      GetWireObjGrpUS_def CreateWireStatus_def demo_wire_a_def CreateGWire_def zero_WireDef_def
      read_obj_def demo_api_pod_def gw_of_def to_kobj_def ref_name_def ref_string_def ref_slice_def
      kStatus_def kGrpcWireItems_def ref_set_def put_gw_def as_err_def)

theorem link_records_removed_witness:
  "\<exists>w' ob'. run_state (K8sDelGWire ref_lib (ref_os demo_env) ref_kube demo_wire_a) demo_api_pod = (None, w')
     \<and> gw_of w' ''t'' ''node1'' = Some ob' \<and> decoded ref_lib (node_items ref_lib ob') = []"
proof -
  obtain w' where w': "run_state (K8sDelGWire ref_lib (ref_os demo_env) ref_kube demo_wire_a) demo_api_pod = (None, w')"
    using demo_link_run by blast
  have ns: "gw_TopoNamespace demo_wire_a = ''t''" "gw_UID demo_wire_a = 7"
    by (simp_all add: demo_wire_a_def CreateGWire_def zero_WireDef_def)
  have items: "\<And>ob. gw_of demo_api_pod (gw_TopoNamespace demo_wire_a) ''node1'' = Some ob \<Longrightarrow> has_items ref_lib ob"
    by (auto simp: gw_of_def demo_api_pod_def ns has_items_def to_kobj_def ref_slice_def kStatus_def kGrpcWireItems_def)
  from link_records_removed [OF ref_items_laws ref_gw_store ref_retry demo_node_named w' items]
  obtain ob ob' where "gw_of demo_api_pod ''t'' ''node1'' = Some ob" "gw_of w' ''t'' ''node1'' = Some ob'"
    "decoded ref_lib (node_items ref_lib ob') = filter (\<lambda>s. gs_LinkId s \<noteq> 7) (decoded ref_lib (node_items ref_lib ob))"
    by (auto simp: ns)
  then show ?thesis using w' demo_api_pod_items(1) by (simp add: demo_status_def)
qed

end
