(* ===== verification/Wire_Steps.thy ===== *)
theory Wire_Steps
  imports Wire_Map
begin

text \<open>
  The life of the wires under concurrent RPC handlers and reconciliation: one step is one
  critical section of the map's mutex, or one of the three unlocked actions by which
  \<open>RemoveWireAcrosAll\<close> stops a wire that \<open>ExtractOneWireByPod\<close> took out of the
  map (read \<open>IsReady\<close>, close the channel, clear \<open>IsReady\<close>).  Any number of
  threads may be at any point: a thread holds the channel it made but has not filed yet,
  or the wire it extracted.  Whatever the interleaving, no channel is closed twice.
\<close>

datatype stop_pc = AtTest | AtClose | AtMark

record wire_sys =
  ws_map :: wireMap
  ws_chans :: "nat set"
  ws_stopping :: "nat \<rightharpoonup> stop_pc"

definition sys_init :: wire_sys where
  "sys_init = \<lparr>ws_map = empty_wires, ws_chans = {}, ws_stopping = Map.empty\<rparr>"

inductive wire_step :: "wire_sys \<Rightarrow> wire_sys \<Rightarrow> bool" where
  mk_chan: "make_chan (ws_map s) = (c, m) \<Longrightarrow>
     wire_step s (s\<lparr>ws_map := m, ws_chans := insert c (ws_chans s)\<rparr>)"
| add_wire: "gw_StopC w \<in> ws_chans s \<Longrightarrow> gw_IsReady w \<Longrightarrow> new_wire w (ws_map s) = (a, m) \<Longrightarrow>
     wire_step s (s\<lparr>ws_map := AddInMem a h m, ws_chans := ws_chans s - {gw_StopC w}\<rparr>)"
| update_wire: "c \<in> ws_chans s \<Longrightarrow> UpdateWireByUID ns uid p c (ws_map s) = (Some a, m) \<Longrightarrow>
     wire_step s (s\<lparr>ws_map := m, ws_chans := ws_chans s - {c}\<rparr>)"
| wire_down: "WireDownByUID ns uid (ws_map s) = (e, m) \<Longrightarrow> wire_step s (s\<lparr>ws_map := m\<rparr>)"
| extract_wire: "ExtractOneWireByPod ks ns pod (ws_map s) = ((Some a, b), m) \<Longrightarrow>
     wire_step s (s\<lparr>ws_map := m, ws_stopping := (ws_stopping s)(a \<mapsto> AtTest)\<rparr>)"
| stop_test: "ws_stopping s a = Some AtTest \<Longrightarrow> wheap (ws_map s) a = Some w \<Longrightarrow>
     wire_step s (s\<lparr>ws_stopping := (ws_stopping s)(a \<mapsto> (if gw_IsReady w then AtClose else AtMark))\<rparr>)"
| stop_close: "ws_stopping s a = Some AtClose \<Longrightarrow> wheap (ws_map s) a = Some w \<Longrightarrow>
     wire_step s (s\<lparr>ws_map := close_chan (gw_StopC w) (ws_map s),
                    ws_stopping := (ws_stopping s)(a \<mapsto> AtMark)\<rparr>)"
| stop_mark: "ws_stopping s a = Some AtMark \<Longrightarrow>
     wire_step s (s\<lparr>ws_map := mark_down a (ws_map s), ws_stopping := (ws_stopping s)(a := None)\<rparr>)"

inductive_cases wire_stepE: "wire_step s s'"

inductive wire_reach :: "wire_sys \<Rightarrow> bool" where
  reach_init: "wire_reach sys_init"
| reach_step: "wire_reach s \<Longrightarrow> wire_step s s' \<Longrightarrow> wire_reach s'"

section \<open>The invariant\<close>

definition live :: "wireMap \<Rightarrow> GRPCWire \<Rightarrow> bool" where
  "live m w \<longleftrightarrow> gw_StopC w \<notin> chclosed m"

definition heap_ok :: "wireMap \<Rightarrow> bool" where
  "heap_ok m \<longleftrightarrow>
     \<not> panicked m \<and> (\<forall>c \<in> chclosed m. c < chnext m) \<and>
     (\<forall>a w. wheap m a = Some w \<longrightarrow> a < wnext m \<and> gw_StopC w < chnext m) \<and>
     (\<forall>a b w v. wheap m a = Some w \<longrightarrow> wheap m b = Some v \<longrightarrow> gw_StopC w = gw_StopC v \<longrightarrow> a = b)"

definition chans_ok :: "wireMap \<Rightarrow> nat set \<Rightarrow> bool" where
  "chans_ok m C \<longleftrightarrow>
     (\<forall>c \<in> C. c < chnext m \<and> c \<notin> chclosed m \<and> (\<forall>a w. wheap m a = Some w \<longrightarrow> gw_StopC w \<noteq> c))"

definition tracked_ok :: "wireMap \<Rightarrow> bool" where
  "tracked_ok m \<longleftrightarrow>
     (\<forall>k a. wires m k = Some a \<longrightarrow>
        (\<exists>w. wheap m a = Some w \<and> key_of w = k \<and> gw_IsReady w = live m w))"

fun pc_ok :: "wireMap \<Rightarrow> GRPCWire \<Rightarrow> stop_pc \<Rightarrow> bool" where
  "pc_ok m w AtTest \<longleftrightarrow> gw_IsReady w = live m w"
| "pc_ok m w AtClose \<longleftrightarrow> live m w"
| "pc_ok m w AtMark \<longleftrightarrow> \<not> live m w"

definition stopping_ok :: "wireMap \<Rightarrow> (nat \<rightharpoonup> stop_pc) \<Rightarrow> bool" where
  "stopping_ok m D \<longleftrightarrow>
     (\<forall>a pc. D a = Some pc \<longrightarrow>
        (\<exists>w. wheap m a = Some w \<and> wires m (key_of w) \<noteq> Some a \<and> pc_ok m w pc))"

definition wire_inv :: "wire_sys \<Rightarrow> bool" where
  "wire_inv s \<longleftrightarrow> heap_ok (ws_map s) \<and> chans_ok (ws_map s) (ws_chans s) \<and> tracked_ok (ws_map s)
     \<and> stopping_ok (ws_map s) (ws_stopping s)"

lemmas inv_defs = heap_ok_def chans_ok_def tracked_ok_def stopping_ok_def live_def

lemma tracked_okD:
  "tracked_ok m \<Longrightarrow> wires m k = Some a \<Longrightarrow>
     \<exists>w. wheap m a = Some w \<and> key_of w = k \<and> gw_IsReady w = live m w"
  unfolding tracked_ok_def by blast

lemma wire_inv_init: "wire_inv sys_init"
  by (simp add: wire_inv_def inv_defs sys_init_def empty_wires_def)

section \<open>Each step keeps it\<close>

lemma key_of_update [simp]:
  "key_of (gw_StopC_update f w) = key_of w"
  "key_of (gw_WireIfaceIDOnPeerNode_update g w) = key_of w"
  "key_of (gw_IsReady_update h w) = key_of w"
  by (simp_all add: key_of_def)

lemma upd_wire_simps [simp]:
  "wheap (upd_wire a f m) = (wheap m)(a := map_option f (wheap m a))"
  "wnext (upd_wire a f m) = wnext m" "wires (upd_wire a f m) = wires m"
  "chnext (upd_wire a f m) = chnext m" "chclosed (upd_wire a f m) = chclosed m"
  "panicked (upd_wire a f m) = panicked m" "handles (upd_wire a f m) = handles m"
  by (simp_all add: upd_wire_def)

lemma close_chan_simps [simp]:
  "wheap (close_chan c m) = wheap m" "wnext (close_chan c m) = wnext m"
  "wires (close_chan c m) = wires m" "chnext (close_chan c m) = chnext m"
  "handles (close_chan c m) = handles m"
  "chclosed (close_chan c m) = insert c (chclosed m)"
  "c \<notin> chclosed m \<Longrightarrow> panicked (close_chan c m) = panicked m"
  by (auto simp: close_chan_def)

lemma pc_ok_heap: "chclosed m' = chclosed m \<Longrightarrow> pc_ok m' w pc = pc_ok m w pc"
  by (cases pc) (simp_all add: live_def)

lemma pc_ok_close:
  "gw_StopC w \<noteq> c \<Longrightarrow> pc_ok (close_chan c m) w pc = pc_ok m w pc"
  by (cases pc) (simp_all add: live_def)

lemma inv_make:
  assumes "wire_inv s" "make_chan (ws_map s) = (c, m)"
  shows "wire_inv (s\<lparr>ws_map := m, ws_chans := insert c (ws_chans s)\<rparr>)"
proof -
  let ?m = "ws_map s"
  from assms(2) have m: "m = ?m\<lparr>chnext := Suc (chnext ?m)\<rparr>" and c: "c = chnext ?m"
    by (auto simp: make_chan_def)
  have pc: "\<And>w pc. pc_ok m w pc = pc_ok ?m w pc" by (rule pc_ok_heap) (simp add: m)
  from assms(1) have h: "heap_ok ?m" and d: "chans_ok ?m (ws_chans s)"
    and t: "tracked_ok ?m" and st: "stopping_ok ?m (ws_stopping s)" by (auto simp: wire_inv_def)
  have "heap_ok m" using h unfolding heap_ok_def m by (auto intro: less_SucI)
  moreover have "chans_ok m (insert c (ws_chans s))"
    using d h unfolding chans_ok_def heap_ok_def m c by (fastforce intro: less_SucI)
  moreover have "tracked_ok m" using t unfolding tracked_ok_def live_def m by simp
  moreover have "stopping_ok m (ws_stopping s)"
    using st unfolding stopping_ok_def pc by (simp add: m)
  ultimately show ?thesis by (simp add: wire_inv_def)
qed

lemma inv_add:
  assumes "wire_inv s" "gw_StopC w \<in> ws_chans s" "gw_IsReady w" "new_wire w (ws_map s) = (a, m)"
  shows "wire_inv (s\<lparr>ws_map := AddInMem a h m, ws_chans := ws_chans s - {gw_StopC w}\<rparr>)"
proof -
  let ?m = "ws_map s"
  define n where "n = AddInMem a h m"
  from assms(4) have m: "m = ?m\<lparr>wheap := (wheap ?m)(a \<mapsto> w), wnext := Suc a\<rparr>" and a: "a = wnext ?m"
    by (auto simp: new_wire_def)
  then have "wheap m a = Some w" by simp
  then have n: "wheap n = (wheap ?m)(a \<mapsto> w)" "wnext n = Suc a" "wires n = (wires ?m)(key_of w \<mapsto> a)"
    "chnext n = chnext ?m" "chclosed n = chclosed ?m" "panicked n = panicked ?m"
    by (simp_all add: n_def) (simp_all add: m)
  have pc: "\<And>w pc. pc_ok n w pc = pc_ok ?m w pc" by (rule pc_ok_heap) (simp add: n)
  from assms(1) have hp: "heap_ok ?m" and d: "chans_ok ?m (ws_chans s)"
    and t: "tracked_ok ?m" and st: "stopping_ok ?m (ws_stopping s)" by (auto simp: wire_inv_def)
  have new: "wheap ?m a = None"
    using hp unfolding heap_ok_def a by (metis less_irrefl not_None_eq)
  have c: "gw_StopC w < chnext ?m" "gw_StopC w \<notin> chclosed ?m"
    "\<And>b v. wheap ?m b = Some v \<Longrightarrow> gw_StopC v \<noteq> gw_StopC w"
    using d assms(2) unfolding chans_ok_def by blast+
  have "heap_ok n"
    using hp c unfolding heap_ok_def n by (auto simp: a less_Suc_eq split: if_splits) (metis)+
  moreover have "chans_ok n (ws_chans s - {gw_StopC w})"
    using d unfolding chans_ok_def n by auto
  moreover have "tracked_ok n"
    using t c(2) assms(3) new unfolding tracked_ok_def live_def n
    by (metis fun_upd_apply option.inject option.discI)
  moreover have "stopping_ok n (ws_stopping s)"
  proof (unfold stopping_ok_def, intro allI impI)
    fix b pc assume "ws_stopping s b = Some pc"
    then obtain v where v: "wheap ?m b = Some v" "wires ?m (key_of v) \<noteq> Some b" "pc_ok ?m v pc"
      using st unfolding stopping_ok_def by blast
    then have "b \<noteq> a" using new by auto
    then show "\<exists>w. wheap n b = Some w \<and> wires n (key_of w) \<noteq> Some b \<and> pc_ok n w pc"
      using v by (auto simp: n pc)
  qed
  ultimately show ?thesis by (simp add: wire_inv_def n_def)
qed

lemma inv_update:
  assumes "wire_inv s" "c \<in> ws_chans s" "UpdateWireByUID ns uid p c (ws_map s) = (Some a, m)"
  shows "wire_inv (s\<lparr>ws_map := m, ws_chans := ws_chans s - {c}\<rparr>)"
proof -
  let ?m = "ws_map s"
  let ?f = "\<lambda>w. w\<lparr>gw_StopC := c, gw_WireIfaceIDOnPeerNode := p, gw_IsReady := True\<rparr>"
  from assms(3) have a: "wires ?m (ns, uid) = Some a" and m: "m = upd_wire a ?f ?m"
    by (auto simp: UpdateWireByUID_def split: option.splits)
  from assms(1) have hp: "heap_ok ?m" and d: "chans_ok ?m (ws_chans s)"
    and t: "tracked_ok ?m" and st: "stopping_ok ?m (ws_stopping s)" by (auto simp: wire_inv_def)
  from t a obtain w where w: "wheap ?m a = Some w" "key_of w = (ns, uid)"
    unfolding tracked_ok_def by blast
  have pc: "\<And>w pc. pc_ok m w pc = pc_ok ?m w pc" by (rule pc_ok_heap) (simp add: m)
  have c: "c < chnext ?m" "c \<notin> chclosed ?m" "\<And>b v. wheap ?m b = Some v \<Longrightarrow> gw_StopC v \<noteq> c"
    using d assms(2) unfolding chans_ok_def by blast+
  have "heap_ok m"
    using hp c w unfolding heap_ok_def m by (auto split: if_splits)
  moreover have "chans_ok m (ws_chans s - {c})"
    using d w unfolding chans_ok_def m by auto
  moreover have "tracked_ok m"
  proof (unfold tracked_ok_def, intro allI impI)
    fix k b assume "wires m k = Some b"
    then obtain v where v: "wheap ?m b = Some v" "key_of v = k" "gw_IsReady v = live ?m v"
      using tracked_okD [OF t, of k b] by (auto simp: m)
    then show "\<exists>w. wheap m b = Some w \<and> key_of w = k \<and> gw_IsReady w = live m w"
      using c by (auto simp: m live_def)
  qed
  moreover have "stopping_ok m (ws_stopping s)"
    using st w a unfolding stopping_ok_def pc by (fastforce simp: m)
  ultimately show ?thesis by (simp add: wire_inv_def)
qed

text \<open>Closing the channel of one wire leaves the others as they were.\<close>

lemma close_chan_ok:
  assumes "heap_ok m" "chans_ok m C" "wheap m a = Some w" "gw_StopC w \<notin> chclosed m"
  shows "heap_ok (close_chan (gw_StopC w) m)" "chans_ok (close_chan (gw_StopC w) m) C"
  using assms unfolding heap_ok_def chans_ok_def by auto

lemma mark_down_ok:
  assumes "heap_ok m" "chans_ok m C"
  shows "heap_ok (mark_down a m)" "chans_ok (mark_down a m) C"
  using assms unfolding heap_ok_def chans_ok_def mark_down_def by (auto split: if_splits) blast+

lemma inv_down:
  assumes "wire_inv s" "WireDownByUID ns uid (ws_map s) = (e, m)"
  shows "wire_inv (s\<lparr>ws_map := m\<rparr>)"
proof (cases "wires (ws_map s) (ns, uid)")
  case None
  then show ?thesis using assms by (auto simp: WireDownByUID_def)
next
  case (Some a)
  let ?m = "ws_map s"
  from assms(1) have hp: "heap_ok ?m" and d: "chans_ok ?m (ws_chans s)"
    and t: "tracked_ok ?m" and st: "stopping_ok ?m (ws_stopping s)" by (auto simp: wire_inv_def)
  from t Some obtain w where w: "wheap ?m a = Some w" "key_of w = (ns, uid)"
    "gw_IsReady w = live ?m w" unfolding tracked_ok_def by blast
  let ?n = "close_if_ready a ?m"
  have m: "m = mark_down a ?n" using assms(2) Some by (simp add: WireDownByUID_def stop_wire_def)
  have n: "?n = (if gw_StopC w \<notin> chclosed ?m then close_chan (gw_StopC w) ?m else ?m)"
    using w by (simp add: close_if_ready_def live_def)
  have oth: "\<And>b v. wheap ?m b = Some v \<Longrightarrow> b \<noteq> a \<Longrightarrow> gw_StopC v \<noteq> gw_StopC w"
    using hp w unfolding heap_ok_def by blast
  have hd: "heap_ok ?n" "chans_ok ?n (ws_chans s)"
    using close_chan_ok [OF hp d w(1)] hp d by (auto simp: n)
  have pc: "\<And>b v pc. wheap ?m b = Some v \<Longrightarrow> b \<noteq> a \<Longrightarrow> pc_ok m v pc = pc_ok ?m v pc"
  proof -
    fix b v pc assume "wheap ?m b = Some v" "b \<noteq> a"
    from oth [OF this] have "pc_ok ?n v pc = pc_ok ?m v pc" by (auto simp: n pc_ok_close)
    moreover have "pc_ok m v pc = pc_ok ?n v pc" by (rule pc_ok_heap) (simp add: m mark_down_def)
    ultimately show "pc_ok m v pc = pc_ok ?m v pc" by simp
  qed
  have "tracked_ok m"
  proof (unfold tracked_ok_def, intro allI impI)
    fix k b assume "wires m k = Some b"
    then obtain v where v: "wheap ?m b = Some v" "key_of v = k" "gw_IsReady v = live ?m v"
      using tracked_okD [OF t, of k b] by (auto simp: m mark_down_def n split: if_splits)
    then show "\<exists>w. wheap m b = Some w \<and> key_of w = k \<and> gw_IsReady w = live m w"
      using w oth [OF v(1)] by (auto simp: m mark_down_def n live_def)
  qed
  moreover have "stopping_ok m (ws_stopping s)"
  proof (unfold stopping_ok_def, intro allI impI)
    fix b pc assume "ws_stopping s b = Some pc"
    then obtain v where v: "wheap ?m b = Some v" "wires ?m (key_of v) \<noteq> Some b" "pc_ok ?m v pc"
      using st unfolding stopping_ok_def by blast
    then have "b \<noteq> a" using w Some by auto
    then show "\<exists>w. wheap m b = Some w \<and> wires m (key_of w) \<noteq> Some b \<and> pc_ok m w pc"
      using v pc [OF v(1)] by (auto simp: m mark_down_def n)
  qed
  ultimately show ?thesis using mark_down_ok [OF hd] by (simp add: wire_inv_def m)
qed

lemma extract_spec:
  "ExtractOneWireByPod ks ns pod m = ((Some a, b), m') \<Longrightarrow>
     \<exists>k w. k \<in> set ks \<and> wires m k = Some a \<and> wheap m a = Some w \<and> of_pod ns pod w
         \<and> m' = AtomicDelete a m"
  by (induction ks) (auto simp: AtomicDelete_def split: option.splits if_splits)

lemma inv_extract:
  assumes "wire_inv s" "ExtractOneWireByPod ks ns pod (ws_map s) = ((Some a, b), m)"
  shows "wire_inv (s\<lparr>ws_map := m, ws_stopping := (ws_stopping s)(a \<mapsto> AtTest)\<rparr>)"
proof -
  let ?m = "ws_map s"
  from extract_spec [OF assms(2)] obtain k w where k: "wires ?m k = Some a"
    and w: "wheap ?m a = Some w" and m: "m = AtomicDelete a ?m" by blast
  note n = AtomicDelete_simps(1-4) AtomicDelete_simps(5,6) [OF w]
  from assms(1) have hp: "heap_ok ?m" and d: "chans_ok ?m (ws_chans s)"
    and t: "tracked_ok ?m" and st: "stopping_ok ?m (ws_stopping s)" by (auto simp: wire_inv_def)
  have kw: "key_of w = k" "gw_IsReady w = live ?m w" using t k w unfolding tracked_ok_def by fastforce+
  have pc: "\<And>w pc. pc_ok m w pc = pc_ok ?m w pc" by (rule pc_ok_heap) (simp add: m)
  have "heap_ok m" using hp unfolding heap_ok_def m n .
  moreover have "chans_ok m (ws_chans s)" using d unfolding chans_ok_def m n .
  moreover have "tracked_ok m" using t unfolding tracked_ok_def live_def m n by simp
  moreover have "stopping_ok m ((ws_stopping s)(a \<mapsto> AtTest))"
  proof (unfold stopping_ok_def, intro allI impI)
    fix b pc assume "((ws_stopping s)(a \<mapsto> AtTest)) b = Some pc"
    then consider "b = a" "pc = AtTest" | "b \<noteq> a" "ws_stopping s b = Some pc" by (auto split: if_splits)
    then show "\<exists>w. wheap m b = Some w \<and> wires m (key_of w) \<noteq> Some b \<and> pc_ok m w pc"
    proof cases
      case 1
      then show ?thesis using w kw by (simp add: m n live_def)
    next
      case 2
      then obtain v where "wheap ?m b = Some v" "wires ?m (key_of v) \<noteq> Some b" "pc_ok ?m v pc"
        using st unfolding stopping_ok_def by blast
      then show ?thesis by (auto simp: pc) (auto simp: m n)
    qed
  qed
  ultimately show ?thesis by (simp add: wire_inv_def)
qed

lemma inv_test:
  assumes "wire_inv s" "ws_stopping s a = Some AtTest" "wheap (ws_map s) a = Some w"
  shows "wire_inv (s\<lparr>ws_stopping := (ws_stopping s)(a \<mapsto> (if gw_IsReady w then AtClose else AtMark))\<rparr>)"
proof -
  from assms have "wires (ws_map s) (key_of w) \<noteq> Some a" "gw_IsReady w = live (ws_map s) w"
    unfolding wire_inv_def stopping_ok_def by fastforce+
  then have "stopping_ok (ws_map s)
     ((ws_stopping s)(a \<mapsto> (if gw_IsReady w then AtClose else AtMark)))"
    using assms unfolding wire_inv_def stopping_ok_def by auto
  then show ?thesis using assms(1) by (simp add: wire_inv_def)
qed

lemma inv_close:
  assumes "wire_inv s" "ws_stopping s a = Some AtClose" "wheap (ws_map s) a = Some w"
  shows "wire_inv (s\<lparr>ws_map := close_chan (gw_StopC w) (ws_map s),
                    ws_stopping := (ws_stopping s)(a \<mapsto> AtMark)\<rparr>)"
proof -
  let ?m = "ws_map s"
  let ?n = "close_chan (gw_StopC w) ?m"
  from assms(1) have hp: "heap_ok ?m" and d: "chans_ok ?m (ws_chans s)"
    and t: "tracked_ok ?m" and st: "stopping_ok ?m (ws_stopping s)" by (auto simp: wire_inv_def)
  from st assms(2,3) have w: "wires ?m (key_of w) \<noteq> Some a" "gw_StopC w \<notin> chclosed ?m"
    unfolding stopping_ok_def by (fastforce simp: live_def)+
  have oth: "\<And>b v. wheap ?m b = Some v \<Longrightarrow> b \<noteq> a \<Longrightarrow> gw_StopC v \<noteq> gw_StopC w"
    using hp assms(3) unfolding heap_ok_def by blast
  have "tracked_ok ?n"
  proof (unfold tracked_ok_def, intro allI impI)
    fix k b assume "wires ?n k = Some b"
    then obtain v where v: "wheap ?m b = Some v" "key_of v = k" "gw_IsReady v = live ?m v"
      "wires ?m k = Some b" using tracked_okD [OF t, of k b] by auto
    then have "b \<noteq> a" using w assms(3) by auto
    then show "\<exists>w. wheap ?n b = Some w \<and> key_of w = k \<and> gw_IsReady w = live ?n w"
      using v oth [OF v(1)] by (auto simp: live_def)
  qed
  moreover have "stopping_ok ?n ((ws_stopping s)(a \<mapsto> AtMark))"
  proof (unfold stopping_ok_def, intro allI impI)
    fix b pc assume b: "((ws_stopping s)(a \<mapsto> AtMark)) b = Some pc"
    show "\<exists>w. wheap ?n b = Some w \<and> wires ?n (key_of w) \<noteq> Some b \<and> pc_ok ?n w pc"
    proof (cases "b = a")
      case True
      then show ?thesis using b w assms(3) by (auto simp: live_def)
    next
      case False
      then obtain v where v: "wheap ?m b = Some v" "wires ?m (key_of v) \<noteq> Some b" "pc_ok ?m v pc"
        using st b unfolding stopping_ok_def by fastforce
      then show ?thesis using oth [OF v(1) False] by (simp add: pc_ok_close)
    qed
  qed
  ultimately show ?thesis using close_chan_ok [OF hp d assms(3) w(2)] by (simp add: wire_inv_def)
qed

lemma inv_mark:
  assumes "wire_inv s" "ws_stopping s a = Some AtMark"
  shows "wire_inv (s\<lparr>ws_map := mark_down a (ws_map s), ws_stopping := (ws_stopping s)(a := None)\<rparr>)"
proof -
  let ?m = "ws_map s"
  let ?n = "mark_down a ?m"
  from assms(1) have hp: "heap_ok ?m" and d: "chans_ok ?m (ws_chans s)"
    and t: "tracked_ok ?m" and st: "stopping_ok ?m (ws_stopping s)" by (auto simp: wire_inv_def)
  from st assms(2) obtain w where w: "wheap ?m a = Some w" "wires ?m (key_of w) \<noteq> Some a"
    unfolding stopping_ok_def by blast
  have pc: "\<And>w pc. pc_ok ?n w pc = pc_ok ?m w pc" by (rule pc_ok_heap) (simp add: mark_down_def)
  have "tracked_ok ?n"
    using t w unfolding tracked_ok_def live_def by (fastforce simp: mark_down_def)
  moreover have "stopping_ok ?n ((ws_stopping s)(a := None))"
    using st unfolding stopping_ok_def pc by (auto simp: mark_down_def)
  ultimately show ?thesis using mark_down_ok [OF hp d] by (simp add: wire_inv_def)
qed

lemma wire_inv_step: "wire_step s s' \<Longrightarrow> wire_inv s \<Longrightarrow> wire_inv s'"
  by (erule wire_stepE)
     (auto intro: inv_make inv_add inv_update inv_down inv_extract inv_test inv_close inv_mark
       simp del: fun_upd_apply split del: if_split)

lemma wire_inv_reach: "wire_reach s \<Longrightarrow> wire_inv s"
  by (induction rule: wire_reach.induct) (auto intro: wire_inv_init wire_inv_step)

section \<open>Properties\<close>

text \<open>
  C4: In every state reachable by any interleaving of creation, peer-triggered update,
  wire-down and pod deletion, no stop channel has been closed twice (Go would panic and
  take the daemon down), and a tracked wire is filed under its own key and is marked ready
  exactly when its stop channel is still open.
\<close>

theorem stop_channels_closed_once:
  assumes "wire_reach s"
  shows "\<not> panicked (ws_map s) \<and>
     (\<forall>ns uid a w. GetWire ns uid (ws_map s) = Some a \<longrightarrow> wheap (ws_map s) a = Some w \<longrightarrow>
        gw_LocalPodNetNS w = ns \<and> gw_UID w = uid \<and>
        (gw_IsReady w \<longleftrightarrow> gw_StopC w \<notin> chclosed (ws_map s)))"
  using wire_inv_reach [OF assms] tracked_okD [of "ws_map s"]
  by (auto simp: wire_inv_def heap_ok_def GetWire_def key_of_def live_def) fastforce+

definition demo_def :: WireDef where
  "demo_def = zero_WireDef\<lparr>wd_LinkUid := 7, wd_LocalPodNetNs := ''/ns/a'', wd_LocalPodName := ''a'',
     wd_TopoNs := ''t''\<rparr>"

text \<open>A run: a wire is filed, taken down by its peer, and then extracted for deletion.\<close>

definition demo_map :: "bool \<Rightarrow> nat set \<Rightarrow> (linkKey \<rightharpoonup> nat) \<Rightarrow> (int64 \<rightharpoonup> nat) \<Rightarrow> wireMap" where
  "demo_map ready cl ws hs = \<lparr>wheap = Map.empty(0 \<mapsto> (CreateGWire 3 ''veth'' 0 demo_def)\<lparr>gw_IsReady := ready\<rparr>),
     wnext = 1, wires = ws, handles = hs, chnext = 1, chclosed = cl, panicked = False\<rparr>"

lemma demo_wire [simp]:
  "gw_LocalPodNetNS (CreateGWire i n c demo_def) = ''/ns/a''"
  "gw_UID (CreateGWire i n c demo_def) = 7" "gw_LocalPodName (CreateGWire i n c demo_def) = ''a''"
  "gw_TopoNamespace (CreateGWire i n c demo_def) = ''t''"
  "gw_LocalNodeIfaceID (CreateGWire i n c demo_def) = i" "gw_StopC (CreateGWire i n c demo_def) = c"
  "gw_IsReady (CreateGWire i n c demo_def)" "key_of (CreateGWire i n c demo_def) = (''/ns/a'', 7)"
  by (simp_all add: CreateGWire_def demo_def_def zero_WireDef_def key_of_def)

lemma CreateGWire_ready: "(CreateGWire i n c d)\<lparr>gw_IsReady := True\<rparr> = CreateGWire i n c d"
  by (simp add: CreateGWire_def)

abbreviation "demo_key \<equiv> Map.empty((''/ns/a'', 7) \<mapsto> 0)"
abbreviation "demo_hnd \<equiv> Map.empty(3 \<mapsto> 5)"

lemma demo_add:
  "wire_reach \<lparr>ws_map = demo_map True {} demo_key demo_hnd, ws_chans = {}, ws_stopping = Map.empty\<rparr>"
proof -
  let ?w = "CreateGWire 3 ''veth'' 0 demo_def"
  have mk: "make_chan empty_wires = (0, empty_wires\<lparr>chnext := 1\<rparr>)"
    by (simp add: make_chan_def empty_wires_def)
  have one: "wire_reach (sys_init\<lparr>ws_map := empty_wires\<lparr>chnext := 1\<rparr>, ws_chans := {0}\<rparr>)" (is "wire_reach ?s")
    using reach_step [OF reach_init mk_chan [of sys_init 0 "empty_wires\<lparr>chnext := 1\<rparr>"]]
    by (simp add: sys_init_def mk)
  have new: "new_wire ?w (ws_map ?s) = (0, demo_map True {} Map.empty Map.empty)"
    by (simp add: new_wire_def empty_wires_def demo_map_def CreateGWire_ready)
  have addm: "AddInMem 0 5 (demo_map True {} Map.empty Map.empty) = demo_map True {} demo_key demo_hnd"
    by (simp add: AddInMem_def demo_map_def)
  have "wire_step ?s (?s\<lparr>ws_map := demo_map True {} demo_key demo_hnd, ws_chans := {}\<rparr>)"
    using add_wire [OF _ _ new, of 5] by (simp add: addm sys_init_def)
  from reach_step [OF one this] show ?thesis by (simp add: sys_init_def)
qed

lemma demo_down:
  "wire_reach \<lparr>ws_map = demo_map False {0} demo_key demo_hnd, ws_chans = {}, ws_stopping = Map.empty\<rparr>"
proof -
  have "WireDownByUID ''/ns/a'' 7 (demo_map True {} demo_key demo_hnd) =
     (None, demo_map False {0} demo_key demo_hnd)"
    by (simp add: WireDownByUID_def stop_wire_def close_if_ready_def mark_down_def upd_wire_def
        close_chan_def demo_map_def)
  from reach_step [OF demo_add wire_down [where s = "\<lparr>ws_map = demo_map True {} demo_key demo_hnd,
      ws_chans = {}, ws_stopping = Map.empty\<rparr>" , simplified, OF this]]
  show ?thesis by simp
qed

theorem stop_channels_closed_once_witness:
  "\<not> panicked (demo_map False {0} demo_key demo_hnd) \<and>
   GetWire ''/ns/a'' 7 (demo_map False {0} demo_key demo_hnd) = Some 0"
  using stop_channels_closed_once [OF demo_down] by (simp add: GetWire_def demo_map_def)

text \<open>
  After any sequence of filings and deletions of allocated wires the map answers, for
  every pod namespace and link, the wire filed last under that key and not deleted since.
\<close>

theorem wire_map_last_effect:
  assumes "\<forall>c \<in> set cs. call_ok (allocated m) (allocated m) c"
  shows "GetWire ns uid (run_calls (\<lambda>a. AddInMem a h) AtomicDelete cs m) =
     last_effect (\<lambda>a. key_of (wire_at m a)) (\<lambda>a. key_of (wire_at m a)) cs (ns, uid) (GetWire ns uid m)"
  using wire_reg.get_run_calls [OF assms, of "(ns, uid)" h] by simp

theorem wire_map_last_effect_witness:
  "GetWire ''/ns/a'' 7 (run_calls (\<lambda>a. AddInMem a 9) AtomicDelete [Del 0, Put 0, Del 0]
     (demo_map True {} demo_key demo_hnd)) = None"
  using wire_map_last_effect [of "[Del 0, Put 0, Del 0]" "demo_map True {} demo_key demo_hnd" "''/ns/a''" 7 9]
  by (simp add: allocated_def wire_at_def demo_map_def)

end
