(* ===== verification/Frame_Decode.thy ===== *)
theory Frame_Decode
  imports Environment
begin

text \<open>
  \<open>daemon/grpcwire/wire-decode.go\<close>: the text that describes an unusually large frame in
  the log.  The receive thread of a wire runs it on what the pod sent, so a panic here
  stops the daemon.  A result \<open>Inl\<close> is a panic, \<open>None\<close> a recursion or loop that has
  not ended within the fuel.
\<close>

definition out_of_range :: goerr where "out_of_range = go_panic ''index out of range''"
definition bad_slice :: goerr where "bad_slice = go_panic ''slice bounds out of range''"

text \<open>\<open>b[i]\<close> and \<open>b[n:]\<close> of Go.\<close>

definition byte_at :: "8 word list \<Rightarrow> nat \<Rightarrow> (8 word) res" where
  "byte_at b i = (if i < length b then Inr (b ! i) else Inl out_of_range)"

definition slice_from :: "8 word list \<Rightarrow> nat \<Rightarrow> (8 word list) res" where
  "slice_from b n = (if n \<le> length b then Inr (drop n b) else Inl bad_slice)"

section \<open>One packet\<close>

definition port_text :: "string \<Rightarrow> 16 word option \<Rightarrow> string" where
  "port_text colon tcp =
     (case tcp of
        None \<Rightarrow> ''''
      | Some p \<Rightarrow> if p = 179 then '':BGP'' else colon @ ''[Port:'' @ dec (unat p) @ '']'')"

definition decodeIPv4Pkt :: "packet \<Rightarrow> nat \<times> string" where
  "decodeIPv4Pkt packet =
     (case pk_IPv4 packet of
        None \<Rightarrow> (0, '':IPv4'')
      | Some ip \<Rightarrow>
          (unat (ipl_Length ip), '':IPv4'' @ ''[s:'' @ ipl_Src ip @ '', d:'' @ ipl_Dst ip @ '']'' @
             (if ipl_Proto ip = 1 then '':ICMP''
              else if ipl_Proto ip = 6 then '':TCP'' @ port_text '':'' (pk_TCP packet)
              else '':IPv4 with protocol : '' @ dec (unat (ipl_Proto ip)))))"

definition decodeIPv6Pkt :: "packet \<Rightarrow> nat \<times> string" where
  "decodeIPv6Pkt packet =
     (case pk_IPv6 packet of
        None \<Rightarrow> (0, '':IPv6'')
      | Some ip \<Rightarrow>
          (unat (ipl_Length ip), '':IPv6'' @ ''[s:'' @ ipl_Src ip @ '', d:'' @ ipl_Dst ip @ '']'' @
             (if ipl_Proto ip = 58 then '':ICMPv6''
              else if ipl_Proto ip = 6 then '':TCP'' @ port_text '''' (pk_TCP packet)
              else '':IPv6 with protocol : '' @ dec (unat (ipl_Proto ip)))))"

text \<open>The LLC branch: only the known header looks at the payload.\<close>

definition decode_llc :: "packet \<Rightarrow> string res" where
  "decode_llc packet =
     (case pk_LLC packet of
        None \<Rightarrow> Inr ''''
      | Some llc \<Rightarrow>
          if llc_DSAP llc = 0xFE \<and> llc_SSAP llc = 0xFE \<and> llc_Control llc = 3
          then (case byte_at (llc_Payload llc) 0 of
                  Inl e \<Rightarrow> Inl e
                | Inr b \<Rightarrow> Inr (if b = 0x83 then '':LLC:ISIS'' else '':LLC''))
          else Inr '':LLC'')"

text \<open>The test for a LLC header behind a VLAN tag: \<open>&&\<close> reads the next byte only after a match.\<close>

definition starts_llc :: "8 word list \<Rightarrow> bool res" where
  "starts_llc b =
     (case byte_at b 0 of
        Inl e \<Rightarrow> Inl e
      | Inr x \<Rightarrow> if x \<noteq> 0xFE then Inr False else
          (case byte_at b 1 of
             Inl e \<Rightarrow> Inl e
           | Inr y \<Rightarrow> if y \<noteq> 0xFE then Inr False else
               (case byte_at b 2 of Inl e \<Rightarrow> Inl e | Inr z \<Rightarrow> Inr (z = 0x03))))"

definition behind_tag :: "(nat \<times> string) res option \<Rightarrow> (nat \<times> string) res option" where
  "behind_tag r = map_option (map_sum id (\<lambda>(n, acc). (n + 4, '':VLAN'' @ acc))) r"

fun DecodePkt :: "nat \<Rightarrow> pkt_lib \<Rightarrow> packet \<Rightarrow> layer_type \<Rightarrow> 16 word \<Rightarrow> (nat \<times> string) res option" where
  "DecodePkt 0 lib packet lt len = None"
| "DecodePkt (Suc fuel) lib packet lt len =
     (case lt of
        LayerIPv4 \<Rightarrow> Some (Inr (decodeIPv4Pkt packet))
      | LayerIPv6 \<Rightarrow> Some (Inr (decodeIPv6Pkt packet))
      | LayerLLC \<Rightarrow> Some (map_sum id (\<lambda>acc. (unat len, acc)) (decode_llc packet))
      | LayerARP \<Rightarrow> Some (Inr (28, '':ARP''))
      | LayerDot1Q \<Rightarrow>
          (case pk_Dot1Q packet of
             None \<Rightarrow> Some (Inr (0, '':VLAN:No VLAN Hdr''))
           | Some vlan \<Rightarrow>
               if dq_Next vlan = LayerZero
               then (case starts_llc (dq_Payload vlan) of
                       Inl e \<Rightarrow> Some (Inl e)
                     | Inr False \<Rightarrow> Some (Inr (0, '':VLAN''))
                     | Inr True \<Rightarrow>
                         behind_tag (DecodePkt fuel lib (NewPacket lib (dq_Payload vlan) LayerLLC) LayerLLC (dq_Type vlan)))
               else behind_tag (DecodePkt fuel lib (NewPacket lib (dq_Payload vlan) (dq_Next vlan)) (dq_Next vlan) 0))
      | _ \<Rightarrow> Some (Inr (0, '''')))"

section \<open>A frame of several packets\<close>

definition pkt_header :: "nat \<Rightarrow> string" where
  "pkt_header numPkts = ''Pkt no '' @ dec numPkts @ '': '' @ ''Ethernet''"

text \<open>
  The loop of \<open>DecodeFrame\<close>: \<open>totalDecodedLen\<close> counts from the start of the frame, and
  so does the slice that is taken of the rest.
\<close>

fun decode_loop :: "nat \<Rightarrow> pkt_lib \<Rightarrow> nat \<Rightarrow> nat \<Rightarrow> nat \<Rightarrow> string \<Rightarrow> 8 word list \<Rightarrow> (nat \<times> string) res option" where
  "decode_loop 0 lib totalLen numPkts totalDecodedLen acc frame = None"
| "decode_loop (Suc fuel) lib totalLen numPkts totalDecodedLen acc frame =
     (let packet = NewPacket lib frame LayerEthernet in
      case pk_Ethernet packet of
        None \<Rightarrow> Some (Inr (numPkts, acc))
      | Some (nextType, len) \<Rightarrow>
          (case DecodePkt (Suc (length frame)) lib packet nextType len of
             None \<Rightarrow> None
           | Some (Inl e) \<Rightarrow> Some (Inl e)
           | Some (Inr (decodedLen, typeStr)) \<Rightarrow>
               let acc1 = acc @ pkt_header numPkts @ typeStr;
                   total1 = totalDecodedLen + (14 + decodedLen)
               in if 14 \<le> int totalLen - int total1
                  then (case slice_from frame total1 of
                          Inl e \<Rightarrow> Some (Inl e)
                        | Inr rest \<Rightarrow>
                            decode_loop fuel lib totalLen (Suc numPkts) total1 (acc1 @ [CHR 0x0A] @ ''            '') rest)
                  else Some (Inr (numPkts, acc1))))"

definition DecodeFrame :: "pkt_lib \<Rightarrow> 8 word list \<Rightarrow> string res option" where
  "DecodeFrame lib frame =
     map_option (map_sum id (\<lambda>(numPkts, acc). if 1 < numPkts then ''Multi Pkts: '' @ acc else acc))
       (decode_loop (Suc (length frame)) lib (length frame) 1 0 '''' frame)"

section \<open>Properties\<close>

lemma DecodePkt_ends:
  assumes "packet_law lib"
  shows "length b < fuel \<Longrightarrow> DecodePkt fuel lib (NewPacket lib b l) lt len \<noteq> None"
proof (induction fuel arbitrary: b l lt len)
  case (Suc fuel)
  have rec: "DecodePkt fuel lib (NewPacket lib (dq_Payload v) l') lt' len' \<noteq> None"
    if "pk_Dot1Q (NewPacket lib b l) = Some v" for v l' lt' len'
  proof (rule Suc.IH)
    have "length (dq_Payload v) < length b" using assms that by (simp add: packet_law_def)
    then show "length (dq_Payload v) < fuel" using Suc.prems by simp
  qed
  then show ?case
    by (auto simp: behind_tag_def split: layer_type.splits option.splits sum.splits bool.splits)
qed simp

lemma decode_loop_ends:
  assumes "packet_law lib"
  shows "totalLen < fuel + totalDecodedLen \<Longrightarrow> 0 < fuel \<Longrightarrow> decode_loop fuel lib totalLen n totalDecodedLen acc frame \<noteq> None"
proof (induction fuel arbitrary: n totalDecodedLen acc frame)
  case (Suc fuel)
  have p: "DecodePkt (Suc (length frame)) lib (NewPacket lib frame LayerEthernet) lt len \<noteq> None" for lt len
    using DecodePkt_ends [OF assms] by blast
  show ?case
  proof (cases "pk_Ethernet (NewPacket lib frame LayerEthernet)")
    case (Some e)
    obtain nt len where e: "e = (nt, len)" by (cases e)
    obtain r where r: "DecodePkt (Suc (length frame)) lib (NewPacket lib frame LayerEthernet) nt len = Some r" using p by blast
    show ?thesis
    proof (cases r)
      case (Inr x)
      obtain dl ts where x: "x = (dl, ts)" by (cases x)
      let ?t = "totalDecodedLen + (14 + dl)"
      have "decode_loop fuel lib totalLen (Suc n) ?t acc' rest \<noteq> None" if "14 \<le> int totalLen - int ?t" for acc' rest
        by (rule Suc.IH) (use that Suc.prems in simp_all)
      then show ?thesis using Some e r Inr x
        by (simp add: Let_def slice_from_def del: DecodePkt.simps split: sum.split)
    next
      case (Inl x)
      then show ?thesis using Some e r by (simp del: DecodePkt.simps)
    qed
  next
    case None
    then show ?thesis by simp
  qed
qed simp

text \<open>
  Decoding a frame always comes to an end: with what gopacket documents of VLAN tags,
  one more recursion than the frame has bytes and one more round are enough.
\<close>

theorem decode_frame_ends:
  assumes "packet_law lib"
  shows "DecodeFrame lib frame \<noteq> None"
  using decode_loop_ends [OF assms, of "length frame" "Suc (length frame)" 0] by (simp add: DecodeFrame_def)


text \<open>
  A layer the decoder does not know; gopacket gives the zero layer for an unknown Ethernet
  type.
\<close>

definition unknown_layer :: "layer_type \<Rightarrow> bool" where
  "unknown_layer lt \<longleftrightarrow> lt \<notin> {LayerIPv4, LayerIPv6, LayerLLC, LayerARP, LayerDot1Q}"

lemma DecodePkt_unknown: "unknown_layer lt \<Longrightarrow> DecodePkt (Suc fuel) lib packet lt len = Some (Inr (0, ''''))"
  by (cases lt) (simp_all add: unknown_layer_def)

text \<open>
  A frame of which no header names a layer the decoder knows: every round counts the 14
  bytes of one header.  Round \<open>j\<close> starts after \<open>7 j (j - 1)\<close> bytes have been cut off.
\<close>

definition all_unknown :: "pkt_lib \<Rightarrow> 8 word list \<Rightarrow> bool" where
  "all_unknown lib frame \<longleftrightarrow>
     (\<forall>n. n + 14 \<le> length frame \<longrightarrow>
        (\<exists>lt k. pk_Ethernet (NewPacket lib (drop n frame) LayerEthernet) = Some (lt, k) \<and> unknown_layer lt))"

lemma unknown_round:
  assumes "all_unknown lib frame" "n + 14 \<le> length frame"
  shows "\<exists>acc'. decode_loop (Suc fuel) lib totalLen num cnt acc (drop n frame) =
    (if 14 \<le> int totalLen - int (cnt + 14)
     then if n + (cnt + 14) \<le> length frame
          then decode_loop fuel lib totalLen (Suc num) (cnt + 14) acc' (drop (n + (cnt + 14)) frame)
          else Some (Inl bad_slice)
     else Some (Inr (num, acc')))"
proof -
  obtain lt k where "pk_Ethernet (NewPacket lib (drop n frame) LayerEthernet) = Some (lt, k)" and u: "unknown_layer lt"
    using assms by (auto simp: all_unknown_def)
  moreover note DecodePkt_unknown [OF u]
  moreover have "drop (cnt + 14) (drop n frame) = drop (n + (cnt + 14)) frame" by (simp add: add.commute)
  ultimately show ?thesis using assms(2)
    by (cases "14 \<le> int totalLen - int (cnt + 14)"; cases "n + (cnt + 14) \<le> length frame")
      (auto simp: Let_def slice_from_def simp del: DecodePkt.simps)
qed

lemma rounds_fit: "3 \<le> k \<Longrightarrow> 7 * k * (k - 1) + 14 \<le> l \<Longrightarrow> 14 * (k - 1) + 28 \<le> (l :: nat)"
proof -
  assume k: "3 \<le> k" and l: "7 * k * (k - 1) + 14 \<le> l"
  obtain i where i: "k = i + 3" using k by (metis add.commute le_Suc_ex)
  show ?thesis using l unfolding i by (simp add: algebra_simps)
qed

lemma unknown_rounds:
  assumes "all_unknown lib frame" "3 \<le> k" "7 * k * (k - 1) + 14 \<le> length frame" "length frame < 7 * k * (k + 1)"
  shows "d + j = k \<Longrightarrow> 1 \<le> j \<Longrightarrow> d < fuel \<Longrightarrow>
    decode_loop fuel lib (length frame) num (14 * (j - 1)) acc (drop (7 * j * (j - 1)) frame) = Some (Inl bad_slice)"
proof (induction d arbitrary: j fuel num acc)
  case 0
  then obtain f where f: "fuel = Suc f" by (cases fuel) auto
  have jk: "j = k" using 0 by simp
  have n: "7 * k * (k - 1) + 14 \<le> length frame" using assms(3) .
  have len: "14 * (k - 1) + 28 \<le> length frame" by (rule rounds_fit [OF assms(2,3)])
  obtain i where i: "k = i + 3" using assms(2) by (metis add.commute le_Suc_ex)
  have short: "length frame < 7 * k * (k - 1) + (14 * (k - 1) + 14)" using assms(4) unfolding i by (simp add: algebra_simps)
  then show ?case using unknown_round [OF assms(1) n, of f "length frame" num "14 * (k - 1)" acc] jk f len short by auto
next
  case (Suc d)
  then obtain f where f: "fuel = Suc f" by (cases fuel) auto
  obtain i where i: "j = Suc i" using Suc.prems(2) by (cases j) auto
  have lt: "Suc i < k" using Suc.prems(1) i by simp
  have "(Suc i + 1) * Suc i \<le> k * (k - 1)" using lt by (intro mult_le_mono) auto
  then have "7 * ((Suc i + 1) * Suc i) \<le> 7 * (k * (k - 1))" by (rule mult_le_mono2)
  then have le: "7 * (Suc i + 1) * Suc i + 14 \<le> length frame" using assms(3) unfolding mult.assoc by linarith
  have big: "14 * (k - 1) + 28 \<le> length frame" by (rule rounds_fit [OF assms(2,3)])
  have n: "7 * j * (j - 1) + 14 \<le> length frame" using le i by (simp add: algebra_simps)
  have fits: "14 \<le> int (length frame) - int (14 * (j - 1) + 14)"
    using big lt i by simp
  have fits2: "7 * j * (j - 1) + (14 * (j - 1) + 14) \<le> length frame"
    using le i by (simp add: algebra_simps)
  have nx: "7 * j * (j - 1) + (14 * (j - 1) + 14) = 7 * Suc j * (Suc j - 1)" "14 * (j - 1) + 14 = 14 * (Suc j - 1)"
    using i by (simp_all add: algebra_simps)
  have "decode_loop f lib (length frame) (Suc num) (14 * (Suc j - 1)) acc' (drop (7 * Suc j * (Suc j - 1)) frame) = Some (Inl bad_slice)" for acc'
    by (rule Suc.IH) (use Suc.prems f in simp_all)
  then show ?case using unknown_round [OF assms(1) n, of f "length frame" num "14 * (j - 1)" acc] fits fits2 f nx by auto
qed


text \<open>
  A frame in which the decoder recognises nothing behind any header it tries panics,
  unless its length falls into the few values where the last piece left is too short for
  another header: each round cuts off as many bytes as all rounds so far have counted.
\<close>

theorem unrecognised_frame_panics:
  assumes "all_unknown lib frame" "3 \<le> k" "7 * k * (k - 1) + 14 \<le> length frame" "length frame < 7 * k * (k + 1)"
  shows "DecodeFrame lib frame = Some (Inl bad_slice)"
proof -
  have "14 * (k - 1) + 28 \<le> length frame" by (rule rounds_fit [OF assms(2,3)])
  then have "k - 1 < Suc (length frame)" by simp
  from unknown_rounds [OF assms, of "k - 1" 1 "Suc (length frame)" 1 "''''"] this assms(2)
  show ?thesis by (simp add: DecodeFrame_def del: decode_loop.simps)
qed

text \<open>
  A frame that is one IPv4 packet, whose total length covers what the frame holds
  after its header, is decoded in one round and never panics, whatever the packet carries.
\<close>

theorem whole_ipv4_packet_decoded:
  assumes "pk_Ethernet (NewPacket lib frame LayerEthernet) = Some (LayerIPv4, len)"
    and "pk_IPv4 (NewPacket lib frame LayerEthernet) = Some ip" "length frame < 28 + unat (ipl_Length ip)"
  shows "DecodeFrame lib frame =
    Some (Inr (pkt_header 1 @ snd (decodeIPv4Pkt (NewPacket lib frame LayerEthernet))))"
proof -
  obtain n acc where d: "decodeIPv4Pkt (NewPacket lib frame LayerEthernet) = (n, acc)" by fastforce
  have "n = unat (ipl_Length ip)" using d assms(2) by (auto simp: decodeIPv4Pkt_def)
  then have "length frame < 28 + n" using assms(3) by simp
  then show ?thesis using assms(1) d by (simp add: DecodeFrame_def Let_def)
qed

text \<open>
  The length field of IPv6 does not count the header of 40 bytes: the last 40 bytes of a
  whole packet are taken for another frame, and the next slice is out of range.
\<close>

lemma whole_ipv6_panics:
  assumes "pk_Ethernet (NewPacket lib frame LayerEthernet) = Some (LayerIPv6, len)"
    and "pk_IPv6 (NewPacket lib frame LayerEthernet) = Some ip" "length frame = 54 + unat (ipl_Length ip)"
    and "pk_Ethernet (NewPacket lib (drop (14 + unat (ipl_Length ip)) frame) LayerEthernet) = Some (lt, k)"
    and "unknown_layer lt" "12 < unat (ipl_Length ip)"
  shows "DecodeFrame lib frame = Some (Inl bad_slice)"
proof -
  obtain n acc where d: "decodeIPv6Pkt (NewPacket lib frame LayerEthernet) = (n, acc)" by fastforce
  have n: "n = unat (ipl_Length ip)" using d assms(2) by (auto simp: decodeIPv6Pkt_def)
  have l: "length frame = n + 54" "12 < n" using assms(3,6) n by simp_all
  have e: "pk_Ethernet (NewPacket lib (drop (14 + n) frame) LayerEthernet) = Some (lt, k)"
    using assms(4) n by simp
  have v: "DecodePkt (Suc f) lib packet LayerIPv6 k' = Some (Inr (decodeIPv6Pkt packet))" for f packet k' by simp
  note u = DecodePkt_unknown [OF assms(5)] v
  obtain g where g: "length frame = Suc g" using l by (cases "length frame") simp_all
  have s: "slice_from frame (14 + n) = Inr (drop (14 + n) frame)" "slice_from (drop (14 + n) frame) (28 + n) = Inl bad_slice"
    using l by (simp_all add: slice_from_def)
  have i: "14 \<le> int (length frame) - (14 + int n)" "14 \<le> int (length frame) - (28 + int n)" using l by simp_all
  have "decode_loop (Suc (Suc g)) lib (length frame) 1 0 '''' frame = Some (Inl bad_slice)"
    using assms(1) d e s i by (simp add: Let_def u del: DecodePkt.simps)
  then show ?thesis using g by (simp add: DecodeFrame_def)
qed

section \<open>Decoders for the witnesses\<close>

definition only :: "(layer_type \<times> 16 word) option \<Rightarrow> packet" where
  "only e = \<lparr>pk_Ethernet = e, pk_IPv4 = None, pk_IPv6 = None, pk_LLC = None, pk_Dot1Q = None, pk_TCP = None\<rparr>"

definition blind_pkt :: pkt_lib where
  "blind_pkt = \<lparr>NewPacket = (\<lambda>b l. only (if 14 \<le> length b then Some (LayerUnknown 0, 0) else None))\<rparr>"

text \<open>More than 40 bytes are one whole IP packet; less are not recognised.\<close>

definition demo_ip :: "nat \<Rightarrow> ip_layer" where
  "demo_ip n = \<lparr>ipl_Length = of_nat n, ipl_Src = ''s'', ipl_Dst = ''d'', ipl_Proto = 17\<rparr>"

definition ip_pkt :: "layer_type \<Rightarrow> nat \<Rightarrow> pkt_lib" where
  "ip_pkt lt hdr = \<lparr>NewPacket = (\<lambda>b l.
     if 40 < length b
     then (only (Some (lt, 0)))\<lparr>pk_IPv4 := Some (demo_ip (length b - hdr)), pk_IPv6 := Some (demo_ip (length b - hdr))\<rparr>
     else only (if 14 \<le> length b then Some (LayerUnknown 0, 0) else None))\<rparr>"

theorem decode_frame_ends_witness: "DecodeFrame blind_pkt [1, 2, 3] \<noteq> None"
  by (rule decode_frame_ends) (simp add: packet_law_def blind_pkt_def only_def)

theorem unrecognised_frame_panics_witness:
  "DecodeFrame blind_pkt (replicate 1519 0xFF) = Some (Inl bad_slice)"
  by (rule unrecognised_frame_panics [where k = 15]) (auto simp: all_unknown_def unknown_layer_def blind_pkt_def only_def)

theorem whole_ipv4_packet_decoded_witness:
  "DecodeFrame (ip_pkt LayerIPv4 14) (replicate 9014 0) =
     Some (Inr (pkt_header 1 @ snd (decodeIPv4Pkt (NewPacket (ip_pkt LayerIPv4 14) (replicate 9014 0) LayerEthernet))))"
  by (rule whole_ipv4_packet_decoded [where ip = "demo_ip 9000"]) (simp_all add: ip_pkt_def only_def demo_ip_def)

end
