(* ===== verification/Wire_Ops.thy ===== *)
theory Wire_Ops
  imports Peer_IP Wire_Store Koko Wire_Steps Frame_Decode
begin

text \<open>
  The grpc-wire operations of the daemon that combine the wire map, the Kubernetes record,
  the kernel and the peer: \<open>daemon/grpcwire/gwire_rpc_handlers.go\<close>, the removal and
  receive-thread code of \<open>grpcwire.go\<close>, \<open>ReconGWires\<close> of \<open>gwire_recon.go\<close>, and
  the carrier mirroring of \<open>carrier.go\<close>.
\<close>

section \<open>Adding a wire\<close>

definition wire_of :: "nat \<Rightarrow> ('w, GRPCWire) dio" where
  "wire_of a = reads (\<lambda>d. wire_at (dm_wires d) a)"

definition AddInMemNDataStore :: "'w sys \<Rightarrow> nat \<Rightarrow> nat \<Rightarrow> ('w, unit) dio" where
  "AddInMemNDataStore sy a handle = do {
     w \<leftarrow> wire_of a;
     on_wires (\<lambda>m. ((), m\<lparr>wires := (wires m)(key_of w \<mapsto> a)\<rparr>));
     err \<leftarrow> lift (K8sStoreGWire (sy_lib sy) (sy_os sy) (sy_kube sy) w);
     on_wires (\<lambda>m. ((), m\<lparr>handles := (handles m)(gw_LocalNodeIfaceID w \<mapsto> handle)\<rparr>))
   }"

definition AddWireInMemNDataStore :: "'w sys \<Rightarrow> nat \<Rightarrow> nat \<Rightarrow> ('w, unit) dio" where
  "AddWireInMemNDataStore sy a handle = do {
     on_wires (\<lambda>m. ((), upd_wire a (\<lambda>w. w\<lparr>gw_IsReady := True\<rparr>) m));
     AddInMemNDataStore sy a handle
   }"

definition alloc_wire :: "int64 \<Rightarrow> string \<Rightarrow> nat \<Rightarrow> WireDef \<Rightarrow> (GRPCWire \<Rightarrow> GRPCWire) \<Rightarrow> ('w, nat) dio" where
  "alloc_wire ifIndex ifNm stopC wd f = on_wires (new_wire (f (CreateGWire ifIndex ifNm stopC wd)))"

definition CreateGRPCWireLocal :: "'w sys \<Rightarrow> WireDef \<Rightarrow> ('w, BoolResponse \<times> goerr option) dio" where
  "CreateGRPCWireLocal sy wd = do {
     rl \<leftarrow> lift (LinkByName (sy_net sy) CurrentNs (wd_WireIfNameOnLocalNode wd));
     (case rl of
        Inl e \<Rightarrow> return (no_response, Some e)
      | Inr locInf \<Rightarrow> do {
          et \<leftarrow> lift (SetTxChecksumOff (sy_net sy) (wd_IntfNameInPod wd) (wd_LocalPodNetNs wd));
          rh \<leftarrow> lift (PcapOpenLive (sy_net sy) (wd_WireIfNameOnLocalNode wd));
          (case rh of
             Inl e \<Rightarrow> return (no_response, Some e)
           | Inr wrHandle \<Rightarrow> do {
               stopC \<leftarrow> on_wires make_chan;
               a \<leftarrow> alloc_wire (word_of_int (nl_Index locInf)) (wd_WireIfNameOnLocalNode wd) stopC wd
                      (\<lambda>w. w\<lparr>gw_IsReady := False, gw_Originator := HOST_CREATED_WIRE, gw_OriginatorIP := ''unknown''\<rparr>);
               AddWireInMemNDataStore sy a wrHandle;
               w \<leftarrow> wire_of a;
               start_thread a (gw_LocalNodeIfaceName w);
               return (ok_response, None)
             })
        })
   }"

section \<open>The remote end\<close>

definition inPodLinkInfo :: "'w net_env \<Rightarrow> string \<Rightarrow> string \<Rightarrow> ('w, (bool \<times> bool) res) io" where
  "inPodLinkInfo nt nsName linkName = do {
     rn \<leftarrow> open_ns nt nsName;
     (case rn of
        Inl e \<Rightarrow> return (Inl e)
      | Inr netNs \<Rightarrow> ns_Do nt netNs (\<lambda>c. do {
          rl \<leftarrow> LinkByName nt c linkName;
          return (Inr (case rl of
              Inl e \<Rightarrow> (False, False)
            | Inr l \<Rightarrow> (True, case nl_Kind l of KindVeth p \<Rightarrow> True | _ \<Rightarrow> False)))
        }))
   }"

text \<open>The three refusals and the removal of \<open>ensureNoStaleRemoteEnd\<close>.\<close>

definition refuse :: "VEth \<Rightarrow> WireDef \<Rightarrow> string \<Rightarrow> goerr" where
  "refuse inPod wd why = Err (''in-pod iface '' @ ve_LinkName inPod @ '' for link '' @
     fmt_d (sint (wd_LinkUid wd)) @ '' already exists '' @ why)"

definition ensureNoStaleRemoteEnd :: "'w sys \<Rightarrow> VEth \<Rightarrow> WireDef \<Rightarrow> ('w, goerr option) dio" where
  "ensureNoStaleRemoteEnd sy inPod wd = do {
     ri \<leftarrow> lift (inPodLinkInfo (sy_net sy) (ve_NsName inPod) (ve_LinkName inPod));
     (case ri of
        Inl e \<Rightarrow> return None
      | Inr (exists, isVeth) \<Rightarrow>
          if \<not> exists then return None
          else do {
            known \<leftarrow> reads (\<lambda>d. GetWire (wd_LocalPodNetNs wd) (wd_LinkUid wd) (dm_wires d));
            if known \<noteq> None
            then return (Some (refuse inPod wd ''and is a live tracked wire; not recreating (fail-safe)''))
            else do {
              rr \<leftarrow> lift (IsWireRecordedInDataStore (sy_lib sy) (sy_os sy) (sy_kube sy) True
                      (wd_LocalPodNetNs wd) (wd_LinkUid wd));
              (case rr of
                 Inl e \<Rightarrow> return (Some (refuse inPod wd
                   (''and stale-vs-live could not be determined ('' @ err_text e @ ''); not deleting (fail-safe)'')))
               | Inr recorded \<Rightarrow>
                   if recorded
                   then return (Some (refuse inPod wd ''and is recorded as an established wire; not recreating (fail-safe)''))
                   else if \<not> isVeth
                   then return (Some (refuse inPod wd ''but is not a veth; not deleting (fail-safe)''))
                   else do {
                     er \<leftarrow> lift (RemoveVethLink (sy_net sy)
                             \<lparr>ve_NsName = ve_NsName inPod, ve_LinkName = ve_LinkName inPod, ve_IPAddr = [], ve_MTU = 0\<rparr>);
                     return (case er of
                         None \<Rightarrow> None
                       | Some e \<Rightarrow> Some (Wrap (''failed to remove stale remnant veth '' @ ve_LinkName inPod @
                           '' in pod netns '' @ wd_LocalPodNetNs wd @ '' for link '' @
                           fmt_d (sint (wd_LinkUid wd)) @ '': '') e))
                   })
            }
          })
   }"

definition remote_veth :: "'w net_env \<Rightarrow> WireDef \<Rightarrow> VEth res" where
  "remote_veth nt wd =
     (if wd_LocalPodIp wd = ''''
      then Inr \<lparr>ve_NsName = wd_LocalPodNetNs wd, ve_LinkName = wd_IntfNameInPod wd, ve_IPAddr = [],
                ve_MTU = sint (wd_Mtu wd)\<rparr>
      else (case ParseCIDR nt (wd_LocalPodIp wd) of
              Inl e \<Rightarrow> Inl (Wrap (''failed to create remote end of GRPC wire('' @ wd_IntfNameInPod wd @ ''@'' @
                 wd_LocalPodName wd @ ''), failed to parse CIDR '' @ wd_LocalPodIp wd @ '': '') e)
            | Inr (a, n) \<Rightarrow> Inr \<lparr>ve_NsName = wd_LocalPodNetNs wd, ve_LinkName = wd_IntfNameInPod wd,
                 ve_IPAddr = [\<lparr>ipn_IP = a, ipn_Mask = ipn_Mask n\<rparr>], ve_MTU = sint (wd_Mtu wd)\<rparr>))"

text \<open>After the veth pair exists: find its index, open it, file the wire.\<close>

definition file_remote_wire :: "'w sys \<Rightarrow> WireDef \<Rightarrow> nat \<Rightarrow> string \<Rightarrow> ('w, nat res) dio" where
  "file_remote_wire sy wd stopC outIfNm = do {
     rl \<leftarrow> lift (LinkByName (sy_net sy) CurrentNs outIfNm);
     (case rl of
        Inl e \<Rightarrow> return (Inl e)
      | Inr locIface \<Rightarrow> do {
          a \<leftarrow> alloc_wire (word_of_int (nl_Index locIface)) outIfNm stopC wd (\<lambda>w. w);
          rh \<leftarrow> lift (PcapOpenLive (sy_net sy) outIfNm);
          (case rh of
             Inl e \<Rightarrow> return (Inl e)
           | Inr wrHandle \<Rightarrow> do { AddWireInMemNDataStore sy a wrHandle; return (Inr a) })
        })
   }"

definition CreateUpdateGRPCWireRemoteTriggered :: "'w sys \<Rightarrow> WireDef \<Rightarrow> nat \<Rightarrow> ('w, nat res) dio" where
  "CreateUpdateGRPCWireRemoteTriggered sy wd stopC = do {
     known \<leftarrow> on_wires (UpdateWireByUID (wd_LocalPodNetNs wd) (wd_LinkUid wd) (wd_WireIfIdOnPeerNode wd) stopC);
     (case known of
        Some a \<Rightarrow> do {
          w \<leftarrow> wire_of a;
          err \<leftarrow> lift (K8sStoreGWire (sy_lib sy) (sy_os sy) (sy_kube sy) w);
          return (Inr a)
        }
      | None \<Rightarrow> do {
          g \<leftarrow> reads dm_index;
          (case GenNodeIfaceName (wd_LocalPodName wd) (wd_IntfNameInPod wd) g of
             (Inl e, g') \<Rightarrow> return (Inl (errorf_v ''[ADD-WIRE:REMOTE-END] could not get current network namespace: '' e))
           | (Inr outIfNm, g') \<Rightarrow> do {
               modifies (\<lambda>d. d\<lparr>dm_index := g'\<rparr>);
               rc \<leftarrow> lift (GetCurrentNS (sy_net sy));
               (case rc of
                  Inl e \<Rightarrow> return (Inl (errorf_v ''[ADD-WIRE:REMOTE-END] could not get current network namespace: '' e))
                | Inr currNs \<Rightarrow>
                    (case remote_veth (sy_net sy) wd of
                       Inl e \<Rightarrow> return (Inl e)
                     | Inr inContainerVeth \<Rightarrow> do {
                         es \<leftarrow> ensureNoStaleRemoteEnd sy inContainerVeth wd;
                         (case es of
                            Some e \<Rightarrow> return (Inl e)
                          | None \<Rightarrow> do {
                              em \<leftarrow> lift (MakeVeth (sy_net sy) (sy_os sy) inContainerVeth
                                      \<lparr>ve_NsName = ns_Path currNs, ve_LinkName = outIfNm, ve_IPAddr = [], ve_MTU = 0\<rparr>);
                              (case em of
                                 Some e \<Rightarrow> return (Inl e)
                               | None \<Rightarrow> do {
                                   et \<leftarrow> lift (SetTxChecksumOff (sy_net sy) (ve_LinkName inContainerVeth)
                                           (ve_NsName inContainerVeth));
                                   file_remote_wire sy wd stopC outIfNm
                                 })
                            })
                       }))
             })
        })
   }"

definition GRPCWireDownRemoteTriggered :: "WireDef \<Rightarrow> ('w, goerr option) dio" where
  "GRPCWireDownRemoteTriggered wd = do {
     err \<leftarrow> on_wires (WireDownByUID (wd_LocalPodNetNs wd) (wd_LinkUid wd));
     return None
   }"

section \<open>Removing wires\<close>

definition host_veth :: "string \<Rightarrow> VEth" where
  "host_veth nm = \<lparr>ve_NsName = '''', ve_LinkName = nm, ve_IPAddr = [], ve_MTU = 0\<rparr>"

definition RemoveWireAcrosAll :: "'w sys \<Rightarrow> nat option \<Rightarrow> bool \<Rightarrow> ('w, goerr option) dio" where
  "RemoveWireAcrosAll sy wire inMem =
     (case wire of
        None \<Rightarrow> return None
      | Some a \<Rightarrow> do {
          on_wires (\<lambda>m. ((), stop_wire a m));
          w \<leftarrow> wire_of a;
          ri \<leftarrow> lift (LinkByIndex (sy_net sy) CurrentNs (sint (gw_LocalNodeIfaceID w)));
          ev \<leftarrow> (case ri of
                  Inl e \<Rightarrow> return None
                | Inr intf \<Rightarrow> lift (RemoveVethLink (sy_net sy) (host_veth (nl_Name intf))));
          (case ev of
             Some e \<Rightarrow> return (Some (Wrap ''[WIRE-DELETE]:failed to remove veth link: '' e))
           | None \<Rightarrow> do {
               (if inMem then on_wires (\<lambda>m. ((), AtomicDelete a m)) else return ());
               ek \<leftarrow> lift (K8sDelGWire (sy_lib sy) (sy_os sy) (sy_kube sy) w);
               return None
             })
        })"

text \<open>
  The loop of \<open>DeletePodWires\<close> ends because every round takes a wire out of the map:
  \<open>fuel\<close> bounds the rounds, \<open>None\<close> is running out of it.  The map is visited in the
  order \<open>ks\<close>.
\<close>

fun drain_pod :: "nat \<Rightarrow> 'w sys \<Rightarrow> linkKey list \<Rightarrow> string \<Rightarrow> string \<Rightarrow> goerr list \<Rightarrow> ('w, goerr list option) dio" where
  "drain_pod 0 sy ks ns pod errs = return None"
| "drain_pod (Suc fuel) sy ks ns pod errs = do {
     x \<leftarrow> on_wires (ExtractOneWireByPod ks ns pod);
     (case fst x of
        None \<Rightarrow> return (Some errs)
      | Some a \<Rightarrow> do {
          e \<leftarrow> RemoveWireAcrosAll sy (Some a) False;
          drain_pod fuel sy ks ns pod (case e of None \<Rightarrow> errs | Some e \<Rightarrow> errs @ [e])
        })
   }"

definition DeletePodWires :: "nat \<Rightarrow> 'w sys \<Rightarrow> linkKey list \<Rightarrow> string \<Rightarrow> string \<Rightarrow> ('w, goerr option option) dio" where
  "DeletePodWires fuel sy ks ns pod = do {
     r \<leftarrow> drain_pod fuel sy ks ns pod [];
     (case r of
        None \<Rightarrow> return None
      | Some errs \<Rightarrow>
          if errs \<noteq> []
          then return (Some (Some (Wrap (''[WIRE-DELETE]:failed to remove all grpc-wires for pod '' @ pod @ ''@'' @ ns @ '': '')
                 (sy_errs sy errs))))
          else do {
            e \<leftarrow> lift (deleteGRPCWireStatusByPod (sy_lib sy) (sy_os sy) (sy_kube sy) ns pod);
            return (Some (case e of
                None \<Rightarrow> None
              | Some e \<Rightarrow> Some (Wrap (''[WIRE-DELETE]:failed to remove orphaned grpc-wire status for pod '' @ pod @
                  ''@'' @ ns @ '': '') e)))
          })
   }"

section \<open>Reconciliation after a restart\<close>

definition reconLocalGRPCWire :: "'w sys \<Rightarrow> WireDef \<Rightarrow> ('w, goerr option) dio" where
  "reconLocalGRPCWire sy wd = do {
     rl \<leftarrow> lift (LinkByName (sy_net sy) CurrentNs (wd_WireIfNameOnLocalNode wd));
     (case rl of
        Inl e \<Rightarrow> return (Some e)
      | Inr locInf \<Rightarrow> do {
          rh \<leftarrow> lift (PcapOpenLive (sy_net sy) (wd_WireIfNameOnLocalNode wd));
          (case rh of
             Inl e \<Rightarrow> return (Some e)
           | Inr wrHandle \<Rightarrow> do {
               stopC \<leftarrow> on_wires make_chan;
               a \<leftarrow> alloc_wire (word_of_int (nl_Index locInf)) (wd_WireIfNameOnLocalNode wd) stopC wd
                      (\<lambda>w. w\<lparr>gw_IsReady := True\<rparr>);
               on_wires (\<lambda>m. ((), AddInMem a wrHandle m));
               w \<leftarrow> wire_of a;
               start_thread a (gw_LocalNodeIfaceName w);
               return None
             })
        })
   }"

definition wiredef_of :: "GWireStatus \<Rightarrow> WireDef" where
  "wiredef_of ws = zero_WireDef
     \<lparr>wd_LinkUid := gs_LinkId ws,
      wd_WireIfNameOnLocalNode := gs_WireIfaceNameOnLocalNode ws,
      wd_LocalPodIp := gs_LocalPodIp ws,
      wd_IntfNameInPod := gs_LocalPodIfaceName ws,
      wd_LocalPodName := gs_LocalPodName ws,
      wd_LocalPodNetNs := gs_LocalPodNetNs ws,
      wd_WireIfIdOnPeerNode := gs_WireIfaceIdOnPeerNode ws,
      wd_PeerNodeIp := gs_GWirePeerNodeIp ws,
      wd_TopoNs := gs_TopoNamespace ws\<rparr>"

definition reCreateGWire :: "'w sys \<Rightarrow> GWireStatus \<Rightarrow> ('w, goerr option) dio" where
  "reCreateGWire sy ws = do {
     present \<leftarrow> reads (\<lambda>d. case GetWire (gs_LocalPodNetNs ws) (gs_LinkId ws) (dm_wires d) of
                  None \<Rightarrow> False | Some a \<Rightarrow> gw_IsReady (wire_at (dm_wires d) a));
     if present then return None
     else do {
       err \<leftarrow> reconLocalGRPCWire sy (wiredef_of ws);
       (case err of
          Some e \<Rightarrow> do {
            ed \<leftarrow> lift (deleteGRPCWireStatus (sy_lib sy) (sy_kube sy) ws);
            return (Some (errorf_v ''reCreateGWire: Failed to reconciliate local end of the GRPC channel: '' e))
          }
        | None \<Rightarrow> return None)
     }
   }"

fun recreate_all :: "'w sys \<Rightarrow> GWireStatus list \<Rightarrow> ('w, unit) dio" where
  "recreate_all sy [] = return ()"
| "recreate_all sy (ws # wss) = do { e \<leftarrow> reCreateGWire sy ws; recreate_all sy wss }"

text \<open>
  \<open>ReconGWires\<close> retries a body that works on the daemon's state, so it takes client-go's
  \<open>retry.RetryOnConflict\<close> at that type as an argument.
\<close>

definition recon_attempt :: "'w sys \<Rightarrow> string \<Rightarrow> ('w, goerr option) dio" where
  "recon_attempt sy nodeName = do {
     rl \<leftarrow> lift (GwList (sy_kube sy) nodeName);
     (case rl of
        Inl e \<Rightarrow> return (Some e)
      | Inr nodes \<Rightarrow> do {
          recreate_all sy (concat (map (\<lambda>n. decoded (sy_lib sy) (node_items (sy_lib sy) n)) nodes));
          return None
        })
   }"

definition ReconGWires :: "(('w, goerr option) dio \<Rightarrow> ('w, goerr option) dio) \<Rightarrow> 'w sys \<Rightarrow> ('w, goerr option) dio" where
  "ReconGWires retry sy = do {
     rn \<leftarrow> lift (findNodeName (sy_os sy));
     (case rn of
        Inl e \<Rightarrow> return (Some e)
      | Inr nodeName \<Rightarrow> retry (recon_attempt sy nodeName))
   }"

section \<open>The receive thread\<close>

text \<open>
  A frame of more than 1518 bytes is decoded for the log; a panic of the decoder ends the
  thread, and with it the daemon.  \<open>CaptureEnded\<close>: the packet source has closed its
  channel; what is received from it is a nil packet, whose \<open>Data\<close> panics.
\<close>

datatype recv_event = StopClosed | Received "8 word list" | CaptureEnded

definition nil_packet :: goerr where
  "nil_packet = go_panic ''invalid memory address or nil pointer dereference''"

definition recv_prepare ::
    "'w sys \<Rightarrow> nat \<Rightarrow> string \<Rightarrow> wait_event list \<Rightarrow> ('w, string res option) dio" where
  "recv_prepare sy a locIfNm waits = do {
     w \<leftarrow> wire_of a;
     rw \<leftarrow> waitForValidPeerNodeIP (sy_os sy) (sy_kube sy) (gw_PeerNodeIP w) waits;
     (case rw of
        None \<Rightarrow> return None
      | Some (Some e) \<Rightarrow> return (Some (Inl e))
      | Some None \<Rightarrow> do {
          w1 \<leftarrow> wire_of a;
          rl \<leftarrow> lift (LinkByName (sy_net sy) CurrentNs locIfNm);
          (case rl of
             Inl e \<Rightarrow> return (Some (Inl e))
           | Inr l \<Rightarrow> do {
               rh \<leftarrow> lift (PcapOpenLive (sy_net sy) (gw_LocalNodeIfaceName w1));
               (case rh of
                  Inl e \<Rightarrow> return (Some (Inl e))
                | Inr h \<Rightarrow> do {
                    ed \<leftarrow> lift (PcapSetDirectionIn (sy_net sy) h);
                    (case ed of
                       Some e \<Rightarrow> return (Some (Inl e))
                     | None \<Rightarrow> do {
                         ec \<leftarrow> lift (Dial (sy_rpc sy) (peer_url (gw_PeerNodeIP w1)));
                         return (Some (case ec of Some e \<Rightarrow> Inl e | None \<Rightarrow> Inr (peer_url (gw_PeerNodeIP w1))))
                       })
                  })
             })
        })
   }"

definition io_EOF :: goerr where "io_EOF = Err ''EOF''"

fun recv_loop :: "'w sys \<Rightarrow> nat \<Rightarrow> string \<Rightarrow> recv_event list \<Rightarrow> ('w, goerr option) dio" where
  "recv_loop sy a url [] = return None"
| "recv_loop sy a url (StopClosed # evs) = return (Some io_EOF)"
| "recv_loop sy a url (CaptureEnded # evs) = return (Some nil_packet)"
| "recv_loop sy a url (Received frame # evs) = do {
     w \<leftarrow> wire_of a;
     (case (if 1518 < length frame then DecodeFrame (sy_pkt sy) frame else Some (Inr '''')) of
        None \<Rightarrow> return None
      | Some (Inl e) \<Rightarrow> return (Some e)
      | Some (Inr txt) \<Rightarrow> do {
          ok \<leftarrow> lift (RemSendToOnce (sy_rpc sy) url
                  \<lparr>pkt_RemotIntfId = gw_WireIfaceIDOnPeerNode w, pkt_Frame = frame\<rparr>);
          recv_loop sy a url evs
        })
   }"

definition RecvFrmLocalPodThread ::
    "'w sys \<Rightarrow> nat \<Rightarrow> string \<Rightarrow> wait_event list \<Rightarrow> recv_event list \<Rightarrow> ('w, goerr option) dio" where
  "RecvFrmLocalPodThread sy a locIfNm waits evs = do {
     r \<leftarrow> recv_prepare sy a locIfNm waits;
     (case r of
        None \<Rightarrow> return None
      | Some (Inl e) \<Rightarrow> return (Some e)
      | Some (Inr url) \<Rightarrow> recv_loop sy a url evs)
   }"

section \<open>Carrier of grpc wires\<close>

definition carrierWatchIface :: "GRPCWire \<Rightarrow> string" where
  "carrierWatchIface w = (if gw_LocalNodeIfaceName w \<noteq> '''' then gw_LocalNodeIfaceName w else gw_LocalPodIfaceName w)"

definition wireDatapathOperUp :: "'w net_env \<Rightarrow> GRPCWire \<Rightarrow> ('w, bool res) io" where
  "wireDatapathOperUp nt w = do {
     r1 \<leftarrow> (if gw_LocalNodeIfaceID w \<noteq> 0 then OperUpOnHost nt (sint (gw_LocalNodeIfaceID w))
            else return (Inl (Err '''')));
     (case r1 of
        Inr up \<Rightarrow> return (Inr up)
      | Inl _ \<Rightarrow> do {
          r2 \<leftarrow> (if gw_LocalNodeIfaceName w \<noteq> '''' then OperUpOnHostByName nt (gw_LocalNodeIfaceName w)
                 else return (Inl (Err '''')));
          (case r2 of
             Inr up \<Rightarrow> return (Inr up)
           | Inl _ \<Rightarrow> do {
               let name = carrierWatchIface w;
               r3 \<leftarrow> OperUpInPodNetNS nt (gw_LocalPodNetNS w) name;
               (case r3 of
                  Inr up \<Rightarrow> return (Inr up)
                | Inl e \<Rightarrow>
                    if name = gw_LocalPodIfaceName w \<or> gw_LocalPodIfaceName w = '''' then return (Inl e)
                    else OperUpInPodNetNS nt (gw_LocalPodNetNS w) (gw_LocalPodIfaceName w))
             })
        })
   }"

definition wire_link_state :: "GRPCWire \<Rightarrow> bool \<Rightarrow> WireLinkState" where
  "wire_link_state w up = \<lparr>wls_LinkUid = gw_UID w, wls_LocalPodNetNs = gw_LocalPodNetNS w, wls_Up = up,
     wls_PeerIfaceId = gw_WireIfaceIDOnPeerNode w\<rparr>"

definition notifyPeerLinkState :: "'w rpc_env \<Rightarrow> GRPCWire \<Rightarrow> bool \<Rightarrow> ('w, goerr option) io" where
  "notifyPeerLinkState rpc w up = NotifyPeerLinkState rpc (gw_PeerNodeIP w) (wire_link_state w up)"

definition propagateEdge :: "'w rpc_env \<Rightarrow> linkKey list \<Rightarrow> int64 \<Rightarrow> bool \<Rightarrow> ('w, unit) dio" where
  "propagateEdge rpc ks ifindex up = do {
     d \<leftarrow> reads id;
     (case GetWireByIfIndex ks ifindex (dm_wires d) of
        None \<Rightarrow> return ()
      | Some a \<Rightarrow> do {
          e \<leftarrow> lift (notifyPeerLinkState rpc (wire_at (dm_wires d) a) up);
          return ()
        })
   }"

fun wire_samples :: "'w net_env \<Rightarrow> GRPCWire list \<Rightarrow> int \<Rightarrow> Debouncer \<Rightarrow> ('w, Debouncer) io" where
  "wire_samples nt [] now deb = return deb"
| "wire_samples nt (w # ws) now deb = do {
     r \<leftarrow> wireDatapathOperUp nt w;
     wire_samples nt ws now (case r of Inl e \<Rightarrow> deb | Inr up \<Rightarrow> Observe (gw_LocalNodeIfaceID w) up now deb)
   }"

fun wire_edges :: "'w rpc_env \<Rightarrow> linkKey list \<Rightarrow> Edge list \<Rightarrow> ('w, unit) dio" where
  "wire_edges rpc ks [] = return ()"
| "wire_edges rpc ks (e # es) = do {
     t \<leftarrow> reads dm_echo;
     (case ConsumeEcho (ed_Key e) (ed_Up e) t of
        (True, t') \<Rightarrow> do { modifies (\<lambda>d. d\<lparr>dm_echo := t'\<rparr>); wire_edges rpc ks es }
      | (False, t') \<Rightarrow> do { propagateEdge rpc ks (ed_Key e) (ed_Up e); wire_edges rpc ks es })
   }"

definition carrier_tick ::
    "'w sys \<Rightarrow> linkKey list \<Rightarrow> int64 list \<Rightarrow> int \<Rightarrow> Debouncer \<Rightarrow> ('w, Debouncer) dio" where
  "carrier_tick sy ks order now deb = do {
     m \<leftarrow> reads dm_wires;
     deb1 \<leftarrow> lift (wire_samples (sy_net sy) (map (wire_at m) (snapshotWires ks m)) now deb);
     (case Due order now deb1 of (es, deb2) \<Rightarrow> do { wire_edges (sy_rpc sy) ks es; return deb2 })
   }"

definition SetLocalVethState :: "'w net_env \<Rightarrow> linkKey list \<Rightarrow> int64 \<Rightarrow> int64 \<Rightarrow> string \<Rightarrow> bool \<Rightarrow> ('w, goerr option) dio" where
  "SetLocalVethState nt ks ifaceID linkUID ns up = do {
     m \<leftarrow> reads dm_wires;
     (case GetWireByIfIndex ks ifaceID m of
        None \<Rightarrow> return None
      | Some a \<Rightarrow> do {
          rl \<leftarrow> lift (LinkByIndex nt CurrentNs (sint ifaceID));
          (case rl of
             Inl e \<Rightarrow> return (Some (Wrap (''SetLocalVethState: iface id '' @ fmt_d (sint ifaceID) @ '' ('' @
                gw_LocalNodeIfaceName (wire_at m a) @ '', uid '' @ fmt_d (sint linkUID) @ '') not found: '') e))
           | Inr link \<Rightarrow> do {
               modifies (\<lambda>d. d\<lparr>dm_echo := SuppressEcho ifaceID up (dm_echo d)\<rparr>);
               lift (if up then LinkSetUp nt CurrentNs link else LinkSetDown nt CurrentNs link)
             })
        })
   }"

fun wire_reassert :: "'w net_env \<Rightarrow> 'w rpc_env \<Rightarrow> GRPCWire list \<Rightarrow> ('w, unit) io" where
  "wire_reassert nt rpc [] = return ()"
| "wire_reassert nt rpc (w # ws) = do {
     r \<leftarrow> wireDatapathOperUp nt w;
     (case r of
        Inl e \<Rightarrow> return ()
      | Inr up \<Rightarrow> do { e \<leftarrow> notifyPeerLinkState rpc w up; return () });
     wire_reassert nt rpc ws
   }"

definition ReassertLocalLinkStates :: "'w sys \<Rightarrow> linkKey list \<Rightarrow> ('w, unit) dio" where
  "ReassertLocalLinkStates sy ks = do {
     d \<leftarrow> reads id;
     if \<not> dm_carrier d then return ()
     else lift (wire_reassert (sy_net sy) (sy_rpc sy) (map (wire_at (dm_wires d)) (snapshotWires ks (dm_wires d))))
   }"

section \<open>Deleting a pod's wires\<close>

lemma run_bind_split:
  "run_state (State_Monad.bind m f) d = (r, d') \<Longrightarrow>
     \<exists>x d1. run_state m d = (x, d1) \<and> run_state (f x) d1 = (r, d')"
  by (auto simp: run_bind split: prod.splits)

text \<open>Removing an extracted wire does not touch the map of tracked wires.\<close>

lemma stop_wire_simps [simp]:
  "wires (stop_wire a m) = wires m" "handles (stop_wire a m) = handles m"
  by (auto simp: stop_wire_def mark_down_def upd_wire_def close_if_ready_def close_chan_def split: option.split)

lemma stop_wire_heap:
  "wheap (stop_wire a m) b = (if b = a then map_option (\<lambda>w. w\<lparr>gw_IsReady := False\<rparr>) (wheap m a) else wheap m b)"
  by (auto simp: stop_wire_def mark_down_def upd_wire_def close_if_ready_def close_chan_def split: option.split)

lemma RemoveWire_wires:
  assumes "run_state (RemoveWireAcrosAll sy (Some a) False) d = (e, d')"
  shows "dm_wires d' = stop_wire a (dm_wires d)"
  using assms
  by (auto simp: RemoveWireAcrosAll_def wire_of_def split: prod.splits sum.splits option.splits if_splits)

definition tracked_in :: "linkKey list \<Rightarrow> wireMap \<Rightarrow> nat" where
  "tracked_in ks m = length (filter (\<lambda>k. wires m k \<noteq> None) ks)"

definition keyed :: "wireMap \<Rightarrow> bool" where
  "keyed m \<longleftrightarrow> (\<forall>k a. wires m k = Some a \<longrightarrow> (\<exists>w. wheap m a = Some w \<and> key_of w = k))"

lemma keyed_stop: "keyed m \<Longrightarrow> keyed (stop_wire a m)"
  unfolding keyed_def stop_wire_simps stop_wire_heap by fastforce

lemma keyed_delete: "keyed m \<Longrightarrow> wheap m a = Some w \<Longrightarrow> keyed (AtomicDelete a m)"
  unfolding keyed_def by auto

lemma filter_length_less:
  "x \<in> set xs \<Longrightarrow> P x \<Longrightarrow> \<not> Q x \<Longrightarrow> (\<And>y. Q y \<Longrightarrow> P y) \<Longrightarrow> length (filter Q xs) < length (filter P xs)"
proof (induction xs)
  case (Cons y ys)
  have "length (filter Q ys) \<le> length (filter P ys)" using Cons.prems(4)
    by (induction ys) (auto intro: le_SucI)
  then show ?case using Cons by auto
qed simp

lemma extract_less:
  assumes "keyed m" "ExtractOneWireByPod ks ns pod m = ((Some a, b), m')"
  shows "tracked_in ks m' < tracked_in ks m" "keyed m'" "wires m' = (wires m)(key_of (wire_at m a) := None)"
proof -
  from extract_spec [OF assms(2)] obtain k w where k: "k \<in> set ks" "wires m k = Some a"
    "wheap m a = Some w" "m' = AtomicDelete a m" by blast
  then have kw: "key_of w = k" using assms(1) unfolding keyed_def by fastforce
  have wa: "wire_at m a = w" using k by (simp add: wire_at_def)
  then show w': "wires m' = (wires m)(key_of (wire_at m a) := None)" using k by simp
  show "tracked_in ks m' < tracked_in ks m"
    unfolding tracked_in_def w' wa kw using k by (intro filter_length_less [of k]) (auto split: if_splits)
  show "keyed m'" using keyed_delete [OF assms(1) k(3)] k(4) by simp
qed

lemma extract_None:
  assumes "keyed m" "ExtractOneWireByPod ks ns pod m = ((None, b), m')"
  shows "m' = m \<and> (\<forall>k \<in> set ks. \<forall>a. wires m k = Some a \<longrightarrow> \<not> of_pod ns pod (wire_at m a))"
  using assms(2)
proof (induction ks)
  case (Cons k ks)
  show ?case
  proof (cases "wires m k")
    case None
    then show ?thesis using Cons by simp
  next
    case (Some a)
    then obtain w where "wheap m a = Some w" using assms(1) unfolding keyed_def by blast
    then show ?thesis using Cons Some by (auto simp: wire_at_def split: if_splits)
  qed
qed simp

lemma drain_runs:
  assumes "keyed (dm_wires d)" "tracked_in ks (dm_wires d) < fuel"
  shows "\<exists>es d'. run_state (drain_pod fuel sy ks ns pod errs) d = (Some es, d') \<and>
     (\<forall>k \<in> set ks. \<forall>a. wires (dm_wires d') k = Some a \<longrightarrow> \<not> of_pod ns pod (wire_at (dm_wires d') a)) \<and>
     (\<forall>k a. wires (dm_wires d') k = Some a \<longrightarrow> wires (dm_wires d) k = Some a)"
  using assms
proof (induction fuel arbitrary: d errs)
  case (Suc fuel)
  obtain x b m' where x: "ExtractOneWireByPod ks ns pod (dm_wires d) = ((x, b), m')"
    by (metis prod.collapse)
  show ?case
  proof (cases x)
    case None
    note ex = extract_None [OF Suc.prems(1) x [unfolded None]]
    have "run_state (drain_pod (Suc fuel) sy ks ns pod errs) d = (Some errs, d\<lparr>dm_wires := m'\<rparr>)"
      using x None by simp
    with ex show ?thesis by (intro exI conjI) auto
  next
    case (Some a)
    note less = extract_less [OF Suc.prems(1) x [unfolded Some]]
    let ?d1 = "d\<lparr>dm_wires := m'\<rparr>"
    obtain e d2 where e: "run_state (RemoveWireAcrosAll sy (Some a) False) ?d1 = (e, d2)" by fastforce
    have w2: "dm_wires d2 = stop_wire a m'" using RemoveWire_wires [OF e] by simp
    let ?errs = "case e of None \<Rightarrow> errs | Some e \<Rightarrow> errs @ [e]"
    have "keyed (dm_wires d2)" "tracked_in ks (dm_wires d2) < fuel"
      using less Suc.prems(2) by (auto simp: w2 keyed_stop tracked_in_def)
    from Suc.IH [OF this, of ?errs] obtain es d' where
      r: "run_state (drain_pod fuel sy ks ns pod ?errs) d2 = (Some es, d')"
      "\<forall>k \<in> set ks. \<forall>a. wires (dm_wires d') k = Some a \<longrightarrow> \<not> of_pod ns pod (wire_at (dm_wires d') a)"
      "\<forall>k a. wires (dm_wires d') k = Some a \<longrightarrow> wires (dm_wires d2) k = Some a" by blast
    have "run_state (drain_pod (Suc fuel) sy ks ns pod errs) d = (Some es, d')"
      using x Some e r(1) by simp
    moreover have "\<forall>k a. wires (dm_wires d2) k = Some a \<longrightarrow> wires (dm_wires d) k = Some a"
      by (auto simp: w2 less(3))
    ultimately show ?thesis using r(2,3) by blast
  qed
qed simp

text \<open>
  C35: With fuel for one round more than the number of tracked wires, deleting a pod's
  wires always ends (whatever the kernel and the API server answer), and then no wire of
  that pod is tracked any more, while nothing new is tracked.
\<close>

theorem delete_pod_wires_drains:
  assumes "keyed (dm_wires d)" "dom (wires (dm_wires d)) \<subseteq> set ks" "tracked_in ks (dm_wires d) < fuel"
  shows "\<exists>r d'. run_state (DeletePodWires fuel sy ks ns pod) d = (Some r, d') \<and>
     (\<forall>k a. wires (dm_wires d') k = Some a \<longrightarrow>
        wires (dm_wires d) k = Some a \<and> \<not> of_pod ns pod (wire_at (dm_wires d') a))"
proof -
  from drain_runs [OF assms(1,3)] obtain es d1 where d1: "run_state (drain_pod fuel sy ks ns pod []) d = (Some es, d1)"
    "\<forall>k \<in> set ks. \<forall>a. wires (dm_wires d1) k = Some a \<longrightarrow> \<not> of_pod ns pod (wire_at (dm_wires d1) a)"
    "\<forall>k a. wires (dm_wires d1) k = Some a \<longrightarrow> wires (dm_wires d) k = Some a" by blast
  have in_ks: "\<forall>k a. wires (dm_wires d1) k = Some a \<longrightarrow> k \<in> set ks" using d1(3) assms(2) by blast
  obtain r d' where r: "run_state (DeletePodWires fuel sy ks ns pod) d = (Some r, d')" and w: "dm_wires d' = dm_wires d1"
    using d1(1) by (cases "es = []"; cases "run_state (deleteGRPCWireStatusByPod (sy_lib sy) (sy_os sy) (sy_kube sy) ns pod) (dm_world d1)")
      (auto simp: DeletePodWires_def)
  show ?thesis using r w d1(2,3) in_ks by metis
qed

definition demo_filed :: "api daemon" where
  "demo_filed = demo_daemon\<lparr>dm_wires := demo_map True {} demo_key demo_hnd\<rparr>"

lemma demo_filed_keyed: "keyed (dm_wires demo_filed)"
  by (auto simp: keyed_def demo_filed_def demo_map_def split: if_splits)

theorem delete_pod_wires_drains_witness:
  "\<exists>r d'. run_state (DeletePodWires 2 (ref_sys demo_env) [(''/ns/a'', 7)] ''t'' ''a'') demo_filed = (Some r, d') \<and>
     (\<forall>k a. wires (dm_wires d') k = Some a \<longrightarrow>
        wires (dm_wires demo_filed) k = Some a \<and> \<not> of_pod ''t'' ''a'' (wire_at (dm_wires d') a))"
  by (rule delete_pod_wires_drains [OF demo_filed_keyed])
     (simp_all add: demo_filed_def demo_map_def tracked_in_def)

section \<open>Never removing a live interface\<close>

text \<open>The system with another outcome for the deletion of links.\<close>

definition with_LinkDel :: "(nsctx \<Rightarrow> nlink \<Rightarrow> ('w, goerr option) io) \<Rightarrow> 'w sys \<Rightarrow> 'w sys" where
  "with_LinkDel ld sy = sy\<lparr>sy_net := (sy_net sy)\<lparr>LinkDel := ld\<rparr>\<rparr>"

lemma LinkDel_fields:
  "LinkByName (nt\<lparr>LinkDel := ld\<rparr>) = LinkByName nt" "GetCurrentNS (nt\<lparr>LinkDel := ld\<rparr>) = GetCurrentNS nt"
  "GetNS (nt\<lparr>LinkDel := ld\<rparr>) = GetNS nt" "ns_Do (nt\<lparr>LinkDel := ld\<rparr>) = ns_Do nt"
  by (simp_all add: ns_Do_def fun_eq_iff)

lemma inPodLinkInfo_LinkDel: "inPodLinkInfo (nt\<lparr>LinkDel := ld\<rparr>) ns ifc = inPodLinkInfo nt ns ifc"
  unfolding inPodLinkInfo_def open_ns_def LinkDel_fields by (rule refl)

text \<open>What the daemon finds out about the interface that is in the way.\<close>

definition classify :: "'w sys \<Rightarrow> VEth \<Rightarrow> WireDef \<Rightarrow> 'w daemon \<Rightarrow> (bool \<times> bool) res \<times> bool \<times> bool res" where
  "classify sy inPod wd d =
     (let (ri, w1) = run_state (inPodLinkInfo (sy_net sy) (ve_NsName inPod) (ve_LinkName inPod)) (dm_world d)
      in (ri, GetWire (wd_LocalPodNetNs wd) (wd_LinkUid wd) (dm_wires d) \<noteq> None,
          fst (run_state (IsWireRecordedInDataStore (sy_lib sy) (sy_os sy) (sy_kube sy) True
                 (wd_LocalPodNetNs wd) (wd_LinkUid wd)) w1)))"

text \<open>
  C32: Making room for a new interface removes a link only when the name is taken by a veth
  that is neither tracked in memory nor recorded in the data store.  In every other case
  the outcome does not depend on what deleting a link would do (no link is deleted), and
  when the name is taken the caller is refused with an error.
\<close>

theorem live_interface_not_removed:
  assumes "classify sy inPod wd d = (ri, tracked, recorded)"
    and "\<not> (ri = Inr (True, True) \<and> \<not> tracked \<and> recorded = Inr False)"
  shows "run_state (ensureNoStaleRemoteEnd (with_LinkDel ld sy) inPod wd) d =
      run_state (ensureNoStaleRemoteEnd sy inPod wd) d \<and>
    (\<forall>v. ri = Inr (True, v) \<longrightarrow> fst (run_state (ensureNoStaleRemoteEnd sy inPod wd) d) \<noteq> None)"
proof -
  obtain w1 where ri: "run_state (inPodLinkInfo (sy_net sy) (ve_NsName inPod) (ve_LinkName inPod)) (dm_world d) = (ri, w1)"
    using assms(1) by (auto simp: classify_def split: prod.splits)
  let ?q = "run_state (IsWireRecordedInDataStore (sy_lib sy) (sy_os sy) (sy_kube sy) True
      (wd_LocalPodNetNs wd) (wd_LinkUid wd)) w1"
  define w2 where "w2 = snd ?q"
  have rec: "?q = (recorded, w2)"
    and tr: "tracked = (GetWire (wd_LocalPodNetNs wd) (wd_LinkUid wd) (dm_wires d) \<noteq> None)"
    using assms(1) ri by (auto simp: classify_def w2_def)
  show ?thesis
  proof (cases ri)
    case (Inl e)
    then show ?thesis using ri by (simp add: ensureNoStaleRemoteEnd_def with_LinkDel_def inPodLinkInfo_LinkDel)
  next
    case (Inr ev)
    obtain ex v where ev: "ev = (ex, v)" by fastforce
    show ?thesis
    proof (cases "ex \<and> \<not> tracked")
      case False
      then show ?thesis using ri Inr ev tr
        by (auto simp: ensureNoStaleRemoteEnd_def with_LinkDel_def inPodLinkInfo_LinkDel)
    next
      case True
      then show ?thesis using ri Inr ev tr rec assms(2)
        by (cases recorded)
           (auto simp: ensureNoStaleRemoteEnd_def with_LinkDel_def inPodLinkInfo_LinkDel)
    qed
  qed
qed

definition demo_pod_veth :: VEth where
  "demo_pod_veth = \<lparr>ve_NsName = ''/ns/a'', ve_LinkName = ''eth1'', ve_IPAddr = [], ve_MTU = 0\<rparr>"

theorem live_interface_not_removed_witness:
  "fst (run_state (ensureNoStaleRemoteEnd (ref_sys demo_env) demo_pod_veth demo_def) demo_filed) \<noteq> None"
proof -
  obtain r where "classify (ref_sys demo_env) demo_pod_veth demo_def demo_filed = (Inr (True, True), True, r)"
    by (simp add: classify_def inPodLinkInfo_def open_ns_def ns_Do_def demo_pod_veth_def demo_filed_def GetWire_def
        demo_map_def demo_def_def zero_WireDef_def)
  from live_interface_not_removed [OF this, THEN conjunct2, rule_format, of True] show ?thesis by simp
qed

section \<open>Reconciliation restores what was recorded\<close>

text \<open>The fields of a wire that outlive a restart of the daemon.\<close>

definition persistent :: "GRPCWire \<Rightarrow> GWireStatus" where
  "persistent w = CreateWireStatus w ''''"

text \<open>
  When the daemon recreates a wire from its recorded status and the node interface
  still exists and opens, the wire is tracked again under the same pod namespace and link,
  ready, with every recorded field equal to that of the wire that was stored, and one
  receive thread is started for it.
\<close>

theorem recreated_wire_matches_record:
  assumes "run_state (LinkByName (sy_net sy) CurrentNs (gw_LocalNodeIfaceName wire)) (dm_world d) = (Inr l, w1)"
    and "run_state (PcapOpenLive (sy_net sy) (gw_LocalNodeIfaceName wire)) w1 = (Inr h, w2)"
    and "GetWire (gw_LocalPodNetNS wire) (gw_UID wire) (dm_wires d) = None"
  shows "\<exists>a w d'. run_state (reCreateGWire sy (CreateWireStatus wire nd)) d = (None, d') \<and>
     GetWire (gw_LocalPodNetNS wire) (gw_UID wire) (dm_wires d') = Some a \<and>
     wheap (dm_wires d') a = Some w \<and> persistent w = persistent wire \<and> gw_IsReady w \<and>
     handles (dm_wires d') (gw_LocalNodeIfaceID w) = Some h \<and>
     dm_threads d' = dm_threads d @ [(a, gw_LocalNodeIfaceName wire)]"
  using assms
  by (simp add: reCreateGWire_def reconLocalGRPCWire_def CreateWireStatus_def GetWire_def make_chan_def
      alloc_wire_def new_wire_def wire_of_def start_thread_def AddInMem_def wire_at_def wiredef_of_def
      zero_WireDef_def CreateGWire_def persistent_def key_of_def)

theorem recreated_wire_matches_record_witness:
  "\<exists>a w d'. run_state (reCreateGWire (ref_sys demo_env) (CreateWireStatus demo_wire_a ''node1'')) demo_daemon = (None, d') \<and>
     GetWire (gw_LocalPodNetNS demo_wire_a) (gw_UID demo_wire_a) (dm_wires d') = Some a \<and>
     wheap (dm_wires d') a = Some w \<and> persistent w = persistent demo_wire_a \<and> gw_IsReady w"
  using recreated_wire_matches_record [of "ref_sys demo_env" demo_wire_a demo_daemon
      "ref_link (gw_LocalNodeIfaceName demo_wire_a) 9" "dm_world demo_daemon" 5 "dm_world demo_daemon" "''node1''"]
  by (fastforce simp: demo_daemon_def GetWire_def empty_wires_def)

text \<open>
  A wire that is already tracked and ready is not touched by reconciliation, so
  repeating it changes nothing.
\<close>

theorem recreate_ready_wire_is_noop:
  assumes "GetWire (gs_LocalPodNetNs ws) (gs_LinkId ws) (dm_wires d) = Some a"
    and "gw_IsReady (wire_at (dm_wires d) a)"
  shows "run_state (reCreateGWire sy ws) d = (None, d)"
  using assms by (simp add: reCreateGWire_def)

theorem recreate_ready_wire_is_noop_witness:
  "run_state (reCreateGWire (ref_sys demo_env) ((demo_status ''/ns/a''))) demo_filed = (None, demo_filed)"
  by (rule recreate_ready_wire_is_noop [of _ _ 0])
     (simp_all add: demo_filed_def demo_map_def demo_status_def GetWire_def wire_at_def)

section \<open>Dialing peers\<close>

lemma validate_wires:
  "run_state (validatePeerNodeIP os k ip) d = (r, d') \<Longrightarrow> dm_wires d' = dm_wires d"
  by (auto simp: validatePeerNodeIP_def refreshNodeIPs_def Let_def
      split: if_splits option.splits prod.splits sum.splits)

lemma wait_wires:
  "run_state (waitForValidPeerNodeIP os k ip evs) d = (r, d') \<Longrightarrow> dm_wires d' = dm_wires d"
proof (induction evs arbitrary: d)
  case Nil
  obtain v d1 where v: "run_state (validatePeerNodeIP os k ip) d = (v, d1)" by fastforce
  then show ?case using Nil validate_wires [OF v] by (auto simp: waitForValidPeerNodeIP.simps split: option.splits)
next
  case (Cons ev evs)
  obtain v d1 where v: "run_state (validatePeerNodeIP os k ip) d = (v, d1)" by fastforce
  show ?case
  proof (cases v)
    case None
    then show ?thesis using Cons.prems v validate_wires [OF v] by (simp add: waitForValidPeerNodeIP.simps)
  next
    case (Some e)
    show ?thesis
    proof (cases ev)
      case Stopped
      then show ?thesis using Cons.prems v Some validate_wires [OF v]
        by (auto simp: waitForValidPeerNodeIP.simps [of _ _ _ "_ # _"])
    next
      case TimerFired
      let ?d2 = "snd (run_state (lift (Sleep os peerNodeIPRetryInterval)) d1)"
      have "run_state (waitForValidPeerNodeIP os k ip evs) ?d2 = (r, d')"
        using Cons.prems v Some TimerFired
        by (auto simp: waitForValidPeerNodeIP.simps [of _ _ _ "_ # _"] split: prod.splits)
      then show ?thesis using Cons.IH validate_wires [OF v] by (fastforce split: prod.splits)
    qed
  qed
qed

text \<open>
  C26: A receive thread only ever connects to the meshnet port of a cluster node: if it
  gets to the point of forwarding frames, the URL it dialed is made of the wire's peer
  address, and that is a node address.
\<close>

theorem recv_thread_dials_only_nodes:
  assumes "lists_only (sy_kube sy) K" "cache_within K d"
    and "run_state (recv_prepare sy a locIfNm waits) d = (Some (Inr url), d')"
  shows "\<exists>ip \<in> K. ip = gw_PeerNodeIP (wire_at (dm_wires d) a) \<and> url = peer_url ip"
proof -
  let ?ip = "gw_PeerNodeIP (wire_at (dm_wires d) a)"
  obtain rw d1 where rw: "run_state (waitForValidPeerNodeIP (sy_os sy) (sy_kube sy) ?ip waits) d = (rw, d1)"
    by fastforce
  have same: "dm_wires d1 = dm_wires d" using wait_wires [OF rw] .
  have some: "rw = Some None" and url: "url = peer_url ?ip"
    using assms(3) rw same
    by (auto simp: recv_prepare_def wire_of_def split: option.splits prod.splits sum.splits)
  have "?ip \<in> K" using wait_accepts_aux [OF assms(1,2) rw [unfolded some]] by simp
  with url show ?thesis by blast
qed

definition demo_sys_n :: "api sys" where
  "demo_sys_n = (ref_sys demo_env)\<lparr>sy_kube := fixed_kube\<rparr>"

text \<open>A tracked wire whose peer is the given node.\<close>

definition demo_peer :: "string \<Rightarrow> api daemon" where
  "demo_peer ip = demo_daemon\<lparr>dm_wires := AddInMem 0 5 (snd (new_wire
     (CreateGWire 3 ''veth'' 0 (demo_def\<lparr>wd_PeerNodeIp := ip\<rparr>)) empty_wires))\<rparr>"

lemma demo_peer_wire:
  "wires (dm_wires (demo_peer ip)) (''/ns/a'', 7) = Some 0"
  "wheap (dm_wires (demo_peer ip)) 0 = Some (CreateGWire 3 ''veth'' 0 (demo_def\<lparr>wd_PeerNodeIp := ip\<rparr>))"
  "cache_within K (demo_peer ip)" "dm_ips (demo_peer ip) = dm_ips demo_daemon" "dm_world (demo_peer ip) = dm_world demo_daemon"
  by (simp_all add: demo_peer_def new_wire_def empty_wires_def AddInMem_def key_of_def CreateGWire_def demo_def_def
      zero_WireDef_def cache_within_def demo_daemon_def)

theorem recv_thread_dials_only_nodes_witness:
  "\<exists>d'. run_state (recv_prepare demo_sys_n 0 ''veth'' []) (demo_peer ''10.0.0.1'') = (Some (Inr (peer_url ''10.0.0.1'')), d')
     \<and> ''10.0.0.1'' \<in> {''10.0.0.1''}"
proof -
  have "\<exists>url d'. run_state (recv_prepare demo_sys_n 0 ''veth'' []) (demo_peer ''10.0.0.1'') = (Some (Inr url), d')"
    by (simp add: recv_prepare_def wire_of_def wire_at_def demo_peer_wire waitForValidPeerNodeIP.simps
        validatePeerNodeIP_def refreshNodeIPs_def demo_daemon_def demo_sys_n_def fixed_kube_def demo_nodes_def
        node_ips_def Let_def CreateGWire_def)
  then obtain url d' where run: "run_state (recv_prepare demo_sys_n 0 ''veth'' []) (demo_peer ''10.0.0.1'') = (Some (Inr url), d')"
    by blast
  have "lists_only (sy_kube demo_sys_n) {''10.0.0.1''}" by (simp add: demo_sys_n_def fixed_lists_only)
  from recv_thread_dials_only_nodes [OF this demo_peer_wire(3) run] run show ?thesis by auto
qed

text \<open>
  C27: A large IPv6 packet from a pod stops the daemon: when the frame is one whole packet
  of more than 1518 bytes and its last 40 bytes do not look like a frame of a known kind,
  the decoder that only writes a log line panics in the receive thread, and the packet is
  not sent.  Segments merged by GRO and links with a larger MTU give such packets.
\<close>

theorem large_ipv6_packet_stops_daemon:
  assumes "pk_Ethernet (NewPacket (sy_pkt sy) frame LayerEthernet) = Some (LayerIPv6, len)"
    and "pk_IPv6 (NewPacket (sy_pkt sy) frame LayerEthernet) = Some ip" "length frame = 54 + unat (ipl_Length ip)"
    and "pk_Ethernet (NewPacket (sy_pkt sy) (drop (14 + unat (ipl_Length ip)) frame) LayerEthernet) = Some (lt, k)"
    and "unknown_layer lt" "1518 < length frame"
  shows "run_state (recv_loop sy a url (Received frame # evs)) d = (Some bad_slice, d)"
proof -
  have "12 < unat (ipl_Length ip)" using assms(3,6) by simp
  from whole_ipv6_panics [OF assms(1-5) this] assms(6) show ?thesis by (simp add: wire_of_def)
qed

definition jumbo :: "8 word list" where "jumbo = replicate 9054 0"

theorem large_ipv6_packet_stops_daemon_witness:
  "run_state (recv_loop ((ref_sys demo_env)\<lparr>sy_pkt := ip_pkt LayerIPv6 54\<rparr>) 0 ''u'' [Received jumbo]) demo_daemon =
     (Some bad_slice, demo_daemon)"
  by (rule large_ipv6_packet_stops_daemon [where ip = "demo_ip 9000" and lt = "LayerUnknown 0"])
    (simp_all add: ip_pkt_def only_def jumbo_def demo_ip_def unknown_layer_def)

text \<open>
  A repeated trigger from the peer for a wire that exists reuses it: same wire, no new
  interface name, new stop channel, new peer interface id, ready again.  The wire keeps
  the peer node address it was created with, whatever address the trigger carries, so
  frames keep going to the node where the peer used to be.
\<close>

theorem remote_trigger_keeps_peer_node:
  assumes "GetWire (wd_LocalPodNetNs wd) (wd_LinkUid wd) (dm_wires d) = Some a"
    and "wheap (dm_wires d) a = Some w"
    and "run_state (CreateUpdateGRPCWireRemoteTriggered sy wd stopC) d = (r, d')"
  shows "r = Inr a \<and> dm_index d' = dm_index d \<and> wires (dm_wires d') = wires (dm_wires d) \<and>
     wire_at (dm_wires d') a =
       w\<lparr>gw_StopC := stopC, gw_WireIfaceIDOnPeerNode := wd_WireIfIdOnPeerNode wd, gw_IsReady := True\<rparr> \<and>
     gw_PeerNodeIP (wire_at (dm_wires d') a) = gw_PeerNodeIP w"
  using assms
  by (auto simp: CreateUpdateGRPCWireRemoteTriggered_def UpdateWireByUID_def GetWire_def wire_of_def wire_at_def
      upd_wire_def split: prod.splits)

theorem remote_trigger_keeps_peer_node_witness:
  "\<exists>r d'. run_state (CreateUpdateGRPCWireRemoteTriggered demo_sys_n
        (demo_def\<lparr>wd_PeerNodeIp := ''10.0.0.2'', wd_WireIfIdOnPeerNode := 44\<rparr>) 8) (demo_peer ''10.0.0.1'') = (r, d') \<and>
     gw_PeerNodeIP (wire_at (dm_wires d') 0) = ''10.0.0.1''"
proof -
  let ?wd = "demo_def\<lparr>wd_PeerNodeIp := ''10.0.0.2'', wd_WireIfIdOnPeerNode := 44\<rparr>"
  obtain r d' where run: "run_state (CreateUpdateGRPCWireRemoteTriggered demo_sys_n ?wd 8) (demo_peer ''10.0.0.1'') = (r, d')"
    by fastforce
  have at: "GetWire (wd_LocalPodNetNs ?wd) (wd_LinkUid ?wd) (dm_wires (demo_peer ''10.0.0.1'')) = Some 0"
    by (simp add: GetWire_def demo_peer_wire demo_def_def zero_WireDef_def)
  from remote_trigger_keeps_peer_node [OF at demo_peer_wire(2) run] run show ?thesis by (auto simp: CreateGWire_def)
qed

section \<open>Carrier mirroring and dialing\<close>

text \<open>Peers that write down every address dialed.\<close>

definition log_rpc :: "string list rpc_env" where
  "log_rpc = ref_rpc\<lparr>Dial := (\<lambda>a. do { modifies (\<lambda>l. l @ [a]); return None })\<rparr>"

text \<open>
  Telling the peer about a carrier edge dials the peer address of the wire without any
  check against the cluster's nodes: an address that is no node address is dialed all the
  same (unlike the receive thread).
\<close>

theorem carrier_edge_dials_unchecked_address:
  assumes "GetWireByIfIndex ks i (dm_wires d) = Some a" "gw_PeerNodeIP (wire_at (dm_wires d) a) = ip"
    and "cache_within K d" "ip \<notin> K" "run_state (propagateEdge log_rpc ks i up) d = (u, d')"
  shows "dm_world d' = dm_world d @ [peer_url ip] \<and> ip \<notin> K"
  using assms
  by (auto simp: propagateEdge_def notifyPeerLinkState_def NotifyPeerLinkState_def log_rpc_def ref_rpc_def)

definition demo_log :: "string list daemon" where
  "demo_log = \<lparr>dm_world = [], dm_index = \<lparr>currId = 0\<rparr>, dm_wires = dm_wires (demo_peer ''6.6.6.6''),
     dm_links = Map.empty, dm_echo = Map.empty,
     dm_ips = \<lparr>nodeClient = True, nodeIPSet = Some {''10.0.0.1''}, nodeIPCacheExpiry = 9\<rparr>,
     dm_threads = [], dm_carrier = True\<rparr>"

theorem carrier_edge_dials_unchecked_address_witness:
  "\<exists>d'. run_state (propagateEdge log_rpc [(''/ns/a'', 7)] 3 True) demo_log = ((), d') \<and>
     dm_world d' = [peer_url ''6.6.6.6''] \<and> ''6.6.6.6'' \<notin> {''10.0.0.1''}"
proof -
  obtain d' where run: "run_state (propagateEdge log_rpc [(''/ns/a'', 7)] 3 True) demo_log = ((), d')"
    by (metis old.unit.exhaust surj_pair)
  have "GetWireByIfIndex [(''/ns/a'', 7)] 3 (dm_wires demo_log) = Some 0"
    "gw_PeerNodeIP (wire_at (dm_wires demo_log) 0) = ''6.6.6.6''"
    by (simp_all add: demo_log_def demo_peer_wire wire_at_def CreateGWire_def)
  from carrier_edge_dials_unchecked_address [OF this _ _ run, of "{''10.0.0.1''}"] run show ?thesis
    by (simp add: demo_log_def cache_within_def)
qed

end
