(* ===== verification/Handler.thy ===== *)
theory Handler
  imports Skip_Ledger Vxlan Wire_Ops
begin

text \<open>
  The gRPC handlers of \<open>daemon/meshnet/handler.go\<close> over the daemon's state.  A handler
  answers a message and an error; a message pointer that can be nil is an option.  The
  handlers that only write Kubernetes objects are in \<open>Skip_Ledger\<close>.
\<close>

section \<open>Reading a pod's topology\<close>

definition spec_links_path :: "string list" where
  "spec_links_path = [''spec'', ''links'']"

definition parse_link :: "unstr_lib \<Rightarrow> json \<Rightarrow> Link" where
  "parse_link u l =
     \<lparr>lk_PeerPod = fst (NestedString u l [''peer_pod'']),
      lk_LocalIntf = fst (NestedString u l [''local_intf'']),
      lk_PeerIntf = fst (NestedString u l [''peer_intf'']),
      lk_LocalIp = fst (NestedString u l [''local_ip'']),
      lk_PeerIp = fst (NestedString u l [''peer_ip'']),
      lk_Uid = fst (NestedInt64 u l [''uid'']),
      lk_Mtu = (case NestedInt64 u l [''mtu''] of
          (mtu, ok, _) \<Rightarrow> if ok \<and> 0 < sint mtu then ucast mtu else 0)\<rparr>"

text \<open>The links of an object; \<open>None\<close> when an element is not a map.\<close>

fun parse_links :: "unstr_lib \<Rightarrow> json list \<Rightarrow> Link list option" where
  "parse_links u [] = Some []"
| "parse_links u (l # ls) =
     (if is_map l then map_option ((#) (parse_link u l)) (parse_links u ls) else None)"

definition get_pod_error :: "PodQuery \<Rightarrow> goerr \<Rightarrow> goerr" where
  "get_pod_error pod e =
     (if is_not_found e
      then Status NotFound (''pod '' @ pq_KubeNs pod @ ''/'' @ pq_Name pod @ '' is not a topology pod: '' @ err_text e)
      else Status Unavailable (''failed to read topology for pod '' @ pq_KubeNs pod @ ''/'' @ pq_Name pod @ '': '' @ err_text e))"

definition Get :: "'w sys \<Rightarrow> PodQuery \<Rightarrow> ('w, Pod option \<times> goerr option) dio" where
  "Get sy pod = do {
     r \<leftarrow> lift (getPod (sy_kube sy) (pq_Name pod) (pq_KubeNs pod));
     (case r of
        Inl e \<Rightarrow> return (None, Some (get_pod_error pod e))
      | Inr ob \<Rightarrow>
          (case NestedSlice (sy_lib sy) ob spec_links_path of (remoteLinks, found, err) \<Rightarrow>
             (case (err, found, remoteLinks) of
                (None, True, Some ls) \<Rightarrow>
                  (case parse_links (sy_lib sy) ls of
                     None \<Rightarrow> return (None, err)
                   | Some links \<Rightarrow> do {
                       let srcIP = fst (NestedString (sy_lib sy) ob src_ip_path);
                       let netNs = fst (NestedString (sy_lib sy) ob net_ns_path);
                       let containerId = fst (NestedString (sy_lib sy) ob container_path);
                       ev \<leftarrow> (if srcIP \<noteq> '''' then ValidatePeerNodeIP (sy_os sy) (sy_kube sy) srcIP
                              else return None);
                       return (Some
                         \<lparr>pod_Name = pq_Name pod,
                          pod_SrcIp = (if ev = None then srcIP else ''''),
                          pod_NetNs = netNs,
                          pod_KubeNs = pq_KubeNs pod,
                          pod_Links = links,
                          pod_NodeIp = Getenv (sy_os sy) ''HOST_IP'',
                          pod_NodeIntf = Getenv (sy_os sy) ''HOST_INTF'',
                          pod_ContainerId = containerId\<rparr>, None)
                     })
              | _ \<Rightarrow> return (None, err))))
   }"

section \<open>VXLAN links\<close>

definition Update_vxlan :: "'w sys \<Rightarrow> RemotePod \<Rightarrow> ('w, BoolResponse \<times> goerr option) dio" where
  "Update_vxlan sy pod = do {
     e \<leftarrow> lift (CreateOrUpdate (sy_net sy) (sy_os sy) pod);
     (case e of
        Some e \<Rightarrow> return (no_response, Some e)
      | None \<Rightarrow> do {
          modifies (\<lambda>d. d\<lparr>dm_links := RegisterFromRemotePod pod (dm_links d)\<rparr>);
          return (ok_response, None)
        })
   }"

definition RegisterVxlanLink :: "VxlanLinkDef \<Rightarrow> ('w, BoolResponse \<times> goerr option) dio" where
  "RegisterVxlanLink def = do {
     modifies (\<lambda>d. d\<lparr>dm_links := RegisterFromDef def (dm_links d)\<rparr>);
     return (ok_response, None)
   }"

definition UnregisterVxlanLink :: "VxlanLinkDef option \<Rightarrow> ('w, BoolResponse \<times> goerr option) dio" where
  "UnregisterVxlanLink def = do {
     (case def of
        None \<Rightarrow> return ()
      | Some v \<Rightarrow> modifies (\<lambda>d. d\<lparr>dm_links := UnregisterLink (vld_KubeNs v) (vld_LinkUid v) (dm_links d)\<rparr>));
     return (ok_response, None)
   }"

section \<open>grpc wires\<close>

text \<open>\<open>None\<close>: the fuel of \<open>DeletePodWires\<close> ran out.\<close>

definition RemGRPCWire ::
    "nat \<Rightarrow> 'w sys \<Rightarrow> linkKey list \<Rightarrow> WireDef \<Rightarrow> ('w, (BoolResponse \<times> goerr option) option) dio" where
  "RemGRPCWire fuel sy ks wd = do {
     r \<leftarrow> DeletePodWires fuel sy ks (wd_TopoNs wd) (wd_LocalPodName wd);
     return (map_option bool_reply r)
   }"

definition AddGRPCWireLocal :: "'w sys \<Rightarrow> WireDef \<Rightarrow> ('w, BoolResponse \<times> goerr option) dio" where
  "AddGRPCWireLocal sy wd = CreateGRPCWireLocal sy wd"

definition SendToOnce :: "'w sys \<Rightarrow> Packet \<Rightarrow> ('w, BoolResponse \<times> goerr option) dio" where
  "SendToOnce sy pkt = do {
     m \<leftarrow> reads dm_wires;
     (case GetHostIntfHndl (pkt_RemotIntfId pkt) m of
        Inl e \<Rightarrow> return (no_response, Some e)
      | Inr wrHandle \<Rightarrow> do {
          e \<leftarrow> lift (PcapWrite (sy_net sy) wrHandle (pkt_Frame pkt));
          return (bool_reply e)
        })
   }"

definition AddGRPCWireRemote :: "'w sys \<Rightarrow> WireDef \<Rightarrow> ('w, WireCreateResponse \<times> goerr option) dio" where
  "AddGRPCWireRemote sy wd = do {
     stopC \<leftarrow> on_wires make_chan;
     r \<leftarrow> CreateUpdateGRPCWireRemoteTriggered sy wd stopC;
     (case r of
        Inr a \<Rightarrow> do {
          w \<leftarrow> wire_of a;
          start_thread a (gw_LocalNodeIfaceName w);
          return (\<lparr>wcr_Response = True, wcr_PeerIntfId = gw_LocalNodeIfaceID w\<rparr>, None)
        }
      | Inl e \<Rightarrow> return (\<lparr>wcr_Response = False, wcr_PeerIntfId = wd_WireIfIdOnPeerNode wd\<rparr>, Some e))
   }"

definition GRPCWireDownRemote :: "WireDef \<Rightarrow> ('w, WireDownResponse \<times> goerr option) dio" where
  "GRPCWireDownRemote wd = do {
     e \<leftarrow> GRPCWireDownRemoteTriggered wd;
     return (case e of None \<Rightarrow> (\<lparr>wdr_Response = True\<rparr>, None) | Some e \<Rightarrow> (\<lparr>wdr_Response = False\<rparr>, Some e))
   }"

definition GRPCWireExists :: "WireDef \<Rightarrow> ('w, WireCreateResponse \<times> goerr option) dio" where
  "GRPCWireExists wd = do {
     m \<leftarrow> reads dm_wires;
     return (case GetWire (wd_LocalPodNetNs wd) (wd_LinkUid wd) m of
         None \<Rightarrow> (\<lparr>wcr_Response = False, wcr_PeerIntfId = wd_WireIfIdOnPeerNode wd\<rparr>, None)
       | Some a \<Rightarrow> (\<lparr>wcr_Response = True, wcr_PeerIntfId = gw_WireIfaceIDOnPeerNode (wire_at m a)\<rparr>, None))
   }"

definition GenerateNodeInterfaceName ::
    "GenerateNodeInterfaceNameRequest \<Rightarrow> ('w, GenerateNodeInterfaceNameResponse \<times> goerr option) dio" where
  "GenerateNodeInterfaceName req = do {
     g \<leftarrow> reads dm_index;
     (case GenNodeIfaceName (gnr_PodName req) (gnr_PodIntfName req) g of (r, g') \<Rightarrow> do {
        modifies (\<lambda>d. d\<lparr>dm_index := g'\<rparr>);
        return (case r of
            Inl e \<Rightarrow> (\<lparr>gns_Ok = False, gns_NodeIntfName = ''''\<rparr>, Some e)
          | Inr nm \<Rightarrow> (\<lparr>gns_Ok = True, gns_NodeIntfName = nm\<rparr>, None))
      })
   }"

section \<open>Carrier\<close>

definition SetPeerLinkState ::
    "'w sys \<Rightarrow> linkKey list \<Rightarrow> vxKey list \<Rightarrow> WireLinkState \<Rightarrow> ('w, BoolResponse \<times> goerr option) dio" where
  "SetPeerLinkState sy ks vks st = do {
     enabled \<leftarrow> reads dm_carrier;
     if \<not> enabled then return (ok_response, None)
     else do {
       m \<leftarrow> reads dm_wires;
       if wls_PeerIfaceId st \<noteq> 0 \<and> GetWireByIfIndex ks (wls_PeerIfaceId st) m \<noteq> None
       then do {
         e \<leftarrow> SetLocalVethState (sy_net sy) ks (wls_PeerIfaceId st) (wls_LinkUid st) (wls_LocalPodNetNs st) (wls_Up st);
         return (bool_reply e)
       }
       else do {
         e \<leftarrow> SetLocalLinkState (sy_net sy) vks (wls_LinkUid st) (wls_Up st);
         return (bool_reply e)
       }
     }
   }"

section \<open>What the plugin learns about a pod\<close>

text \<open>The converter's own errors are plain errors, not gRPC statuses.\<close>

definition plain_slice_errors :: "unstr_lib \<Rightarrow> bool" where
  "plain_slice_errors u \<longleftrightarrow>
     (\<forall>ob p v f e. NestedSlice u ob p = (v, f, Some e) \<longrightarrow> status_code e = OtherCode)"

lemma status_get_pod_error:
  "status_code (get_pod_error pod e) = (if is_not_found e then NotFound else Unavailable)"
  by (simp add: get_pod_error_def)

text \<open>The three ways \<open>Get\<close> answers no pod, and the one way it answers one.\<close>

lemma Get_cases:
  assumes "run_state (Get sy pod) d = ((p, e), d')"
  obtains (unread) e0 w1 where "run_state (getPod (sy_kube sy) (pq_Name pod) (pq_KubeNs pod)) (dm_world d) = (Inl e0, w1)"
      "p = None" "e = Some (get_pod_error pod e0)"
  | (nolinks) ob w1 v f where "run_state (getPod (sy_kube sy) (pq_Name pod) (pq_KubeNs pod)) (dm_world d) = (Inr ob, w1)"
      "NestedSlice (sy_lib sy) ob spec_links_path = (v, f, e)" "p = None"
  | (found) ob w1 ls links ev d1 where
      "run_state (getPod (sy_kube sy) (pq_Name pod) (pq_KubeNs pod)) (dm_world d) = (Inr ob, w1)"
      "NestedSlice (sy_lib sy) ob spec_links_path = (Some ls, True, None)"
      "parse_links (sy_lib sy) ls = Some links" "d1 = d\<lparr>dm_world := w1\<rparr>" "e = None"
      "run_state (if fst (NestedString (sy_lib sy) ob src_ip_path) \<noteq> ''''
         then ValidatePeerNodeIP (sy_os sy) (sy_kube sy) (fst (NestedString (sy_lib sy) ob src_ip_path))
         else return None) d1 = (ev, d')"
      "p = Some \<lparr>pod_Name = pq_Name pod,
         pod_SrcIp = (if ev = None then fst (NestedString (sy_lib sy) ob src_ip_path) else ''''),
         pod_NetNs = fst (NestedString (sy_lib sy) ob net_ns_path), pod_KubeNs = pq_KubeNs pod,
         pod_Links = links, pod_NodeIp = Getenv (sy_os sy) ''HOST_IP'',
         pod_NodeIntf = Getenv (sy_os sy) ''HOST_INTF'',
         pod_ContainerId = fst (NestedString (sy_lib sy) ob container_path)\<rparr>"
proof -
  obtain r w1 where r: "run_state (getPod (sy_kube sy) (pq_Name pod) (pq_KubeNs pod)) (dm_world d) = (r, w1)"
    by fastforce
  show thesis
  proof (cases r)
    case (Inl e0)
    then show thesis using unread [of e0 w1] assms r by (simp add: Get_def)
  next
    case (Inr ob)
    obtain v f er where n: "NestedSlice (sy_lib sy) ob spec_links_path = (v, f, er)" by (metis prod.exhaust)
    consider (a) ls links where "v = Some ls" "f" "er = None" "parse_links (sy_lib sy) ls = Some links"
      | (b) "p = None" "e = er"
      using assms r Inr n by (auto simp: Get_def split: option.splits bool.splits)
    then show thesis
    proof cases
      case a
      let ?d1 = "d\<lparr>dm_world := w1\<rparr>"
      obtain ev d2 where ev: "run_state (if fst (NestedString (sy_lib sy) ob src_ip_path) \<noteq> ''''
         then ValidatePeerNodeIP (sy_os sy) (sy_kube sy) (fst (NestedString (sy_lib sy) ob src_ip_path))
         else return None) ?d1 = (ev, d2)" by fastforce
      have "d2 = d'" "e = None" using assms r Inr n a ev by (simp_all add: Get_def Let_def)
      moreover note found [of ob w1 ls links ?d1 ev]
      ultimately show thesis using assms r Inr n a ev by (simp add: Get_def Let_def)
    next
      case b
      with nolinks [of ob w1 v f] r Inr n show thesis by simp
    qed
  qed
qed

text \<open>
  C21: Whatever anyone with write access puts into a topology object, the source address
  that \<open>Get\<close> hands to the plugin is either empty, which the plugin takes for "not alive
  yet", or the one stored, and then it is the address of a cluster node.
\<close>

theorem get_surfaces_only_node_ips:
  assumes "topo_store (sy_lib sy) (sy_kube sy) st" "lists_only (sy_kube sy) K" "cache_within K d"
    and "run_state (Get sy pod) d = ((Some p, e), d')"
  shows "e = None \<and> (pod_SrcIp p = '''' \<or> pod_SrcIp p \<in> K) \<and>
     (\<exists>ob. st (dm_world d) (pq_KubeNs pod) (pq_Name pod) = Some ob \<and>
        pod_SrcIp p \<in> {'''', fst (NestedString (sy_lib sy) ob src_ip_path)})"
  using assms(4)
proof (cases rule: Get_cases)
  case (found ob w1 ls links ev d1)
  have g: "get_law (sy_lib sy) st (TopoGet (sy_kube sy))" using assms(1) by (simp add: topo_store_def)
  have "st (dm_world d) (pq_KubeNs pod) (pq_Name pod) = Some ob"
    using get_lawD(2) [OF g found(1) [unfolded getPod_def]] by simp
  moreover have "pod_SrcIp p = '''' \<or> pod_SrcIp p \<in> K"
  proof (cases "fst (NestedString (sy_lib sy) ob src_ip_path) = '''' \<or> ev \<noteq> None")
    case False
    have "cache_within K d1" using assms(3) found(4) by (simp add: cache_within_def)
    then show ?thesis
      using False found(6,7) validate_within [OF assms(2)] by (auto simp: ValidatePeerNodeIP_def)
  qed (use found(7) in auto)
  ultimately show ?thesis using found(5,7) by auto
qed simp_all

definition demo_topology :: "string \<Rightarrow> string \<Rightarrow> json" where
  "demo_topology nm ip = JObj [(''metadata'', JObj [(''name'', JStr nm)]),
     (''spec'', JObj [(''links'', JList [JObj [(''peer_pod'', JStr ''b''), (''uid'', JInt 7), (''mtu'', JInt 1400)]])]),
     (''status'', JObj [(''src_ip'', JStr ip)])]"

definition demo_cluster :: "string \<Rightarrow> api daemon" where
  "demo_cluster ip = demo_daemon\<lparr>dm_world := \<lparr>a_topo = [((''t'', ''a''), demo_topology ''a'' ip)], a_gw = [], a_nodes = demo_nodes\<rparr>\<rparr>"

definition fixed_sys :: "api sys" where
  "fixed_sys = (ref_sys Map.empty)\<lparr>sy_kube := fixed_kube\<rparr>"

abbreviation "demo_query \<equiv> \<lparr>pq_Name = ''a'', pq_KubeNs = ''t''\<rparr>"

lemma fixed_topo_store: "topo_store ref_lib fixed_kube topo_of"
  using ref_topo_store by (simp add: topo_store_def fixed_kube_def)

lemmas get_eval = Get_def getPod_def demo_cluster_def demo_daemon_def demo_topology_def fixed_sys_def fixed_kube_def
  read_obj_def topo_of_def ref_name_def ref_string_def ref_int_def ref_slice_def spec_links_path_def parse_link_def
  src_ip_path_def net_ns_path_def container_path_def ValidatePeerNodeIP_def validatePeerNodeIP_def
  refreshNodeIPs_def demo_nodes_def node_ips_def Getenv_def

theorem get_surfaces_only_node_ips_witness:
  "\<exists>p d'. run_state (Get fixed_sys demo_query) (demo_cluster ''6.6.6.6'') = ((Some p, None), d') \<and> pod_SrcIp p = '''' \<and>
     (pod_SrcIp p = '''' \<or> pod_SrcIp p \<in> {''10.0.0.1''})"
proof -
  obtain p d' where run: "run_state (Get fixed_sys demo_query) (demo_cluster ''6.6.6.6'') = ((Some p, None), d')"
    and p: "pod_SrcIp p = ''''"
    by (simp add: get_eval Let_def)
  have "cache_within {''10.0.0.1''} (demo_cluster ''6.6.6.6'')"
    using demo_cache by (simp add: cache_within_def demo_cluster_def)
  moreover have "topo_store (sy_lib fixed_sys) (sy_kube fixed_sys) topo_of" "lists_only (sy_kube fixed_sys) {''10.0.0.1''}"
    using fixed_topo_store fixed_lists_only by (simp_all add: fixed_sys_def)
  ultimately show ?thesis using get_surfaces_only_node_ips [OF _ _ _ run] run p by blast
qed

text \<open>
  \<open>Get\<close> answers the code \<open>NotFound\<close>, which makes the plugin let the pod up
  unwired, only if the API server holds no topology object for the pod; a failed read of
  the API server is answered with \<open>Unavailable\<close>, which makes the plugin retry.
\<close>

theorem not_found_only_without_topology:
  assumes "topo_store (sy_lib sy) (sy_kube sy) st" "plain_slice_errors (sy_lib sy)"
    and "run_state (Get sy pod) d = ((p, Some e), d')"
  shows "p = None \<and>
     (status_code e = NotFound \<longrightarrow> st (dm_world d) (pq_KubeNs pod) (pq_Name pod) = None) \<and>
     (status_code e = Unavailable \<or> status_code e = NotFound \<longleftrightarrow>
        (\<exists>e0 w1. run_state (getPod (sy_kube sy) (pq_Name pod) (pq_KubeNs pod)) (dm_world d) = (Inl e0, w1)))"
  using assms(3)
proof (cases rule: Get_cases)
  case (unread e0 w1)
  have g: "get_law (sy_lib sy) st (TopoGet (sy_kube sy))" using assms(1) by (simp add: topo_store_def)
  show ?thesis
    using unread get_lawD(3) [OF g unread(1) [unfolded getPod_def], of e0]
    by (auto simp: status_get_pod_error split: if_splits)
next
  case (nolinks ob w1 v f)
  have "status_code e = OtherCode" using assms(2) nolinks(2) unfolding plain_slice_errors_def by blast
  then show ?thesis using nolinks by simp
qed simp

lemma ref_plain_errors: "plain_slice_errors ref_lib"
proof -
  have "jget ob p = Inl e \<Longrightarrow> status_code e = OtherCode" for ob p e
    by (induction ob p rule: jget.induct) (auto split: option.splits simp: type_error_def)
  then show ?thesis
    by (auto simp: plain_slice_errors_def ref_slice_def type_error_def split: sum.splits option.splits json.splits)
qed

theorem not_found_only_without_topology_witness:
  "\<exists>e d'. run_state (Get fixed_sys \<lparr>pq_Name = ''z'', pq_KubeNs = ''t''\<rparr>) (demo_cluster '''') = ((None, Some e), d') \<and>
     status_code e = NotFound \<and> topo_of (dm_world (demo_cluster '''')) ''t'' ''z'' = None"
proof -
  obtain e d' where run: "run_state (Get fixed_sys \<lparr>pq_Name = ''z'', pq_KubeNs = ''t''\<rparr>) (demo_cluster '''') = ((None, Some e), d')"
    and e: "status_code e = NotFound"
    by (simp add: get_eval status_get_pod_error is_not_found_def)
  have "topo_store (sy_lib fixed_sys) (sy_kube fixed_sys) topo_of" "plain_slice_errors (sy_lib fixed_sys)"
    using fixed_topo_store ref_plain_errors by (simp_all add: fixed_sys_def)
  from not_found_only_without_topology [OF this run] run e show ?thesis by auto
qed

text \<open>
  A topology object that has no \<open>spec.links\<close> list is answered with neither a pod
  nor an error; the client sees a pod with every field empty and no links, as if the pod
  had none.
\<close>

theorem missing_links_read_as_empty_pod:
  assumes "run_state (getPod (sy_kube sy) (pq_Name pod) (pq_KubeNs pod)) (dm_world d) = (Inr ob, w1)"
    and "NestedSlice (sy_lib sy) ob spec_links_path = (None, False, None)"
  shows "run_state (Get sy pod) d = ((None, None), d\<lparr>dm_world := w1\<rparr>)"
  using assms by (simp add: Get_def)

theorem missing_links_read_as_empty_pod_witness:
  "run_state (Get (ref_sys Map.empty) demo_query) (demo_daemon\<lparr>dm_world := demo_two\<rparr>) =
     ((None, None), demo_daemon\<lparr>dm_world := demo_two\<rparr>)"
proof -
  have "run_state (getPod (sy_kube (ref_sys Map.empty)) (pq_Name demo_query) (pq_KubeNs demo_query))
      (dm_world (demo_daemon\<lparr>dm_world := demo_two\<rparr>)) = (Inr (demo_topo ''a''), demo_two)"
    "NestedSlice (sy_lib (ref_sys Map.empty)) (demo_topo ''a'') spec_links_path = (None, False, None)"
    by (simp_all add: demo_eval spec_links_path_def)
  from missing_links_read_as_empty_pod [OF this] show ?thesis by simp
qed

section \<open>A mirrored carrier does not bounce back\<close>

lemma SetLocalVethState_run:
  assumes "GetWireByIfIndex ks i (dm_wires d) = Some a"
    and "run_state (SetLocalVethState nt ks i uid ns up) d = (None, d')"
  shows "\<exists>w'. d' = d\<lparr>dm_echo := SuppressEcho i up (dm_echo d), dm_world := w'\<rparr>"
proof -
  obtain l w1 where l: "run_state (LinkByIndex nt CurrentNs (sint i)) (dm_world d) = (l, w1)" by fastforce
  then show ?thesis using assms
    by (cases l; cases up) (auto simp: SetLocalVethState_def split: prod.splits)
qed

lemma consume_suppressed:
  "ConsumeEcho i up (SuppressEcho i up t) = (True, t(i := None))"
  by (simp add: ConsumeEcho_def SuppressEcho_def)

text \<open>
  When the daemon has mirrored the peer's carrier onto a tracked grpc wire, the edge
  this causes on the local interface is swallowed: nothing is sent to the peer, so two
  nodes do not keep notifying each other; the next edge of that interface is again sent.
\<close>

theorem mirrored_carrier_is_not_sent_back:
  assumes "dm_carrier d" "wls_PeerIfaceId st \<noteq> 0" "GetWireByIfIndex ks (wls_PeerIfaceId st) (dm_wires d) \<noteq> None"
    and "run_state (SetPeerLinkState sy ks vks st) d = ((ok_response, None), d1)"
  shows "dm_wires d1 = dm_wires d \<and> dm_links d1 = dm_links d \<and>
     run_state (wire_edges rpc ks [\<lparr>ed_Key = wls_PeerIfaceId st, ed_Up = wls_Up st\<rparr>]) d1 =
       ((), d1\<lparr>dm_echo := (dm_echo d)(wls_PeerIfaceId st := None)\<rparr>) \<and>
     ConsumeEcho (wls_PeerIfaceId st) up ((dm_echo d)(wls_PeerIfaceId st := None)) =
       (False, (dm_echo d)(wls_PeerIfaceId st := None))"
proof -
  obtain a where a: "GetWireByIfIndex ks (wls_PeerIfaceId st) (dm_wires d) = Some a" using assms(3) by auto
  have "run_state (SetLocalVethState (sy_net sy) ks (wls_PeerIfaceId st) (wls_LinkUid st) (wls_LocalPodNetNs st) (wls_Up st)) d
      = (None, d1)"
    using assms by (auto simp: SetPeerLinkState_def bool_reply_def split: prod.splits option.splits)
  from SetLocalVethState_run [OF a this] obtain w' where
    d1: "d1 = d\<lparr>dm_echo := SuppressEcho (wls_PeerIfaceId st) (wls_Up st) (dm_echo d), dm_world := w'\<rparr>" by blast
  show ?thesis
    by (simp add: d1 consume_suppressed) (simp add: ConsumeEcho_def)
qed

definition demo_wired :: "api daemon" where
  "demo_wired = demo_daemon\<lparr>dm_carrier := True, dm_wires := demo_map True {} demo_key demo_hnd\<rparr>"

abbreviation "demo_link_down \<equiv> \<lparr>wls_LinkUid = 7, wls_LocalPodNetNs = '''', wls_Up = False, wls_PeerIfaceId = 3\<rparr>"

theorem mirrored_carrier_is_not_sent_back_witness:
  "\<exists>d1. run_state (SetPeerLinkState (ref_sys Map.empty) [(''/ns/a'', 7)] [] demo_link_down) demo_wired = ((ok_response, None), d1) \<and>
     run_state (wire_edges ref_rpc [(''/ns/a'', 7)] [\<lparr>ed_Key = 3, ed_Up = False\<rparr>]) d1 =
       ((), d1\<lparr>dm_echo := (dm_echo demo_wired)(3 := None)\<rparr>)"
proof -
  have tracked: "GetWireByIfIndex [(''/ns/a'', 7)] 3 (dm_wires demo_wired) \<noteq> None" "dm_carrier demo_wired"
    by (simp_all add: demo_wired_def demo_map_def wire_at_def)
  obtain d1 where run: "run_state (SetPeerLinkState (ref_sys Map.empty) [(''/ns/a'', 7)] [] demo_link_down) demo_wired
      = ((ok_response, None), d1)"
    using tracked by (auto simp: SetPeerLinkState_def SetLocalVethState_def bool_reply_def ref_net_def)
  from mirrored_carrier_is_not_sent_back [of _ demo_link_down, OF tracked(2) _ _ run] tracked run show ?thesis by auto
qed

section \<open>The remote end of a wire is wired up\<close>

definition filed_wire :: "'w daemon \<Rightarrow> nat \<Rightarrow> WireDef \<Rightarrow> nat \<Rightarrow> GRPCWire \<Rightarrow> nat \<Rightarrow> bool" where
  "filed_wire d a wd c w h \<longleftrightarrow>
     wheap (dm_wires d) a = Some w \<and> gw_StopC w = c \<and> gw_IsReady w \<and>
     gw_WireIfaceIDOnPeerNode w = wd_WireIfIdOnPeerNode wd \<and> gw_PeerNodeIP w = wd_PeerNodeIp wd \<and>
     GetWire (wd_LocalPodNetNs wd) (wd_LinkUid wd) (dm_wires d) = Some a \<and>
     GetHandle (gw_LocalNodeIfaceID w) (dm_wires d) = Some h"

text \<open>
  \<open>opened_on\<close>: in state \<open>v\<close> the node's interface \<open>nm\<close> was looked up and a capture handle
  was opened on it; the wire carries the interface's name and index.
  \<open>made_and_opened\<close>: before that the pair was made, its one end in the pod and its other
  end, named \<open>nm\<close>, in the daemon's namespace; after it only the record of the wire was
  stored. The name is the one generated for the pod's interface.
\<close>

definition opened_on :: "'w sys \<Rightarrow> string \<Rightarrow> 'w \<Rightarrow> GRPCWire \<Rightarrow> nat \<Rightarrow> 'w \<Rightarrow> bool" where
  "opened_on sy nm v w h v' \<longleftrightarrow> gw_LocalNodeIfaceName w = nm \<and>
     (\<exists>loc v1. run_state (LinkByName (sy_net sy) CurrentNs nm) v = (Inr loc, v1) \<and>
        gw_LocalNodeIfaceID w = word_of_int (nl_Index loc) \<and> run_state (PcapOpenLive (sy_net sy) nm) v1 = (Inr h, v'))"

definition made_and_opened :: "'w sys \<Rightarrow> WireDef \<Rightarrow> 'w daemon \<Rightarrow> GRPCWire \<Rightarrow> nat \<Rightarrow> 'w daemon \<Rightarrow> bool" where
  "made_and_opened sy wd d w h d' \<longleftrightarrow> (\<exists>nm podEnd (ns :: netns) v v1 et v2 v3 er.
     GenNodeIfaceName (wd_LocalPodName wd) (wd_IntfNameInPod wd) (dm_index d) = (Inr nm, dm_index d') \<and>
     remote_veth (sy_net sy) wd = Inr podEnd \<and>
     run_state (MakeVeth (sy_net sy) (sy_os sy) podEnd
       \<lparr>ve_NsName = ns_Path ns, ve_LinkName = nm, ve_IPAddr = [], ve_MTU = 0\<rparr>) v = (None, v1) \<and>
     run_state (SetTxChecksumOff (sy_net sy) (ve_LinkName podEnd) (ve_NsName podEnd)) v1 = (et, v2) \<and>
     opened_on sy nm v2 w h v3 \<and>
     run_state (K8sStoreGWire (sy_lib sy) (sy_os sy) (sy_kube sy) w) v3 = (er, dm_world d'))"

lemma file_remote_run:
  assumes "run_state (file_remote_wire sy wd c nm) d = (Inr a, d')"
  shows "\<exists>w h v er. filed_wire d' a wd c w h \<and> dm_threads d' = dm_threads d \<and> chclosed (dm_wires d') = chclosed (dm_wires d) \<and>
     (\<forall>b. b \<noteq> a \<longrightarrow> wheap (dm_wires d') b = wheap (dm_wires d) b) \<and> dm_index d' = dm_index d \<and>
     opened_on sy nm (dm_world d) w h v \<and>
     run_state (K8sStoreGWire (sy_lib sy) (sy_os sy) (sy_kube sy) w) v = (er, dm_world d')"
proof -
  obtain l w1 where l: "run_state (LinkByName (sy_net sy) CurrentNs nm) (dm_world d) = (l, w1)" by fastforce
  with assms obtain loc where loc: "l = Inr loc" by (cases l) (auto simp: file_remote_wire_def)
  obtain p w2 where p: "run_state (PcapOpenLive (sy_net sy) nm) w1 = (p, w2)" by fastforce
  with assms l loc obtain h where h: "p = Inr h"
    by (cases p) (auto simp: file_remote_wire_def alloc_wire_def new_wire_def)
  show ?thesis
    using assms l loc p h
    by (auto simp: file_remote_wire_def alloc_wire_def new_wire_def AddWireInMemNDataStore_def AddInMemNDataStore_def
        wire_of_def wire_at_def upd_wire_def filed_wire_def CreateGWire_def key_of_def GetWire_def GetHandle_def
        opened_on_def split: prod.splits)
qed

lemma ensure_frame:
  assumes "run_state (ensureNoStaleRemoteEnd sy v wd) d = (r, d')"
  shows "\<exists>w. d' = d\<lparr>dm_world := w\<rparr>"
proof -
  obtain i w1 where i: "run_state (inPodLinkInfo (sy_net sy) (ve_NsName v) (ve_LinkName v)) (dm_world d) = (i, w1)"
    by fastforce
  obtain q w2 where q: "run_state (IsWireRecordedInDataStore (sy_lib sy) (sy_os sy) (sy_kube sy) True
      (wd_LocalPodNetNs wd) (wd_LinkUid wd)) w1 = (q, w2)" by fastforce
  show ?thesis using assms i q
    by (cases i; cases q) (auto simp: ensureNoStaleRemoteEnd_def split: prod.splits if_splits)
qed

lemma create_remote_run:
  assumes "run_state (CreateUpdateGRPCWireRemoteTriggered sy wd c) d = (Inr a, d')"
    and "GetWire (wd_LocalPodNetNs wd) (wd_LinkUid wd) (dm_wires d) = None"
  shows "\<exists>w h. filed_wire d' a wd c w h \<and> dm_threads d' = dm_threads d \<and> chclosed (dm_wires d') = chclosed (dm_wires d) \<and>
     (\<forall>b. b \<noteq> a \<longrightarrow> wheap (dm_wires d') b = wheap (dm_wires d) b) \<and> made_and_opened sy wd d w h d'"
proof -
  have none: "UpdateWireByUID (wd_LocalPodNetNs wd) (wd_LinkUid wd) i c (dm_wires d) = (None, dm_wires d)" for i
    using assms(2) by (simp add: UpdateWireByUID_def GetWire_def)
  obtain gn g' where gn: "GenNodeIfaceName (wd_LocalPodName wd) (wd_IntfNameInPod wd) (dm_index d) = (gn, g')" by fastforce
  with assms none obtain nm where nm: "gn = Inr nm"
    by (cases gn) (auto simp: CreateUpdateGRPCWireRemoteTriggered_def)
  let ?d1 = "d\<lparr>dm_index := g'\<rparr>"
  obtain cn w1 where cn: "run_state (GetCurrentNS (sy_net sy)) (dm_world d) = (cn, w1)" by fastforce
  with assms none gn nm obtain ns where ns: "cn = Inr ns"
    by (cases cn) (auto simp: CreateUpdateGRPCWireRemoteTriggered_def)
  obtain v where v: "remote_veth (sy_net sy) wd = Inr v"
    using assms none gn nm cn ns
    by (cases "remote_veth (sy_net sy) wd") (auto simp: CreateUpdateGRPCWireRemoteTriggered_def)
  let ?d2 = "?d1\<lparr>dm_world := w1\<rparr>"
  obtain es d3 where es: "run_state (ensureNoStaleRemoteEnd sy v wd) ?d2 = (es, d3)" by fastforce
  obtain w3 where d3: "d3 = ?d2\<lparr>dm_world := w3\<rparr>" using ensure_frame [OF es] by blast
  have esn: "es = None" using assms none gn nm cn ns v es
    by (cases es) (auto simp: CreateUpdateGRPCWireRemoteTriggered_def)
  obtain em w4 where em: "run_state (MakeVeth (sy_net sy) (sy_os sy) v
      \<lparr>ve_NsName = ns_Path ns, ve_LinkName = nm, ve_IPAddr = [], ve_MTU = 0\<rparr>) w3 = (em, w4)" by fastforce
  have emn: "em = None" using assms none gn nm cn ns v es esn d3 em
    by (cases em) (auto simp: CreateUpdateGRPCWireRemoteTriggered_def)
  obtain et w5 where et: "run_state (SetTxChecksumOff (sy_net sy) (ve_LinkName v) (ve_NsName v)) w4 = (et, w5)" by fastforce
  have "run_state (file_remote_wire sy wd c nm) (d\<lparr>dm_index := g', dm_world := w5\<rparr>) = (Inr a, d')"
    using assms none gn nm cn ns v es esn d3 em emn et
    by (simp add: CreateUpdateGRPCWireRemoteTriggered_def)
  from file_remote_run [OF this] obtain w h x er where
    f: "filed_wire d' a wd c w h" "dm_threads d' = dm_threads d" "chclosed (dm_wires d') = chclosed (dm_wires d)"
      "\<forall>b. b \<noteq> a \<longrightarrow> wheap (dm_wires d') b = wheap (dm_wires d) b" "dm_index d' = g'"
    and o: "opened_on sy nm w5 w h x" "run_state (K8sStoreGWire (sy_lib sy) (sy_os sy) (sy_kube sy) w) x = (er, dm_world d')"
    by auto
  have "made_and_opened sy wd d w h d'" unfolding made_and_opened_def
    using gn nm v em emn et o f(5) by blast
  with f show ?thesis by blast
qed

lemma add_remote_run:
  assumes "run_state (AddGRPCWireRemote sy wd) d = ((resp, None), d')"
    and "GetWire (wd_LocalPodNetNs wd) (wd_LinkUid wd) (dm_wires d) = None"
  shows "\<exists>a w h. filed_wire d' a wd (chnext (dm_wires d)) w h \<and> chclosed (dm_wires d') = chclosed (dm_wires d) \<and>
     dm_threads d' = dm_threads d @ [(a, gw_LocalNodeIfaceName w)] \<and>
     resp = \<lparr>wcr_Response = True, wcr_PeerIntfId = gw_LocalNodeIfaceID w\<rparr> \<and>
     (\<forall>b. b \<noteq> a \<longrightarrow> wheap (dm_wires d') b = wheap (dm_wires d) b) \<and> made_and_opened sy wd d w h d'"
proof -
  let ?c = "chnext (dm_wires d)" and ?d0 = "d\<lparr>dm_wires := (dm_wires d)\<lparr>chnext := Suc (chnext (dm_wires d))\<rparr>\<rparr>"
  obtain r d1 where r: "run_state (CreateUpdateGRPCWireRemoteTriggered sy wd ?c) ?d0 = (r, d1)" by fastforce
  obtain a where a: "r = Inr a"
    using assms(1) r by (cases r) (auto simp: AddGRPCWireRemote_def make_chan_def)
  have "GetWire (wd_LocalPodNetNs wd) (wd_LinkUid wd) (dm_wires ?d0) = None" using assms(2) by (simp add: GetWire_def)
  from create_remote_run [OF r [unfolded a] this] obtain w h where
    f: "filed_wire d1 a wd ?c w h" "dm_threads d1 = dm_threads d" "chclosed (dm_wires d1) = chclosed (dm_wires d)"
      "\<forall>b. b \<noteq> a \<longrightarrow> wheap (dm_wires d1) b = wheap (dm_wires d) b" "made_and_opened sy wd ?d0 w h d1" by auto
  have d': "d' = d1\<lparr>dm_threads := dm_threads d @ [(a, gw_LocalNodeIfaceName w)]\<rparr>"
    "resp = \<lparr>wcr_Response = True, wcr_PeerIntfId = gw_LocalNodeIfaceID w\<rparr>"
    using assms(1) r a f by (simp_all add: AddGRPCWireRemote_def make_chan_def wire_of_def wire_at_def filed_wire_def start_thread_def)
  have "filed_wire d' a wd ?c w h" "made_and_opened sy wd d w h d'"
    using f(1,5) d' by (simp_all add: filed_wire_def made_and_opened_def)
  then show ?thesis using d' f(3,4) by (intro exI conjI) simp_all
qed

lemma filed_wire_sends:
  assumes "filed_wire d a wd c w h"
  shows "run_state (SendToOnce sy \<lparr>pkt_RemotIntfId = gw_LocalNodeIfaceID w, pkt_Frame = frame\<rparr>) d =
    run_state (lift (PcapWrite (sy_net sy) h frame) \<bind> (\<lambda>e. return (bool_reply e))) d"
  using assms by (simp add: SendToOnce_def GetHostIntfHndl_def filed_wire_def)

text \<open>
  C18: When the daemon accepts a peer's request for a link it does not know, the wire is
  filed under the pod's namespace and link id, ready, with the peer's interface id and a
  stop channel that no other wire has and nobody has closed; one receive thread was
  started for it; and a packet sent for the interface id in the answer is written, unchanged,
  to the handle that was opened on the node's end of the pair made for that wire, under the
  name generated for the pod's interface.
\<close>

theorem accepted_remote_wire_carries_packets:
  assumes "run_state (AddGRPCWireRemote sy wd) d = ((resp, None), d')"
    and "GetWire (wd_LocalPodNetNs wd) (wd_LinkUid wd) (dm_wires d) = None"
    and "\<forall>c \<in> chclosed (dm_wires d). c < chnext (dm_wires d)"
    and "\<forall>b x. wheap (dm_wires d) b = Some x \<longrightarrow> gw_StopC x < chnext (dm_wires d)"
  shows "\<exists>a w h. filed_wire d' a wd (chnext (dm_wires d)) w h \<and> chnext (dm_wires d) \<notin> chclosed (dm_wires d') \<and>
     (\<forall>b x. wheap (dm_wires d') b = Some x \<and> b \<noteq> a \<longrightarrow> gw_StopC x \<noteq> gw_StopC w) \<and>
     made_and_opened sy wd d w h d' \<and> dm_threads d' = dm_threads d @ [(a, gw_LocalNodeIfaceName w)] \<and>
     resp = \<lparr>wcr_Response = True, wcr_PeerIntfId = gw_LocalNodeIfaceID w\<rparr> \<and>
     run_state (SendToOnce sy \<lparr>pkt_RemotIntfId = wcr_PeerIntfId resp, pkt_Frame = frame\<rparr>) d' =
       run_state (lift (PcapWrite (sy_net sy) h frame) \<bind> (\<lambda>e. return (bool_reply e))) d'"
proof -
  from add_remote_run [OF assms(1,2)] obtain a w h where
    f: "filed_wire d' a wd (chnext (dm_wires d)) w h" "chclosed (dm_wires d') = chclosed (dm_wires d)"
      "dm_threads d' = dm_threads d @ [(a, gw_LocalNodeIfaceName w)]"
      "resp = \<lparr>wcr_Response = True, wcr_PeerIntfId = gw_LocalNodeIfaceID w\<rparr>"
      "\<forall>b. b \<noteq> a \<longrightarrow> wheap (dm_wires d') b = wheap (dm_wires d) b" "made_and_opened sy wd d w h d'" by blast
  have "chnext (dm_wires d) \<notin> chclosed (dm_wires d')" using assms(3) f(2) by auto
  moreover have "gw_StopC x \<noteq> gw_StopC w" if "wheap (dm_wires d') b = Some x" "b \<noteq> a" for b x
    using that f(1,5) assms(4) by (auto simp: filed_wire_def dest: less_imp_neq)
  ultimately show ?thesis using f(1-4,6) filed_wire_sends [OF f(1), of sy frame] by (intro exI conjI) auto
qed

lemma ref_set_veth: "\<exists>w'. run_state (SetVethLink ref_net os v l) w = (None, w')"
  if "ve_IPAddr v = []" "ve_NsName v \<noteq> ''''" for os :: "'w os_env" and w :: 'w
  using that
  by (simp add: SetVethLink_def set_link_body_def open_ns_def ns_Do_def as_err_def split: prod.split)

lemma ref_make_veth: "\<exists>w'. run_state (MakeVeth ref_net os v1 v2) w = (None, w')"
  if v: "ve_IPAddr v1 = []" "ve_NsName v1 \<noteq> ''''" "ve_IPAddr v2 = []" "ve_NsName v2 \<noteq> ''''"
  for os :: "'w os_env" and w :: 'w
proof -
  obtain nm where r: "run_state (getRandomIFName ref_net) w = (nm, w)" for w :: 'w
    by (simp add: getRandomIFName_def)
  obtain l1 l2 where p: "run_state (GetVethPair ref_net nm nm (ve_MTU v1)) w = (Inr (l1, l2), w)"
    by (simp add: GetVethPair_def makeVethPair_def)
  obtain w1 where w1: "run_state (SetVethLink ref_net os v1 l1) w = (None, w1)" using ref_set_veth [OF v(1,2), of os l1 w] by blast
  obtain w2 where w2: "run_state (SetVethLink ref_net os v2 l2) w1 = (None, w2)" using ref_set_veth [OF v(3,4), of os l2 w1] by blast
  show ?thesis using v p w1 w2 by (simp add: MakeVeth_def r)
qed

lemma ref_remove_veth: "ve_NsName v \<noteq> '''' \<Longrightarrow> run_state (RemoveVethLink ref_net v) w = (None, w)"
  by (simp add: RemoveVethLink_def remove_body_def open_ns_def ns_Do_def)

lemma ref_ensure:
  assumes "GetWire (wd_LocalPodNetNs wd) (wd_LinkUid wd) (dm_wires d) = None" "ve_NsName v \<noteq> ''''"
    and "a_gw (dm_world d) = []"
  shows "\<exists>w'. run_state (ensureNoStaleRemoteEnd (ref_sys demo_env) v wd) d = (None, d\<lparr>dm_world := w'\<rparr>)"
proof -
  have i: "run_state (inPodLinkInfo ref_net (ve_NsName v) (ve_LinkName v)) w = (Inr (True, True), w)" for w :: api
    using assms(2) by (simp add: inPodLinkInfo_def open_ns_def ns_Do_def)
  obtain w2 where q: "run_state (IsWireRecordedInDataStore ref_lib (ref_os demo_env) ref_kube True
      (wd_LocalPodNetNs wd) (wd_LinkUid wd)) (dm_world d) = (Inr False, w2)"
    using assms(3) by (simp add: IsWireRecordedInDataStore_def findNodeName_named [OF demo_node_named] named_def)
  have r: "run_state (RemoveVethLink ref_net \<lparr>ve_NsName = ve_NsName v, ve_LinkName = ve_LinkName v, ve_IPAddr = [], ve_MTU = 0\<rparr>) w2
      = (None, w2)" using assms(2) by (simp add: ref_remove_veth)
  show ?thesis using assms(1) i q r by (auto simp: ensureNoStaleRemoteEnd_def)
qed

lemma ref_file_remote: "\<exists>a d'. run_state (file_remote_wire (ref_sys env) wd c nm) d = (Inr a, d')"
  by (simp add: file_remote_wire_def alloc_wire_def new_wire_def AddWireInMemNDataStore_def AddInMemNDataStore_def
      wire_of_def split: prod.split)

lemma ref_add_remote:
  assumes "GetWire (wd_LocalPodNetNs wd) (wd_LinkUid wd) (dm_wires d) = None" "wd_LocalPodNetNs wd \<noteq> ''''"
    and "a_gw (dm_world d) = []" "wd_LocalPodIp wd = ''''"
  shows "\<exists>resp d'. run_state (AddGRPCWireRemote (ref_sys demo_env) wd) d = ((resp, None), d')"
proof -
  let ?d = "d\<lparr>dm_wires := (dm_wires d)\<lparr>chnext := Suc (chnext (dm_wires d))\<rparr>\<rparr>"
  let ?v = "\<lparr>ve_NsName = wd_LocalPodNetNs wd, ve_LinkName = wd_IntfNameInPod wd, ve_IPAddr = [], ve_MTU = sint (wd_Mtu wd)\<rparr>"
  have v: "remote_veth (ref_net :: api net_env) wd = Inr ?v" using assms(4) by (simp add: remote_veth_def)
  have u: "UpdateWireByUID (wd_LocalPodNetNs wd) (wd_LinkUid wd) i c (dm_wires ?d) = (None, dm_wires ?d)" for i c
    using assms(1) by (simp add: UpdateWireByUID_def GetWire_def)
  obtain nm g where nm: "GenNodeIfaceName (wd_LocalPodName wd) (wd_IntfNameInPod wd) (dm_index d) = (Inr nm, g)"
    by (cases "NextIndex (dm_index d)") (simp add: GenNodeIfaceName_def Let_def)
  let ?d1 = "?d\<lparr>dm_index := g\<rparr>"
  have "GetWire (wd_LocalPodNetNs wd) (wd_LinkUid wd) (dm_wires ?d1) = None" using assms(1) by (simp add: GetWire_def)
  then obtain w1 where e: "run_state (ensureNoStaleRemoteEnd (ref_sys demo_env) ?v wd) ?d1 = (None, ?d1\<lparr>dm_world := w1\<rparr>)"
    using ref_ensure [of wd ?d1 ?v] assms(2,3) by auto
  obtain w2 where m: "run_state (MakeVeth (ref_net :: api net_env) (ref_os demo_env) ?v
      \<lparr>ve_NsName = ''/proc/1/ns/net'', ve_LinkName = nm, ve_IPAddr = [], ve_MTU = 0\<rparr>) w1 = (None, w2)"
    using ref_make_veth [of ?v "\<lparr>ve_NsName = ''/proc/1/ns/net'', ve_LinkName = nm, ve_IPAddr = [], ve_MTU = 0\<rparr>"
        "ref_os demo_env" w1] assms(2) by auto
  obtain et w3 where t: "run_state (SetTxChecksumOff (ref_net :: api net_env) (wd_IntfNameInPod wd) (wd_LocalPodNetNs wd)) w2 = (et, w3)"
    by fastforce
  obtain a d' where f: "run_state (file_remote_wire (ref_sys demo_env) wd (chnext (dm_wires d)) nm) (?d1\<lparr>dm_world := w3\<rparr>) = (Inr a, d')"
    using ref_file_remote by blast
  show ?thesis
    using u nm v e m t f by (simp add: AddGRPCWireRemote_def CreateUpdateGRPCWireRemoteTriggered_def make_chan_def wire_of_def start_thread_def)
qed

theorem accepted_remote_wire_carries_packets_witness:
  "\<exists>resp d' a w h. run_state (AddGRPCWireRemote (ref_sys demo_env) demo_def) demo_daemon = ((resp, None), d') \<and>
     filed_wire d' a demo_def 0 w h \<and> wcr_PeerIntfId resp = gw_LocalNodeIfaceID w"
proof -
  have un: "GetWire (wd_LocalPodNetNs demo_def) (wd_LinkUid demo_def) (dm_wires demo_daemon) = None"
    and ch: "\<forall>c \<in> chclosed (dm_wires demo_daemon). c < chnext (dm_wires demo_daemon)" "chnext (dm_wires demo_daemon) = 0"
      "\<forall>b x. wheap (dm_wires demo_daemon) b = Some x \<longrightarrow> gw_StopC x < chnext (dm_wires demo_daemon)"
    by (simp_all add: demo_daemon_def empty_wires_def GetWire_def)
  obtain resp d' where run: "run_state (AddGRPCWireRemote (ref_sys demo_env) demo_def) demo_daemon = ((resp, None), d')"
    using ref_add_remote [OF un] by (auto simp: demo_def_def zero_WireDef_def demo_daemon_def)
  from accepted_remote_wire_carries_packets [OF run un ch(1,3)] run ch(2) show ?thesis by fastforce
qed

end
