(* ===== verification/Node.thy ===== *)
theory Node
  imports Plugin Handler
begin

text \<open>
  One node: the plugin calling the daemon's handlers.  A gRPC call that answers an error
  gives the client that error, and a nil message without an error gives it the message
  whose fields are all zero.
\<close>

section \<open>The daemon as the plugin's local client\<close>

definition rpc_answer :: "'a \<Rightarrow> 'a option \<times> goerr option \<Rightarrow> 'a res" where
  "rpc_answer zero r = (case r of (m, Some e) \<Rightarrow> Inl e | (None, None) \<Rightarrow> Inr zero | (Some m, None) \<Rightarrow> Inr m)"

definition served :: "('s, 'a \<times> goerr option) io \<Rightarrow> ('s, 'a res) io" where
  "served m = do { r \<leftarrow> m; return (case r of (b, None) \<Rightarrow> Inr b | (b, Some e) \<Rightarrow> Inl e) }"

text \<open>
  \<open>fuel\<close> and \<open>ks\<close> are those of \<open>DeletePodWires\<close>; a call that has not ended is an error
  of the client.
\<close>

definition client_of :: "nat \<Rightarrow> 'w sys \<Rightarrow> linkKey list \<Rightarrow> 'w daemon local_client" where
  "client_of fuel sy ks =
     \<lparr>lc_Get = (\<lambda>q. do { r \<leftarrow> Get sy q; return (rpc_answer zero_Pod r) }),
      lc_SetAlive = (\<lambda>p. do { r \<leftarrow> served (lift (SetAlive (sy_lib sy) (sy_kube sy) p)); return (map_sum id Some r) }),
      lc_Skip = (\<lambda>q. do { r \<leftarrow> served (lift (Skip (sy_lib sy) (sy_kube sy) q)); return (map_sum id Some r) }),
      lc_SkipReverse = (\<lambda>q. served (lift (SkipReverse (sy_lib sy) (sy_kube sy) q))),
      lc_IsSkipped = (\<lambda>q. do { r \<leftarrow> lift (IsSkipped (sy_lib sy) (sy_kube sy) q); return (rpc_answer no_response r) }),
      lc_RemGRPCWire = (\<lambda>wd. do {
         r \<leftarrow> RemGRPCWire fuel sy ks wd;
         return (case r of None \<Rightarrow> Inl (Err ''still running'') | Some (b, None) \<Rightarrow> Inr b | Some (b, Some e) \<Rightarrow> Inl e) }),
      lc_AddGRPCWireLocal = (\<lambda>wd. served (AddGRPCWireLocal sy wd)),
      lc_GRPCWireExists = (\<lambda>wd. served (GRPCWireExists wd)),
      lc_GenerateNodeInterfaceName = (\<lambda>q. served (GenerateNodeInterfaceName q)),
      lc_RegisterVxlanLink = (\<lambda>v. served (RegisterVxlanLink v)),
      lc_UnregisterVxlanLink = (\<lambda>v. served (UnregisterVxlanLink (Some v)))\<rparr>"

lemma run_served [simp]:
  "run_state (served m) s = (case run_state m s of ((b, e), s') \<Rightarrow> (case e of None \<Rightarrow> Inr b | Some e \<Rightarrow> Inl e, s'))"
  by (auto simp: served_def split: prod.split option.split)

section \<open>No topology pod comes up unwired\<close>

lemma Get_not_found:
  assumes "topo_store (sy_lib sy) (sy_kube sy) st" "plain_slice_errors (sy_lib sy)"
    and "run_state (Get sy q) d = ((p, Some e), d')" "status_code e = NotFound"
  shows "st (dm_world d) (pq_KubeNs q) (pq_Name q) = None"
  using assms(3)
proof (cases rule: Get_cases)
  case (unread e0 w1)
  have g: "get_law (sy_lib sy) st (TopoGet (sy_kube sy))" using assms(1) by (simp add: topo_store_def)
  show ?thesis using unread assms(4) get_lawD(3) [OF g unread(1) [unfolded getPod_def], of e0]
    by (auto simp: status_get_pod_error split: if_splits)
next
  case (nolinks ob w1 v f)
  then show ?thesis using assms(2,4) unfolding plain_slice_errors_def by (metis grpc_code.distinct(5))
qed simp

lemma client_Get:
  "run_state (lc_Get (client_of f sy ks) q) d = (r, d') \<longleftrightarrow>
     (\<exists>m. run_state (Get sy q) d = (m, d') \<and> r = rpc_answer zero_Pod m)"
  by (auto simp: client_of_def split: prod.splits)

lemma client_SetAlive:
  "run_state (lc_SetAlive (client_of f sy ks) p) d = (Inr (Some b), d') \<longleftrightarrow>
     (\<exists>w. run_state (SetAlive (sy_lib sy) (sy_kube sy) p) (dm_world d) = ((b, None), w) \<and> d' = d\<lparr>dm_world := w\<rparr>)"
  by (auto simp: client_of_def split: prod.splits option.splits)

text \<open>
  C7: ADD reports success on a node whose plugin talks to this daemon only after this: the
  daemon was dialled; in a number of rounds, none of which returned, it was not ready; then, in
  the state \<open>d2\<close> that these rounds led to, it was asked for the pod and answered.  Either it
  answered that there is no such topology, and at that moment the API server held no topology
  object for the pod; nothing more was done than printing the result.  Or it answered without
  an error (a topology that names no links is the zero pod to the client), and from there on
  the daemon marked the pod alive and every link it had answered was handled without an error.
  A daemon that is not ready, or an API server that cannot be read, never lets a topology pod
  up unwired.
\<close>

theorem no_topology_pod_comes_up_unwired:
  assumes "topo_store (sy_lib sy) (sy_kube sy) st" "plain_slice_errors (sy_lib sy)"
    and "pl_local pl = client_of f sy ks"
    and "run_state (cmdAdd fuel pl args) d = (Some None, d')"
  shows "\<exists>n result k d0 now d1 i d2 d3 d4. loadConf (pl_cni pl) (ca_StdinData args) = Inr (n, result) \<and>
     LoadArgs (pl_cni pl) (ca_Args args) = Inr k \<and> run_state (pl_DialLocal pl) d = (None, d0) \<and>
     run_state (Now (pl_os pl)) d0 = (now, d1) \<and> i < fuel \<and>
     missed i (get_round pl (now + localDaemonReadyTimeout) \<lparr>pq_Name = K8S_POD_NAME k, pq_KubeNs = K8S_POD_NAMESPACE k\<rparr>) d1 d2 \<and>
     run_state (PrintResult (pl_cni pl) result (nc_CNIVersion n)) d4 = (None, d') \<and>
     ((\<exists>e. run_state (Get sy \<lparr>pq_Name = K8S_POD_NAME k, pq_KubeNs = K8S_POD_NAMESPACE k\<rparr>) d2 = ((None, Some e), d3) \<and>
         status_code e = NotFound \<and> st (dm_world d2) (K8S_POD_NAMESPACE k) (K8S_POD_NAME k) = None \<and> d4 = d3) \<or>
      (\<exists>m pod srcIP srcIntf d5 b w. run_state (Get sy \<lparr>pq_Name = K8S_POD_NAME k, pq_KubeNs = K8S_POD_NAMESPACE k\<rparr>) d2 = ((m, None), d3) \<and>
         pod = (case m of None \<Rightarrow> zero_Pod | Some p \<Rightarrow> p)\<lparr>pod_NetNs := ca_Netns args, pod_SrcIp := srcIP, pod_ContainerId := ca_ContainerID args\<rparr> \<and>
         run_state (getVxlanSource (pl_net pl) (pod_NodeIp pod) (pod_NodeIntf pod)) d3 = (Inr (srcIP, srcIntf), d5) \<and>
         run_state (SetAlive (sy_lib sy) (sy_kube sy) pod) (dm_world d5) = ((b, None), w) \<and> br_Response b \<and>
         run_state (add_links pl (K8S_POD_NAMESPACE k) (ca_Netns args) srcIntf pod (pod_Links pod)) (d5\<lparr>dm_world := w\<rparr>) = (None, d4)))"
proof -
  from add_run [OF assms(4)] obtain n result k d0 d1 now i d2 d3 d4 where
    k: "loadConf (pl_cni pl) (ca_StdinData args) = Inr (n, result)" "LoadArgs (pl_cni pl) (ca_Args args) = Inr k"
      "run_state (pl_DialLocal pl) d = (None, d0)" "run_state (Now (pl_os pl)) d0 = (now, d1)" "i < fuel"
      "missed i (get_round pl (now + localDaemonReadyTimeout) \<lparr>pq_Name = K8S_POD_NAME k, pq_KubeNs = K8S_POD_NAMESPACE k\<rparr>) d1 d2"
      "run_state (PrintResult (pl_cni pl) result (nc_CNIVersion n)) d4 = (None, d')"
    and c: "(\<exists>e. run_state (lc_Get (pl_local pl) \<lparr>pq_Name = K8S_POD_NAME k, pq_KubeNs = K8S_POD_NAMESPACE k\<rparr>) d2 = (Inl e, d3) \<and>
         status_code e = NotFound \<and> d4 = d3) \<or>
      (\<exists>pod. run_state (lc_Get (pl_local pl) \<lparr>pq_Name = K8S_POD_NAME k, pq_KubeNs = K8S_POD_NAMESPACE k\<rparr>) d2 = (Inr pod, d3) \<and>
         run_state (add_pod pl args (K8S_POD_NAMESPACE k) pod) d3 = (None, d4))" by blast
  let ?q = "\<lparr>pq_Name = K8S_POD_NAME k, pq_KubeNs = K8S_POD_NAMESPACE k\<rparr>"
  from c show ?thesis
  proof (elim disjE exE conjE)
    fix e
    assume e: "run_state (lc_Get (pl_local pl) ?q) d2 = (Inl e, d3)" "status_code e = NotFound" "d4 = d3"
    then obtain p where g: "run_state (Get sy ?q) d2 = ((p, Some e), d3)"
      by (auto simp: assms(3) client_Get rpc_answer_def split: prod.splits option.splits)
    moreover have "p = None" using g by (cases rule: Get_cases) simp_all
    moreover have "st (dm_world d2) (K8S_POD_NAMESPACE k) (K8S_POD_NAME k) = None"
      using Get_not_found [OF assms(1,2) g e(2)] by simp
    ultimately show ?thesis using k e(2,3) by blast
  next
    fix pod
    assume p: "run_state (lc_Get (pl_local pl) ?q) d2 = (Inr pod, d3)"
      and a: "run_state (add_pod pl args (K8S_POD_NAMESPACE k) pod) d3 = (None, d4)"
    from p obtain m where g: "run_state (Get sy ?q) d2 = ((m, None), d3)" "pod = (case m of None \<Rightarrow> zero_Pod | Some p \<Rightarrow> p)"
      by (auto simp: assms(3) client_Get rpc_answer_def split: prod.splits option.splits)
    from add_pod_run [OF a] g(1) k show ?thesis unfolding assms(3) client_SetAlive g(2) by fastforce
  qed
qed

section \<open>A peer without a topology stops DEL\<close>

lemma Get_absent:
  assumes "topo_store (sy_lib sy) (sy_kube sy) st" "st (dm_world d) (pq_KubeNs q) (pq_Name q) = None"
  shows "\<exists>e w. run_state (Get sy q) d = ((None, Some e), d\<lparr>dm_world := w\<rparr>) \<and> st w = st (dm_world d)"
proof -
  have g: "get_law (sy_lib sy) st (TopoGet (sy_kube sy))" using assms(1) by (simp add: topo_store_def)
  obtain r w where r: "run_state (getPod (sy_kube sy) (pq_Name q) (pq_KubeNs q)) (dm_world d) = (r, w)" by fastforce
  note law = get_lawD [OF g r [unfolded getPod_def]]
  obtain e where e: "r = Inl e" using law(2) assms(2) by (cases r) auto
  have "run_state (Get sy q) d = ((None, Some (get_pod_error q e)), d\<lparr>dm_world := w\<rparr>)" using r e by (simp add: Get_def)
  with law(1) show ?thesis by blast
qed

text \<open>Each of the links was taken down, one after the other, which led from \<open>d\<close> to \<open>d1\<close>.\<close>

primrec taken_down :: "'w plugin \<Rightarrow> string \<Rightarrow> string \<Rightarrow> string \<Rightarrow> Pod \<Rightarrow> Link list \<Rightarrow> 'w \<Rightarrow> 'w \<Rightarrow> bool" where
  "taken_down pl ns netns ip pod [] d d1 \<longleftrightarrow> d1 = d"
| "taken_down pl ns netns ip pod (l # ls) d d1 \<longleftrightarrow>
     (\<exists>d0. run_state (del_link pl ns netns ip pod l) d = (Inr (), d0) \<and> taken_down pl ns netns ip pod ls d0 d1)"

lemma del_links_append:
  "taken_down pl ns netns ip pod ls1 d d1 \<Longrightarrow>
     run_state (del_links pl ns netns ip pod (ls1 @ ls2)) d = run_state (del_links pl ns netns ip pod ls2) d1"
  by (induction ls1 arbitrary: d) auto

text \<open>
  C40: Once the links before it are down, deleting a pod stops at a link whose peer has no
  topology object, wherever it stands among the pod's links: the daemon answers the lookup with
  an error, the plugin drops it and dereferences the nil answer, and so panics.  The interface of that link and all
  links after it are left as they are: nothing but the lookup has happened since the links
  before it.  A macvlan link is always such a link unless there is a topology called
  \<open>localhost\<close>.
\<close>

theorem del_panics_on_unknown_peer:
  assumes "topo_store (sy_lib sy) (sy_kube sy) st" "pl_local pl = client_of f sy ks"
    and "taken_down pl ns netns srcIp localPod before d d1"
    and "st (dm_world d1) ns (lk_PeerPod l) = None"
  shows "\<exists>e w. run_state (Get sy \<lparr>pq_Name = lk_PeerPod l, pq_KubeNs = ns\<rparr>) d1 = ((None, Some e), d1\<lparr>dm_world := w\<rparr>) \<and>
     st w = st (dm_world d1) \<and>
     run_state (del_links pl ns netns srcIp localPod (before @ l # after)) d = (Some nil_peer, d1\<lparr>dm_world := w\<rparr>)"
proof -
  let ?q = "\<lparr>pq_Name = lk_PeerPod l, pq_KubeNs = ns\<rparr>"
  obtain e w where e: "run_state (Get sy ?q) d1 = ((None, Some e), d1\<lparr>dm_world := w\<rparr>)" "st w = st (dm_world d1)"
    using Get_absent [OF assms(1), of d1 ?q] assms(4) by auto
  have "run_state (lc_Get (pl_local pl) ?q) d1 = (Inl e, d1\<lparr>dm_world := w\<rparr>)"
    using e(1) by (simp add: assms(2) client_Get rpc_answer_def)
  then have "run_state (del_links pl ns netns srcIp localPod (l # after)) d1 = (Some nil_peer, d1\<lparr>dm_world := w\<rparr>)"
    by (simp add: del_link_def)
  then show ?thesis using e del_links_append [OF assms(3)] by metis
qed

text \<open>The plugin on a node whose daemon serves one topology; the pod \<open>z\<close> is not part of it.\<close>

definition stranger_plugin :: "api daemon plugin" where
  "stranger_plugin = \<lparr>pl_cni = demo_cni\<lparr>LoadArgs := (\<lambda>s. Inr \<lparr>K8S_POD_NAME = ''z'', K8S_POD_NAMESPACE = ''t'',
        K8S_POD_INFRA_CONTAINER_ID = ''c''\<rparr>)\<rparr>,
     pl_net = ref_net, pl_os = ref_os Map.empty, pl_rpc = ref_rpc, pl_DialLocal = return None,
     pl_local = client_of 1 fixed_sys [], pl_type = INTER_NODE_LINK_GRPC\<rparr>"

definition stranger_args :: CmdArgs where
  "stranger_args = \<lparr>ca_ContainerID = ''c'', ca_Netns = ''/ns/z'', ca_Args = '''', ca_StdinData = ''''\<rparr>"

lemma stranger_get:
  "\<exists>e d'. run_state (Get fixed_sys \<lparr>pq_Name = ''z'', pq_KubeNs = ''t''\<rparr>) (demo_cluster '''') = ((None, Some e), d') \<and>
     status_code e = NotFound"
  by (simp add: get_eval status_get_pod_error is_not_found_def)

lemma stranger_add:
  "\<exists>d'. run_state (cmdAdd 1 stranger_plugin stranger_args) (demo_cluster '''') = (Some None, d')"
proof -
  obtain e d' where g: "run_state (Get fixed_sys \<lparr>pq_Name = ''z'', pq_KubeNs = ''t''\<rparr>) (demo_cluster '''') = ((None, Some e), d')"
    and e: "status_code e = NotFound" using stranger_get by blast
  have "run_state (lc_Get (client_of 1 fixed_sys []) \<lparr>pq_Name = ''z'', pq_KubeNs = ''t''\<rparr>) (demo_cluster '''') = (Inl e, d')"
    using g by (simp add: client_of_def rpc_answer_def)
  then show ?thesis using e
    by (simp add: cmdAdd_def stranger_plugin_def demo_cni_def loadConf_def getLocalPodWithRetry_def get_round_def ref_os_def)
qed

text \<open>A pod with a macvlan link before an ordinary one.\<close>

definition macvlan_link :: Link where
  "macvlan_link = \<lparr>lk_PeerPod = localhost, lk_LocalIntf = ''eth1'', lk_PeerIntf = ''ens4'', lk_LocalIp = '''',
     lk_PeerIp = '''', lk_Uid = 3, lk_Mtu = 0\<rparr>"

theorem del_panics_on_unknown_peer_witness:
  "\<exists>w. run_state (del_links stranger_plugin ''t'' ''/ns/a'' ''10.0.0.1'' zero_Pod
     ([] @ macvlan_link # [macvlan_link\<lparr>lk_PeerPod := ''a''\<rparr>])) (demo_cluster '''') = (Some nil_peer, (demo_cluster '''')\<lparr>dm_world := w\<rparr>)"
proof -
  have laws: "topo_store (sy_lib fixed_sys) (sy_kube fixed_sys) topo_of" "pl_local stranger_plugin = client_of 1 fixed_sys []"
    using fixed_topo_store by (simp_all add: fixed_sys_def stranger_plugin_def)
  have none: "taken_down stranger_plugin ''t'' ''/ns/a'' ''10.0.0.1'' zero_Pod [] (demo_cluster '''') (demo_cluster '''')"
    by simp
  have "topo_of (dm_world (demo_cluster '''')) ''t'' (lk_PeerPod macvlan_link) = None"
    by (simp add: macvlan_link_def localhost_def demo_cluster_def topo_of_def)
  from del_panics_on_unknown_peer [OF laws none this] show ?thesis by blast
qed

theorem no_topology_pod_comes_up_unwired_witness:
  "\<exists>d' now d1 d2 m e d3. run_state (cmdAdd 1 stranger_plugin stranger_args) (demo_cluster '''') = (Some None, d') \<and>
     missed 0 (get_round stranger_plugin (now + localDaemonReadyTimeout) \<lparr>pq_Name = ''z'', pq_KubeNs = ''t''\<rparr>) d1 d2 \<and>
     run_state (Get fixed_sys \<lparr>pq_Name = ''z'', pq_KubeNs = ''t''\<rparr>) d2 = ((m, e), d3) \<and>
     (\<forall>x. e = Some x \<longrightarrow> status_code x = NotFound \<and> topo_of (dm_world d2) ''t'' ''z'' = None)"
proof -
  obtain d' where run: "run_state (cmdAdd 1 stranger_plugin stranger_args) (demo_cluster '''') = (Some None, d')"
    using stranger_add by blast
  have laws: "topo_store (sy_lib fixed_sys) (sy_kube fixed_sys) topo_of" "plain_slice_errors (sy_lib fixed_sys)"
    "pl_local stranger_plugin = client_of 1 fixed_sys []"
    using fixed_topo_store ref_plain_errors by (simp_all add: fixed_sys_def stranger_plugin_def)
  have args: "LoadArgs (pl_cni stranger_plugin) (ca_Args stranger_args) = Inr k \<Longrightarrow>
      K8S_POD_NAME k = ''z'' \<and> K8S_POD_NAMESPACE k = ''t''" for k by (auto simp: stranger_plugin_def)
  from no_topology_pod_comes_up_unwired [OF laws run] obtain k now d1 i d2 d3 where
    k: "LoadArgs (pl_cni stranger_plugin) (ca_Args stranger_args) = Inr k" and i: "i < (1::nat)"
    and m: "missed i (get_round stranger_plugin (now + localDaemonReadyTimeout)
        \<lparr>pq_Name = K8S_POD_NAME k, pq_KubeNs = K8S_POD_NAMESPACE k\<rparr>) d1 d2"
    and c: "(\<exists>e. run_state (Get fixed_sys \<lparr>pq_Name = K8S_POD_NAME k, pq_KubeNs = K8S_POD_NAMESPACE k\<rparr>) d2 = ((None, Some e), d3) \<and>
          status_code e = NotFound \<and> topo_of (dm_world d2) (K8S_POD_NAMESPACE k) (K8S_POD_NAME k) = None) \<or>
        (\<exists>m. run_state (Get fixed_sys \<lparr>pq_Name = K8S_POD_NAME k, pq_KubeNs = K8S_POD_NAMESPACE k\<rparr>) d2 = ((m, None), d3))"
    by blast
  have "i = 0" using i by simp
  then show ?thesis using run m c unfolding args [OF k, THEN conjunct1] args [OF k, THEN conjunct2] by blast
qed

end
