(* ===== verification/Cluster.thy ===== *)
theory Cluster
  imports Node
begin

text \<open>
  Two nodes.  Node \<open>a\<close>'s daemon runs in a world that contains node \<open>b\<close>'s daemon: the
  remote calls that \<open>a\<close>'s plugin and daemon make for \<open>b\<close>'s address run \<open>b\<close>'s handlers.
  The end-to-end properties of a grpc wire are proved over this composition.
\<close>

section \<open>What the calls of one node leave alone\<close>

definition retry_keeps :: "('s \<Rightarrow> 's \<Rightarrow> bool) \<Rightarrow> 's kube_env \<Rightarrow> bool" where
  "retry_keeps R k \<longleftrightarrow> (\<forall>fn. keeps R fn \<longrightarrow> keeps R (RetryOnConflict k fn))"

definition topo_keeps :: "('s \<Rightarrow> 's \<Rightarrow> bool) \<Rightarrow> 's kube_env \<Rightarrow> bool" where
  "topo_keeps R k \<longleftrightarrow>
     (\<forall>ns n. keeps R (TopoGet k ns n)) \<and> (\<forall>ns ob. keeps R (TopoUpdateStatus k ns ob)) \<and> retry_keeps R k"

definition gw_keeps :: "('s \<Rightarrow> 's \<Rightarrow> bool) \<Rightarrow> 's kube_env \<Rightarrow> bool" where
  "gw_keeps R k \<longleftrightarrow>
     (\<forall>n. keeps R (GwList k n)) \<and> (\<forall>ns n. keeps R (GwGet k ns n)) \<and>
     (\<forall>ns ob. keeps R (GwCreate k ns ob)) \<and> (\<forall>ns ob. keeps R (GwUpdate k ns ob)) \<and> retry_keeps R k"

definition kube_keeps :: "('s \<Rightarrow> 's \<Rightarrow> bool) \<Rightarrow> 's kube_env \<Rightarrow> bool" where
  "kube_keeps R k \<longleftrightarrow> topo_keeps R k \<and> gw_keeps R k"

lemmas kube_keeps_defs = kube_keeps_def topo_keeps_def gw_keeps_def retry_keeps_def

lemma kube_keepsD: "kube_keeps R k \<Longrightarrow> topo_keeps R k" "kube_keeps R k \<Longrightarrow> gw_keeps R k"
  by (simp_all add: kube_keeps_def)

context frame
begin

lemma keeps_bool [intro!]: "(b \<Longrightarrow> keeps R m) \<Longrightarrow> (\<not> b \<Longrightarrow> keeps R n) \<Longrightarrow> keeps R (case b of True \<Rightarrow> m | False \<Rightarrow> n)"
  by (cases b) simp_all

lemma keeps_findNodeName: "os_keeps R os \<Longrightarrow> keeps R (findNodeName os)"
  unfolding findNodeName_def os_keeps_def by (intro keeps_return keeps_bind keeps_if keeps_option) auto

lemma keeps_K8sStoreGWire:
  assumes "os_keeps R os" "gw_keeps R k"
  shows "keeps R (K8sStoreGWire u os k w)"
proof -
  have n: "\<And>ns n. keeps R (GwGet k ns n)" "\<And>ns ob. keeps R (GwCreate k ns ob)" "\<And>ns ob. keeps R (GwUpdate k ns ob)"
    "\<And>fn. keeps R fn \<Longrightarrow> keeps R (RetryOnConflict k fn)"
    using assms(2) by (simp_all add: gw_keeps_def retry_keeps_def)
  note rules = n keeps_findNodeName [OF assms(1)]
  have "keeps R (CreateGWireStatInDS u k ws)" for ws
    unfolding CreateGWireStatInDS_def Let_def by (intro keeps_bind keeps_sum keeps_if keeps_as_err keeps_return rules)
  note rules = rules this
  have "keeps R (update_attempt u k ws)" for ws
    unfolding update_attempt_def GetWireObjGrpUS_def
    by (intro keeps_bind keeps_sum keeps_if keeps_option keeps_prod keeps_as_err keeps_return rules)
  then show ?thesis unfolding K8sStoreGWire_def updateGRPCWireStatus_def
    by (intro keeps_bind keeps_sum keeps_return rules)
qed

end

text \<open>The wires of a daemon; and the wires of a daemon and of the one in its world.\<close>

definition same_wires :: "'w daemon \<Rightarrow> 'w daemon \<Rightarrow> bool" where
  "same_wires d d' \<longleftrightarrow> dm_wires d' = dm_wires d"

definition calm :: "'w daemon daemon \<Rightarrow> 'w daemon daemon \<Rightarrow> bool" where
  "calm d d' \<longleftrightarrow> same_wires d d' \<and> same_wires (dm_world d) (dm_world d')"

interpretation peer: frame same_wires
  by unfold_locales (auto simp: same_wires_def)

interpretation pair: frame calm
  by unfold_locales (auto simp: calm_def same_wires_def)

text \<open>Selecting from an update of the world, also when the world is itself a daemon.\<close>

lemma dm_world_update_simps [simp]:
  "dm_wires (dm_world_update f d) = dm_wires d" "dm_index (dm_world_update f d) = dm_index d"
  "dm_links (dm_world_update f d) = dm_links d" "dm_echo (dm_world_update f d) = dm_echo d"
  "dm_ips (dm_world_update f d) = dm_ips d" "dm_threads (dm_world_update f d) = dm_threads d"
  "dm_carrier (dm_world_update f d) = dm_carrier d" "dm_world (dm_world_update f d) = f (dm_world d)"
  "dm_world (dm_wires_update g1 d) = dm_world d" "dm_world (dm_index_update g2 d) = dm_world d"
  "dm_world (dm_links_update g3 d) = dm_world d" "dm_world (dm_echo_update g4 d) = dm_world d"
  "dm_world (dm_threads_update g5 d) = dm_world d"
  by (cases d; simp)+

lemma keeps_lift: "keeps same_wires m \<Longrightarrow> keeps calm (lift m)"
  unfolding keeps_def
proof (intro allI impI)
  fix s r s'
  assume m: "\<forall>s r s'. run_state m s = (r, s') \<longrightarrow> same_wires s s'" and "run_state (lift m) s = (r, s')"
  then obtain w where w: "run_state m (dm_world s) = (r, w)" "s' = s\<lparr>dm_world := w\<rparr>" by (auto split: prod.splits)
  with m have "same_wires (dm_world s) w" by blast
  with w(2) show "calm s s'" by (simp add: calm_def same_wires_def)
qed

section \<open>The plugin of a node\<close>

definition lift_net :: "'w net_env \<Rightarrow> 'w daemon net_env" where
  "lift_net nt =
     \<lparr>GetCurrentNS = lift (GetCurrentNS nt), GetNS = (\<lambda>p. lift (GetNS nt p)), EnterNS = (\<lambda>n. lift (EnterNS nt n)),
      LinkByName = (\<lambda>c n. lift (LinkByName nt c n)), LinkByIndex = (\<lambda>c i. lift (LinkByIndex nt c i)),
      LinkAdd = (\<lambda>c l. lift (LinkAdd nt c l)), LinkDel = (\<lambda>c l. lift (LinkDel nt c l)),
      LinkSetNsFd = (\<lambda>l f. lift (LinkSetNsFd nt l f)), LinkSetName = (\<lambda>c l n. lift (LinkSetName nt c l n)),
      LinkSetUp = (\<lambda>c l. lift (LinkSetUp nt c l)), LinkSetDown = (\<lambda>c l. lift (LinkSetDown nt c l)),
      AddrAdd = (\<lambda>c l a. lift (AddrAdd nt c l a)), Sysctl = (\<lambda>c n v. lift (Sysctl nt c n v)),
      NewHandle = (\<lambda>c. lift (NewHandle nt c)), Interfaces = lift (Interfaces nt), RouteGet = (\<lambda>a. lift (RouteGet nt a)),
      RandomUint32 = lift (RandomUint32 nt), EthtoolOpen = (\<lambda>c. lift (EthtoolOpen nt c)),
      EthtoolChange = (\<lambda>c n f. lift (EthtoolChange nt c n f)), PcapOpenLive = (\<lambda>n. lift (PcapOpenLive nt n)),
      PcapSetDirectionIn = (\<lambda>h. lift (PcapSetDirectionIn nt h)), PcapWrite = (\<lambda>h f. lift (PcapWrite nt h f)),
      ParseIP = ParseIP nt, IPString = IPString nt, ParseCIDR = ParseCIDR nt\<rparr>"

definition lift_os :: "'w os_env \<Rightarrow> 'w daemon os_env" where
  "lift_os os = \<lparr>LookupEnv = LookupEnv os, Hostname = lift (Hostname os), Now = lift (Now os),
     Sleep = (\<lambda>t. lift (Sleep os t)), ReadFile = (\<lambda>f. lift (ReadFile os f))\<rparr>"

definition lift_rpc :: "'w rpc_env \<Rightarrow> 'w daemon rpc_env" where
  "lift_rpc r = \<lparr>Dial = (\<lambda>u. lift (Dial r u)), RemUpdate = (\<lambda>u x. lift (RemUpdate r u x)),
     RemAddGRPCWireRemote = (\<lambda>u x. lift (RemAddGRPCWireRemote r u x)),
     RemGRPCWireDownRemote = (\<lambda>u x. lift (RemGRPCWireDownRemote r u x)),
     RemSetPeerLinkState = (\<lambda>u x. lift (RemSetPeerLinkState r u x)),
     RemSendToOnce = (\<lambda>u x. lift (RemSendToOnce r u x))\<rparr>"

text \<open>A plugin beside the daemon: the same kernel and network, the daemon's handlers as the local client.\<close>

definition node_plugin :: "'w daemon cni_lib \<Rightarrow> string \<Rightarrow> nat \<Rightarrow> 'w sys \<Rightarrow> linkKey list \<Rightarrow> 'w daemon plugin" where
  "node_plugin cni typ fuel sy ks =
     \<lparr>pl_cni = cni, pl_net = lift_net (sy_net sy), pl_os = lift_os (sy_os sy), pl_rpc = lift_rpc (sy_rpc sy),
      pl_DialLocal = return None, pl_local = client_of fuel sy ks, pl_type = typ\<rparr>"

lemma lift_net_keeps: "net_keeps same_wires nt \<Longrightarrow> net_keeps calm (lift_net nt)"
  unfolding net_keeps_def lift_net_def by (simp add: keeps_lift)

lemma lift_os_keeps: "os_keeps same_wires os \<Longrightarrow> os_keeps calm (lift_os os)"
  unfolding os_keeps_def lift_os_def by (simp add: keeps_lift)

section \<open>The peer's daemon as a remote server\<close>

definition no_peer :: goerr where "no_peer = Status Unavailable ''connection refused''"

definition daemon_rpc :: "'w sys \<Rightarrow> linkKey list \<Rightarrow> vxKey list \<Rightarrow> string \<Rightarrow> 'w daemon rpc_env" where
  "daemon_rpc sy ks vks url =
     \<lparr>Dial = (\<lambda>u. return None),
      RemUpdate = (\<lambda>u x. if u = url then (do { r \<leftarrow> served (Update_vxlan sy x); return (map_sum id Some r) }) else return (Inl no_peer)),
      RemAddGRPCWireRemote = (\<lambda>u x. if u = url then served (AddGRPCWireRemote sy x) else return (Inl no_peer)),
      RemGRPCWireDownRemote = (\<lambda>u x. if u = url then served (GRPCWireDownRemote x) else return (Inl no_peer)),
      RemSetPeerLinkState = (\<lambda>u x. if u = url then (do { r \<leftarrow> served (SetPeerLinkState sy ks vks x); return (map_sum id Some r) }) else return (Inl no_peer)),
      RemSendToOnce = (\<lambda>u x. if u = url then served (SendToOnce sy x) else return (Inl no_peer))\<rparr>"


section \<open>Filing the local end\<close>

text \<open>An interface keeps its index: every lookup of the name answers the same one.\<close>

definition index_law :: "'w net_env \<Rightarrow> (string \<Rightarrow> int) \<Rightarrow> bool" where
  "index_law nt ix \<longleftrightarrow> (\<forall>n w l w'. run_state (LinkByName nt CurrentNs n) w = (Inr l, w') \<longrightarrow> nl_Index l = ix n)"

context frame
begin

lemma add_local_run:
  fixes d :: "'s daemon"
  assumes "net_keeps R (sy_net sy)" "os_keeps R (sy_os sy)" "kube_keeps R (sy_kube sy)" "index_law (sy_net sy) ix"
    and "run_state (AddGRPCWireLocal sy wd) d = ((br, None), d')"
  shows "\<exists>a w h. filed_wire d' a wd (chnext (dm_wires d)) w h \<and> R (dm_world d) (dm_world d') \<and>
     gw_LocalNodeIfaceID w = word_of_int (ix (wd_WireIfNameOnLocalNode wd))"
proof -
  let ?nm = "wd_WireIfNameOnLocalNode wd"
  obtain l w1 where l: "run_state (LinkByName (sy_net sy) CurrentNs ?nm) (dm_world d) = (l, w1)" by fastforce
  with assms(5) obtain loc where loc: "l = Inr loc"
    by (cases l) (auto simp: AddGRPCWireLocal_def CreateGRPCWireLocal_def)
  obtain et w2 where t: "run_state (SetTxChecksumOff (sy_net sy) (wd_IntfNameInPod wd) (wd_LocalPodNetNs wd)) w1 = (et, w2)"
    by fastforce
  obtain p w3 where p: "run_state (PcapOpenLive (sy_net sy) ?nm) w2 = (p, w3)" by fastforce
  with assms(5) l loc t obtain h where h: "p = Inr h"
    by (cases p) (auto simp: AddGRPCWireLocal_def CreateGRPCWireLocal_def)
  let ?w = "(CreateGWire (word_of_int (nl_Index loc)) ?nm (chnext (dm_wires d)) wd)
    \<lparr>gw_IsReady := True, gw_Originator := HOST_CREATED_WIRE, gw_OriginatorIP := ''unknown''\<rparr>"
  obtain es w4 where s: "run_state (K8sStoreGWire (sy_lib sy) (sy_os sy) (sy_kube sy) ?w) w3 = (es, w4)" by fastforce
  have k: "\<And>n. keeps R (LinkByName (sy_net sy) CurrentNs n)" "\<And>n. keeps R (PcapOpenLive (sy_net sy) n)"
    using assms(1) by (simp_all add: net_keeps_def)
  have "R (dm_world d) w1" "R w1 w2" "R w2 w3" "R w3 w4"
    using keepsD [OF k(1) l] keepsD [OF keeps_SetTxChecksumOff [OF assms(1)] t] keepsD [OF k(2) p]
      keepsD [OF keeps_K8sStoreGWire [OF assms(2) kube_keepsD(2) [OF assms(3)]] s] by auto
  then have R: "R (dm_world d) w4" using trans_R by blast
  have ix: "nl_Index loc = ix ?nm" using assms(4) l loc unfolding index_law_def by blast
  have w: "dm_world d' = w4" and "\<exists>a. filed_wire d' a wd (chnext (dm_wires d)) ?w h"
    using assms(5) l loc t p h s
    by (auto simp: AddGRPCWireLocal_def CreateGRPCWireLocal_def alloc_wire_def new_wire_def make_chan_def
        AddWireInMemNDataStore_def AddInMemNDataStore_def wire_of_def wire_at_def upd_wire_def start_thread_def
        filed_wire_def CreateGWire_def key_of_def GetWire_def GetHandle_def split: prod.splits)
  then obtain a where "filed_wire d' a wd (chnext (dm_wires d)) ?w h" by blast
  moreover have "gw_LocalNodeIfaceID ?w = word_of_int (ix ?nm)" using ix by (simp add: CreateGWire_def)
  ultimately show ?thesis using R w by blast
qed

end


section \<open>Joining the two ends\<close>

text \<open>
  \<open>wire_end d ns uid peerIp w h\<close>: daemon \<open>d\<close> has a ready wire for the link, with the peer's
  address, and the handle \<open>h\<close> for the interface on its node.
\<close>

definition wire_end :: "'w daemon \<Rightarrow> string \<Rightarrow> int64 \<Rightarrow> string \<Rightarrow> nat \<Rightarrow> GRPCWire \<Rightarrow> nat \<Rightarrow> bool" where
  "wire_end d ns uid peerIp a w h \<longleftrightarrow>
     GetWire ns uid (dm_wires d) = Some a \<and> wheap (dm_wires d) a = Some w \<and> gw_IsReady w \<and>
     gw_PeerNodeIP w = peerIp \<and> GetHandle (gw_LocalNodeIfaceID w) (dm_wires d) = Some h"

definition crossed :: "GRPCWire \<Rightarrow> GRPCWire \<Rightarrow> bool" where
  "crossed w w' \<longleftrightarrow> gw_WireIfaceIDOnPeerNode w = gw_LocalNodeIfaceID w' \<and>
     gw_WireIfaceIDOnPeerNode w' = gw_LocalNodeIfaceID w"

lemma wire_end_filed:
  "filed_wire d a wd c w h \<Longrightarrow> wire_end d (wd_LocalPodNetNs wd) (wd_LinkUid wd) (wd_PeerNodeIp wd) a w h"
  by (simp add: filed_wire_def wire_end_def)

lemma wire_end_same: "same_wires d d' \<Longrightarrow> wire_end d' = wire_end d"
  by (simp add: wire_end_def same_wires_def fun_eq_iff)

lemma filed_wire_peer: "filed_wire d a wd c w h \<Longrightarrow> gw_WireIfaceIDOnPeerNode w = wd_WireIfIdOnPeerNode wd"
  by (simp add: filed_wire_def)

lemma node_plugin_simps [simp]:
  "pl_net (node_plugin cni t fuel sy ks) = lift_net (sy_net sy)" "pl_os (node_plugin cni t fuel sy ks) = lift_os (sy_os sy)"
  "pl_rpc (node_plugin cni t fuel sy ks) = lift_rpc (sy_rpc sy)" "pl_local (node_plugin cni t fuel sy ks) = client_of fuel sy ks"
  by (simp_all add: node_plugin_def)

text \<open>The part of the plugin's code that talks to both daemons.\<close>

lemma join_ends_run:
  assumes rpc: "sy_rpc sa = daemon_rpc sb kb vb (peer_url (pod_SrcIp peerPod))"
    and kept: "net_keeps same_wires (sy_net sa)" "os_keeps same_wires (sy_os sa)" "kube_keeps same_wires (sy_kube sa)"
    and ix: "index_law (sy_net sa) ix"
    and un: "GetWire (pod_NetNs peerPod) (lk_Uid link) (dm_wires (dm_world d)) = None"
    and run: "run_state (join_ends (node_plugin cni t fuel sa ks) link localPod peerPod nodeIntf mtu) d = (None, d')"
  shows "\<exists>a wa ha b wb hb. wire_end d' (pod_NetNs localPod) (lk_Uid link) (pod_SrcIp peerPod) a wa ha \<and>
     wire_end (dm_world d') (pod_NetNs peerPod) (lk_Uid link) (pod_SrcIp localPod) b wb hb \<and> crossed wa wb"
proof -
  let ?b = "dm_world d" and ?rd = "\<lambda>i. wire_def_remote link localPod peerPod i mtu"
    and ?ld = "\<lambda>i. wire_def_local link localPod peerPod nodeIntf i mtu"
  obtain l b1 where l: "run_state (LinkByName (sy_net sa) CurrentNs nodeIntf) ?b = (l, b1)" by fastforce
  obtain loc where loc: "l = Inr loc"
    using run rpc l by (cases l) (simp_all add: join_ends_def Let_def lift_rpc_def lift_net_def daemon_rpc_def)
  have "keeps same_wires (LinkByName (sy_net sa) CurrentNs nodeIntf)" using kept(1) by (simp add: net_keeps_def)
  from keepsD [OF this l] have b1: "same_wires ?b b1" .
  obtain resp e b2 where r: "run_state (AddGRPCWireRemote sb (?rd (nl_Index loc))) b1 = ((resp, e), b2)"
    by (metis prod.exhaust)
  have e: "e = None" "wcr_Response resp"
    using run rpc l loc r by (cases e; auto simp: join_ends_def Let_def lift_rpc_def lift_net_def daemon_rpc_def split: if_splits)+
  have "GetWire (wd_LocalPodNetNs (?rd (nl_Index loc))) (wd_LinkUid (?rd (nl_Index loc))) (dm_wires b1) = None"
    using un b1 by (simp add: wire_def_remote_def same_wires_def)
  from add_remote_run [OF r [unfolded e] this] obtain b wb hb where
    fb: "filed_wire b2 b (?rd (nl_Index loc)) (chnext (dm_wires b1)) wb hb" "wcr_PeerIntfId resp = gw_LocalNodeIfaceID wb" by auto
  let ?d2 = "d\<lparr>dm_world := b2\<rparr>"
  obtain br e2 d3 where ra: "run_state (AddGRPCWireLocal sa (?ld (gw_LocalNodeIfaceID wb))) ?d2 = ((br, e2), d3)"
    by (metis prod.exhaust)
  have e2: "e2 = None" "d' = d3"
    using run rpc l loc r e fb(2) ra
    by (cases e2; auto simp: join_ends_def Let_def lift_rpc_def lift_net_def daemon_rpc_def client_of_def split: if_splits)+
  from peer.add_local_run [OF kept ix ra [unfolded e2(1)]] obtain a wa ha where
    fa: "filed_wire d3 a (?ld (gw_LocalNodeIfaceID wb)) (chnext (dm_wires ?d2)) wa ha" "same_wires b2 (dm_world d3)"
      "gw_LocalNodeIfaceID wa = word_of_int (ix nodeIntf)" by (auto simp: wire_def_local_def zero_WireDef_def)
  have "nl_Index loc = ix nodeIntf" using ix l loc unfolding index_law_def by blast
  then have "crossed wa wb" using filed_wire_peer [OF fa(1)] filed_wire_peer [OF fb(1)] fa(3)
    by (simp add: crossed_def wire_def_local_def wire_def_remote_def)
  moreover have "wire_end d' (pod_NetNs localPod) (lk_Uid link) (pod_SrcIp peerPod) a wa ha"
    using wire_end_filed [OF fa(1)] e2(2) by (simp add: wire_def_local_def)
  moreover have "wire_end (dm_world d') (pod_NetNs peerPod) (lk_Uid link) (pod_SrcIp localPod) b wb hb"
    using wire_end_filed [OF fb(1)] wire_end_same [OF fa(2)] e2(2) by (simp add: wire_def_remote_def)
  ultimately show ?thesis by blast
qed


lemma create_wire_run:
  assumes kept: "net_keeps same_wires (sy_net sa)" "os_keeps same_wires (sy_os sa)"
    and un: "GetWire (pod_NetNs localPod) (lk_Uid link) (dm_wires d) = None"
    and run: "run_state (create_wire (node_plugin cni t fuel sa ks) link localPod peerPod) d = (None, d')"
  shows "\<exists>d1 nodeIntf mtu. calm d d1 \<and>
     run_state (join_ends (node_plugin cni t fuel sa ks) link localPod peerPod nodeIntf mtu) d1 = (None, d')"
proof -
  let ?pl = "node_plugin cni t fuel sa ks" and ?nt = "lift_net (sy_net sa)" and ?os = "lift_os (sy_os sa)"
  note nk = lift_net_keeps [OF kept(1)] and ok = lift_os_keeps [OF kept(2)]
  have ex: "run_state (lc_GRPCWireExists (client_of fuel sa ks) (wire_query localPod link)) d =
      (Inr \<lparr>wcr_Response = False, wcr_PeerIntfId = 0\<rparr>, d)"
    using un by (simp add: client_of_def GRPCWireExists_def wire_query_def zero_WireDef_def)
  obtain cn d1 where cn: "run_state (GetCurrentNS ?nt) d = (cn, d1)" by fastforce
  obtain ns where ns: "cn = Inr ns" using run ex cn by (cases cn) (simp_all add: create_wire_def)
  obtain mtu d2 where m: "run_state (linkMTU ?os (lk_Mtu link)) d1 = (mtu, d2)" by fastforce
  obtain v where v: "makeVeth ?nt (pod_NetNs localPod) (lk_LocalIntf link) (lk_LocalIp link) mtu = Inr v"
    using run ex cn ns m by (cases "makeVeth ?nt (pod_NetNs localPod) (lk_LocalIntf link) (lk_LocalIp link) mtu")
      (simp_all add: create_wire_def)
  obtain rn d3 where g: "run_state (lc_GenerateNodeInterfaceName (client_of fuel sa ks)
      \<lparr>gnr_PodIntfName = lk_LocalIntf link, gnr_PodName = pod_Name localPod\<rparr>) d2 = (rn, d3)" by fastforce
  obtain nm where nm: "rn = Inr nm" using run ex cn ns m v g by (cases rn) (simp_all add: create_wire_def)
  obtain em d4 where e: "run_state (MakeVeth ?nt ?os v
      \<lparr>ve_NsName = ns_Path ns, ve_LinkName = gns_NodeIntfName nm, ve_IPAddr = [], ve_MTU = 0\<rparr>) d3 = (em, d4)" by fastforce
  have j: "em = None" "run_state (join_ends ?pl link localPod peerPod (gns_NodeIntfName nm) mtu) d4 = (None, d')"
    using run ex cn ns m v g nm e by (cases em; simp add: create_wire_def)+
  have "keeps calm (GetCurrentNS ?nt)" using nk by (simp add: net_keeps_def)
  from keepsD [OF this cn] have c1: "calm d d1" .
  have "keeps calm (linkMTU ?os (lk_Mtu link))"
    unfolding linkMTU_def by (intro pair.keeps_if pair.keeps_return pair.keeps_bind pair.keeps_linkMTU_file ok)
  from keepsD [OF this m] have c2: "calm d1 d2" .
  have c3: "calm d2 d3" using g
    by (auto simp: client_of_def GenerateNodeInterfaceName_def calm_def same_wires_def split: prod.splits)
  from keepsD [OF pair.keeps_MakeVeth [OF nk ok] e] have "calm d3 d4" .
  with c1 c2 c3 have "calm d d4" using pair.trans_R by blast
  with j(2) show ?thesis by blast
qed

lemma creator_run:
  assumes "higherPrio (pod_Name localPod) (pod_Name peerPod)"
    and "run_state (CreatGRPCChan pl link localPod peerPod ns) w = (None, w')"
  shows "\<exists>b w1. run_state (lc_IsSkipped (pl_local pl) (skip_query localPod peerPod (lk_Uid link) ns)) w = (Inr b, w1) \<and>
     run_state (create_wire pl link localPod peerPod) w1 = (None, w')"
proof -
  obtain s w1 where s: "run_state (lc_IsSkipped (pl_local pl) (skip_query localPod peerPod (lk_Uid link) ns)) w = (s, w1)"
    by fastforce
  then show ?thesis using assms by (cases s) (simp_all add: CreatGRPCChan_def)
qed

text \<open>
  C2: A grpc wire set up by one node joins both: when the plugin of the pod with the higher
  name reports success for a link that neither daemon knew, each daemon has a ready wire
  for the link, filed under its own pod's namespace, with a handle on its own interface and
  the address of the other pod's node; and the interface id that each end sends along with
  a frame is the one of the other end.
\<close>

theorem grpc_wire_joins_two_nodes:
  assumes "sy_rpc sa = daemon_rpc sb kb vb (peer_url (pod_SrcIp peerPod))"
    and "net_keeps same_wires (sy_net sa)" "os_keeps same_wires (sy_os sa)" "kube_keeps same_wires (sy_kube sa)"
    and "index_law (sy_net sa) ix" "higherPrio (pod_Name localPod) (pod_Name peerPod)"
    and "GetWire (pod_NetNs localPod) (lk_Uid link) (dm_wires d) = None"
    and "GetWire (pod_NetNs peerPod) (lk_Uid link) (dm_wires (dm_world d)) = None"
    and "run_state (CreatGRPCChan (node_plugin cni t fuel sa ks) link localPod peerPod ns) d = (None, d')"
  shows "\<exists>a wa ha b wb hb. wire_end d' (pod_NetNs localPod) (lk_Uid link) (pod_SrcIp peerPod) a wa ha \<and>
     wire_end (dm_world d') (pod_NetNs peerPod) (lk_Uid link) (pod_SrcIp localPod) b wb hb \<and> crossed wa wb"
proof -
  let ?q = "skip_query localPod peerPod (lk_Uid link) ns"
  from creator_run [OF assms(6,9)] obtain r d1 where d1:
    "run_state (lc_IsSkipped (client_of fuel sa ks) ?q) d = (Inr r, d1)"
    "run_state (create_wire (node_plugin cni t fuel sa ks) link localPod peerPod) d1 = (None, d')" by auto
  have "keeps same_wires (IsSkipped (sy_lib sa) (sy_kube sa) ?q)"
    unfolding IsSkipped_def getPod_def using assms(4) by (intro peer.keeps_bind peer.keeps_return) (simp add: kube_keeps_defs)
  then have "keeps calm (lc_IsSkipped (client_of fuel sa ks) ?q)"
    unfolding client_of_def by (simp add: keeps_lift pair.keeps_bind pair.keeps_return)
  from keepsD [OF this d1(1)] have c1: "calm d d1" .
  from create_wire_run [OF assms(2,3) _ d1(2)] c1 assms(7) obtain d2 nodeIntf mtu where d2: "calm d1 d2"
    "run_state (join_ends (node_plugin cni t fuel sa ks) link localPod peerPod nodeIntf mtu) d2 = (None, d')"
    by (auto simp: calm_def same_wires_def)
  have "GetWire (pod_NetNs peerPod) (lk_Uid link) (dm_wires (dm_world d2)) = None"
    using assms(8) c1 d2(1) by (simp add: calm_def same_wires_def)
  from join_ends_run [OF assms(1-5) this d2(2)] show ?thesis .
qed

section \<open>Frames cross the wire\<close>

fun write_all :: "'w net_env \<Rightarrow> nat \<Rightarrow> 8 word list list \<Rightarrow> ('w, unit) io" where
  "write_all nt h [] = return ()"
| "write_all nt h (f # fs) = do { e \<leftarrow> PcapWrite nt h f; write_all nt h fs }"

text \<open>
  C3: Every frame of ordinary size that the receive thread of one end reads is written to
  the interface of the other end, once, unchanged and in the order read, as long as both
  ends are filed.
\<close>

theorem frames_cross_the_wire:
  assumes "sy_rpc sa = daemon_rpc sb kb vb url"
    and "wire_end d ns uid ip a w h" "wire_end (dm_world d) ns' uid ip' a' w' h'" "crossed w w'"
    and "list_all (\<lambda>f. length f \<le> 1518) fs"
  shows "run_state (recv_loop sa a url (map Received fs)) d =
     (None, d\<lparr>dm_world := (dm_world d)\<lparr>dm_world := snd (run_state (write_all (sy_net sb) h' fs) (dm_world (dm_world d)))\<rparr>\<rparr>)"
  using assms(2,3,5)
proof (induction fs arbitrary: d)
  case (Cons f fs)
  obtain e w1 where e: "run_state (PcapWrite (sy_net sb) h' f) (dm_world (dm_world d)) = (e, w1)" by fastforce
  let ?b = "(dm_world d)\<lparr>dm_world := w1\<rparr>"
  have s: "run_state (SendToOnce sb \<lparr>pkt_RemotIntfId = gw_WireIfaceIDOnPeerNode w, pkt_Frame = f\<rparr>) (dm_world d) = (bool_reply e, ?b)"
    using Cons.prems(2) assms(4) e by (simp add: SendToOnce_def GetHostIntfHndl_def wire_end_def crossed_def)
  have "wire_end (d\<lparr>dm_world := ?b\<rparr>) ns uid ip a w h" "wire_end ?b ns' uid ip' a' w' h'"
    using Cons.prems by (simp_all add: wire_end_def)
  then show ?case
    using Cons.IH [of "d\<lparr>dm_world := ?b\<rparr>"] Cons.prems(1,3) s e assms(1)
    by (simp add: wire_of_def wire_at_def wire_end_def daemon_rpc_def split: prod.splits)
qed simp


section \<open>Two concrete nodes\<close>

definition quiet_kube :: "'w kube_env" where
  "quiet_kube = \<lparr>TopoGet = (\<lambda>ns n. return (Inr (demo_topology n ''''))), TopoUpdateStatus = (\<lambda>ns ob. return (Inr ob)),
     GwList = (\<lambda>n. return (Inr [])), GwGet = (\<lambda>ns n. return (Inl (Err ''busy''))), GwCreate = (\<lambda>ns ob. return (Inr ob)),
     GwUpdate = (\<lambda>ns ob. return (Inr ob)), NodesList = return (Inr []), NodeGet = (\<lambda>n. return (Inl (Err ''busy''))),
     NodeUpdate = (\<lambda>n. return (Inr n)), RetryOnConflict = id\<rparr>"

definition sys_a :: "api daemon sys" where
  "sys_a = \<lparr>sy_lib = ref_lib, sy_os = ref_os Map.empty, sy_kube = quiet_kube, sy_net = ref_net,
     sy_rpc = daemon_rpc (ref_sys demo_env) [] [] (peer_url ''10.0.0.2''), sy_errs = (\<lambda>es. Err ''''), sy_pkt = ref_pkt\<rparr>"

definition two_nodes :: "api daemon daemon" where
  "two_nodes = \<lparr>dm_world = demo_daemon, dm_index = \<lparr>currId = 0\<rparr>, dm_wires = empty_wires, dm_links = Map.empty,
     dm_echo = Map.empty, dm_ips = \<lparr>nodeClient = True, nodeIPSet = None, nodeIPCacheExpiry = 0\<rparr>,
     dm_threads = [], dm_carrier = False\<rparr>"

definition pod_b :: Pod where
  "pod_b = zero_Pod\<lparr>pod_Name := ''b'', pod_KubeNs := ''t'', pod_SrcIp := ''10.0.0.1'', pod_NetNs := ''/ns/b''\<rparr>"

definition pod_a :: Pod where
  "pod_a = zero_Pod\<lparr>pod_Name := ''a'', pod_KubeNs := ''t'', pod_SrcIp := ''10.0.0.2'', pod_NetNs := ''/ns/a''\<rparr>"

definition link_ba :: Link where
  "link_ba = \<lparr>lk_PeerPod = ''a'', lk_LocalIntf = ''eth1'', lk_PeerIntf = ''eth2'', lk_LocalIp = '''', lk_PeerIp = '''',
     lk_Uid = 7, lk_Mtu = 1400\<rparr>"

lemma lift_return [simp]: "lift (return x) = return x"
  by (simp add: lift_def State_Monad.return_def)

lemma lift_ref_net: "lift_net ref_net = ref_net"
  by (simp add: lift_net_def ref_net_def)

lemma sys_a_simps [simp]: "sy_lib sys_a = ref_lib" "sy_os sys_a = ref_os Map.empty" "sy_kube sys_a = quiet_kube"
  "sy_net sys_a = ref_net" "sy_rpc sys_a = daemon_rpc (ref_sys demo_env) [] [] (peer_url ''10.0.0.2'')"
  by (simp_all add: sys_a_def)

lemma sys_a_keeps:
  "net_keeps same_wires (sy_net sys_a)" "os_keeps same_wires (sy_os sys_a)" "kube_keeps same_wires (sy_kube sys_a)"
  by (auto simp: net_keeps_def os_keeps_def kube_keeps_defs ref_net_def ref_os_def quiet_kube_def)

lemma sys_a_index: "index_law (sy_net sys_a) (\<lambda>n. 9)"
  by (auto simp: index_law_def)

lemma ref_add_local:
  "sy_net sy = ref_net \<Longrightarrow> \<exists>d'. run_state (AddGRPCWireLocal sy wd) d = ((ok_response, None), d')"
  by (simp add: AddGRPCWireLocal_def CreateGRPCWireLocal_def alloc_wire_def new_wire_def make_chan_def split: prod.split)

definition same_world :: "'w daemon \<Rightarrow> 'w daemon \<Rightarrow> bool" where
  "same_world d d' \<longleftrightarrow> dm_world d' = dm_world d"

interpretation world: frame same_world
  by unfold_locales (auto simp: same_world_def)

lemma join_demo:
  assumes "dm_world d = demo_daemon"
  shows "\<exists>d'. run_state (join_ends (node_plugin demo_cni INTER_NODE_LINK_GRPC 1 sys_a []) link_ba pod_b pod_a nm mtu) d = (None, d')"
proof -
  let ?rd = "wire_def_remote link_ba pod_b pod_a 9 mtu"
  have "GetWire (wd_LocalPodNetNs ?rd) (wd_LinkUid ?rd) (dm_wires demo_daemon) = None" "wd_LocalPodNetNs ?rd \<noteq> ''''"
    "a_gw (dm_world demo_daemon) = []" "wd_LocalPodIp ?rd = ''''"
    by (simp_all add: wire_def_remote_def pod_a_def link_ba_def demo_daemon_def empty_wires_def GetWire_def)
  from ref_add_remote [OF this] obtain resp b where r: "run_state (AddGRPCWireRemote (ref_sys demo_env) ?rd) demo_daemon = ((resp, None), b)"
    by blast
  have ok: "wcr_Response resp"
    using r by (cases "wcr_Response resp") (auto simp: AddGRPCWireRemote_def split: prod.splits sum.splits)
  let ?ld = "wire_def_local link_ba pod_b pod_a nm (wcr_PeerIntfId resp) mtu"
  obtain d' where a: "run_state (AddGRPCWireLocal sys_a ?ld) (d\<lparr>dm_world := b\<rparr>) = ((ok_response, None), d')"
    using ref_add_local [of sys_a] by auto
  have url: "peer_url (pod_SrcIp pod_a) = peer_url ''10.0.0.2''" by (simp add: pod_a_def)
  show ?thesis
    using r ok a assms by (simp add: join_ends_def Let_def lift_rpc_def daemon_rpc_def lift_ref_net url client_of_def)
qed


lemma chan_demo:
  "\<exists>d'. run_state (CreatGRPCChan (node_plugin demo_cni INTER_NODE_LINK_GRPC 1 sys_a []) link_ba pod_b pod_a ''t'') two_nodes = (None, d')"
proof -
  let ?pl = "node_plugin demo_cni INTER_NODE_LINK_GRPC 1 sys_a []"
  let ?v = "\<lparr>ve_NsName = ''/ns/b'', ve_LinkName = ''eth1'', ve_IPAddr = [], ve_MTU = 1400\<rparr>"
  have prio: "higherPrio (pod_Name pod_b) (pod_Name pod_a)" by (simp add: higherPrio_def pod_a_def pod_b_def less_char_def)
  have sk: "\<exists>b. run_state (lc_IsSkipped (client_of 1 sys_a []) (skip_query pod_b pod_a (lk_Uid link_ba) ''t'')) two_nodes = (Inr b, two_nodes)"
    by (simp add: client_of_def IsSkipped_def getPod_def quiet_kube_def rpc_answer_def ref_slice_def demo_topology_def skipped_path_def
        skip_query_def pod_a_def two_nodes_def)
  have ex: "run_state (lc_GRPCWireExists (client_of 1 sys_a []) (wire_query pod_b link_ba)) two_nodes =
      (Inr \<lparr>wcr_Response = False, wcr_PeerIntfId = 0\<rparr>, two_nodes)"
    by (simp add: client_of_def GRPCWireExists_def wire_query_def zero_WireDef_def two_nodes_def empty_wires_def GetWire_def)
  have mtu: "run_state (linkMTU os (lk_Mtu link_ba)) d = (1400, d)" for os and d :: "api daemon daemon"
    by (simp add: linkMTU_def link_ba_def)
  have v: "makeVeth (ref_net :: api daemon daemon net_env) (pod_NetNs pod_b) (lk_LocalIntf link_ba) (lk_LocalIp link_ba) 1400 = Inr ?v"
    by (simp add: makeVeth_def link_ba_def pod_b_def)
  obtain nm i where g: "run_state (lc_GenerateNodeInterfaceName (client_of 1 sys_a [])
      \<lparr>gnr_PodIntfName = lk_LocalIntf link_ba, gnr_PodName = pod_Name pod_b\<rparr>) two_nodes = (Inr nm, two_nodes\<lparr>dm_index := i\<rparr>)"
    by (cases "NextIndex (dm_index two_nodes)") (simp add: client_of_def GenerateNodeInterfaceName_def GenNodeIfaceName_def Let_def)
  let ?d = "two_nodes\<lparr>dm_index := i\<rparr>"
  obtain d1 where m: "run_state (MakeVeth ref_net (lift_os (sy_os sys_a)) ?v
      \<lparr>ve_NsName = ''/proc/1/ns/net'', ve_LinkName = gns_NodeIntfName nm, ve_IPAddr = [], ve_MTU = 0\<rparr>) ?d = (None, d1)"
    using ref_make_veth [of ?v "\<lparr>ve_NsName = ''/proc/1/ns/net'', ve_LinkName = gns_NodeIntfName nm, ve_IPAddr = [], ve_MTU = 0\<rparr>"
        "lift_os (sy_os sys_a)" ?d] by auto
  have "net_keeps same_world ref_net" "os_keeps same_world (lift_os (sy_os sys_a))"
    by (simp_all add: net_keeps_def os_keeps_def ref_net_def lift_os_def ref_os_def world.keeps_return)
  from keepsD [OF world.keeps_MakeVeth [OF this] m] have "dm_world d1 = demo_daemon"
    by (simp add: same_world_def two_nodes_def)
  from join_demo [OF this] obtain d' where j: "run_state (join_ends ?pl link_ba pod_b pod_a (gns_NodeIntfName nm) 1400) d1 = (None, d')"
    by blast
  have "run_state (create_wire ?pl link_ba pod_b pod_a) two_nodes = (None, d')"
    using ex mtu v g m j by (simp add: create_wire_def lift_ref_net)
  then show ?thesis using sk prio by (auto simp: CreatGRPCChan_def)
qed


lemma two_nodes_unwired:
  "GetWire ns uid (dm_wires two_nodes) = None" "GetWire ns uid (dm_wires (dm_world two_nodes)) = None"
  by (simp_all add: two_nodes_def demo_daemon_def empty_wires_def GetWire_def)

theorem grpc_wire_joins_two_nodes_witness:
  "\<exists>d' a wa ha b wb hb.
     run_state (CreatGRPCChan (node_plugin demo_cni INTER_NODE_LINK_GRPC 1 sys_a []) link_ba pod_b pod_a ''t'') two_nodes = (None, d') \<and>
     wire_end d' (pod_NetNs pod_b) (lk_Uid link_ba) (pod_SrcIp pod_a) a wa ha \<and>
     wire_end (dm_world d') (pod_NetNs pod_a) (lk_Uid link_ba) (pod_SrcIp pod_b) b wb hb \<and> crossed wa wb"
proof -
  obtain d' where run: "run_state (CreatGRPCChan (node_plugin demo_cni INTER_NODE_LINK_GRPC 1 sys_a []) link_ba pod_b pod_a ''t'')
      two_nodes = (None, d')" using chan_demo by blast
  have rpc: "sy_rpc sys_a = daemon_rpc (ref_sys demo_env) [] [] (peer_url (pod_SrcIp pod_a))" by (simp add: pod_a_def)
  have prio: "higherPrio (pod_Name pod_b) (pod_Name pod_a)" by (simp add: higherPrio_def pod_a_def pod_b_def less_char_def)
  from grpc_wire_joins_two_nodes [OF rpc sys_a_keeps sys_a_index prio two_nodes_unwired run] run show ?thesis by blast
qed

text \<open>The same two nodes with both ends filed by hand.\<close>

definition end_wire :: "int64 \<Rightarrow> int64 \<Rightarrow> GRPCWire" where
  "end_wire loc rem = (CreateGWire loc ''veth'' 0 zero_WireDef)\<lparr>gw_WireIfaceIDOnPeerNode := rem\<rparr>"

definition end_map :: "int64 \<Rightarrow> int64 \<Rightarrow> wireMap" where
  "end_map loc rem = empty_wires\<lparr>wires := [('''', 0) \<mapsto> 0], wheap := [0 \<mapsto> end_wire loc rem], handles := [loc \<mapsto> 5]\<rparr>"

definition joined_nodes :: "api daemon daemon" where
  "joined_nodes = two_nodes\<lparr>dm_world := demo_daemon\<lparr>dm_wires := end_map 12 9\<rparr>, dm_wires := end_map 9 12\<rparr>"

theorem frames_cross_the_wire_witness:
  "\<exists>d'. run_state (recv_loop sys_a 0 (peer_url ''10.0.0.2'') (map Received [[1, 2], [3]])) joined_nodes = (None, d')"
proof -
  have "wire_end joined_nodes '''' 0 '''' 0 (end_wire 9 12) 5" "wire_end (dm_world joined_nodes) '''' 0 '''' 0 (end_wire 12 9) 5"
    "crossed (end_wire 9 12) (end_wire 12 9)"
    by (simp_all add: wire_end_def joined_nodes_def end_map_def end_wire_def crossed_def CreateGWire_def zero_WireDef_def
        GetWire_def GetHandle_def empty_wires_def)
  moreover have "list_all (\<lambda>f. length f \<le> 1518) [[1, 2], [3 :: 8 word]]" by simp
  ultimately show ?thesis using frames_cross_the_wire [OF sys_a_simps(5)] by blast
qed

end
