(* ===== verification/Cluster_Links.thy ===== *)
theory Cluster_Links
  imports Cluster
begin

text \<open>
  The rest of a link's life over two daemons (\<open>Cluster\<close>): what DEL of a pod does to the
  wire ends on both nodes, what ADD of a VXLAN link leaves in the link tables of both, and
  how a carrier change crosses a wire.
\<close>

section \<open>What more calls leave alone\<close>

context frame
begin

lemma keeps_getPod: "topo_keeps R k \<Longrightarrow> keeps R (getPod k n ns)"
  by (simp add: getPod_def topo_keeps_def)

lemma keeps_updateStatus: "topo_keeps R k \<Longrightarrow> keeps R (updateStatus k ob ns)"
  unfolding updateStatus_def
  by (intro keeps_bind keeps_as_err keeps_as_res keeps_return keeps_sum keeps_if) (simp_all add: topo_keeps_def)

lemma keeps_SkipReverse:
  assumes "topo_keeps R k"
  shows "keeps R (SkipReverse u k q)"
proof -
  note rules = keeps_getPod [OF assms] keeps_updateStatus [OF assms]
  have p: "keeps R (reverse_peer_attempt u k q)"
    unfolding reverse_peer_attempt_def
    by (intro keeps_bind keeps_sum keeps_if keeps_prod keeps_option keeps_return rules)
  have t: "keeps R (reverse_this_attempt u k q)"
    unfolding reverse_this_attempt_def
    by (intro keeps_bind keeps_sum keeps_if keeps_prod keeps_option keeps_return rules)
  have "keeps R (RetryOnConflict k fn)" if "keeps R fn" for fn
    using assms that by (simp add: topo_keeps_def retry_keeps_def)
  with p t show ?thesis
    unfolding SkipReverse_def by (intro keeps_bind keeps_option keeps_return) auto
qed

lemma keeps_linkMTU: "os_keeps R os \<Longrightarrow> keeps R (linkMTU os i)"
  unfolding linkMTU_def by (intro keeps_if keeps_return keeps_bind keeps_linkMTU_file)

end

lemma keeps_served: "keeps R m \<Longrightarrow> keeps R (served m)"
  by (auto simp: keeps_def split: prod.splits)

lemma dm_world_ips [simp]: "dm_world (dm_ips_update g d) = dm_world d" for d :: "'w daemon"
  by (cases d) simp

lemma calm_ips: "keeps calm (modifies (\<lambda>d. d\<lparr>dm_ips := g d\<rparr>))"
  by (simp add: keeps_def calm_def same_wires_def dm_world_ips)

lemma keeps_Get:
  assumes "os_keeps same_wires (sy_os sy)" "kube_keeps same_wires (sy_kube sy)"
    "keeps same_wires (NodesList (sy_kube sy))"
  shows "keeps calm (Get sy q)"
proof -
  have now: "keeps same_wires (Now (sy_os sy))" using assms(1) by (simp add: os_keeps_def)
  note rules = keeps_lift [OF peer.keeps_getPod [OF kube_keepsD(1) [OF assms(2)]]] keeps_lift [OF now] keeps_lift [OF assms(3)] calm_ips
  have "keeps calm (refreshNodeIPs (sy_os sy) (sy_kube sy))"
    unfolding refreshNodeIPs_def Let_def
    by (intro pair.keeps_bind pair.keeps_sum pair.keeps_return rules)
  note rules = rules this
  have "keeps calm (ValidatePeerNodeIP (sy_os sy) (sy_kube sy) ip)" for ip
    unfolding ValidatePeerNodeIP_def validatePeerNodeIP_def
    by (intro pair.keeps_bind pair.keeps_if pair.keeps_option pair.keeps_reads pair.keeps_return rules)
  note rules = rules this
  show ?thesis
    unfolding Get_def Let_def
    by (intro pair.keeps_bind pair.keeps_sum pair.keeps_prod pair.keeps_option pair.keeps_bool pair.keeps_if pair.keeps_return rules)
qed

section \<open>DEL of a grpc link\<close>

text \<open>What is left of handling a link once the peer has been told.\<close>

definition del_rest :: "'w plugin \<Rightarrow> string \<Rightarrow> string \<Rightarrow> Pod \<Rightarrow> Link \<Rightarrow> ('w, goerr option + unit) io" where
  "del_rest pl ns netns localPod link = do {
     mtu \<leftarrow> linkMTU (pl_os pl) (lk_Mtu link);
     (case makeVeth (pl_net pl) netns (lk_LocalIntf link) (lk_LocalIp link) mtu of
        Inl e \<Rightarrow> return (Inl (Some e))
      | Inr myVeth \<Rightarrow> do {
          er \<leftarrow> RemoveVethLink (pl_net pl) myVeth;
          ok \<leftarrow> lc_SkipReverse (pl_local pl)
                  \<lparr>sq_Pod = pod_Name localPod, sq_Peer = lk_PeerPod link, sq_KubeNs = ns, sq_LinkId = lk_Uid link\<rparr>;
          return (case ok of Inl e \<Rightarrow> Inl (Some e) | Inr b \<Rightarrow> if br_Response b then Inr () else Inl None)
        })
   }"

lemma del_link_known_peer:
  assumes "run_state (lc_Get (pl_local pl) \<lparr>pq_Name = lk_PeerPod link, pq_KubeNs = ns\<rparr>) w = (Inr peerPod, w1)"
  shows "run_state (del_link pl ns netns srcIp localPod link) w =
    run_state (do { del_remote pl ns srcIp localPod peerPod link; del_rest pl ns netns localPod link }) w1"
  using assms by (simp add: del_link_def del_rest_def)

lemma keeps_del_rest:
  assumes "net_keeps same_wires (sy_net sa)" "os_keeps same_wires (sy_os sa)" "kube_keeps same_wires (sy_kube sa)"
  shows "keeps calm (del_rest (node_plugin cni t fuel sa ks) ns netns localPod link)"
proof -
  note nk = lift_net_keeps [OF assms(1)] and ok = lift_os_keeps [OF assms(2)]
  have "keeps calm (served (lift (SkipReverse (sy_lib sa) (sy_kube sa) q)))" for q
    by (intro keeps_served keeps_lift peer.keeps_SkipReverse kube_keepsD(1) [OF assms(3)])
  then have s: "keeps calm (lc_SkipReverse (client_of fuel sa ks) q)" for q by (simp add: client_of_def)
  show ?thesis
    unfolding del_rest_def node_plugin_simps
    by (intro pair.keeps_bind pair.keeps_sum pair.keeps_return pair.keeps_linkMTU [OF ok] pair.keeps_RemoveVethLink [OF nk] s)
qed

text \<open>A wire that was stopped: filed as before, not ready, its stop channel closed, the others untouched.\<close>

definition stopped_in :: "wireMap \<Rightarrow> wireMap \<Rightarrow> nat \<Rightarrow> bool" where
  "stopped_in m m' a \<longleftrightarrow> wires m' = wires m \<and>
     (\<exists>w. wheap m' a = Some w \<and> \<not> gw_IsReady w \<and> gw_StopC w \<in> chclosed m' \<and>
        wheap m a = Some (w\<lparr>gw_IsReady := True\<rparr>)) \<and>
     (\<forall>a'. a' \<noteq> a \<longrightarrow> wheap m' a' = wheap m a')"

lemma stop_wire_stops:
  assumes "wheap m a = Some w" "gw_IsReady w"
  shows "stopped_in m (stop_wire a m) a"
proof -
  have "w\<lparr>gw_IsReady := False, gw_IsReady := True\<rparr> = w" using assms(2) by (cases w) simp
  with assms show ?thesis
    by (auto simp: stopped_in_def stop_wire_def mark_down_def close_if_ready_def close_chan_def upd_wire_def)
qed

text \<open>
  C13: DEL of a pod with a grpc link takes the wire down on the node of the peer as well: once
  the plugin has read where the peer runs, and whatever becomes of its other calls, the
  peer's end of the wire is no longer ready and its stop channel is closed, so its receive
  thread ends; the peer's daemon keeps the wire on file, and its other wires and the wires
  of the pod's own node are not touched.
\<close>

theorem del_stops_the_peers_end:
  assumes "sy_rpc sa = daemon_rpc sb kb vb (peer_url (pod_SrcIp peerPod))"
    and "net_keeps same_wires (sy_net sa)" "os_keeps same_wires (sy_os sa)" "kube_keeps same_wires (sy_kube sa)"
    and "keeps same_wires (NodesList (sy_kube sa))"
    and "run_state (lc_Get (client_of fuel sa ks) \<lparr>pq_Name = lk_PeerPod link, pq_KubeNs = ns\<rparr>) d = (Inr peerPod, d1)"
    and "pod_SrcIp peerPod \<noteq> srcIp"
    and "GetWire (pod_NetNs peerPod) (lk_Uid link) (dm_wires (dm_world d)) = Some a"
    and "wheap (dm_wires (dm_world d)) a = Some w" "gw_IsReady w"
    and "run_state (del_link (node_plugin cni INTER_NODE_LINK_GRPC fuel sa ks) ns netns srcIp localPod link) d = (r, d')"
  shows "stopped_in (dm_wires (dm_world d)) (dm_wires (dm_world d')) a \<and> dm_wires d' = dm_wires d"
proof -
  let ?pl = "node_plugin cni INTER_NODE_LINK_GRPC fuel sa ks" and ?m = "dm_wires (dm_world d)"
  have "keeps calm (lc_Get (client_of fuel sa ks) q)" for q
    unfolding client_of_def by (simp, intro pair.keeps_bind keeps_Get assms(3-5) pair.keeps_return)
  from keepsD [OF this assms(6)] have c1: "calm d d1" .
  then have m1: "dm_wires (dm_world d1) = ?m" "dm_wires d1 = dm_wires d" by (simp_all add: calm_def same_wires_def)
  let ?b2 = "(dm_world d1)\<lparr>dm_wires := stop_wire a ?m\<rparr>"
  have down: "run_state (GRPCWireDownRemote (wire_def_down link localPod peerPod)) (dm_world d1) =
      ((\<lparr>wdr_Response = True\<rparr>, None), ?b2)"
    using assms(8) m1(1)
    by (simp add: GRPCWireDownRemote_def GRPCWireDownRemoteTriggered_def WireDownByUID_def wire_def_down_def GetWire_def)
  have t: "pl_type ?pl = INTER_NODE_LINK_GRPC" by (simp add: node_plugin_def)
  have rem: "run_state (del_remote ?pl ns srcIp localPod peerPod link) d1 = ((), d1\<lparr>dm_world := ?b2\<rparr>)"
    using assms(1,7) down
    by (simp add: del_remote_def t MakeGRPCChanDown_def Let_def lift_rpc_def daemon_rpc_def)
  have "run_state (del_rest ?pl ns netns localPod link) (d1\<lparr>dm_world := ?b2\<rparr>) = (r, d')"
    using assms(11) del_link_known_peer [of ?pl link ns d peerPod d1] assms(6) rem by simp
  from keepsD [OF keeps_del_rest [OF assms(2-4)] this] have "calm (d1\<lparr>dm_world := ?b2\<rparr>) d'" .
  then show ?thesis
    using stop_wire_stops [OF assms(9,10)] m1(2) by (simp add: calm_def same_wires_def)
qed

text \<open>Node \<open>a\<close> of the example: a topology of a live peer, no node client, both ends of link 7 on file.\<close>

definition live_topology :: "string \<Rightarrow> json" where
  "live_topology nm = JObj [(''metadata'', JObj [(''name'', JStr nm)]),
     (''spec'', JObj [(''links'', JList [])]),
     (''status'', JObj [(''src_ip'', JStr ''10.0.0.2''), (''net_ns'', JStr ''/ns/a'')])]"

definition live_sys :: "api daemon sys" where
  "live_sys = sys_a\<lparr>sy_kube := quiet_kube\<lparr>TopoGet := (\<lambda>ns n. return (Inr (live_topology n)))\<rparr>\<rparr>"

definition link_end_map :: "string \<Rightarrow> wireMap" where
  "link_end_map netns = empty_wires\<lparr>wires := [(netns, 7) \<mapsto> 0], wheap := [0 \<mapsto> end_wire 9 12\<lparr>gw_IsReady := True\<rparr>]\<rparr>"

definition live_nodes :: "api daemon daemon" where
  "live_nodes = two_nodes\<lparr>dm_world := demo_daemon\<lparr>dm_wires := link_end_map ''/ns/a''\<rparr>,
     dm_wires := link_end_map ''/ns/b'',
     dm_ips := \<lparr>nodeClient = False, nodeIPSet = None, nodeIPCacheExpiry = 0\<rparr>\<rparr>"

lemma live_sys_simps [simp]:
  "sy_net live_sys = ref_net" "sy_os live_sys = ref_os Map.empty" "sy_lib live_sys = ref_lib"
  "sy_rpc live_sys = daemon_rpc (ref_sys demo_env) [] [] (peer_url ''10.0.0.2'')"
  "TopoGet (sy_kube live_sys) ns n = return (Inr (live_topology n))"
  by (simp_all add: live_sys_def)

lemma live_sys_keeps:
  "net_keeps same_wires (sy_net live_sys)" "os_keeps same_wires (sy_os live_sys)" "kube_keeps same_wires (sy_kube live_sys)"
  "keeps same_wires (NodesList (sy_kube live_sys))"
  by (auto simp: net_keeps_def os_keeps_def kube_keeps_defs ref_net_def ref_os_def quiet_kube_def live_sys_def)

lemma live_get:
  "\<exists>p. run_state (lc_Get (client_of 1 live_sys []) \<lparr>pq_Name = ''a'', pq_KubeNs = ''t''\<rparr>) live_nodes = (Inr p, live_nodes) \<and>
     pod_SrcIp p = ''10.0.0.2'' \<and> pod_NetNs p = ''/ns/a''"
  by (simp add: client_of_def Get_def getPod_def live_topology_def spec_links_path_def src_ip_path_def net_ns_path_def
      container_path_def ref_slice_def ref_string_def ValidatePeerNodeIP_def validatePeerNodeIP_def live_nodes_def rpc_answer_def Let_def)

lemma del_stops_the_peers_end_witness:
  "\<exists>r d'. run_state (del_link (node_plugin demo_cni INTER_NODE_LINK_GRPC 1 live_sys []) ''t'' ''/ns/b'' ''10.0.0.1'' pod_b link_ba)
       live_nodes = (r, d') \<and>
     stopped_in (dm_wires (dm_world live_nodes)) (dm_wires (dm_world d')) 0 \<and> dm_wires d' = dm_wires live_nodes"
proof -
  obtain p where p: "run_state (lc_Get (client_of 1 live_sys []) \<lparr>pq_Name = lk_PeerPod link_ba, pq_KubeNs = ''t''\<rparr>) live_nodes =
      (Inr p, live_nodes)" "pod_SrcIp p = ''10.0.0.2''" "pod_NetNs p = ''/ns/a''"
    using live_get by (auto simp: link_ba_def)
  obtain r d' where r: "run_state (del_link (node_plugin demo_cni INTER_NODE_LINK_GRPC 1 live_sys []) ''t'' ''/ns/b'' ''10.0.0.1'' pod_b link_ba)
      live_nodes = (r, d')" by fastforce
  have rpc: "sy_rpc live_sys = daemon_rpc (ref_sys demo_env) [] [] (peer_url (pod_SrcIp p))" by (simp add: p(2))
  have "pod_SrcIp p \<noteq> ''10.0.0.1''" by (simp add: p(2))
  moreover have "GetWire (pod_NetNs p) (lk_Uid link_ba) (dm_wires (dm_world live_nodes)) = Some 0"
    "wheap (dm_wires (dm_world live_nodes)) 0 = Some (end_wire 9 12\<lparr>gw_IsReady := True\<rparr>)"
    by (simp_all add: p(3) live_nodes_def link_end_map_def GetWire_def link_ba_def)
  moreover have "gw_IsReady (end_wire 9 12\<lparr>gw_IsReady := True\<rparr>)" by simp
  ultimately show ?thesis
    using del_stops_the_peers_end [OF rpc live_sys_keeps p(1) _ _ _ _ r] r by blast
qed

section \<open>ADD of a VXLAN link\<close>

text \<open>The link tables of a daemon, and of a daemon and of the one in its world.\<close>

definition same_links :: "'w daemon \<Rightarrow> 'w daemon \<Rightarrow> bool" where
  "same_links d d' \<longleftrightarrow> dm_links d' = dm_links d"

definition links_calm :: "'w daemon daemon \<Rightarrow> 'w daemon daemon \<Rightarrow> bool" where
  "links_calm d d' \<longleftrightarrow> same_links d d' \<and> same_links (dm_world d) (dm_world d')"

interpretation links: frame links_calm
  by unfold_locales (auto simp: links_calm_def same_links_def)

lemma keeps_lift_links:
  assumes "keeps same_links m"
  shows "keeps links_calm (lift m)"
  unfolding keeps_def
proof (intro allI impI)
  fix s r s'
  assume "run_state (lift m) s = (r, s')"
  then obtain w where w: "run_state m (dm_world s) = (r, w)" "s' = s\<lparr>dm_world := w\<rparr>" by (auto split: prod.splits)
  with keepsD [OF assms w(1)] show "links_calm s s'" by (simp add: links_calm_def same_links_def)
qed

lemma lift_net_keeps_links: "net_keeps same_links nt \<Longrightarrow> net_keeps links_calm (lift_net nt)"
  unfolding net_keeps_def lift_net_def by (simp add: keeps_lift_links)

lemma lift_os_keeps_links: "os_keeps same_links os \<Longrightarrow> os_keeps links_calm (lift_os os)"
  unfolding os_keeps_def lift_os_def by (simp add: keeps_lift_links)

context frame
begin

lemma keeps_IsExist: "net_keeps R nt \<Longrightarrow> keeps R (IsExistLinkInNS nt ns n)"
proof -
  assume nt: "net_keeps R nt"
  then have "\<And>c n. keeps R (LinkByName nt c n)" by (simp add: net_keeps_def)
  note rules = this keeps_open_ns [OF nt] keeps_ns_Do [OF nt]
  show ?thesis
    unfolding IsExistLinkInNS_def
    by (intro keeps_bind keeps_sum keeps_option keeps_prod keeps_if keeps_return keeps_as_err rules)
qed

lemma keeps_MakeVxLan: "net_keeps R nt \<Longrightarrow> os_keeps R os \<Longrightarrow> keeps R (MakeVxLan nt os v vx)"
proof -
  assume nt: "net_keeps R nt" and os: "os_keeps R os"
  then have n: "keeps R (RandomUint32 nt)" "\<And>c l. keeps R (LinkAdd nt c l)" "\<And>c n. keeps R (LinkByName nt c n)"
    "\<And>c l. keeps R (LinkDel nt c l)"
    by (simp_all add: net_keeps_def)
  note rules = n keeps_SetVethLink [OF nt os]
  show ?thesis
    unfolding MakeVxLan_def getRandomIFName_def AddVxLanInterface_def cleanupLink_def
    by (intro keeps_bind keeps_sum keeps_option keeps_prod keeps_if keeps_return rules)
qed

end

text \<open>What the two daemons record of a link, each from its own side.\<close>

definition vx_end :: "string \<Rightarrow> int64 \<Rightarrow> string \<Rightarrow> string \<Rightarrow> string \<Rightarrow> vxLink" where
  "vx_end ns uid netns intf peer =
     \<lparr>vl_UID = uid, vl_KubeNs = ns, vl_LocalNetNS = netns, vl_LocalIntfName = intf, vl_PeerNodeIP = peer\<rparr>"

lemma vni_base: "vxlanBase = word_of_int BaseVNI"
  by (simp add: vxlanBase_def BaseVNI_def)

lemma update_registers:
  assumes "run_state (Update_vxlan sb (remote_payload localPod peerPod link ns srcIntf mtu)) b = ((resp, None), b')"
  shows "\<exists>m. dm_links b' = RegisterLink (vx_end ns (lk_Uid link) (pod_NetNs peerPod) (lk_PeerIntf link) (pod_SrcIp localPod)) m"
proof -
  obtain e w where c: "run_state (CreateOrUpdate (sy_net sb) (sy_os sb) (remote_payload localPod peerPod link ns srcIntf mtu)) (dm_world b) = (e, w)"
    by fastforce
  with assms have "e = None" by (cases e) (simp_all add: Update_vxlan_def)
  with assms c show ?thesis
    by (auto simp: Update_vxlan_def RegisterFromRemotePod_def remote_payload_def vni_base vx_end_def)
qed

text \<open>
  C25: A VXLAN link set up by one node is known to both daemons: when handling it succeeds,
  each daemon's table holds the link under the same namespace and link id, with its own
  pod's namespace and interface and with the other node as the peer, so that either daemon
  can send carrier changes of the link to the other.
\<close>

theorem vxlan_link_known_to_both:
  assumes "sy_rpc sa = daemon_rpc sb kb vb (pod_SrcIp peerPod @ '':'' @ dec GRPCDefaultPort)"
    and "net_keeps same_links (sy_net sa)" "os_keeps same_links (sy_os sa)"
    and "run_state (add_vxlan (node_plugin cni typ fuel sa ks) ns localPod peerPod link srcIntf myVeth) d = (None, d')"
  shows "GetLink ns (lk_Uid link) (dm_links d') =
       Some (vx_end ns (lk_Uid link) (ve_NsName myVeth) (ve_LinkName myVeth) (pod_SrcIp peerPod)) \<and>
     GetLink ns (lk_Uid link) (dm_links (dm_world d')) =
       Some (vx_end ns (lk_Uid link) (pod_NetNs peerPod) (lk_PeerIntf link) (pod_SrcIp localPod))"
proof -
  let ?pl = "node_plugin cni typ fuel sa ks" and ?nt = "lift_net (sy_net sa)" and ?os = "lift_os (sy_os sa)"
  let ?l = "vx_end ns (lk_Uid link) (ve_NsName myVeth) (ve_LinkName myVeth) (pod_SrcIp peerPod)"
  note nk = lift_net_keeps_links [OF assms(2)] and ok = lift_os_keeps_links [OF assms(3)]
  obtain mtu d1 where 1: "run_state (linkMTU ?os (lk_Mtu link)) d = (mtu, d1)" by fastforce
  obtain x d2 where 2: "run_state (IsExistLinkInNS ?nt (ve_NsName myVeth) (ve_LinkName myVeth)) d1 = (x, d2)" by fastforce
  obtain er d3 where 3: "run_state (if fst x then RemoveVethLink ?nt myVeth else return None) d2 = (er, d3)" by fastforce
  have er: "er = None" using assms(4) 1 2 3 by (cases er; cases "fst x") (simp_all add: add_vxlan_def)
  obtain em d4 where 4: "run_state (MakeVxLan ?nt ?os myVeth (makeVxlan ?nt srcIntf (pod_SrcIp peerPod) (lk_Uid link) mtu)) d3 = (em, d4)"
    by fastforce
  have em: "em = None" using assms(4) 1 2 3 4 er by (cases em; cases "fst x") (simp_all add: add_vxlan_def)
  let ?d5 = "d4\<lparr>dm_links := RegisterLink ?l (dm_links d4)\<rparr>"
  have reg: "run_state (lc_RegisterVxlanLink (client_of fuel sa ks) (vxlan_def peerPod link ns myVeth)) d4 = (Inr ok_response, ?d5)"
    by (simp add: client_of_def RegisterVxlanLink_def RegisterFromDef_def vxlan_def_def vx_end_def)
  have up: "run_state (update_remote_vtep ?pl ns localPod peerPod link srcIntf) ?d5 = (None, d')"
    using assms(4) 1 2 3 4 er em reg by (cases "fst x") (simp_all add: add_vxlan_def)
  obtain mtu' d6 where 6: "run_state (linkMTU ?os (lk_Mtu link)) ?d5 = (mtu', d6)" by fastforce
  have "links_calm ?d5 d6" by (rule keepsD [OF links.keeps_linkMTU [OF ok] 6])
  then have l6: "dm_links d6 = RegisterLink ?l (dm_links d4)" by (simp add: links_calm_def same_links_def)
  obtain resp e b' where b: "run_state (Update_vxlan sb (remote_payload localPod peerPod link ns srcIntf mtu')) (dm_world d6) = ((resp, e), b')"
    by (metis prod.exhaust)
  have e: "e = None" "d' = d6\<lparr>dm_world := b'\<rparr>"
    using up 6 b assms(1)
    by (cases e; auto simp: update_remote_vtep_def Let_def lift_rpc_def daemon_rpc_def boolResponseErr_def split: if_splits)+
  from update_registers [OF b [unfolded e(1)]] l6 e(2) show ?thesis
    by (auto simp: GetLink_def RegisterLink_def vx_end_def)
qed

lemma ref_make_vxlan:
  assumes "ve_IPAddr v = []" "ve_NsName v \<noteq> ''''"
  shows "\<exists>w'. run_state (MakeVxLan ref_net os v vx) w = (None, w')"
proof -
  let ?l = "ref_link (''koko'' @ dec 7) 9"
  obtain w' where "run_state (SetVethLink ref_net os v ?l) w = (None, w')"
    using ref_set_veth [OF assms, of os ?l w] by blast
  then show ?thesis
    by (simp add: MakeVxLan_def AddVxLanInterface_def getRandomIFName_def)
qed

lemma ref_create_or_update:
  fixes os :: "'w os_env"
  assumes "rp_IntfIp v = ''''" "rp_NetNs v \<noteq> ''''" "sint (rp_Mtu v) \<noteq> 0" "rp_NodeIntf v \<noteq> ''''"
  shows "\<exists>w'. run_state (CreateOrUpdate ref_net os v) w = (None, w')"
proof -
  let ?veth = "\<lparr>ve_NsName = rp_NetNs v, ve_LinkName = rp_IntfName v, ve_IPAddr = [], ve_MTU = 0\<rparr>"
  let ?vx = "vx_request (ref_net :: 'w net_env) v (rp_NodeIntf v) (sint (rp_Mtu v))"
  have src: "run_state (resolveLocalParentIF ref_net (rp_NodeIntf v)) w = (Inr (rp_NodeIntf v), w)" for w :: 'w
    using assms(4) by (simp add: resolveLocalParentIF_def)
  have link: "run_state (getLinkFromNS ref_net n i) w = (Some (ref_link i 9), w)" for n i and w :: 'w
    by (simp add: getLinkFromNS_def ns_Do_def)
  have rm: "run_state (RemoveVethLink ref_net ?veth) w = (None, w)" for w :: 'w
    using assms(2) by (intro ref_remove_veth) simp
  obtain w' where mk: "run_state (MakeVxLan ref_net os ?veth ?vx) w = (None, w')"
    using ref_make_vxlan [of ?veth os ?vx w] assms(2) by auto
  show ?thesis
    using src link rm mk assms(1,3)
    by (simp add: CreateOrUpdate_def pod_veth_def vx_decide_def vx_apply_def vx_create_def)
qed

definition vx_sys :: "api daemon sys" where
  "vx_sys = sys_a\<lparr>sy_rpc := daemon_rpc (ref_sys demo_env) [] [] (''10.0.0.2'' @ '':'' @ dec GRPCDefaultPort)\<rparr>"

definition vx_veth :: VEth where
  "vx_veth = \<lparr>ve_NsName = ''/ns/b'', ve_LinkName = ''eth1'', ve_IPAddr = [], ve_MTU = 1400\<rparr>"

lemma vx_sys_simps [simp]:
  "sy_net vx_sys = ref_net" "sy_os vx_sys = ref_os Map.empty"
  "sy_rpc vx_sys = daemon_rpc (ref_sys demo_env) [] [] (''10.0.0.2'' @ '':'' @ dec GRPCDefaultPort)"
  by (simp_all add: vx_sys_def)

lemma vx_sys_keeps: "net_keeps same_links (sy_net vx_sys)" "os_keeps same_links (sy_os vx_sys)"
  by (auto simp: net_keeps_def os_keeps_def ref_net_def ref_os_def keeps_def same_links_def)

lemma vx_demo:
  "\<exists>d'. run_state (add_vxlan (node_plugin demo_cni INTER_NODE_LINK_VXLAN 1 vx_sys []) ''t'' pod_b pod_a link_ba ''eth0'' vx_veth) two_nodes =
     (None, d')"
proof -
  let ?pl = "node_plugin demo_cni INTER_NODE_LINK_VXLAN 1 vx_sys []"
  have mtu: "run_state (linkMTU os (lk_Mtu link_ba)) d = (1400, d)" for os and d :: "api daemon daemon"
    by (simp add: linkMTU_def link_ba_def)
  have ex: "\<exists>e. run_state (IsExistLinkInNS ref_net (ve_NsName vx_veth) n) d = ((True, e), d)" for n and d :: "api daemon daemon"
    by (simp add: IsExistLinkInNS_def open_ns_def ns_Do_def vx_veth_def)
  have rm: "run_state (RemoveVethLink ref_net vx_veth) d = (None, d)" for d :: "api daemon daemon"
    by (rule ref_remove_veth) (simp add: vx_veth_def)
  obtain d1 where mk: "run_state (MakeVxLan ref_net (lift_os (ref_os Map.empty)) vx_veth
      (makeVxlan (ref_net :: api daemon daemon net_env) ''eth0'' (pod_SrcIp pod_a) (lk_Uid link_ba) 1400)) two_nodes = (None, d1)"
    using ref_make_vxlan [of vx_veth "lift_os (ref_os Map.empty)"] by (auto simp: vx_veth_def)
  have reg: "\<exists>d2. run_state (lc_RegisterVxlanLink (client_of 1 vx_sys []) x) d1 = (Inr ok_response, d2)" for x
    by (simp add: client_of_def RegisterVxlanLink_def)
  obtain d2 where reg: "run_state (lc_RegisterVxlanLink (client_of 1 vx_sys []) (vxlan_def pod_a link_ba ''t'' vx_veth)) d1 = (Inr ok_response, d2)"
    using reg by blast
  let ?pay = "remote_payload pod_b pod_a link_ba ''t'' ''eth0'' 1400"
  obtain w' where cu: "run_state (CreateOrUpdate ref_net (ref_os demo_env) ?pay) (dm_world (dm_world d2)) = (None, w')"
    using ref_create_or_update [of ?pay "ref_os demo_env" "dm_world (dm_world d2)"]
    by (auto simp: remote_payload_def link_ba_def pod_a_def)
  have up: "\<exists>b'. run_state (Update_vxlan (ref_sys demo_env) ?pay) (dm_world d2) = ((ok_response, None), b')"
    using cu by (simp add: Update_vxlan_def)
  have url: "pod_SrcIp pod_a = ''10.0.0.2''" by (simp add: pod_a_def)
  have "\<exists>d'. run_state (update_remote_vtep ?pl ''t'' pod_b pod_a link_ba ''eth0'') d2 = (None, d')"
    using up by (auto simp: update_remote_vtep_def Let_def mtu url lift_rpc_def daemon_rpc_def boolResponseErr_def)
  moreover obtain e where "run_state (IsExistLinkInNS ref_net (ve_NsName vx_veth) (ve_LinkName vx_veth)) two_nodes = ((True, e), two_nodes)"
    using ex by blast
  ultimately show ?thesis
    using rm mk reg by (simp add: add_vxlan_def mtu lift_ref_net)
qed

lemma vxlan_link_known_to_both_witness:
  "\<exists>d'. run_state (add_vxlan (node_plugin demo_cni INTER_NODE_LINK_VXLAN 1 vx_sys []) ''t'' pod_b pod_a link_ba ''eth0'' vx_veth) two_nodes =
       (None, d') \<and>
     GetLink ''t'' 7 (dm_links (dm_world d')) = Some (vx_end ''t'' 7 ''/ns/a'' ''eth2'' ''10.0.0.1'')"
proof -
  obtain d' where run: "run_state (add_vxlan (node_plugin demo_cni INTER_NODE_LINK_VXLAN 1 vx_sys []) ''t'' pod_b pod_a link_ba ''eth0'' vx_veth)
      two_nodes = (None, d')" using vx_demo by blast
  have rpc: "sy_rpc vx_sys = daemon_rpc (ref_sys demo_env) [] [] (pod_SrcIp pod_a @ '':'' @ dec GRPCDefaultPort)"
    by (simp add: pod_a_def)
  from vxlan_link_known_to_both [OF rpc vx_sys_keeps run] run show ?thesis
    by (auto simp: link_ba_def pod_a_def pod_b_def)
qed

section \<open>Carrier across the wire\<close>

text \<open>The wire at \<open>a\<close> is the one that interface \<open>i\<close> leads to.\<close>

definition iface_wire :: "linkKey list \<Rightarrow> 'w daemon \<Rightarrow> nat \<Rightarrow> GRPCWire \<Rightarrow> bool" where
  "iface_wire ks d a w \<longleftrightarrow> GetWireByIfIndex ks (gw_LocalNodeIfaceID w) (dm_wires d) = Some a \<and> wheap (dm_wires d) a = Some w"

text \<open>The peer's kernel is asked for the interface and told the state.\<close>

definition admin_state :: "'w net_env \<Rightarrow> int64 \<Rightarrow> bool \<Rightarrow> ('w, goerr option) io" where
  "admin_state nt i up = do {
     rl \<leftarrow> LinkByIndex nt CurrentNs (sint i);
     (case rl of Inl e \<Rightarrow> return (Some e)
      | Inr l \<Rightarrow> if up then LinkSetUp nt CurrentNs l else LinkSetDown nt CurrentNs l)
   }"

lemma mirror_run:
  assumes "iface_wire ks d a w" "run_state (LinkByIndex nt CurrentNs (sint (gw_LocalNodeIfaceID w))) (dm_world d) = (Inr l, w1)"
  shows "\<exists>e. run_state (SetLocalVethState nt ks (gw_LocalNodeIfaceID w) uid ns up) d =
     (e, d\<lparr>dm_echo := SuppressEcho (gw_LocalNodeIfaceID w) up (dm_echo d),
         dm_world := snd (run_state (admin_state nt (gw_LocalNodeIfaceID w) up) (dm_world d))\<rparr>)"
  using assms by (auto simp: SetLocalVethState_def iface_wire_def admin_state_def split: prod.splits)

text \<open>
  C14: A carrier change crosses a grpc wire exactly once. When one end's watch reports an
  edge that it does not expect as an echo, the peer's daemon sets its own interface of the
  same wire to that state, and nothing else changes on either node but the peer's note to
  expect the echo; and the edge that this causes in the peer's watch uses up the note and
  calls no one.
\<close>

theorem carrier_edge_crosses_once:
  assumes "sy_rpc sa = daemon_rpc sb kb vb (peer_url (gw_PeerNodeIP w))" "crossed w w'"
    and "iface_wire ks d a w" "iface_wire kb (dm_world d) a' w'" "gw_LocalNodeIfaceID w' \<noteq> 0"
    and "dm_carrier (dm_world d)" "dm_echo d (gw_LocalNodeIfaceID w) \<noteq> Some up"
    and "run_state (LinkByIndex (sy_net sb) CurrentNs (sint (gw_LocalNodeIfaceID w'))) (dm_world (dm_world d)) = (Inr l, w1)"
    and "b = (dm_world d)\<lparr>dm_echo := (dm_echo (dm_world d))(gw_LocalNodeIfaceID w' \<mapsto> up),
           dm_world := snd (run_state (admin_state (sy_net sb) (gw_LocalNodeIfaceID w') up) (dm_world (dm_world d)))\<rparr>"
  shows "run_state (wire_edges (sy_rpc sa) ks [\<lparr>ed_Key = gw_LocalNodeIfaceID w, ed_Up = up\<rparr>]) d = ((), d\<lparr>dm_world := b\<rparr>) \<and>
     run_state (wire_edges rpc kb [\<lparr>ed_Key = gw_LocalNodeIfaceID w', ed_Up = up\<rparr>]) b =
       ((), b\<lparr>dm_echo := (dm_echo (dm_world d))(gw_LocalNodeIfaceID w' := None)\<rparr>)"
proof
  let ?st = "wire_link_state w up"
  have st: "wls_PeerIfaceId ?st = gw_LocalNodeIfaceID w'" "wls_Up ?st = up"
    using assms(2) by (simp_all add: wire_link_state_def crossed_def)
  obtain e where "run_state (SetLocalVethState (sy_net sb) kb (gw_LocalNodeIfaceID w') (wls_LinkUid ?st) (wls_LocalPodNetNs ?st) up)
      (dm_world d) = (e, b)"
    using mirror_run [OF assms(4,8), of "wls_LinkUid ?st" "wls_LocalPodNetNs ?st" up] unfolding assms(9) SuppressEcho_def by blast
  then have "run_state (SetPeerLinkState sb kb vb ?st) (dm_world d) = (bool_reply e, b)"
    using assms(4-6) st by (simp add: SetPeerLinkState_def iface_wire_def)
  moreover have "ConsumeEcho (gw_LocalNodeIfaceID w) up (dm_echo d) = (False, dm_echo d)"
    using assms(7) by (simp add: ConsumeEcho_def)
  ultimately show "run_state (wire_edges (sy_rpc sa) ks [\<lparr>ed_Key = gw_LocalNodeIfaceID w, ed_Up = up\<rparr>]) d = ((), d\<lparr>dm_world := b\<rparr>)"
    using assms(1,3) by (simp add: propagateEdge_def notifyPeerLinkState_def NotifyPeerLinkState_def daemon_rpc_def served_def
        iface_wire_def wire_at_def split: prod.splits)
  show "run_state (wire_edges rpc kb [\<lparr>ed_Key = gw_LocalNodeIfaceID w', ed_Up = up\<rparr>]) b =
       ((), b\<lparr>dm_echo := (dm_echo (dm_world d))(gw_LocalNodeIfaceID w' := None)\<rparr>)"
    by (simp add: assms(9) ConsumeEcho_def)
qed

text \<open>Both ends filed, and the peer's carrier propagation switched on.\<close>

definition carrier_nodes :: "api daemon daemon" where
  "carrier_nodes = joined_nodes\<lparr>dm_world := (dm_world joined_nodes)\<lparr>dm_carrier := True\<rparr>\<rparr>"

abbreviation "carrier_sys \<equiv> sys_a\<lparr>sy_rpc := daemon_rpc (ref_sys demo_env) [('''', 0)] [] (peer_url '''')\<rparr>"

theorem carrier_edge_crosses_once_witness:
  "\<exists>b. run_state (wire_edges (sy_rpc carrier_sys) [('''', 0)] [\<lparr>ed_Key = 9, ed_Up = False\<rparr>]) carrier_nodes =
       ((), carrier_nodes\<lparr>dm_world := b\<rparr>) \<and> dm_echo b 12 = Some False \<and>
     run_state (wire_edges ref_rpc [('''', 0)] [\<lparr>ed_Key = 12, ed_Up = False\<rparr>]) b = ((), b\<lparr>dm_echo := (dm_echo demo_daemon)(12 := None)\<rparr>)"
proof -
  let ?w = "end_wire 9 12" and ?w' = "end_wire 12 9" and ?B = "dm_world carrier_nodes"
  have id: "gw_LocalNodeIfaceID ?w = 9" "gw_LocalNodeIfaceID ?w' = 12" "gw_PeerNodeIP ?w = ''''"
    by (simp_all add: end_wire_def CreateGWire_def zero_WireDef_def)
  have ends: "iface_wire [('''', 0)] carrier_nodes 0 ?w" "iface_wire [('''', 0)] ?B 0 ?w'" "crossed ?w ?w'"
    by (simp_all add: iface_wire_def carrier_nodes_def joined_nodes_def end_map_def end_wire_def crossed_def CreateGWire_def
        zero_WireDef_def empty_wires_def)
  have st: "dm_carrier ?B" "dm_echo carrier_nodes 9 = None" "dm_echo ?B = dm_echo demo_daemon"
    by (simp_all add: carrier_nodes_def joined_nodes_def two_nodes_def)
  have l: "run_state (LinkByIndex (sy_net (ref_sys demo_env)) CurrentNs (sint (gw_LocalNodeIfaceID ?w'))) (dm_world ?B) =
      (Inr (ref_link ''veth'' (sint (gw_LocalNodeIfaceID ?w'))), dm_world ?B)" by simp
  have rpc: "sy_rpc carrier_sys = daemon_rpc (ref_sys demo_env) [('''', 0)] [] (peer_url (gw_PeerNodeIP ?w))" by (simp add: id)
  from carrier_edge_crosses_once [OF rpc ends(3,1,2) _ st(1) _ l refl, where up = False and rpc = ref_rpc] st(2) show ?thesis
    by (auto simp: id st(3))
qed

end
