(* ===== verification/Link_Protocol.thy ===== *)
theory Link_Protocol
  imports Plugin
begin

text \<open>
  Two pods of one link come up on the same node, each with its own run of the plugin's ADD.
  The runs share the topology objects (who is alive, who skipped whom) and the interfaces
  of the two pods.  Every call to the daemon or to the kernel is a point where the other
  run may go on: the two interface checks of \<open>connect_veths\<close> are two steps, and
  \<open>koko.MakeVeth\<close> is three, making the pair under temporary names and giving each end
  its namespace and name.  Any call may fail, with or without its effect.
\<close>

section \<open>What the two runs share\<close>

text \<open>
  The pods are \<open>True\<close> and \<open>False\<close>; \<open>nm\<close> gives their names.  A run makes one veth pair at
  most, so a pair is named by the pod that made it: \<open>lg_pair\<close> tells whether it exists, and
  \<open>lg_end\<close> to which pair the interface belongs that a pod's namespace has for the link.
\<close>

record ledger =
  lg_live :: "bool \<Rightarrow> bool"
  lg_skips :: "bool \<Rightarrow> bool"
  lg_pair :: "bool \<Rightarrow> bool"
  lg_end :: "bool \<Rightarrow> bool option"

definition fresh_ledger :: ledger where
  "fresh_ledger = \<lparr>lg_live = (\<lambda>p. False), lg_skips = (\<lambda>p. False), lg_pair = (\<lambda>p. False), lg_end = (\<lambda>p. None)\<rparr>"

abbreviation now_live :: "bool \<Rightarrow> ledger \<Rightarrow> ledger" where
  "now_live p g \<equiv> g\<lparr>lg_live := (lg_live g)(p := True)\<rparr>"
abbreviation now_skips :: "bool \<Rightarrow> ledger \<Rightarrow> ledger" where
  "now_skips p g \<equiv> g\<lparr>lg_skips := (lg_skips g)(p := True)\<rparr>"
abbreviation now_made :: "bool \<Rightarrow> ledger \<Rightarrow> ledger" where
  "now_made p g \<equiv> g\<lparr>lg_pair := (lg_pair g)(p := True)\<rparr>"
abbreviation now_placed :: "bool \<Rightarrow> bool \<Rightarrow> ledger \<Rightarrow> ledger" where
  "now_placed e p g \<equiv> g\<lparr>lg_end := (lg_end g)(e := Some p)\<rparr>"

text \<open>Deleting either interface of a veth pair deletes both.\<close>

definition drop_pair :: "bool \<Rightarrow> ledger \<Rightarrow> ledger" where
  "drop_pair q g = g\<lparr>lg_pair := (lg_pair g)(q := False),
     lg_end := (\<lambda>e. if lg_end g e = Some q then None else lg_end g e)\<rparr>"

text \<open>Where a run is: the next call it makes, or how it ended.\<close>

datatype pc = AtSetAlive | AtGet | AtSkip | AtLookOwn | AtLookPeer bool | AtAsk | AtRemoveOwn | AtRemovePeer
  | AtMake | AtPlaceOwn | AtPlacePeer | LeftToPeer | LinkConnected | AddFailed

fun ended :: "pc \<Rightarrow> bool" where
  "ended LeftToPeer = True" | "ended LinkConnected = True" | "ended AddFailed = True" | "ended _ = False"

text \<open>An error of \<open>IsExistLinkInNS\<close> is dropped; an error of any other call ends the run.\<close>

fun fallible :: "pc \<Rightarrow> bool" where
  "fallible AtLookOwn = False" | "fallible (AtLookPeer x) = False" | "fallible l = (\<not> ended l)"

text \<open>The calls that follow what a run has read.\<close>

definition after_get :: "bool \<Rightarrow> pc" where
  "after_get peerAlive = (if peerAlive then AtLookOwn else AtSkip)"

definition after_inspect :: "bool \<Rightarrow> bool \<Rightarrow> pc" where
  "after_inspect iExist pExist =
     (case veth_decide iExist pExist of LinkUp \<Rightarrow> LinkConnected | RemovePeerEnd \<Rightarrow> AtRemovePeer
        | RemoveMyEnd \<Rightarrow> AtRemoveOwn | AskSkipped \<Rightarrow> AtAsk)"

definition after_ask :: "bool \<Rightarrow> string \<Rightarrow> string \<Rightarrow> pc" where
  "after_ask skipped localName peerName =
     (if mine_to_connect skipped localName peerName then AtMake else LeftToPeer)"

text \<open>
  What a call of pod \<open>p\<close> does when nothing is wrong with it, and where the run is then.
  \<open>None\<close>: it cannot succeed, for the interface to remove is not there, or the name to give
  is taken, or the pair is gone.
\<close>

fun answer :: "(bool \<Rightarrow> string) \<Rightarrow> bool \<Rightarrow> ledger \<Rightarrow> pc \<Rightarrow> (pc \<times> ledger) option" where
  "answer nm p g AtSetAlive = Some (AtGet, now_live p g)"
| "answer nm p g AtGet = Some (after_get (lg_live g (\<not> p)), g)"
| "answer nm p g AtSkip = Some (LeftToPeer, now_skips p g)"
| "answer nm p g AtLookOwn = Some (AtLookPeer (lg_end g p \<noteq> None), g)"
| "answer nm p g (AtLookPeer x) = Some (after_inspect x (lg_end g (\<not> p) \<noteq> None), g)"
| "answer nm p g AtAsk = Some (after_ask (lg_skips g (\<not> p)) (nm p) (nm (\<not> p)), g)"
| "answer nm p g AtRemoveOwn = map_option (\<lambda>q. (AtMake, drop_pair q g)) (lg_end g p)"
| "answer nm p g AtRemovePeer = map_option (\<lambda>q. (AtMake, drop_pair q g)) (lg_end g (\<not> p))"
| "answer nm p g AtMake = Some (AtPlaceOwn, now_made p g)"
| "answer nm p g AtPlaceOwn = (if lg_pair g p \<and> lg_end g p = None then Some (AtPlacePeer, now_placed p p g) else None)"
| "answer nm p g AtPlacePeer =
     (if lg_pair g p \<and> lg_end g (\<not> p) = None then Some (LinkConnected, now_placed (\<not> p) p g) else None)"
| "answer nm p g _ = None"

record proto =
  pcs :: "bool \<Rightarrow> pc"
  led :: ledger

definition goto :: "bool \<Rightarrow> pc \<Rightarrow> ledger \<Rightarrow> proto \<Rightarrow> proto" where
  "goto p l g s = s\<lparr>pcs := (pcs s)(p := l), led := g\<rparr>"

lemma goto_simps [simp]: "pcs (goto p l g s) = (pcs s)(p := l)" "led (goto p l g s) = g"
  by (simp_all add: goto_def)

text \<open>A step in which no call fails that could have succeeded.\<close>

inductive pstep :: "(bool \<Rightarrow> string) \<Rightarrow> proto \<Rightarrow> proto \<Rightarrow> bool" for nm where
  answered: "answer nm p (led s) (pcs s p) = Some (l, g) \<Longrightarrow> pstep nm s (goto p l g s)"
| refused: "answer nm p (led s) (pcs s p) = None \<Longrightarrow> \<not> ended (pcs s p) \<Longrightarrow> pstep nm s (goto p AddFailed (led s) s)"

text \<open>
  A fault: the call has no effect, or its effect is there and the answer is lost, or
  \<open>MakeVeth\<close> cleans up after an error.  An interface check that fails reads as no interface,
  and a peer whose node the daemon does not know reads as not alive.
\<close>

inductive pfault :: "(bool \<Rightarrow> string) \<Rightarrow> proto \<Rightarrow> proto \<Rightarrow> bool" for nm where
  call_fails: "fallible (pcs s p) \<Longrightarrow> pfault nm s (goto p AddFailed (led s) s)"
| answer_lost: "fallible (pcs s p) \<Longrightarrow> answer nm p (led s) (pcs s p) = Some (l, g) \<Longrightarrow> pfault nm s (goto p AddFailed g s)"
| make_undone: "pcs s p = AtPlaceOwn \<or> pcs s p = AtPlacePeer \<Longrightarrow> pfault nm s (goto p AddFailed (drop_pair p (led s)) s)"
| peer_hidden: "pcs s p = AtGet \<Longrightarrow> pfault nm s (goto p (after_get False) (led s) s)"
| own_unseen: "pcs s p = AtLookOwn \<Longrightarrow> pfault nm s (goto p (AtLookPeer False) (led s) s)"
| peer_unseen: "pcs s p = AtLookPeer x \<Longrightarrow> pfault nm s (goto p (after_inspect x False) (led s) s)"

definition pmove :: "(bool \<Rightarrow> string) \<Rightarrow> proto \<Rightarrow> proto \<Rightarrow> bool" where
  "pmove nm s s' \<longleftrightarrow> pstep nm s s' \<or> pfault nm s s'"

definition proto_start :: proto where
  "proto_start = \<lparr>pcs = (\<lambda>p. AtSetAlive), led = fresh_ledger\<rparr>"

text \<open>The states reached without a fault, and those reached with any faults.\<close>

inductive preach :: "(bool \<Rightarrow> string) \<Rightarrow> proto \<Rightarrow> bool" for nm where
  start: "preach nm proto_start"
| more: "preach nm s \<Longrightarrow> pstep nm s s' \<Longrightarrow> preach nm s'"

inductive freach :: "(bool \<Rightarrow> string) \<Rightarrow> proto \<Rightarrow> bool" for nm where
  f_start: "freach nm proto_start"
| f_more: "freach nm s \<Longrightarrow> pmove nm s s' \<Longrightarrow> freach nm s'"

lemma preach_freach: "preach nm s \<Longrightarrow> freach nm s"
  by (induction rule: preach.induct) (auto simp: pmove_def intro: freach.intros)

lemmas after_defs = after_get_def after_inspect_def after_ask_def veth_decide_def

text \<open>Going on without having seen what is there.\<close>

definition unseen :: "pc \<Rightarrow> pc \<Rightarrow> bool" where
  "unseen l l2 \<longleftrightarrow> l = AtGet \<and> l2 = after_get False \<or> l = AtLookOwn \<and> l2 = AtLookPeer False \<or>
     (\<exists>x. l = AtLookPeer x \<and> l2 = after_inspect x False)"

text \<open>Every move takes one run from a place at which it had not ended.\<close>

lemma pmove_cases:
  assumes "pmove nm s s'"
  obtains p l g where "s' = goto p l g s" "\<not> ended (pcs s p)"
    "answer nm p (led s) (pcs s p) = Some (l, g) \<or>
     l = AddFailed \<and> (g = led s \<or> (\<exists>l2. answer nm p (led s) (pcs s p) = Some (l2, g)) \<or>
        (pcs s p = AtPlaceOwn \<or> pcs s p = AtPlacePeer) \<and> g = drop_pair p (led s)) \<or>
     g = led s \<and> unseen (pcs s p) l"
proof -
  have f: "fallible l \<Longrightarrow> \<not> ended l" for l by (cases l) simp_all
  have a: "answer nm p g l = Some x \<Longrightarrow> \<not> ended l" for p g l x by (cases l) simp_all
  from assms consider "pstep nm s s'" | "pfault nm s s'" unfolding pmove_def by blast
  then show thesis
  proof cases
    case 1
    then show ?thesis by cases (use that a in blast)+
  next
    case 2
    then show ?thesis
    proof cases
      case (make_undone p)
      then have "\<not> ended (pcs s p)" by auto
      with that make_undone show ?thesis by blast
    qed (use that f in \<open>auto simp: unseen_def\<close>)
  qed
qed

section \<open>Every run ends\<close>

text \<open>The number of calls a run still makes, at most.\<close>

fun calls_due :: "pc \<Rightarrow> nat" where
  "calls_due AtSetAlive = 8" | "calls_due AtGet = 7" | "calls_due AtSkip = 1" | "calls_due AtLookOwn = 6"
| "calls_due (AtLookPeer x) = 5" | "calls_due AtAsk = 4" | "calls_due AtRemoveOwn = 4" | "calls_due AtRemovePeer = 4"
| "calls_due AtMake = 3" | "calls_due AtPlaceOwn = 2" | "calls_due AtPlacePeer = 1" | "calls_due l = 0"

lemma calls_due_ended: "calls_due l = 0 \<longleftrightarrow> ended l"
  by (cases l) simp_all

lemma after_due:
  "calls_due (after_get b) < 7" "calls_due (after_inspect x b) < 5" "calls_due (after_ask b y z) < 4"
  by (simp_all add: after_defs)

lemma answer_due: "answer nm p g l = Some (l', g') \<Longrightarrow> calls_due l' < calls_due l"
  using after_due by (cases l) (auto split: if_splits)

lemma pmove_due:
  assumes "pmove nm s s'"
  shows "calls_due (pcs s' True) + calls_due (pcs s' False) < calls_due (pcs s True) + calls_due (pcs s False)"
  using assms
proof (rule pmove_cases)
  fix p l g
  assume s': "s' = goto p l g s" and n: "\<not> ended (pcs s p)"
    and l: "answer nm p (led s) (pcs s p) = Some (l, g) \<or>
     l = AddFailed \<and> (g = led s \<or> (\<exists>l2. answer nm p (led s) (pcs s p) = Some (l2, g)) \<or>
        (pcs s p = AtPlaceOwn \<or> pcs s p = AtPlacePeer) \<and> g = drop_pair p (led s)) \<or>
     g = led s \<and> unseen (pcs s p) l"
  have "0 < calls_due (pcs s p)" using n calls_due_ended [of "pcs s p"] by (cases "calls_due (pcs s p)") auto
  moreover have "calls_due l2 < calls_due l1" if "unseen l1 l2" for l1 l2
    using that after_due by (auto simp: unseen_def)
  ultimately have "calls_due l < calls_due (pcs s p)" using l answer_due by auto
  then show ?thesis unfolding s' by (cases p) simp_all
qed

lemma pstep_exists: "(\<exists>s'. pstep nm s s') \<longleftrightarrow> (\<exists>p. \<not> ended (pcs s p))"
proof
  assume "\<exists>s'. pstep nm s s'"
  then obtain s' where "pmove nm s s'" unfolding pmove_def by blast
  then show "\<exists>p. \<not> ended (pcs s p)" by (rule pmove_cases) blast
next
  assume "\<exists>p. \<not> ended (pcs s p)"
  then obtain p where p: "\<not> ended (pcs s p)" ..
  show "\<exists>s'. pstep nm s s'"
  proof (cases "answer nm p (led s) (pcs s p)")
    case None
    from refused [OF this p] show ?thesis by blast
  next
    case (Some x)
    then show ?thesis using answered [of nm p s "fst x" "snd x"] by auto
  qed
qed

lemma all_bool: "(\<forall>p :: bool. P p) \<longleftrightarrow> P True \<and> P False"
  by (metis (full_types))

lemma ex_bool: "(\<exists>p :: bool. P p) \<longleftrightarrow> P True \<or> P False"
  by (metis (full_types))

text \<open>
  Two runs make at most 16 calls in all, whatever fails, and as long as one has not ended
  there is a call to make: no interleaving leaves them waiting for each other.
\<close>

theorem both_runs_end:
  assumes "(pmove nm ^^ n) proto_start s"
  shows "n \<le> 16 \<and> ((\<exists>s'. pmove nm s s') \<longleftrightarrow> \<not> (ended (pcs s True) \<and> ended (pcs s False)))"
proof -
  let ?due = "\<lambda>s. calls_due (pcs s True) + calls_due (pcs s False)"
  have bound: "(pmove nm ^^ n) s0 s \<Longrightarrow> n + ?due s \<le> ?due s0" for s0
  proof (induction n arbitrary: s)
    case (Suc n)
    then obtain t where "(pmove nm ^^ n) s0 t" "pmove nm t s" by auto
    then show ?case using Suc.IH [of t] pmove_due [of nm t s] by simp
  qed simp
  have "n \<le> 16" using bound [OF assms] by (simp add: proto_start_def)
  moreover have "(\<exists>s'. pmove nm s s') \<longleftrightarrow> (\<exists>p. \<not> ended (pcs s p))"
  proof
    assume "\<exists>s'. pmove nm s s'"
    then obtain s' where "pmove nm s s'" ..
    then show "\<exists>p. \<not> ended (pcs s p)" by (rule pmove_cases) blast
  qed (use pstep_exists [of nm s] in \<open>auto simp: pmove_def\<close>)
  ultimately show ?thesis by (simp add: ex_bool)
qed

section \<open>What holds of every reachable state\<close>

lemma higherPrio_asym: "\<not> (higherPrio x y \<and> higherPrio y x)"
  by (auto simp: higherPrio_def)

lemma higherPrio_total: "x \<noteq> y \<Longrightarrow> higherPrio x y \<or> higherPrio y x"
  by (auto simp: higherPrio_def)

fun making :: "pc \<Rightarrow> bool" where
  "making AtMake = True" | "making AtPlaceOwn = True" | "making AtPlacePeer = True" | "making _ = False"

fun may_have_pair :: "pc \<Rightarrow> bool" where
  "may_have_pair AtPlaceOwn = True" | "may_have_pair AtPlacePeer = True" | "may_have_pair LinkConnected = True"
| "may_have_pair AddFailed = True" | "may_have_pair _ = False"

definition joined :: "bool \<Rightarrow> ledger \<Rightarrow> bool" where
  "joined q g \<longleftrightarrow> (\<forall>e. lg_end g e = Some q)"

text \<open>
  One pod's part of the invariant, over the place \<open>l\<close> of its run and \<open>l'\<close> of the other;
  \<open>h\<close> tells whether it has the greater name.  First why a run leaves the link to its peer.
\<close>

definition left_inv :: "bool \<Rightarrow> ledger \<Rightarrow> bool \<Rightarrow> pc \<Rightarrow> bool" where
  "left_inv h g p l \<longleftrightarrow> (l = LeftToPeer \<longrightarrow> lg_skips g p \<or> \<not> h)"

text \<open>Then the interfaces: the end in the peer's namespace is placed last.\<close>

definition veth_inv :: "ledger \<Rightarrow> bool \<Rightarrow> pc \<Rightarrow> pc \<Rightarrow> bool" where
  "veth_inv g p l l' \<longleftrightarrow>
     (lg_pair g p \<longrightarrow> may_have_pair l) \<and>
     (lg_end g p = Some p \<longrightarrow> lg_pair g p) \<and>
     (lg_end g (\<not> p) = Some p \<longrightarrow> lg_end g p = Some p \<and> (l = LinkConnected \<or> l = AddFailed)) \<and>
     (l = AtPlacePeer \<and> lg_pair g p \<longrightarrow> lg_end g p = Some p) \<and>
     (l = AtLookPeer True \<longrightarrow> lg_end g (\<not> p) = Some (\<not> p) \<and> lg_end g p = Some (\<not> p)) \<and>
     (l = LinkConnected \<longrightarrow> joined p g \<or> joined (\<not> p) g \<or> making l' \<or> l' = AddFailed)"

lemma joined_pod: "joined q g \<longleftrightarrow> lg_end g p = Some q \<and> lg_end g (\<not> p) = Some q"
  unfolding joined_def all_bool by (cases p) auto

lemma bool_option_cases:
  obtains "x = None" | "x = Some True" | "x = Some False"
  by (cases x) (metis (full_types))+

lemma answer_left_inv:
  assumes "left_inv h' g (\<not> p) l'"
  shows "case answer nm p g l of None \<Rightarrow> True | Some (l2, g2) \<Rightarrow>
     left_inv (higherPrio (nm p) (nm (\<not> p))) g2 p l2 \<and> left_inv h' g2 (\<not> p) l'"
  using assms
  by (cases l) (simp_all add: left_inv_def after_defs mine_to_connect_def drop_pair_def split: option.split)

lemma answer_veth_inv:
  assumes "veth_inv g p l l'" "veth_inv g (\<not> p) l' l"
  shows "case answer nm p g l of None \<Rightarrow> True | Some (l2, g2) \<Rightarrow> veth_inv g2 p l2 l' \<and> veth_inv g2 (\<not> p) l' l2"
proof (cases l)
  case AtSetAlive
  show ?thesis using assms unfolding AtSetAlive veth_inv_def joined_def all_bool
    by (cases p; simp split: option.split)
next
  case AtGet
  show ?thesis using assms unfolding AtGet veth_inv_def joined_def all_bool
    by (cases p; simp add: after_get_def split: option.split)
next
  case AtSkip
  show ?thesis using assms unfolding AtSkip veth_inv_def joined_def all_bool
    by (cases p; simp split: option.split)
next
  case AtLookOwn
  show ?thesis using assms unfolding AtLookOwn veth_inv_def joined_def all_bool
    by (cases p; cases "lg_end g p" rule: bool_option_cases; simp)
next
  case (AtLookPeer x)
  show ?thesis using assms unfolding AtLookPeer veth_inv_def joined_def all_bool
    by (cases p; simp add: after_inspect_def veth_decide_def split: option.split)
next
  case AtAsk
  show ?thesis using assms unfolding AtAsk veth_inv_def joined_def all_bool
    by (cases p; simp add: after_ask_def mine_to_connect_def split: option.split)
next
  case AtRemoveOwn
  show ?thesis using assms unfolding AtRemoveOwn veth_inv_def joined_def all_bool
    by (cases p; simp add: drop_pair_def split: option.split)
next
  case AtRemovePeer
  show ?thesis using assms unfolding AtRemovePeer veth_inv_def joined_def all_bool
    by (cases p; simp add: drop_pair_def split: option.split)
next
  case AtMake
  show ?thesis using assms unfolding AtMake veth_inv_def joined_def all_bool
    by (cases p; simp split: option.split)
next
  case AtPlaceOwn
  show ?thesis using assms unfolding AtPlaceOwn veth_inv_def joined_def all_bool
    by (cases p; simp split: option.split)
next
  case AtPlacePeer
  show ?thesis using assms unfolding AtPlacePeer veth_inv_def joined_def all_bool
    by (cases "lg_pair g (\<not> p)"; cases "l' = AtPlacePeer"; cases p; simp)
qed (use assms in simp_all)

text \<open>A run that fails, or that does not see an interface, keeps the invariant too.\<close>

lemma failed_veth_inv:
  assumes "veth_inv g p l l'" "veth_inv g (\<not> p) l' l"
  shows "veth_inv g p AddFailed l'" "veth_inv g (\<not> p) l' AddFailed"
proof -
  have f: "may_have_pair AddFailed" by simp
  show "veth_inv g p AddFailed l'" using assms(1) f unfolding veth_inv_def by blast
  show "veth_inv g (\<not> p) l' AddFailed" using assms(2) unfolding veth_inv_def by blast
qed

lemma drop_pair_simps [simp]:
  "lg_pair (drop_pair q g) r \<longleftrightarrow> lg_pair g r \<and> r \<noteq> q" "lg_live (drop_pair q g) = lg_live g"
  "lg_skips (drop_pair q g) = lg_skips g" "lg_end (drop_pair q g) e = Some r \<longleftrightarrow> lg_end g e = Some r \<and> r \<noteq> q"
  by (auto simp: drop_pair_def)

lemma undone_veth_inv:
  assumes "veth_inv g p l l'" "veth_inv g (\<not> p) l' l" "l = AtPlaceOwn \<or> l = AtPlacePeer"
  shows "veth_inv (drop_pair p g) p AddFailed l'" "veth_inv (drop_pair p g) (\<not> p) l' AddFailed"
proof -
  have f: "may_have_pair AddFailed" "(\<not> p) \<noteq> p" "lg_end g (\<not> p) \<noteq> Some p"
    using assms(1,3) unfolding veth_inv_def by auto
  show "veth_inv (drop_pair p g) p AddFailed l'"
    using assms(1) f unfolding veth_inv_def drop_pair_simps by blast
  show "veth_inv (drop_pair p g) (\<not> p) l' AddFailed"
    using assms(2) f unfolding veth_inv_def drop_pair_simps not_not by blast
qed

text \<open>From one place before the interfaces are touched to another.\<close>

fun early :: "pc \<Rightarrow> bool" where
  "early AtGet = True" | "early AtSkip = True" | "early AtLookOwn = True" | "early (AtLookPeer x) = True" | "early AtAsk = True" | "early AtRemoveOwn = True"
| "early _ = False"

lemma earlyD:
  assumes "early l"
  shows "l \<noteq> AddFailed" "l \<noteq> LeftToPeer" "l \<noteq> LinkConnected" "l \<noteq> AtPlacePeer"
    "\<not> may_have_pair l" "\<not> making l"
  using assms by (cases l; simp)+

lemma early_inv:
  assumes "early l" "early l2" "l2 \<noteq> AtLookPeer True" "veth_inv g p l l'" "veth_inv g (\<not> p) l' l"
  shows "veth_inv g p l2 l'" "veth_inv g (\<not> p) l' l2"
proof -
  note e = earlyD [OF assms(1)] earlyD [OF assms(2)] assms(3)
  show "veth_inv g p l2 l'" using assms(4) e unfolding veth_inv_def by blast
  show "veth_inv g (\<not> p) l' l2" using assms(5) e unfolding veth_inv_def by blast
qed

lemma inspect_unseen [simp]: "after_inspect x False = (if x then AtRemoveOwn else AtAsk)"
  by (simp add: after_defs)

lemma unseen_early:
  assumes "unseen l l2"
  shows "early l" "early l2" "l2 \<noteq> AtLookPeer True"
  using assms by (auto simp: unseen_def after_get_def split: if_splits)

definition proto_inv :: "(bool \<Rightarrow> string) \<Rightarrow> proto \<Rightarrow> bool" where
  "proto_inv nm s \<longleftrightarrow> (\<forall>p. left_inv (higherPrio (nm p) (nm (\<not> p))) (led s) p (pcs s p) \<and>
     veth_inv (led s) p (pcs s p) (pcs s (\<not> p)))"

lemma proto_invD:
  assumes "proto_inv nm s"
  shows "left_inv (higherPrio (nm p) (nm (\<not> p))) (led s) p (pcs s p)"
    "left_inv (higherPrio (nm (\<not> p)) (nm p)) (led s) (\<not> p) (pcs s (\<not> p))"
    "veth_inv (led s) p (pcs s p) (pcs s (\<not> p))" "veth_inv (led s) (\<not> p) (pcs s (\<not> p)) (pcs s p)"
  using assms [unfolded proto_inv_def, rule_format, of p] assms [unfolded proto_inv_def, rule_format, of "\<not> p"]
  by simp_all

lemma proto_inv_goto:
  assumes "left_inv (higherPrio (nm p) (nm (\<not> p))) g p l" "left_inv (higherPrio (nm (\<not> p)) (nm p)) g (\<not> p) (pcs s (\<not> p))"
    "veth_inv g p l (pcs s (\<not> p))" "veth_inv g (\<not> p) (pcs s (\<not> p)) l"
  shows "proto_inv nm (goto p l g s)"
  using assms unfolding proto_inv_def all_bool by (cases p) simp_all

lemma pmove_inv:
  assumes "pmove nm s s'" "proto_inv nm s"
  shows "proto_inv nm s'"
  using assms(1)
proof (rule pmove_cases)
  fix p l g
  let ?l = "pcs s p" and ?l' = "pcs s (\<not> p)" and ?g = "led s"
  note i = proto_invD [OF assms(2), of p]
  have f: "left_inv h g p AddFailed" for h g p by (simp add: left_inv_def)
  assume s': "s' = goto p l g s"
    and m: "answer nm p ?g ?l = Some (l, g) \<or>
     l = AddFailed \<and> (g = ?g \<or> (\<exists>l2. answer nm p ?g ?l = Some (l2, g)) \<or>
        (?l = AtPlaceOwn \<or> ?l = AtPlacePeer) \<and> g = drop_pair p ?g) \<or>
     g = ?g \<and> unseen ?l l"
  have a: "left_inv (higherPrio (nm p) (nm (\<not> p))) g2 p l2" "left_inv (higherPrio (nm (\<not> p)) (nm p)) g2 (\<not> p) ?l'"
    "veth_inv g2 p l2 ?l'" "veth_inv g2 (\<not> p) ?l' l2" if "answer nm p ?g ?l = Some (l2, g2)" for l2 g2
    using answer_left_inv [OF i(2), of nm ?l] answer_veth_inv [OF i(3,4), of nm] that by simp_all
  from m consider "answer nm p ?g ?l = Some (l, g)" | "l = AddFailed" "g = ?g"
    | l2 where "l = AddFailed" "answer nm p ?g ?l = Some (l2, g)"
    | "l = AddFailed" "g = drop_pair p ?g" "?l = AtPlaceOwn \<or> ?l = AtPlacePeer"
    | "g = ?g" "unseen ?l l"
    by blast
  then show "proto_inv nm s'" unfolding s'
  proof cases
    case 1
    from a [OF this] show "proto_inv nm (goto p l g s)" by (rule proto_inv_goto)
  next
    case 2
    show "proto_inv nm (goto p l g s)" unfolding 2
      by (intro proto_inv_goto f i(2) failed_veth_inv [OF i(3,4)])
  next
    case (3 l2)
    note b = a [OF 3(2)]
    show "proto_inv nm (goto p l g s)" unfolding 3(1)
      by (intro proto_inv_goto f b(2) failed_veth_inv [OF b(3,4)])
  next
    case 4
    have "left_inv h (drop_pair p ?g) = left_inv h ?g" for h by (simp add: left_inv_def fun_eq_iff)
    then show "proto_inv nm (goto p l g s)"
      using f i(2) undone_veth_inv [OF i(3,4) 4(3)] unfolding 4(1,2) by (intro proto_inv_goto) simp_all
  next
    case 5
    have "left_inv h ?g p l" for h
      using 5(2) by (auto simp: left_inv_def unseen_def after_get_def split: if_splits)
    then show "proto_inv nm (goto p l g s)" unfolding 5(1)
      by (intro proto_inv_goto i(2) early_inv [OF unseen_early [OF 5(2)] i(3,4)])
  qed
qed

lemma freach_inv: "freach nm s \<Longrightarrow> proto_inv nm s"
proof (induction rule: freach.induct)
  case f_start
  show ?case by (simp add: proto_inv_def left_inv_def veth_inv_def proto_start_def fresh_ledger_def)
next
  case (f_more s s')
  then show ?case using pmove_inv by blast
qed

section \<open>The properties of the protocol\<close>

lemma run_invD:
  assumes "freach nm s"
  shows "pcs s p = LeftToPeer \<Longrightarrow> lg_skips (led s) p \<or> \<not> higherPrio (nm p) (nm (\<not> p))"
    "lg_pair (led s) p \<Longrightarrow> may_have_pair (pcs s p)"
    "lg_end (led s) p = Some p \<Longrightarrow> lg_pair (led s) p" "lg_end (led s) (\<not> p) = Some p \<Longrightarrow> lg_pair (led s) p"
    "pcs s p = LinkConnected \<Longrightarrow> \<not> making (pcs s (\<not> p)) \<Longrightarrow> pcs s (\<not> p) \<noteq> AddFailed \<Longrightarrow>
       joined p (led s) \<or> joined (\<not> p) (led s)"
  using proto_invD(1,3) [OF freach_inv [OF assms], of p] unfolding left_inv_def veth_inv_def by blast+

text \<open>
  C11: When the ADDs of two pods of one node both end without an error, however their calls
  were interleaved, whatever interface checks failed and whoever was taken for dead, then
  either both interfaces of the link exist and are the two ends of one veth pair, or none
  exists: then both runs left the link to the other, and the pod with the greater name has
  skipped its peer.  A link is never left half made or joined to another pair.
\<close>

theorem unfailed_runs_share_a_pair:
  assumes "freach nm s" "\<And>p. pcs s p = LeftToPeer \<or> pcs s p = LinkConnected" "nm True \<noteq> nm False"
  shows "(\<exists>q. lg_pair (led s) q \<and> (\<forall>e. lg_end (led s) e = Some q)) \<or>
     (\<forall>e. pcs s e = LeftToPeer \<and> lg_end (led s) e = None) \<and>
     (\<exists>p. higherPrio (nm p) (nm (\<not> p)) \<and> lg_skips (led s) p)"
proof (cases "\<exists>p. pcs s p = LinkConnected")
  case True
  then obtain p where "pcs s p = LinkConnected" ..
  moreover have "\<not> making (pcs s (\<not> p))" "pcs s (\<not> p) \<noteq> AddFailed" using assms(2) [of "\<not> p"] by auto
  ultimately obtain q where q: "joined q (led s)" using run_invD(5) [OF assms(1)] by blast
  then have "lg_pair (led s) q" using run_invD(3) [OF assms(1), of q] by (simp add: joined_def)
  with q show ?thesis unfolding joined_def by blast
next
  case False
  then have l: "pcs s p = LeftToPeer" for p using assms(2) by blast
  obtain p where p: "higherPrio (nm p) (nm (\<not> p))"
    using higherPrio_total [OF assms(3)] by (metis (full_types))
  then have "lg_skips (led s) p" using run_invD(1) [OF assms(1) l] by blast
  moreover have n: "\<not> lg_pair (led s) q" for q using run_invD(2) [OF assms(1), of q] l [of q] by auto
  have "lg_end (led s) e = None" for e
  proof (cases "lg_end (led s) e")
    case (Some q)
    then show ?thesis using run_invD(3,4) [OF assms(1), of q] n by (cases "e = q") auto
  qed
  ultimately show ?thesis using l p by blast
qed

section \<open>Runs\<close>

text \<open>One call of a pod, when nothing is wrong with it; and the calls of a schedule.\<close>

definition advance :: "(bool \<Rightarrow> string) \<Rightarrow> bool \<Rightarrow> proto \<Rightarrow> proto" where
  "advance nm p s = (case answer nm p (led s) (pcs s p) of
     Some (l, g) \<Rightarrow> goto p l g s | None \<Rightarrow> if ended (pcs s p) then s else goto p AddFailed (led s) s)"

definition play :: "(bool \<Rightarrow> string) \<Rightarrow> bool list \<Rightarrow> proto \<Rightarrow> proto" where
  "play nm ps s = fold (advance nm) ps s"

lemma play_simps [simp]: "play nm [] s = s" "play nm (p # ps) s = play nm ps (advance nm p s)"
  by (simp_all add: play_def)

lemma advance_step: "advance nm p s = s \<or> pstep nm s (advance nm p s)"
proof (cases "answer nm p (led s) (pcs s p)")
  case None
  then show ?thesis using refused [of nm p s] by (simp add: advance_def)
next
  case (Some x)
  then show ?thesis using answered [of nm p s "fst x" "snd x"] by (cases x) (simp add: advance_def)
qed

lemma play_reach: "preach nm s \<Longrightarrow> preach nm (play nm ps s)"
proof (induction ps arbitrary: s)
  case (Cons p ps)
  from advance_step [of nm p s] have "preach nm (advance nm p s)" using Cons.prems more by metis
  then show ?case using Cons.IH by simp
qed simp

lemma play_steps: "(pstep nm)\<^sup>*\<^sup>* s (play nm ps s)"
proof (induction ps arbitrary: s)
  case (Cons p ps)
  from advance_step [of nm p s] show ?case
  proof
    assume "pstep nm s (advance nm p s)"
    then show ?thesis using Cons.IH [of "advance nm p s"] by (simp add: converse_rtranclp_into_rtranclp)
  qed (use Cons.IH [of "advance nm p s"] in simp)
qed simp

lemmas play_eval = advance_def proto_start_def fresh_ledger_def after_defs mine_to_connect_def drop_pair_def goto_def

definition late_skip_schedule :: "bool list" where
  "late_skip_schedule = [True, True, False, False, False, False, False, True]"

lemma lost_run:
  assumes "higherPrio (nm True) (nm False)"
  shows "\<exists>s. preach nm s \<and> (\<forall>p. pcs s p = LeftToPeer \<and> lg_live (led s) p \<and> lg_end (led s) p = None)"
proof (intro exI conjI)
  show "preach nm (play nm late_skip_schedule proto_start)" by (rule play_reach) (rule start)
  have "\<not> higherPrio (nm False) (nm True)" using assms higherPrio_asym by blast
  then show "\<forall>p. pcs (play nm late_skip_schedule proto_start) p = LeftToPeer \<and>
      lg_live (led (play nm late_skip_schedule proto_start)) p \<and> lg_end (led (play nm late_skip_schedule proto_start)) p = None"
    unfolding all_bool late_skip_schedule_def by (simp add: play_eval)
qed

text \<open>
  C28: And that way exists: for two pods, the greater one reads that its peer is not alive;
  the peer comes up, sees the greater pod alive, is not skipped yet and leaves the link to
  it; then the skip is written.  Both runs end without an error, both pods are alive and
  neither interface exists, although no call has failed.
\<close>

theorem link_can_be_lost:
  assumes "higherPrio (nm True) (nm False)"
  shows "\<exists>s. preach nm s \<and> (\<forall>p. pcs s p = LeftToPeer \<and> lg_live (led s) p \<and> lg_end (led s) p = None)"
  using assms by (rule lost_run)

text \<open>Up to where the pod \<open>False\<close> has seen no interface of its own and \<open>True\<close> has placed its.\<close>

definition late_look_schedule :: "bool list" where
  "late_look_schedule = [True, False, True, True, True, True, True, False, False, True]"

lemma remade_run:
  assumes "higherPrio (nm True) (nm False)"
  shows "\<exists>s s'. preach nm s \<and> pcs s True = LinkConnected \<and> (\<forall>e. lg_end (led s) e = Some True) \<and>
       preach nm s' \<and> (pstep nm)\<^sup>*\<^sup>* s s' \<and> pcs s' True = LinkConnected \<and> pcs s' False = LinkConnected \<and>
       \<not> lg_pair (led s') True \<and> (\<forall>e. lg_end (led s') e = Some False)"
proof -
  let ?s = "play nm (late_look_schedule @ [True]) proto_start"
  let ?s' = "play nm (replicate 5 False) ?s"
  have "preach nm ?s" "preach nm ?s'" "(pstep nm)\<^sup>*\<^sup>* ?s ?s'" by (intro play_reach start play_steps)+
  moreover have "pcs ?s True = LinkConnected \<and> (\<forall>e. lg_end (led ?s) e = Some True)"
    unfolding all_bool using assms by (simp add: play_eval late_look_schedule_def)
  moreover have "pcs ?s' True = LinkConnected \<and> pcs ?s' False = LinkConnected \<and>
       \<not> lg_pair (led ?s') True \<and> (\<forall>e. lg_end (led ?s') e = Some False)"
    unfolding all_bool using assms by (simp add: play_eval late_look_schedule_def numeral_eq_Suc)
  ultimately show ?thesis by blast
qed

lemma failed_run:
  assumes "higherPrio (nm True) (nm False)"
  shows "\<exists>s. preach nm s \<and> pcs s True = AddFailed \<and> pcs s False = LinkConnected \<and> (\<forall>e. lg_end (led s) e = Some False)"
proof -
  let ?t = "play nm (late_look_schedule @ [False, False, True, False, False, False]) proto_start"
  have "preach nm ?t" by (intro play_reach start)
  moreover have "pcs ?t True = AddFailed \<and> pcs ?t False = LinkConnected \<and> (\<forall>e. lg_end (led ?t) e = Some False)"
    unfolding all_bool using assms by (simp add: play_eval late_look_schedule_def)
  ultimately show ?thesis by blast
qed

text \<open>
  C12: The two interface checks are not atomic, so a link is torn down while or after it is
  made, although no call fails by itself.  The pod with the smaller name looks for its own
  interface before its peer has made the pair, and for the peer's interface afterwards;
  it takes what it finds for a stale remnant, removes it and makes the pair again.  If the
  peer's ADD has succeeded by then, the interfaces it reported as connected are gone and
  others are in their place; if it is about to place its second end, its ADD fails.
\<close>

theorem racing_pod_remakes_link:
  assumes "higherPrio (nm True) (nm False)"
  shows "(\<exists>s s'. preach nm s \<and> pcs s True = LinkConnected \<and> (\<forall>e. lg_end (led s) e = Some True) \<and>
       (pstep nm)\<^sup>*\<^sup>* s s' \<and> pcs s' True = LinkConnected \<and> pcs s' False = LinkConnected \<and>
       \<not> lg_pair (led s') True \<and> (\<forall>e. lg_end (led s') e = Some False)) \<and>
     (\<exists>s. preach nm s \<and> pcs s True = AddFailed \<and> pcs s False = LinkConnected \<and> (\<forall>e. lg_end (led s) e = Some False))"
  using remade_run [OF assms] failed_run [OF assms] by blast

section \<open>A concrete pair of pods\<close>

definition demo_names :: "bool \<Rightarrow> string" where
  "demo_names p = (if p then ''b'' else ''a'')"

lemma demo_prio: "higherPrio (demo_names True) (demo_names False)"
  by (simp add: demo_names_def higherPrio_def less_char_def)

theorem link_can_be_lost_witness:
  "\<exists>s. preach demo_names s \<and> (\<forall>p. pcs s p = LeftToPeer \<and> lg_live (led s) p \<and> lg_end (led s) p = None)"
  by (rule link_can_be_lost [OF demo_prio])

theorem racing_pod_remakes_link_witness:
  "\<exists>s. preach demo_names s \<and> pcs s True = AddFailed \<and> pcs s False = LinkConnected"
  using racing_pod_remakes_link [OF demo_prio] by blast

theorem unfailed_runs_share_a_pair_witness:
  "\<exists>s. freach demo_names s \<and> pcs s True = LinkConnected \<and> pcs s False = LinkConnected \<and>
     (\<exists>q. lg_pair (led s) q \<and> (\<forall>e. lg_end (led s) e = Some q))"
proof -
  obtain s where s: "preach demo_names s" "pcs s True = LinkConnected" "pcs s False = LinkConnected"
    using remade_run [OF demo_prio] by blast
  have "pcs s p = LeftToPeer \<or> pcs s p = LinkConnected" for p using s(2,3) by (cases p) simp_all
  moreover have "demo_names True \<noteq> demo_names False" by (simp add: demo_names_def)
  ultimately have "\<exists>q. lg_pair (led s) q \<and> (\<forall>e. lg_end (led s) e = Some q)"
    using unfailed_runs_share_a_pair [OF preach_freach [OF s(1)]] s(2) by (metis pc.distinct)
  then show ?thesis using s preach_freach by blast
qed

theorem both_runs_end_witness:
  "(0 :: nat) \<le> 16 \<and> ((\<exists>s'. pmove demo_names proto_start s') \<longleftrightarrow> \<not> (ended (pcs proto_start True) \<and> ended (pcs proto_start False)))"
  by (rule both_runs_end) simp

end
