(* ===== verification/Grpc_Protocol.thy ===== *)
theory Grpc_Protocol
  imports Link_Protocol
begin

text \<open>
  Two pods of one grpc link come up on different nodes, each with its own run of the
  plugin's ADD.  The runs share the topology objects, and each daemon tells its own plugin
  whether its end of the wire is there.  The step relation interleaves the calls of
  \<open>add_pod\<close>, \<open>add_with_peer\<close>, \<open>CreatGRPCChan\<close> and \<open>await_peer\<close>; making the
  interfaces on the creator's node touches nothing that is shared and is no step.

  Unlike on one node (\<open>Link_Protocol\<close>), the pod with the smaller name polls for the wire
  and for the skip, so a skip that is written before the last poll does not lose the link.
\<close>

section \<open>What the two runs share\<close>

record gledger =
  gl_live :: "bool \<Rightarrow> bool"
  gl_skips :: "bool \<Rightarrow> bool"
  gl_end :: "bool \<Rightarrow> bool"

text \<open>
  Where a run is.  \<open>GTick n\<close> is the wait for a tick with \<open>n\<close> more ticks to come;
  \<open>GPoll n\<close> is the second call of that tick.
\<close>

datatype gpc = GSetAlive | GGet | GSkip | GAsk | GTick nat | GPoll nat | GExists | GRemote | GLocal
  | GLeft | GGaveUp | GFound | GCreated

fun gended :: "gpc \<Rightarrow> bool" where
  "gended GLeft = True" | "gended GGaveUp = True" | "gended GFound = True" | "gended GCreated = True"
| "gended _ = False"

text \<open>The calls that follow what a run has read.\<close>

definition g_after_get :: "bool \<Rightarrow> gpc" where
  "g_after_get peerAlive = (if peerAlive then GAsk else GSkip)"

definition g_after_ask :: "bool \<Rightarrow> string \<Rightarrow> string \<Rightarrow> gpc" where
  "g_after_ask skipped localName peerName =
     (if \<not> skipped \<and> \<not> higherPrio localName peerName then GTick (skipStatusRetryCount - 1) else GExists)"

definition g_after_tick :: "bool \<Rightarrow> nat \<Rightarrow> gpc" where
  "g_after_tick found n = (if found then GFound else GPoll n)"

definition g_after_poll :: "bool \<Rightarrow> nat \<Rightarrow> gpc" where
  "g_after_poll skipped n =
     (if skipped then GExists else (case n of 0 \<Rightarrow> GGaveUp | Suc m \<Rightarrow> GTick m))"

definition g_after_exists :: "bool \<Rightarrow> gpc" where
  "g_after_exists found = (if found then GFound else GRemote)"

record gproto =
  gpcs :: "bool \<Rightarrow> gpc"
  gled :: gledger

definition ggoto :: "bool \<Rightarrow> gpc \<Rightarrow> gproto \<Rightarrow> gproto" where
  "ggoto p l s = s\<lparr>gpcs := (gpcs s)(p := l)\<rparr>"

definition gnote :: "(gledger \<Rightarrow> gledger) \<Rightarrow> gproto \<Rightarrow> gproto" where
  "gnote f s = s\<lparr>gled := f (gled s)\<rparr>"

abbreviation set_live :: "bool \<Rightarrow> gledger \<Rightarrow> gledger" where
  "set_live p g \<equiv> g\<lparr>gl_live := (gl_live g)(p := True)\<rparr>"
abbreviation set_skip :: "bool \<Rightarrow> gledger \<Rightarrow> gledger" where
  "set_skip p g \<equiv> g\<lparr>gl_skips := (gl_skips g)(p := True)\<rparr>"
abbreviation set_end :: "bool \<Rightarrow> gledger \<Rightarrow> gledger" where
  "set_end p g \<equiv> g\<lparr>gl_end := (gl_end g)(p := True)\<rparr>"

text \<open>\<open>gmove nm p\<close> is a step of the run of pod \<open>p\<close>.\<close>

inductive gmove :: "(bool \<Rightarrow> string) \<Rightarrow> bool \<Rightarrow> gproto \<Rightarrow> gproto \<Rightarrow> bool" for nm p where
  g_set_alive: "gpcs s p = GSetAlive \<Longrightarrow> gmove nm p s (ggoto p GGet (gnote (set_live p) s))"
| g_get_peer: "gpcs s p = GGet \<Longrightarrow> gmove nm p s (ggoto p (g_after_get (gl_live (gled s) (\<not> p))) s)"
| g_skip_peer: "gpcs s p = GSkip \<Longrightarrow> gmove nm p s (ggoto p GLeft (gnote (set_skip p) s))"
| g_ask: "gpcs s p = GAsk \<Longrightarrow>
     gmove nm p s (ggoto p (g_after_ask (gl_skips (gled s) (\<not> p)) (nm p) (nm (\<not> p))) s)"
| g_tick: "gpcs s p = GTick n \<Longrightarrow> gmove nm p s (ggoto p (g_after_tick (gl_end (gled s) p) n) s)"
| g_poll: "gpcs s p = GPoll n \<Longrightarrow> gmove nm p s (ggoto p (g_after_poll (gl_skips (gled s) (\<not> p)) n) s)"
| g_exists: "gpcs s p = GExists \<Longrightarrow> gmove nm p s (ggoto p (g_after_exists (gl_end (gled s) p)) s)"
| g_remote: "gpcs s p = GRemote \<Longrightarrow> gmove nm p s (ggoto p GLocal (gnote (set_end (\<not> p)) s))"
| g_local: "gpcs s p = GLocal \<Longrightarrow> gmove nm p s (ggoto p GCreated (gnote (set_end p) s))"

inductive_cases gmoveE: "gmove nm p s s'"

definition gstep :: "(bool \<Rightarrow> string) \<Rightarrow> gproto \<Rightarrow> gproto \<Rightarrow> bool" where
  "gstep nm s s' \<longleftrightarrow> (\<exists>p. gmove nm p s s')"

definition gstart :: gproto where
  "gstart = \<lparr>gpcs = (\<lambda>p. GSetAlive),
     gled = \<lparr>gl_live = (\<lambda>p. False), gl_skips = (\<lambda>p. False), gl_end = (\<lambda>p. False)\<rparr>\<rparr>"

inductive greach :: "(bool \<Rightarrow> string) \<Rightarrow> gproto \<Rightarrow> bool" for nm where
  g_start: "greach nm gstart"
| g_more: "greach nm s \<Longrightarrow> gmove nm p s s' \<Longrightarrow> greach nm s'"

lemma ggoto_simps [simp]: "gpcs (ggoto p l s) = (gpcs s)(p := l)" "gled (ggoto p l s) = gled s"
  by (simp_all add: ggoto_def)

lemma gnote_simps [simp]: "gpcs (gnote f s) = gpcs s" "gled (gnote f s) = f (gled s)"
  by (simp_all add: gnote_def)

lemma skip_count: "skipStatusRetryCount - Suc 0 = 19"
  by (simp add: skipStatusRetryCount_def skipStatusRetryWarnCount_def)

lemmas g_after_defs = g_after_get_def g_after_ask_def g_after_tick_def g_after_poll_def g_after_exists_def

section \<open>Every run ends\<close>

text \<open>An upper bound on the calls a run still makes.\<close>

fun calls_left :: "gpc \<Rightarrow> nat" where
  "calls_left GSetAlive = 46" | "calls_left GGet = 45" | "calls_left GSkip = 1" | "calls_left GAsk = 44"
| "calls_left (GTick n) = 2 * n + 5" | "calls_left (GPoll n) = 2 * n + 4" | "calls_left GExists = 3"
| "calls_left GRemote = 2" | "calls_left GLocal = 1" | "calls_left GLeft = 0" | "calls_left GGaveUp = 0"
| "calls_left GFound = 0" | "calls_left GCreated = 0"

definition total_left :: "gproto \<Rightarrow> nat" where
  "total_left s = calls_left (gpcs s True) + calls_left (gpcs s False)"

lemma gmove_left:
  assumes "gmove nm p s s'"
  shows "calls_left (gpcs s' p) < calls_left (gpcs s p)" "gpcs s' (\<not> p) = gpcs s (\<not> p)"
proof -
  have "calls_left (gpcs s' p) < calls_left (gpcs s p) \<and> gpcs s' (\<not> p) = gpcs s (\<not> p)"
    using assms by (cases; simp add: g_after_defs skip_count split: nat.split)
  then show "calls_left (gpcs s' p) < calls_left (gpcs s p)" "gpcs s' (\<not> p) = gpcs s (\<not> p)"
    by simp_all
qed

lemma gmove_total: "gmove nm p s s' \<Longrightarrow> total_left s' < total_left s"
  using gmove_left [of nm p s s'] by (cases p) (simp_all add: total_left_def)

lemma gmove_exists: "(\<exists>s'. gmove nm p s s') \<longleftrightarrow> \<not> gended (gpcs s p)"
  by (cases "gpcs s p") (auto elim: gmoveE intro: gmove.intros)

section \<open>What holds of every reachable state\<close>

definition g_responsible :: "(bool \<Rightarrow> string) \<Rightarrow> gproto \<Rightarrow> bool \<Rightarrow> bool" where
  "g_responsible nm s p \<longleftrightarrow> gl_skips (gled s) (\<not> p) \<or> higherPrio (nm p) (nm (\<not> p))"

fun creating :: "gpc \<Rightarrow> bool" where
  "creating GExists = True" | "creating GRemote = True" | "creating GLocal = True" | "creating GCreated = True"
| "creating _ = False"

fun waiting :: "gpc \<Rightarrow> bool" where
  "waiting (GTick n) = True" | "waiting (GPoll n) = True" | "waiting GGaveUp = True" | "waiting _ = False"

definition has_made :: "gpc \<Rightarrow> bool" where
  "has_made l \<longleftrightarrow> l = GLocal \<or> l = GCreated"

text \<open>One pod's part of the invariant, over what it reads of the state.\<close>

definition pod_inv :: "bool \<Rightarrow> gledger \<Rightarrow> bool \<Rightarrow> gpc \<Rightarrow> gpc \<Rightarrow> bool" where
  "pod_inv h g p l l' \<longleftrightarrow>
     (gl_live g p \<longleftrightarrow> l \<noteq> GSetAlive) \<and>
     (gl_skips g p \<longleftrightarrow> l = GLeft) \<and>
     (l = GSkip \<or> l = GLeft \<longrightarrow> l' \<noteq> GSkip \<and> l' \<noteq> GLeft) \<and>
     (creating l \<longrightarrow> l' = GLeft \<or> h) \<and>
     (waiting l \<longrightarrow> \<not> h) \<and>
     (l = GFound \<longrightarrow> has_made l') \<and>
     (gl_end g p \<longleftrightarrow> l = GCreated \<or> has_made l')"

definition ginv :: "(bool \<Rightarrow> string) \<Rightarrow> gproto \<Rightarrow> bool" where
  "ginv nm s \<longleftrightarrow> (\<forall>p. pod_inv (higherPrio (nm p) (nm (\<not> p))) (gled s) p (gpcs s p) (gpcs s (\<not> p)))"

lemma ginvD:
  assumes "ginv nm s"
  shows "gl_live (gled s) p \<longleftrightarrow> gpcs s p \<noteq> GSetAlive"
    "gl_skips (gled s) p \<longleftrightarrow> gpcs s p = GLeft"
    "gpcs s p = GSkip \<or> gpcs s p = GLeft \<Longrightarrow> gpcs s (\<not> p) \<noteq> GSkip \<and> gpcs s (\<not> p) \<noteq> GLeft"
    "creating (gpcs s p) \<Longrightarrow> gpcs s (\<not> p) = GLeft \<or> higherPrio (nm p) (nm (\<not> p))"
    "waiting (gpcs s p) \<Longrightarrow> \<not> higherPrio (nm p) (nm (\<not> p))"
    "gpcs s p = GFound \<Longrightarrow> has_made (gpcs s (\<not> p))"
    "gl_end (gled s) p \<longleftrightarrow> gpcs s p = GCreated \<or> has_made (gpcs s (\<not> p))"
  using assms unfolding ginv_def pod_inv_def by blast+

lemma ginvI:
  assumes "pod_inv (higherPrio (nm p) (nm (\<not> p))) (gled s) p (gpcs s p) (gpcs s (\<not> p))"
    "pod_inv (higherPrio (nm (\<not> p)) (nm p)) (gled s) (\<not> p) (gpcs s (\<not> p)) (gpcs s p)"
  shows "ginv nm s"
  unfolding ginv_def
proof
  fix q
  show "pod_inv (higherPrio (nm q) (nm (\<not> q))) (gled s) q (gpcs s q) (gpcs s (\<not> q))"
    using assms by (cases "q = p") auto
qed

text \<open>No two runs are both on the way to making the wire.\<close>

lemma one_creator: "ginv nm s \<Longrightarrow> creating (gpcs s p) \<Longrightarrow> \<not> creating (gpcs s (\<not> p))"
  using ginvD(4) [of nm s p] ginvD(4) [of nm s "\<not> p"] higherPrio_asym by force

lemma gmove_inv:
  assumes m: "gmove nm p s s'" and i: "ginv nm s"
  shows "ginv nm s'"
proof -
  note d = ginvD [OF i, of p] and d' = ginvD [OF i, of "\<not> p", simplified]
  show ?thesis
    using m
  proof cases
    case g_set_alive
    with d d' show ?thesis by (intro ginvI [of nm p]) (auto simp: pod_inv_def has_made_def)
  next
    case g_get_peer
    with d d' show ?thesis by (intro ginvI [of nm p]) (auto simp: pod_inv_def has_made_def g_after_get_def)
  next
    case g_skip_peer
    with d d' show ?thesis by (intro ginvI [of nm p]) (auto simp: pod_inv_def has_made_def)
  next
    case g_ask
    with d d' show ?thesis by (intro ginvI [of nm p]) (auto simp: pod_inv_def has_made_def g_after_ask_def)
  next
    case (g_tick n)
    with d d' show ?thesis by (intro ginvI [of nm p]) (auto simp: pod_inv_def has_made_def g_after_tick_def)
  next
    case (g_poll n)
    with d d' show ?thesis
      by (intro ginvI [of nm p]) (auto simp: pod_inv_def has_made_def g_after_poll_def split: nat.splits)
  next
    case g_exists
    with d d' show ?thesis by (intro ginvI [of nm p]) (auto simp: pod_inv_def has_made_def g_after_exists_def)
  next
    case g_remote
    with d d' show ?thesis by (intro ginvI [of nm p]) (auto simp: pod_inv_def has_made_def)
  next
    case g_local
    with d d' show ?thesis by (intro ginvI [of nm p]) (auto simp: pod_inv_def has_made_def)
  qed
qed

lemma greach_inv: "greach nm s \<Longrightarrow> ginv nm s"
proof (induction rule: greach.induct)
  case g_start
  show ?case by (simp add: ginv_def pod_inv_def gstart_def has_made_def)
next
  case (g_more s p s')
  then show ?case using gmove_inv by blast
qed

section \<open>The properties of the protocol\<close>

text \<open>
  The wire is created by one side only: while one run is past its last question and on
  the way to creating the wire, or has created it, the other is not.
\<close>

theorem wire_has_one_creator:
  assumes "greach nm s" "creating (gpcs s p)"
  shows "\<not> creating (gpcs s (\<not> p))"
  using one_creator [OF greach_inv [OF assms(1)] assms(2)] .

lemma ended_made: "gended l \<Longrightarrow> has_made l \<Longrightarrow> l = GCreated"
  by (cases l) (simp_all add: has_made_def)

lemma gended_cases: "gended l \<Longrightarrow> l = GLeft \<or> l = GGaveUp \<or> l = GFound \<or> l = GCreated"
  by (cases l) simp_all

lemma ends_of_created:
  assumes "ginv nm s" "gpcs s p = GCreated"
  shows "gl_end (gled s) q"
  using ginvD(7) [OF assms(1), of p] ginvD(7) [OF assms(1), of "\<not> p"] assms(2)
  by (cases "q = p") (auto simp: has_made_def)

text \<open>
  C8: When both runs have ended and an end of the wire is missing, the pod with the greater
  name has skipped its peer, and the peer gave up after all its polls: this is the only way
  two pods on different nodes can come up without their wire when no call fails.
\<close>

theorem wire_lost_only_after_all_polls:
  assumes "greach nm s" "gended (gpcs s True)" "gended (gpcs s False)" "nm True \<noteq> nm False" "\<not> gl_end (gled s) q"
  shows "\<exists>p. higherPrio (nm p) (nm (\<not> p)) \<and> gl_skips (gled s) p \<and> gpcs s (\<not> p) = GGaveUp"
proof -
  note i = greach_inv [OF assms(1)]
  have e: "gended (gpcs s p)" for p using assms(2,3) by (cases p) simp_all
  have c: "gpcs s p \<noteq> GCreated" for p using ends_of_created [OF i] assms(5) by blast
  have f: "gpcs s p \<noteq> GFound" for p
    using ginvD(6) [OF i, of p] ended_made [OF e, of "\<not> p"] c [of "\<not> p"] by auto
  have w: "gpcs s p = GLeft \<or> gpcs s p = GGaveUp" for p
    using gended_cases [OF e [of p]] c [of p] f [of p] by blast
  obtain p where p: "higherPrio (nm p) (nm (\<not> p))"
    using higherPrio_total [OF assms(4)] by (metis (full_types))
  have "gpcs s p \<noteq> GGaveUp" using ginvD(5) [OF i, of p] p by auto
  then have l: "gpcs s p = GLeft" using w by blast
  then have "gl_skips (gled s) p" "gpcs s (\<not> p) = GGaveUp"
    using ginvD(2,3) [OF i, of p] w [of "\<not> p"] by auto
  with p show ?thesis by blast
qed

lemma skip_seen_step:
  assumes "gmove nm q s s'" "ginv nm s" "gpcs s p = GLeft" "gpcs s (\<not> p) \<noteq> GGaveUp"
  shows "gpcs s' p = GLeft \<and> gpcs s' (\<not> p) \<noteq> GGaveUp"
proof -
  have "\<not> gended (gpcs s q)" using gmove_exists assms(1) by blast
  then have q: "q = (\<not> p)" using assms(3) by (cases "q = p") auto
  have sk: "gl_skips (gled s) p" using ginvD(2) [OF assms(2), of p] assms(3) by simp
  show ?thesis
    using assms(1) unfolding q
    by cases (use assms(3,4) sk in \<open>simp_all add: g_after_defs\<close>)
qed

lemma gsteps_inv: "(gstep nm)\<^sup>*\<^sup>* s s' \<Longrightarrow> ginv nm s \<Longrightarrow> ginv nm s'"
  by (induction rule: rtranclp_induct) (auto simp: gstep_def intro: gmove_inv)

lemma skip_seen:
  assumes "(gstep nm)\<^sup>*\<^sup>* s s'" "ginv nm s" "gpcs s p = GLeft" "gpcs s (\<not> p) \<noteq> GGaveUp"
  shows "gpcs s' p = GLeft \<and> gpcs s' (\<not> p) \<noteq> GGaveUp"
  using assms
proof (induction rule: rtranclp_induct)
  case (step t u)
  then have "ginv nm t" using gsteps_inv by blast
  then show ?case using step skip_seen_step by (metis gstep_def)
qed simp

text \<open>
  C9: A skip that is written before the peer has given up never loses the wire: from such a
  state on, whatever the interleaving, when both runs have ended the skipped pod has
  created the wire and both ends are there.  (On one node the same order of calls can lose
  the link.)
\<close>

theorem skip_in_time_creates_wire:
  assumes "greach nm s" "gl_skips (gled s) p" "gpcs s (\<not> p) \<noteq> GGaveUp"
    and "(gstep nm)\<^sup>*\<^sup>* s s'" "gended (gpcs s' (\<not> p))"
  shows "gpcs s' (\<not> p) = GCreated \<and> gl_end (gled s') True \<and> gl_end (gled s') False"
proof -
  note i = greach_inv [OF assms(1)]
  have l: "gpcs s p = GLeft" using ginvD(2) [OF i, of p] assms(2) by simp
  note k = skip_seen [OF assms(4) i l assms(3)] and i' = gsteps_inv [OF assms(4) i]
  have "gpcs s' (\<not> p) \<noteq> GLeft" using ginvD(3) [OF i', of p] k by blast
  moreover have "gpcs s' (\<not> p) \<noteq> GFound"
    using ginvD(6) [OF i', of "\<not> p"] k by (auto simp: has_made_def)
  ultimately have c: "gpcs s' (\<not> p) = GCreated" using gended_cases [OF assms(5)] k by blast
  with ends_of_created [OF i' c] show ?thesis by blast
qed

lemma grun_bound: "(gstep nm ^^ n) s0 s \<Longrightarrow> n + total_left s \<le> total_left s0"
proof (induction n arbitrary: s)
  case (Suc n)
  then obtain t where t: "(gstep nm ^^ n) s0 t" "gstep nm t s" by auto
  then obtain p where "gmove nm p t s" unfolding gstep_def by blast
  with t(1) show ?case using Suc.IH [of t] gmove_total [of nm p t s] by simp
qed simp

text \<open>
  C10: Two runs make at most 92 calls to the daemons in all, and as long as one has not ended
  there is a call to make: polling for the peer never waits for ever.
\<close>

theorem grpc_runs_end:
  assumes "(gstep nm ^^ n) gstart s"
  shows "n \<le> 92 \<and> ((\<exists>s'. gstep nm s s') \<longleftrightarrow> \<not> (gended (gpcs s True) \<and> gended (gpcs s False)))"
proof -
  have "n \<le> 92" using grun_bound [OF assms] by (simp add: total_left_def gstart_def)
  moreover have "(\<exists>s'. gstep nm s s') \<longleftrightarrow> (\<exists>p. \<not> gended (gpcs s p))"
    unfolding gstep_def using gmove_exists by blast
  ultimately show ?thesis by (simp add: ex_bool)
qed

lemma gmoves_gsteps: "(gmove nm q)\<^sup>*\<^sup>* s t \<Longrightarrow> (gstep nm)\<^sup>*\<^sup>* s t"
proof (induction rule: rtranclp_induct)
  case (step t u)
  then have "gstep nm t u" by (auto simp: gstep_def)
  with step(3) show ?case by (rule rtranclp.rtrancl_into_rtrancl)
qed simp

section \<open>Concrete runs\<close>

text \<open>The pod \<open>b\<close> (\<open>True\<close>) reads its peer before \<open>a\<close> is alive; \<open>a\<close> reads \<open>b\<close> alive.\<close>

definition late_skip :: gproto where
  "late_skip = \<lparr>gpcs = (\<lambda>p. if p then GSkip else GAsk),
     gled = \<lparr>gl_live = (\<lambda>p. True), gl_skips = (\<lambda>p. False), gl_end = (\<lambda>p. False)\<rparr>\<rparr>"

lemma greach_steps: "(gstep nm)\<^sup>*\<^sup>* s s' \<Longrightarrow> greach nm s \<Longrightarrow> greach nm s'"
  by (induction rule: rtranclp_induct) (auto simp: gstep_def intro: g_more)

lemma late_skip_reached: "greach demo_names late_skip"
proof -
  let ?s1 = "ggoto True GGet (gnote (set_live True) gstart)"
  let ?s2 = "ggoto True (g_after_get (gl_live (gled ?s1) (\<not> True))) ?s1"
  let ?s3 = "ggoto False GGet (gnote (set_live False) ?s2)"
  let ?s4 = "ggoto False (g_after_get (gl_live (gled ?s3) (\<not> False))) ?s3"
  have "greach demo_names ?s1" by (rule g_more [OF g_start g_set_alive]) (simp add: gstart_def)
  then have "greach demo_names ?s2" by (rule g_more [OF _ g_get_peer]) simp
  then have "greach demo_names ?s3" by (rule g_more [OF _ g_set_alive]) (simp add: gstart_def)
  then have "greach demo_names ?s4" by (rule g_more [OF _ g_get_peer]) simp
  moreover have "?s4 = late_skip"
    by (auto simp: late_skip_def ggoto_def gnote_def gstart_def g_after_get_def)
  ultimately show ?thesis by simp
qed

lemma polls_in_vain:
  assumes "gpcs s False = GTick n" "\<not> gl_end (gled s) False" "\<not> gl_skips (gled s) True"
  shows "(gstep nm)\<^sup>*\<^sup>* s (ggoto False GGaveUp s)"
  using assms
proof (induction n arbitrary: s rule: less_induct)
  case (less n)
  let ?s1 = "ggoto False (GPoll n) s" and ?s2 = "ggoto False (g_after_poll False n) s"
  have "gstep nm s ?s1"
    using g_tick [of s False n nm] less.prems by (auto simp: gstep_def g_after_tick_def)
  moreover have "gstep nm ?s1 ?s2"
    using g_poll [of ?s1 False n nm] less.prems by (auto simp: gstep_def ggoto_def)
  ultimately have s2: "(gstep nm)\<^sup>*\<^sup>* s ?s2" by (meson r_into_rtranclp rtranclp.rtrancl_into_rtrancl)
  show ?case
  proof (cases n)
    case 0
    with s2 show ?thesis by (simp add: g_after_poll_def)
  next
    case (Suc m)
    have "(gstep nm)\<^sup>*\<^sup>* ?s2 (ggoto False GGaveUp ?s2)"
      using less.prems Suc by (intro less.IH [of m]) (simp_all add: g_after_poll_def)
    with s2 show ?thesis by (auto simp: ggoto_def intro: rtranclp_trans)
  qed
qed

text \<open>All polls pass before the skip is written: the wire is lost.\<close>

lemma wire_lost_run:
  "\<exists>s. greach demo_names s \<and> gpcs s True = GLeft \<and> gpcs s False = GGaveUp \<and> \<not> gl_end (gled s) True"
proof -
  let ?s1 = "ggoto False (g_after_ask False (demo_names False) (demo_names True)) late_skip"
  let ?s2 = "ggoto False GGaveUp ?s1"
  let ?s3 = "ggoto True GLeft (gnote (set_skip True) ?s2)"
  have a: "g_after_ask False (demo_names False) (demo_names True) = GTick (skipStatusRetryCount - 1)"
    using demo_prio higherPrio_asym by (auto simp: g_after_ask_def)
  have "greach demo_names ?s1"
    using g_more [OF late_skip_reached g_ask [of late_skip False]] by (simp add: late_skip_def)
  moreover have "(gstep demo_names)\<^sup>*\<^sup>* ?s1 ?s2"
    by (rule polls_in_vain) (simp_all add: a late_skip_def)
  ultimately have "greach demo_names ?s2" using greach_steps by blast
  then have "greach demo_names ?s3" by (rule g_more [OF _ g_skip_peer]) (simp add: late_skip_def)
  then show ?thesis by (intro exI [of _ ?s3]) (simp add: late_skip_def)
qed

text \<open>The skip is written first: \<open>a\<close> creates the wire.\<close>

definition skipped_in_time :: gproto where
  "skipped_in_time = ggoto True GLeft (gnote (set_skip True) late_skip)"

lemma skipped_in_time_reached: "greach demo_names skipped_in_time"
  unfolding skipped_in_time_def
  by (rule g_more [OF late_skip_reached g_skip_peer]) (simp add: late_skip_def)

lemma creating_run:
  "\<exists>s. (gstep demo_names)\<^sup>*\<^sup>* skipped_in_time s \<and> gpcs s False = GCreated"
proof -
  let ?s0 = skipped_in_time
  let ?s1 = "ggoto False GExists ?s0" and ?s2 = "ggoto False GRemote ?s0"
  let ?s3 = "ggoto False GLocal (gnote (set_end True) ?s2)"
  let ?s4 = "ggoto False GCreated (gnote (set_end False) ?s3)"
  have l: "gpcs ?s0 False = GAsk" "gl_skips (gled ?s0) True" "\<not> gl_end (gled ?s0) False"
    by (simp_all add: skipped_in_time_def late_skip_def)
  have "gmove demo_names False ?s0 ?s1"
    using g_ask [of ?s0 False demo_names, OF l(1)] l(2) by (simp add: g_after_ask_def)
  moreover have "gmove demo_names False ?s1 ?s2"
    using g_exists [of ?s1 False demo_names] l(3) by (simp add: g_after_exists_def ggoto_def)
  moreover have "gmove demo_names False ?s2 ?s3"
    using g_remote [of ?s2 False demo_names] by simp
  moreover have "gmove demo_names False ?s3 ?s4" by (rule g_local) simp
  ultimately have "(gmove demo_names False)\<^sup>*\<^sup>* ?s0 ?s4"
    by (meson r_into_rtranclp rtranclp.rtrancl_into_rtrancl)
  then have "(gstep demo_names)\<^sup>*\<^sup>* ?s0 ?s4" by (rule gmoves_gsteps)
  then show ?thesis by (intro exI [of _ ?s4]) simp
qed

theorem wire_has_one_creator_witness:
  "\<exists>s. greach demo_names s \<and> gpcs s False = GCreated \<and> \<not> creating (gpcs s (\<not> False))"
proof -
  obtain s where s: "(gstep demo_names)\<^sup>*\<^sup>* skipped_in_time s" "gpcs s False = GCreated" using creating_run by blast
  then have "greach demo_names s" using greach_steps skipped_in_time_reached by blast
  moreover from wire_has_one_creator [OF this, of False] have "\<not> creating (gpcs s (\<not> False))" by (simp add: s(2))
  ultimately show ?thesis using s(2) by blast
qed

theorem wire_lost_only_after_all_polls_witness:
  "\<exists>s p. greach demo_names s \<and> higherPrio (demo_names p) (demo_names (\<not> p)) \<and> gl_skips (gled s) p \<and>
     gpcs s (\<not> p) = GGaveUp"
proof -
  obtain s where s: "greach demo_names s" "gpcs s True = GLeft" "gpcs s False = GGaveUp" "\<not> gl_end (gled s) True"
    using wire_lost_run by blast
  have "demo_names True \<noteq> demo_names False" by (simp add: demo_names_def)
  from wire_lost_only_after_all_polls [OF s(1) _ _ this s(4)] s(1-3) show ?thesis by auto
qed

theorem skip_in_time_creates_wire_witness:
  "\<exists>s'. (gstep demo_names)\<^sup>*\<^sup>* skipped_in_time s' \<and> gl_end (gled s') True \<and> gl_end (gled s') False"
proof -
  obtain s' where s: "(gstep demo_names)\<^sup>*\<^sup>* skipped_in_time s'" "gpcs s' False = GCreated" using creating_run by blast
  from skip_in_time_creates_wire [OF skipped_in_time_reached, of True, OF _ _ s(1)] s show ?thesis
    by (auto simp: skipped_in_time_def late_skip_def)
qed

theorem grpc_runs_end_witness:
  "(0 :: nat) \<le> 92 \<and> ((\<exists>s'. gstep demo_names gstart s') \<longleftrightarrow> \<not> (gended (gpcs gstart True) \<and> gended (gpcs gstart False)))"
  by (rule grpc_runs_end) simp

end
