(* ===== verification/Taint.thy ===== *)
theory Taint
  imports Polling Reference_Env
begin

text \<open>
  \<open>daemon/meshnet/taint.go\<close>: the daemon takes the readiness taint off its node once the
  CNI configuration is on disk and the gRPC endpoint accepts connections.
\<close>

definition defaultReadinessTaintKey :: string where
  "defaultReadinessTaintKey = ''meshnet.networkop.co.uk/agent-not-ready''"
definition taintRemovalRetries :: nat where "taintRemovalRetries = 12"
definition taintRemovalInterval :: int where "taintRemovalInterval = seconds 5"
definition readinessPollInterval :: int where "readinessPollInterval = seconds 2"
definition readinessPollTimeout :: int where "readinessPollTimeout = seconds 300"
definition servingDialTimeout :: int where "servingDialTimeout = seconds 2"

text \<open>
  What the gate uses beyond the clock and the API: \<open>os.Stat\<close> (is a directory, size),
  \<open>net.DialTimeout\<close> and the \<open>select\<close> of \<open>ctx.Done()\<close> and a timer, which is \<open>True\<close>
  when the context was done.
\<close>

record 'w gate_env =
  Stat :: "string \<Rightarrow> ('w, (bool \<times> int) res) io"
  DialTimeout :: "string \<Rightarrow> int \<Rightarrow> ('w, goerr option) io"
  DoneOrAfter :: "int \<Rightarrow> ('w, bool) io"

definition conflistPresent :: "'w gate_env \<Rightarrow> string \<Rightarrow> ('w, bool) io" where
  "conflistPresent g path = do {
     r \<leftarrow> Stat g path;
     return (case r of Inl e \<Rightarrow> False | Inr (isDir, sz) \<Rightarrow> \<not> isDir \<and> 0 < sz)
   }"

definition grpcServing :: "'w gate_env \<Rightarrow> int \<Rightarrow> ('w, bool) io" where
  "grpcServing g port = do {
     e \<leftarrow> DialTimeout g (''127.0.0.1:'' @ fmt_d port) servingDialTimeout;
     return (e = None)
   }"

definition readinessTaintKey :: "'w os_env \<Rightarrow> string" where
  "readinessTaintKey os =
     (if Getenv os ''MESHNET_READINESS_TAINT_KEY'' \<noteq> '''' then Getenv os ''MESHNET_READINESS_TAINT_KEY''
      else defaultReadinessTaintKey)"

definition localNodeName :: "'w os_env \<Rightarrow> ('w, string) io" where
  "localNodeName os =
     (if Getenv os ''NODE_NAME'' \<noteq> '''' then return (Getenv os ''NODE_NAME'')
      else do { r \<leftarrow> Hostname os; return (case r of Inl e \<Rightarrow> '''' | Inr h \<Rightarrow> h) })"

section \<open>Waiting for the node to be ready\<close>

text \<open>One round of the poll; the answer of the loop is whether both conditions held.\<close>

definition ready_round :: "'w gate_env \<Rightarrow> 'w os_env \<Rightarrow> string \<Rightarrow> int \<Rightarrow> int \<Rightarrow> ('w, bool option) io" where
  "ready_round g os path port deadline = do {
     conflistReady \<leftarrow> conflistPresent g path;
     servingReady \<leftarrow> (if conflistReady then grpcServing g port else return False);
     if conflistReady \<and> servingReady then return (Some True)
     else do {
       now \<leftarrow> Now os;
       if deadline < now then return (Some False)
       else do {
         finished \<leftarrow> DoneOrAfter g readinessPollInterval;
         return (if finished then Some False else None)
       }
     }
   }"

definition waitForCNIReady :: "nat \<Rightarrow> 'w gate_env \<Rightarrow> 'w os_env \<Rightarrow> string \<Rightarrow> int \<Rightarrow> ('w, bool option) io" where
  "waitForCNIReady fuel g os path port = do {
     now \<leftarrow> Now os;
     forever fuel (ready_round g os path port (now + readinessPollTimeout))
   }"

text \<open>
  The timer of the \<open>select\<close> runs for its whole time unless the context is done, and the
  probes do not turn the clock back: then the gate is decided after 151 rounds.
\<close>

definition timer_law :: "'w gate_env \<Rightarrow> ('w \<Rightarrow> int) \<Rightarrow> bool" where
  "timer_law g c \<longleftrightarrow> (\<forall>p. no_earlier c (Stat g p)) \<and> (\<forall>a t. no_earlier c (DialTimeout g a t)) \<and>
     (\<forall>d w w'. run_state (DoneOrAfter g d) w = (False, w') \<longrightarrow> c w + d \<le> c w')"

lemma waitForCNIReady_ends:
  assumes "clock_law os c" "timer_law g c"
  shows "\<exists>r w'. run_state (waitForCNIReady (Suc 151) g os path port) w = (Some r, w')"
  unfolding waitForCNIReady_def
proof (rule timed_wait_ends [OF assms(1), where d = readinessPollInterval])
  fix dl w w' assume run: "run_state (ready_round g os path port dl) w = (None, w')"
  have n: "\<And>p. no_earlier c (Stat g p)" "\<And>a t. no_earlier c (DialTimeout g a t)" using assms(2) by (simp_all add: timer_law_def)
  obtain a w1 where a: "run_state (conflistPresent g path) w = (a, w1)" by fastforce
  obtain b w2 where b: "run_state (if a then grpcServing g port else return False) w1 = (b, w2)" by fastforce
  have "no_earlier c (conflistPresent g path)" unfolding conflistPresent_def by (intro clock.keeps_bind clock.keeps_return n)
  from keepsD [OF this a] have "c w \<le> c w1" .
  moreover have "no_earlier c (if a then grpcServing g port else return False)"
    unfolding grpcServing_def by (intro clock.keeps_if clock.keeps_bind clock.keeps_return n)
  from keepsD [OF this b] have "c w1 \<le> c w2" .
  moreover obtain t w3 where t: "run_state (Now os) w2 = (t, w3)" by fastforce
  moreover obtain f w4 where f: "run_state (DoneOrAfter g readinessPollInterval) w3 = (f, w4)" by fastforce
  moreover have "\<not> dl < t \<and> \<not> f \<and> w' = w4"
    using run a b t f by (auto simp: ready_round_def split: if_splits prod.splits)
  moreover have "t = c w2 \<and> c w2 \<le> c w3" using clock_lawD(1) [OF assms(1) t] .
  moreover have "f = False \<Longrightarrow> c w3 + readinessPollInterval \<le> c w4" using assms(2) f by (simp add: timer_law_def)
  ultimately show "c w \<le> dl \<and> c w + readinessPollInterval \<le> c w'" by auto
qed (simp add: readinessPollTimeout_def readinessPollInterval_def seconds_def)

section \<open>Taking the taint off\<close>

definition filterTaint :: "Taint list \<Rightarrow> string \<Rightarrow> Taint list \<times> bool" where
  "filterTaint taints key = (filter (\<lambda>t. tn_Key t \<noteq> key) taints, list_ex (\<lambda>t. tn_Key t = key) taints)"

definition remove_attempt :: "'w kube_env \<Rightarrow> string \<Rightarrow> string \<Rightarrow> ('w, goerr option) io" where
  "remove_attempt k nodeName taintKey = do {
     r \<leftarrow> NodeGet k nodeName;
     (case r of
        Inl e \<Rightarrow> return (Some e)
      | Inr node \<Rightarrow>
          (case filterTaint (nd_Taints node) taintKey of (newTaints, removed) \<Rightarrow>
             if \<not> removed then return None
             else as_err (NodeUpdate k (node\<lparr>nd_Taints := newTaints\<rparr>))))
   }"

definition removeNodeTaint :: "'w kube_env \<Rightarrow> string \<Rightarrow> string \<Rightarrow> ('w, goerr option) io" where
  "removeNodeTaint k nodeName taintKey = RetryOnConflict k (remove_attempt k nodeName taintKey)"

text \<open>The attempts that are left; the answer is whether one succeeded.\<close>

fun removal_loop :: "nat \<Rightarrow> 'w gate_env \<Rightarrow> 'w kube_env \<Rightarrow> string \<Rightarrow> string \<Rightarrow> ('w, bool) io" where
  "removal_loop 0 g k nodeName taintKey = return False"
| "removal_loop (Suc n) g k nodeName taintKey = do {
     e \<leftarrow> removeNodeTaint k nodeName taintKey;
     (case e of
        None \<Rightarrow> return True
      | Some e \<Rightarrow> do {
          finished \<leftarrow> DoneOrAfter g taintRemovalInterval;
          if finished then return False else removal_loop n g k nodeName taintKey
        })
   }"

definition RemoveReadinessTaint :: "'w gate_env \<Rightarrow> 'w os_env \<Rightarrow> 'w kube_env \<Rightarrow> ('w, bool) io" where
  "RemoveReadinessTaint g os k = do {
     nodeName \<leftarrow> localNodeName os;
     if nodeName = '''' then return False
     else removal_loop taintRemovalRetries g k nodeName (readinessTaintKey os)
   }"

text \<open>The answer: whether the taint was taken off.\<close>

definition RemoveReadinessTaintWhenReady ::
    "nat \<Rightarrow> 'w gate_env \<Rightarrow> 'w os_env \<Rightarrow> 'w kube_env \<Rightarrow> string \<Rightarrow> int \<Rightarrow> ('w, bool option) io" where
  "RemoveReadinessTaintWhenReady fuel g os k path port = do {
     ready \<leftarrow> waitForCNIReady fuel g os path port;
     (case ready of
        None \<Rightarrow> return None
      | Some b \<Rightarrow>
          if \<not> b then return (Some False)
          else do { b \<leftarrow> RemoveReadinessTaint g os k; return (Some b) })
   }"

section \<open>What a removal does\<close>

text \<open>
  The API server's nodes: \<open>tm\<close> reads the taints of a node.  A read returns them, a
  successful update stores those given, a failed one nothing.
\<close>

definition node_store :: "'w kube_env \<Rightarrow> ('w \<Rightarrow> string \<Rightarrow> Taint list option) \<Rightarrow> bool" where
  "node_store k tm \<longleftrightarrow>
     (\<forall>n w r w'. run_state (NodeGet k n) w = (r, w') \<longrightarrow>
        tm w' = tm w \<and> (\<forall>nd. r = Inr nd \<longrightarrow> nd_Name nd = n \<and> tm w n = Some (nd_Taints nd))) \<and>
     (\<forall>nd w r w'. run_state (NodeUpdate k nd) w = (r, w') \<longrightarrow>
        (\<forall>x. r = Inr x \<longrightarrow> tm w' = (tm w)(nd_Name nd \<mapsto> nd_Taints nd)) \<and> (\<forall>e. r = Inl e \<longrightarrow> tm w' = tm w))"

lemma node_storeD:
  assumes "node_store k tm"
  shows "run_state (NodeGet k n) w = (r, w') \<Longrightarrow> tm w' = tm w"
    "run_state (NodeGet k n) w = (Inr nd, w') \<Longrightarrow> nd_Name nd = n \<and> tm w n = Some (nd_Taints nd)"
    "run_state (NodeUpdate k nd) w = (Inr x, w') \<Longrightarrow> tm w' = (tm w)(nd_Name nd \<mapsto> nd_Taints nd)"
    "run_state (NodeUpdate k nd) w = (Inl e, w') \<Longrightarrow> tm w' = tm w"
  using assms unfolding node_store_def by blast+

lemma filter_none: "\<not> list_ex (\<lambda>t. tn_Key t = key) ts \<Longrightarrow> filter (\<lambda>t. tn_Key t \<noteq> key) ts = ts"
  by (induction ts) simp_all

lemma remove_attempt_run:
  assumes "node_store k tm" "run_state (remove_attempt k n key) w = (r, w')"
  shows "r = None \<Longrightarrow> \<exists>ts. tm w n = Some ts \<and> tm w' = (tm w)(n \<mapsto> filter (\<lambda>t. tn_Key t \<noteq> key) ts)"
    "r = Some e \<Longrightarrow> tm w' = tm w"
proof -
  obtain g w1 where g: "run_state (NodeGet k n) w = (g, w1)" by fastforce
  have w1: "tm w1 = tm w" using node_storeD(1) [OF assms(1) g] .
  have "(r = None \<longrightarrow> (\<exists>ts. tm w n = Some ts \<and> tm w' = (tm w)(n \<mapsto> filter (\<lambda>t. tn_Key t \<noteq> key) ts))) \<and>
    (\<forall>e. r = Some e \<longrightarrow> tm w' = tm w)"
  proof (cases g)
    case (Inl e)
    then show ?thesis using assms(2) g w1 by (auto simp: remove_attempt_def)
  next
    case (Inr nd)
    have nd: "nd_Name nd = n" "tm w n = Some (nd_Taints nd)" using node_storeD(2) [OF assms(1)] g Inr by blast+
    show ?thesis
    proof (cases "list_ex (\<lambda>t. tn_Key t = key) (nd_Taints nd)")
      case False
      then have "(tm w)(n \<mapsto> filter (\<lambda>t. tn_Key t \<noteq> key) (nd_Taints nd)) = tm w"
        using nd(2) by (simp add: filter_none fun_upd_idem)
      then show ?thesis using assms(2) g w1 Inr nd False by (auto simp: remove_attempt_def filterTaint_def)
    next
      case True
      let ?nd = "nd\<lparr>nd_Taints := filter (\<lambda>t. tn_Key t \<noteq> key) (nd_Taints nd)\<rparr>"
      obtain u w2 where u: "run_state (NodeUpdate k ?nd) w1 = (u, w2)" by fastforce
      show ?thesis
      proof (cases u)
        case (Inl e)
        then show ?thesis using assms(2) g w1 Inr nd True u node_storeD(4) [OF assms(1)]
          by (auto simp: remove_attempt_def filterTaint_def)
      next
        case (Inr x)
        then have "tm w2 = (tm w1)(n \<mapsto> filter (\<lambda>t. tn_Key t \<noteq> key) (nd_Taints nd))"
          using node_storeD(3) [OF assms(1) u [unfolded Inr]] nd(1) by simp
        then show ?thesis using assms(2) g w1 \<open>g = Inr nd\<close> nd True u Inr
          by (auto simp: remove_attempt_def filterTaint_def)
      qed
    qed
  qed
  then show "r = None \<Longrightarrow> \<exists>ts. tm w n = Some ts \<and> tm w' = (tm w)(n \<mapsto> filter (\<lambda>t. tn_Key t \<noteq> key) ts)"
    "r = Some e \<Longrightarrow> tm w' = tm w" by blast+
qed

lemma removeNodeTaint_run:
  assumes "node_store k tm" "retry_law k" "run_state (removeNodeTaint k n key) w = (r, w')"
  shows "r = None \<Longrightarrow> \<exists>ts. tm w n = Some ts \<and> tm w' = (tm w)(n \<mapsto> filter (\<lambda>t. tn_Key t \<noteq> key) ts)"
    "r = Some e \<Longrightarrow> tm w' = tm w"
proof -
  obtain w0 where "tm w0 = tm w" "run_state (remove_attempt k n key) w0 = (r, w')"
    using retry_last [OF assms(2) assms(3) [unfolded removeNodeTaint_def], of tm] remove_attempt_run(2) [OF assms(1)] by blast
  then show "r = None \<Longrightarrow> \<exists>ts. tm w n = Some ts \<and> tm w' = (tm w)(n \<mapsto> filter (\<lambda>t. tn_Key t \<noteq> key) ts)"
    "r = Some e \<Longrightarrow> tm w' = tm w" using remove_attempt_run [OF assms(1)] by metis+
qed


text \<open>What else the daemon calls meanwhile leaves the taints alone.\<close>

definition taints_alone :: "('w \<Rightarrow> 't) \<Rightarrow> 'w gate_env \<Rightarrow> 'w os_env \<Rightarrow> bool" where
  "taints_alone tm g os \<longleftrightarrow> (\<forall>p. keeps (\<lambda>w w'. tm w' = tm w) (Stat g p)) \<and>
     (\<forall>a t. keeps (\<lambda>w w'. tm w' = tm w) (DialTimeout g a t)) \<and>
     (\<forall>t. keeps (\<lambda>w w'. tm w' = tm w) (DoneOrAfter g t)) \<and> os_keeps (\<lambda>w w'. tm w' = tm w) os"

interpretation same_value: frame "\<lambda>w w'. f w' = f w" for f :: "'w \<Rightarrow> 't"
  by unfold_locales auto

lemma ready_round_keeps:
  assumes "taints_alone tm g os"
  shows "keeps (\<lambda>w w'. tm w' = tm w) (ready_round g os path port dl)"
proof -
  have n: "\<And>p. keeps (\<lambda>w w'. tm w' = tm w) (Stat g p)" "\<And>a t. keeps (\<lambda>w w'. tm w' = tm w) (DialTimeout g a t)"
    "\<And>t. keeps (\<lambda>w w'. tm w' = tm w) (DoneOrAfter g t)" "keeps (\<lambda>w w'. tm w' = tm w) (Now os)"
    using assms by (simp_all add: taints_alone_def os_keeps_def)
  show ?thesis unfolding ready_round_def conflistPresent_def grpcServing_def
    by (intro same_value.keeps_bind same_value.keeps_if same_value.keeps_return n)
qed

definition taken_off :: "string \<Rightarrow> string \<Rightarrow> bool \<Rightarrow> (string \<Rightarrow> Taint list option) \<Rightarrow> (string \<Rightarrow> Taint list option) \<Rightarrow> bool" where
  "taken_off n key b m m' \<longleftrightarrow>
     (if b then \<exists>ts. m n = Some ts \<and> m' = m(n \<mapsto> filter (\<lambda>t. tn_Key t \<noteq> key) ts) else m' = m)"

lemma removal_loop_run:
  assumes "node_store k tm" "retry_law k" "taints_alone tm g os"
  shows "run_state (removal_loop m g k n key) w = (b, w') \<Longrightarrow>
    taken_off n key b (tm w) (tm w')"
proof (induction m arbitrary: w)
  case (Suc m)
  obtain e w1 where e: "run_state (removeNodeTaint k n key) w = (e, w1)" by fastforce
  show ?case
  proof (cases e)
    case None
    then show ?thesis using Suc.prems e removeNodeTaint_run(1) [OF assms(1,2) e] by (auto simp: taken_off_def)
  next
    case (Some x)
    have w1: "tm w1 = tm w" using removeNodeTaint_run(2) [OF assms(1,2) e] Some by simp
    obtain f w2 where f: "run_state (DoneOrAfter g taintRemovalInterval) w1 = (f, w2)" by fastforce
    have "keeps (\<lambda>w w'. tm w' = tm w) (DoneOrAfter g taintRemovalInterval)" using assms(3) by (simp add: taints_alone_def)
    then have w2: "tm w2 = tm w" using keepsD [OF _ f] w1 by fastforce
    show ?thesis
    proof (cases f)
      case True
      then show ?thesis using Suc.prems e Some f w2 by (simp add: taken_off_def)
    next
      case False
      then have "run_state (removal_loop m g k n key) w2 = (b, w')" using Suc.prems e Some f by simp
      from Suc.IH [OF this] show ?thesis unfolding w2 .
    qed
  qed
qed (simp add: taken_off_def)

section \<open>Properties\<close>

text \<open>The node's name does not change while the daemon runs.\<close>

definition name_fixed :: "'w os_env \<Rightarrow> string \<Rightarrow> bool" where
  "name_fixed os n \<longleftrightarrow> (\<forall>w. fst (run_state (localNodeName os) w) = n)"

lemma remove_taint_run:
  assumes "node_store k tm" "retry_law k" "taints_alone tm g os" "name_fixed os n"
    and "run_state (RemoveReadinessTaint g os k) w = (b, w')"
  shows "taken_off n (readinessTaintKey os) b (tm w) (tm w')"
proof -
  obtain w1 where w1: "run_state (localNodeName os) w = (n, w1)"
    using assms(4) by (metis name_fixed_def prod.collapse)
  have "keeps (\<lambda>w w'. tm w' = tm w) (localNodeName os)"
    unfolding localNodeName_def using assms(3)
    by (intro same_value.keeps_bind same_value.keeps_if same_value.keeps_return) (simp add: taints_alone_def os_keeps_def)
  then have t1: "tm w1 = tm w" using keepsD [OF _ w1] by fastforce
  show ?thesis
  proof (cases "n = ''''")
    case True
    then show ?thesis using assms(5) w1 t1 by (simp add: RemoveReadinessTaint_def taken_off_def)
  next
    case False
    then have "run_state (removal_loop taintRemovalRetries g k n (readinessTaintKey os)) w1 = (b, w')"
      using assms(5) w1 by (simp add: RemoveReadinessTaint_def)
    from removal_loop_run [OF assms(1-3) this] show ?thesis unfolding t1 .
  qed
qed

text \<open>
  C22: The readiness gate: the daemon changes the taints of nodes only after it has seen,
  with the taints still as they were, the CNI configuration file in place and, right after
  that, its gRPC endpoint accepting a connection; and the only change it makes is to take
  the taints of its own key off its own node, the other taints staying in their order.
\<close>

theorem taint_removed_only_when_ready:
  assumes "node_store k tm" "retry_law k" "taints_alone tm g os" "name_fixed os n"
    and "run_state (RemoveReadinessTaintWhenReady fuel g os k path port) w = (r, w')" "tm w' \<noteq> tm w"
  shows "\<exists>w1 w2 w3 ts. run_state (conflistPresent g path) w1 = (True, w2) \<and>
     run_state (grpcServing g port) w2 = (True, w3) \<and> tm w1 = tm w \<and> tm w n = Some ts \<and>
     tm w' = (tm w)(n \<mapsto> filter (\<lambda>t. tn_Key t \<noteq> readinessTaintKey os) ts)"
proof -
  have nk: "keeps (\<lambda>w w'. tm w' = tm w) (Now os)" using assms(3) by (simp add: taints_alone_def os_keeps_def)
  obtain t v0 where t: "run_state (Now os) w = (t, v0)" by fastforce
  have v0: "tm v0 = tm w" using keepsD [OF nk t] by simp
  let ?round = "ready_round g os path port (t + readinessPollTimeout)"
  have rk: "keeps (\<lambda>w w'. tm w' = tm w) ?round" by (rule ready_round_keeps [OF assms(3)])
  obtain x v1 where x: "run_state (forever fuel ?round) v0 = (x, v1)" by fastforce
  have v1: "tm v1 = tm w" using keepsD [OF same_value.keeps_forever [OF rk] x] v0 by simp
  have run: "run_state (waitForCNIReady fuel g os path port) w = (x, v1)" using t x by (simp add: waitForCNIReady_def)
  have "x = Some True"
    using assms(5,6) run v1 by (cases x) (auto simp: RemoveReadinessTaintWhenReady_def split: if_splits)
  then obtain w1 where w1: "tm w1 = tm v0" "run_state ?round w1 = (Some True, v1)"
    using same_value.forever_last [of fuel ?round v0 True v1 tm] x keepsD [OF rk] by blast
  obtain a w2 where a: "run_state (conflistPresent g path) w1 = (a, w2)" by fastforce
  obtain b w3 where b: "run_state (grpcServing g port) w2 = (b, w3)" by fastforce
  have ab: "a \<and> b" using w1(2) a b by (cases a; cases b; auto simp: ready_round_def split: if_splits prod.splits)
  obtain c where "run_state (RemoveReadinessTaint g os k) v1 = (c, w')"
    using assms(5) run \<open>x = Some True\<close> by (auto simp: RemoveReadinessTaintWhenReady_def split: prod.splits)
  from remove_taint_run [OF assms(1-4) this] assms(6) v1
  obtain ts where "tm w n = Some ts" "tm w' = (tm w)(n \<mapsto> filter (\<lambda>t. tn_Key t \<noteq> readinessTaintKey os) ts)"
    by (auto simp: taken_off_def split: if_splits)
  then show ?thesis using a b ab w1(1) v0 by auto
qed


text \<open>A cluster of one tainted node, whose configuration file is in place.\<close>

definition open_gate :: "'w gate_env" where
  "open_gate = \<lparr>Stat = (\<lambda>p. return (Inr (False, 400))), DialTimeout = (\<lambda>a t. return None), DoneOrAfter = (\<lambda>t. return False)\<rparr>"

definition taints_of :: "api \<Rightarrow> string \<Rightarrow> Taint list option" where
  "taints_of a n = map_option nd_Taints (find (\<lambda>d. nd_Name d = n) (a_nodes a))"

definition tainted_node :: Node where
  "tainted_node = \<lparr>nd_Name = ''node1'', nd_ResourceVersion = 1, nd_Addresses = [],
     nd_Taints = [\<lparr>tn_Key = defaultReadinessTaintKey, tn_Value = '''', tn_Effect = ''NoSchedule''\<rparr>]\<rparr>"

definition tainted :: api where
  "tainted = \<lparr>a_topo = [], a_gw = [], a_nodes = [tainted_node]\<rparr>"

definition one_node_kube :: "api kube_env" where
  "one_node_kube = ref_kube
     \<lparr>NodeGet := (\<lambda>n. reads (\<lambda>a. case find (\<lambda>d. nd_Name d = n) (a_nodes a) of
        None \<Rightarrow> Inl (Kube KNotFound ''not found'') | Some d \<Rightarrow> Inr d)),
      NodeUpdate := (\<lambda>d. do { modifies (\<lambda>a. a\<lparr>a_nodes := d # a_nodes a\<rparr>); return (Inr d) })\<rparr>"

lemma find_named: "find (\<lambda>d. nd_Name d = n) ds = Some d \<Longrightarrow> nd_Name d = n"
  by (induction ds) (auto split: if_splits)

lemma one_node_store: "node_store one_node_kube taints_of"
  unfolding node_store_def
proof (intro conjI allI impI)
  fix n w r w' nd
  assume g: "run_state (NodeGet one_node_kube n) w = (r, w')"
  then have r: "r = (case find (\<lambda>d. nd_Name d = n) (a_nodes w) of None \<Rightarrow> Inl (Kube KNotFound ''not found'') | Some d \<Rightarrow> Inr d)"
    and w: "w' = w" by (auto simp: one_node_kube_def)
  show "taints_of w' = taints_of w" by (simp add: w)
  assume "r = Inr nd"
  then have f: "find (\<lambda>d. nd_Name d = n) (a_nodes w) = Some nd" using r by (auto split: option.splits)
  then show "nd_Name nd = n" by (rule find_named)
  show "taints_of w n = Some (nd_Taints nd)" using f by (simp add: taints_of_def)
next
  fix nd w r w'
  assume u: "run_state (NodeUpdate one_node_kube nd) w = (r, w')"
  then have r: "r = Inr nd" "w' = w\<lparr>a_nodes := nd # a_nodes w\<rparr>" by (simp_all add: one_node_kube_def)
  show "taints_of w' = (taints_of w)(nd_Name nd \<mapsto> nd_Taints nd)" by (simp add: r taints_of_def fun_eq_iff)
  fix e assume "r = Inl e"
  then show "taints_of w' = taints_of w" using r by simp
qed

lemma one_node_retry_id: "RetryOnConflict one_node_kube = id"
  unfolding one_node_kube_def ref_kube_def kube_env.simps kube_env.update_convs by (rule refl)

lemma one_node_retry: "retry_law one_node_kube"
  unfolding retry_law_def one_node_retry_id id_apply by (intro allI impI) (rule last_attempt)

theorem taint_removed_only_when_ready_witness:
  "\<exists>w'. run_state (RemoveReadinessTaintWhenReady 1 open_gate (ref_os Map.empty) one_node_kube ''c'' 51111) tainted = (Some True, w') \<and>
     taints_of w' ''node1'' = Some [] \<and>
     (\<exists>w1 w2 w3. run_state (conflistPresent (open_gate :: api gate_env) ''c'') w1 = (True, w2) \<and> run_state (grpcServing open_gate 51111) w2 = (True, w3))"
proof -
  obtain w' where run: "run_state (RemoveReadinessTaintWhenReady 1 open_gate (ref_os Map.empty) one_node_kube ''c'' 51111) tainted = (Some True, w')"
    and ts: "taints_of w' ''node1'' = Some []"
    by (simp add: RemoveReadinessTaintWhenReady_def waitForCNIReady_def ready_round_def conflistPresent_def grpcServing_def
        open_gate_def RemoveReadinessTaint_def localNodeName_def Getenv_def taintRemovalRetries_def eval_nat_numeral
        removeNodeTaint_def remove_attempt_def one_node_kube_def ref_kube_def tainted_def tainted_node_def filterTaint_def
        readinessTaintKey_def taints_of_def as_err_def)
  have "taints_alone taints_of open_gate (ref_os Map.empty :: api os_env)"
    by (auto simp: taints_alone_def os_keeps_def open_gate_def ref_os_def)
  moreover have "name_fixed (ref_os Map.empty :: api os_env) ''node1''"
    by (simp add: name_fixed_def localNodeName_def Getenv_def)
  moreover have "taints_of w' \<noteq> taints_of tainted"
    using ts by (auto simp: taints_of_def tainted_def tainted_node_def fun_eq_iff intro!: exI [of _ "''node1''"])
  ultimately show ?thesis
    using taint_removed_only_when_ready [OF one_node_store one_node_retry _ _ run] run ts by blast
qed

end
