(* ===== verification/Cni_Init.thy ===== *)
theory Cni_Init
  imports Polling Reference_Env "HOL-Library.AList" "HOL-Library.List_Lexorder" "HOL-Library.Char_ord"
begin

text \<open>
  \<open>daemon/cni/cni.go\<close>: chaining the meshnet plugin onto the node's base CNI
  configuration, and the host files that carry the daemon's settings to the plugin.
\<close>

definition defaultCNIFile :: string where "defaultCNIFile = ''00-meshnet.conflist''"
definition defaultPluginName :: string where "defaultPluginName = ''meshnet''"
definition defaultNetDir :: string where "defaultNetDir = ''/etc/cni/net.d''"
definition meshnetCNIPath :: string where "meshnetCNIPath = defaultNetDir @ ''/'' @ defaultCNIFile"
definition interNodeLinkConf :: string where "interNodeLinkConf = ''/etc/cni/net.d/meshnet-inter-node-link-type''"
definition datapathIfacePrefixEnv :: string where "datapathIfacePrefixEnv = ''MESHNET_DATAPATH_IFACE_PREFIX''"
definition defaultLinkMTUEnv :: string where "defaultLinkMTUEnv = ''MESHNET_DEFAULT_LINK_MTU''"
definition DefaultWaitTimeout :: int where "DefaultWaitTimeout = seconds 180"
definition DefaultWaitInterval :: int where "DefaultWaitInterval = seconds 2"

text \<open>
  What the code uses of \<open>libcni\<close>, \<open>encoding/json\<close> and the file system; \<open>NetConfJson\<close> is
  the JSON of a \<open>types.NetConf\<close> with the given type and name.
\<close>

record NetworkConfig =
  nwc_Type :: string
  nwc_Bytes :: string

record NetworkConfigList =
  ncl_Plugins :: "NetworkConfig list"
  ncl_Bytes :: string

record 'w conf_env =
  ConfFiles :: "string \<Rightarrow> string list \<Rightarrow> ('w, string list res) io"
  ConfListFromFile :: "string \<Rightarrow> ('w, NetworkConfigList res) io"
  ConfFromFile :: "string \<Rightarrow> ('w, NetworkConfig res) io"
  ConfListFromConf :: "NetworkConfig \<Rightarrow> NetworkConfigList res"
  UnmarshalMap :: "string \<Rightarrow> (string \<times> json) list res"
  MarshalIndent :: "json \<Rightarrow> string res"
  NetConfJson :: "string \<Rightarrow> string \<Rightarrow> json"
  WriteFile :: "string \<Rightarrow> string \<Rightarrow> ('w, goerr option) io"
  RemoveFile :: "string \<Rightarrow> ('w, goerr option) io"

text \<open>\<open>strings.Contains\<close> and \<open>strings.HasSuffix\<close>.\<close>

fun contains :: "string \<Rightarrow> string \<Rightarrow> bool" where
  "contains [] pat \<longleftrightarrow> pat = []"
| "contains (c # cs) pat \<longleftrightarrow> has_prefix (c # cs) pat \<or> contains cs pat"

definition has_suffix :: "string \<Rightarrow> string \<Rightarrow> bool" where
  "has_suffix s suf \<longleftrightarrow> has_prefix (rev s) (rev suf)"

section \<open>The base configuration\<close>

definition load_file :: "'w conf_env \<Rightarrow> string \<Rightarrow> ('w, NetworkConfigList res) io" where
  "load_file ce confFile =
     (if has_suffix confFile ''.conflist'' then ConfListFromFile ce confFile
      else do {
        r \<leftarrow> ConfFromFile ce confFile;
        return (case r of
            Inl e \<Rightarrow> Inl e
          | Inr conf \<Rightarrow>
              if nwc_Type conf = '''' then Inl (Err ''no 'type'; perhaps this is a .conflist?'')
              else ConfListFromConf ce conf)
      })"

fun pick_conf :: "'w conf_env \<Rightarrow> string list \<Rightarrow> ('w, (string \<times> json) list res) io" where
  "pick_conf ce [] = return (Inl (Err (''no valid network configurations found in \"'' @ defaultNetDir @ ''\"'')))"
| "pick_conf ce (f # fs) = do {
     r \<leftarrow> load_file ce f;
     (case r of
        Inl e \<Rightarrow> pick_conf ce fs
      | Inr confList \<Rightarrow> if ncl_Plugins confList = [] then pick_conf ce fs
                       else return (UnmarshalMap ce (ncl_Bytes confList)))
   }"

definition loadConfList :: "'w conf_env \<Rightarrow> ('w, (string \<times> json) list res) io" where
  "loadConfList ce = do {
     r \<leftarrow> ConfFiles ce defaultNetDir [''.conf'', ''.conflist'', ''.json''];
     (case r of
        Inl e \<Rightarrow> return (Inl e)
      | Inr files \<Rightarrow>
          if files = [] then return (Inl (Err (''no net configurations found in '' @ defaultNetDir)))
          else pick_conf ce (sort (filter (\<lambda>f. \<not> contains f ''meshnet'') files)))
   }"

text \<open>\<open>time.Duration.String\<close> of at least one second and whole seconds.\<close>

definition duration_text :: "int \<Rightarrow> string" where
  "duration_text d =
     (let s = d div seconds 1
      in (if 3600 \<le> s then fmt_d (s div 3600) @ ''h'' else '''') @
         (if 60 \<le> s then fmt_d (s div 60 mod 60) @ ''m'' else '''') @ fmt_d (s mod 60) @ ''s'')"

definition wait_round :: "'w conf_env \<Rightarrow> 'w os_env \<Rightarrow> int \<Rightarrow> int \<Rightarrow> int \<Rightarrow> ('w, goerr option option) io" where
  "wait_round ce os timeout deadline interval = do {
     r \<leftarrow> loadConfList ce;
     (case r of
        Inr conf \<Rightarrow> return (Some None)
      | Inl e \<Rightarrow> do {
          now \<leftarrow> Now os;
          if deadline < now
          then return (Some (Some (errorf_v (''timed out after '' @ duration_text timeout @ '' waiting for base CNI config in '' @ defaultNetDir @ '': '') e)))
          else do { Sleep os interval; return None }
        })
   }"

definition WaitForNetConfig :: "nat \<Rightarrow> 'w conf_env \<Rightarrow> 'w os_env \<Rightarrow> int \<Rightarrow> int \<Rightarrow> ('w, goerr option option) io" where
  "WaitForNetConfig fuel ce os timeout interval = do {
     now \<leftarrow> Now os;
     forever fuel (wait_round ce os timeout (now + timeout) interval)
   }"

text \<open>With a clock that runs, the daemon's own wait is over after 92 rounds.\<close>

lemma WaitForNetConfig_ends:
  assumes "clock_law os c" "no_earlier c (loadConfList ce)"
  shows "\<exists>r w'. run_state (WaitForNetConfig (Suc 91) ce os DefaultWaitTimeout DefaultWaitInterval) w = (Some r, w')"
  unfolding WaitForNetConfig_def
proof (rule timed_wait_ends [OF assms(1), where d = DefaultWaitInterval])
  fix dl w w' assume run: "run_state (wait_round ce os DefaultWaitTimeout dl DefaultWaitInterval) w = (None, w')"
  obtain l w1 where l: "run_state (loadConfList ce) w = (l, w1)" by fastforce
  obtain t w2 where t: "run_state (Now os) w1 = (t, w2)" by fastforce
  obtain w3 where u: "run_state (Sleep os DefaultWaitInterval) w2 = ((), w3)"
    by (cases "run_state (Sleep os DefaultWaitInterval) w2") simp
  have "\<not> dl < t" "w' = w3" using run l t u by (cases l; auto simp: wait_round_def split: if_splits)+
  then show "c w \<le> dl \<and> c w + DefaultWaitInterval \<le> c w'"
    using keepsD [OF assms(2) l] clock_lawD [OF assms(1)] t u by fastforce
qed (simp add: DefaultWaitTimeout_def DefaultWaitInterval_def seconds_def)

section \<open>The files of the plugin\<close>

definition remove_conf :: "'w conf_env \<Rightarrow> string \<Rightarrow> ('w, goerr option) io" where
  "remove_conf ce p = do {
     e \<leftarrow> RemoveFile ce p;
     return (map_option (errorf_v (''failed to remove '' @ p @ '': '')) e)
   }"

definition removeInterNodeLinkConf :: "'w conf_env \<Rightarrow> ('w, goerr option) io" where
  "removeInterNodeLinkConf ce = remove_conf ce interNodeLinkConf"

definition removeDatapathIfacePrefixConf :: "'w conf_env \<Rightarrow> ('w, goerr option) io" where
  "removeDatapathIfacePrefixConf ce = remove_conf ce DatapathIfacePrefixConf"

definition removeDefaultLinkMTUConf :: "'w conf_env \<Rightarrow> ('w, goerr option) io" where
  "removeDefaultLinkMTUConf ce = remove_conf ce DefaultLinkMTUConf"

definition saveConfList :: "'w conf_env \<Rightarrow> (string \<times> json) list \<Rightarrow> ('w, goerr option) io" where
  "saveConfList ce m =
     (case MarshalIndent ce (JObj m) of
        Inl e \<Rightarrow> return (Some e)
      | Inr bytes \<Rightarrow> WriteFile ce meshnetCNIPath bytes)"

definition saveInterNodeLinkConf :: "'w conf_env \<Rightarrow> 'w os_env \<Rightarrow> ('w, goerr option) io" where
  "saveInterNodeLinkConf ce os =
     WriteFile ce interNodeLinkConf (ResolveInterNodeLinkType (Getenv os ''INTER_NODE_LINK_TYPE''))"

definition saveDatapathIfacePrefixConf :: "'w conf_env \<Rightarrow> 'w os_env \<Rightarrow> ('w, goerr option) io" where
  "saveDatapathIfacePrefixConf ce os =
     (case LookupEnv os datapathIfacePrefixEnv of
        None \<Rightarrow> removeDatapathIfacePrefixConf ce
      | Some prefix \<Rightarrow> WriteFile ce DatapathIfacePrefixConf (trim_space prefix))"

definition saveDefaultLinkMTUConf :: "'w conf_env \<Rightarrow> 'w os_env \<Rightarrow> ('w, goerr option) io" where
  "saveDefaultLinkMTUConf ce os =
     (case LookupEnv os defaultLinkMTUEnv of
        None \<Rightarrow> removeDefaultLinkMTUConf ce
      | Some mtu \<Rightarrow> WriteFile ce DefaultLinkMTUConf (trim_space mtu))"

text \<open>\<open>conf["plugins"].([]interface{})\<close> panics when the entry is missing or not a list.\<close>

definition not_a_list :: goerr where "not_a_list = go_panic ''interface conversion: interface {} is not []interface {}''"

definition chained :: "'w conf_env \<Rightarrow> (string \<times> json) list \<Rightarrow> json list \<Rightarrow> (string \<times> json) list" where
  "chained ce conf plugins =
     AList.update ''plugins'' (JList (plugins @ [NetConfJson ce defaultPluginName defaultPluginName]))
       (AList.update ''cniVersion'' (JStr ''0.3.0'') conf)"

definition Init :: "'w conf_env \<Rightarrow> 'w os_env \<Rightarrow> ('w, goerr option) io" where
  "Init ce os = do {
     r \<leftarrow> loadConfList ce;
     (case r of
        Inl e \<Rightarrow> return (Some e)
      | Inr conf \<Rightarrow>
          (case map_of conf ''plugins'' of
             Some (JList plugins) \<Rightarrow> do {
               e1 \<leftarrow> saveInterNodeLinkConf ce os;
               (case e1 of
                  Some e \<Rightarrow> return (Some e)
                | None \<Rightarrow> do {
                    e2 \<leftarrow> saveDatapathIfacePrefixConf ce os;
                    (case e2 of
                       Some e \<Rightarrow> return (Some e)
                     | None \<Rightarrow> do {
                         e3 \<leftarrow> saveDefaultLinkMTUConf ce os;
                         (case e3 of
                            Some e \<Rightarrow> return (Some e)
                          | None \<Rightarrow> saveConfList ce (chained ce conf plugins))
                       })
                  })
             }
           | _ \<Rightarrow> return (Some not_a_list)))
   }"

definition Cleanup :: "'w conf_env \<Rightarrow> ('w, unit) io" where
  "Cleanup ce = do {
     e0 \<leftarrow> RemoveFile ce meshnetCNIPath;
     e1 \<leftarrow> removeInterNodeLinkConf ce;
     e2 \<leftarrow> removeDatapathIfacePrefixConf ce;
     e3 \<leftarrow> removeDefaultLinkMTUConf ce;
     return ()
   }"


section \<open>What installing does to the files\<close>

text \<open>
  \<open>files\<close> reads the files off the world.  A write that succeeds stores the contents, one
  that fails touches no other file; a removal succeeds only on a file that exists; the
  readers change nothing.
\<close>

definition fs_law :: "'w conf_env \<Rightarrow> ('w \<Rightarrow> string \<Rightarrow> string option) \<Rightarrow> bool" where
  "fs_law ce files \<longleftrightarrow>
     (\<forall>p b w r w'. run_state (WriteFile ce p b) w = (r, w') \<longrightarrow>
        (r = None \<longrightarrow> files w' = (files w)(p \<mapsto> b)) \<and> (\<forall>q. q \<noteq> p \<longrightarrow> files w' q = files w q)) \<and>
     (\<forall>p w r w'. run_state (RemoveFile ce p) w = (r, w') \<longrightarrow>
        (if r = None then files w p \<noteq> None \<and> files w' = (files w)(p := None) else files w' = files w)) \<and>
     (\<forall>d x. keeps (\<lambda>w w'. files w' = files w) (ConfFiles ce d x)) \<and>
     (\<forall>f. keeps (\<lambda>w w'. files w' = files w) (ConfListFromFile ce f)) \<and>
     (\<forall>f. keeps (\<lambda>w w'. files w' = files w) (ConfFromFile ce f))"

lemma fs_lawD:
  assumes "fs_law ce files"
  shows "run_state (WriteFile ce p b) w = (None, w') \<Longrightarrow> files w' = (files w)(p \<mapsto> b)"
    "run_state (WriteFile ce p b) w = (r, w') \<Longrightarrow> q \<noteq> p \<Longrightarrow> files w' q = files w q"
    "run_state (RemoveFile ce p) w = (None, w') \<Longrightarrow> files w p \<noteq> None \<and> files w' = (files w)(p := None)"
    "run_state (RemoveFile ce p) w = (Some e, w') \<Longrightarrow> files w' = files w"
  using assms unfolding fs_law_def by (metis option.distinct(1))+

interpretation files_kept: frame "\<lambda>w w'. f w' = f w" for f :: "'w \<Rightarrow> string \<Rightarrow> string option"
  by unfold_locales auto

lemma load_keeps:
  assumes "fs_law ce files"
  shows "keeps (\<lambda>w w'. files w' = files w) (loadConfList ce)"
proof -
  have n: "\<And>d x. keeps (\<lambda>w w'. files w' = files w) (ConfFiles ce d x)"
    "\<And>f. keeps (\<lambda>w w'. files w' = files w) (ConfListFromFile ce f)"
    "\<And>f. keeps (\<lambda>w w'. files w' = files w) (ConfFromFile ce f)" using assms by (simp_all add: fs_law_def)
  have l: "keeps (\<lambda>w w'. files w' = files w) (load_file ce f)" for f
    unfolding load_file_def by (intro files_kept.keeps_bind files_kept.keeps_if files_kept.keeps_return n)
  have "keeps (\<lambda>w w'. files w' = files w) (pick_conf ce fs)" for fs
  proof (induction fs)
    case Nil
    then show ?case unfolding pick_conf.simps by (rule files_kept.keeps_return)
  next
    case (Cons f fs)
    then show ?case unfolding pick_conf.simps
      by (intro files_kept.keeps_bind files_kept.keeps_if files_kept.keeps_sum files_kept.keeps_return l)
  qed
  then show ?thesis unfolding loadConfList_def
    by (intro files_kept.keeps_bind files_kept.keeps_if files_kept.keeps_sum files_kept.keeps_return n)
qed

lemma paths_differ:
  "interNodeLinkConf \<noteq> DatapathIfacePrefixConf" "interNodeLinkConf \<noteq> DefaultLinkMTUConf" "interNodeLinkConf \<noteq> meshnetCNIPath"
  "DatapathIfacePrefixConf \<noteq> DefaultLinkMTUConf" "DatapathIfacePrefixConf \<noteq> meshnetCNIPath" "DefaultLinkMTUConf \<noteq> meshnetCNIPath"
  by (simp_all add: interNodeLinkConf_def DatapathIfacePrefixConf_def DefaultLinkMTUConf_def meshnetCNIPath_def
      defaultNetDir_def defaultCNIFile_def)

text \<open>A setting that is kept in a file of its own.\<close>

definition save_setting :: "'w conf_env \<Rightarrow> string \<Rightarrow> string option \<Rightarrow> ('w, goerr option) io" where
  "save_setting ce p v = (case v of None \<Rightarrow> remove_conf ce p | Some x \<Rightarrow> WriteFile ce p (trim_space x))"

lemma save_settings:
  "saveDatapathIfacePrefixConf ce os = save_setting ce DatapathIfacePrefixConf (LookupEnv os datapathIfacePrefixEnv)"
  "saveDefaultLinkMTUConf ce os = save_setting ce DefaultLinkMTUConf (LookupEnv os defaultLinkMTUEnv)"
  by (simp_all add: saveDatapathIfacePrefixConf_def saveDefaultLinkMTUConf_def save_setting_def
      removeDatapathIfacePrefixConf_def removeDefaultLinkMTUConf_def split: option.split)

lemma save_setting_run:
  assumes "fs_law ce files" "run_state (save_setting ce p v) w = (r, w')"
  shows "r = None \<Longrightarrow> files w' = (files w)(p := map_option trim_space v)" "q \<noteq> p \<Longrightarrow> files w' q = files w q"
    "v = None \<Longrightarrow> files w p = None \<Longrightarrow> r \<noteq> None"
proof -
  have "(r = None \<longrightarrow> files w' = (files w)(p := map_option trim_space v)) \<and> (q \<noteq> p \<longrightarrow> files w' q = files w q) \<and>
    (v = None \<longrightarrow> files w p = None \<longrightarrow> r \<noteq> None)"
  proof (cases v)
    case None
    obtain e w1 where e: "run_state (RemoveFile ce p) w = (e, w1)" by fastforce
    have "r = map_option (errorf_v (''failed to remove '' @ p @ '': '')) e" "w' = w1"
      using assms(2) None e by (simp_all add: save_setting_def remove_conf_def)
    then show ?thesis using fs_lawD(3,4) [OF assms(1)] e None by (cases e) auto
  next
    case (Some x)
    then show ?thesis using assms(2) fs_lawD(1,2) [OF assms(1)] by (auto simp: save_setting_def)
  qed
  then show "r = None \<Longrightarrow> files w' = (files w)(p := map_option trim_space v)" "q \<noteq> p \<Longrightarrow> files w' q = files w q"
    "v = None \<Longrightarrow> files w p = None \<Longrightarrow> r \<noteq> None" by blast+
qed

text \<open>How far an installation gets, and the worlds in between.\<close>

lemma Init_run:
  assumes "run_state (Init ce os) w = (r, w')"
  obtains (unloaded) conf w1 where "run_state (loadConfList ce) w = (conf, w1)" "r \<noteq> None" "w' = w1"
  | (link) conf w1 e where "run_state (loadConfList ce) w = (conf, w1)"
      "run_state (saveInterNodeLinkConf ce os) w1 = (Some e, w')" "r = Some e"
  | (prefix) conf w1 w2 e where "run_state (loadConfList ce) w = (conf, w1)"
      "run_state (saveInterNodeLinkConf ce os) w1 = (None, w2)" "run_state (saveDatapathIfacePrefixConf ce os) w2 = (Some e, w')" "r = Some e"
  | (mtu) conf w1 w2 w3 e where "run_state (loadConfList ce) w = (conf, w1)"
      "run_state (saveInterNodeLinkConf ce os) w1 = (None, w2)" "run_state (saveDatapathIfacePrefixConf ce os) w2 = (None, w3)"
      "run_state (saveDefaultLinkMTUConf ce os) w3 = (Some e, w')" "r = Some e"
  | (full) conf plugins w1 w2 w3 w4 where "run_state (loadConfList ce) w = (Inr conf, w1)"
      "map_of conf ''plugins'' = Some (JList plugins)"
      "run_state (saveInterNodeLinkConf ce os) w1 = (None, w2)" "run_state (saveDatapathIfacePrefixConf ce os) w2 = (None, w3)"
      "run_state (saveDefaultLinkMTUConf ce os) w3 = (None, w4)" "run_state (saveConfList ce (chained ce conf plugins)) w4 = (r, w')"
proof -
  obtain c w1 where c: "run_state (loadConfList ce) w = (c, w1)" by fastforce
  show thesis
  proof (cases "\<exists>conf plugins. c = Inr conf \<and> map_of conf ''plugins'' = Some (JList plugins)")
    case False
    have "r \<noteq> None" "w' = w1" using assms c False
      by (auto simp: Init_def split: sum.splits option.splits json.splits)
    then show thesis using unloaded c by blast
  next
    case True
    then obtain conf plugins where cp: "c = Inr conf" "map_of conf ''plugins'' = Some (JList plugins)" by blast
    obtain e1 w2 where e1: "run_state (saveInterNodeLinkConf ce os) w1 = (e1, w2)" by fastforce
    obtain e2 w3 where e2: "run_state (saveDatapathIfacePrefixConf ce os) w2 = (e2, w3)" by fastforce
    obtain e3 w4 where e3: "run_state (saveDefaultLinkMTUConf ce os) w3 = (e3, w4)" by fastforce
    show thesis
    proof (cases e1)
      case (Some e)
      then have "r = Some e" "w' = w2" using c e1 assms cp by (simp_all add: Init_def)
      then show thesis using link [OF c] e1 Some by blast
    next
      case n1: None
      show thesis
      proof (cases e2)
        case (Some e)
        then have "r = Some e" "w' = w3" using c e1 n1 e2 assms cp by (simp_all add: Init_def)
        then show thesis using prefix [OF c] e1 n1 e2 Some by blast
      next
        case n2: None
        show thesis
        proof (cases e3)
          case (Some e)
          then have "r = Some e" "w' = w4" using c e1 n1 e2 n2 e3 assms cp by (simp_all add: Init_def)
          then show thesis using mtu [OF c] e1 n1 e2 n2 e3 Some by blast
        next
          case None
          then show thesis using full [of conf w1 plugins w2 w3 w4] c e1 n1 e2 n2 e3 assms cp by (simp add: Init_def)
        qed
      qed
    qed
  qed
qed


text \<open>The files as an installation leaves them.\<close>

definition installed :: "'w os_env \<Rightarrow> string \<Rightarrow> (string \<Rightarrow> string option) \<Rightarrow> string \<Rightarrow> string option" where
  "installed os bytes fs = fs
     (interNodeLinkConf := Some (ResolveInterNodeLinkType (Getenv os ''INTER_NODE_LINK_TYPE'')),
      DatapathIfacePrefixConf := map_option trim_space (LookupEnv os datapathIfacePrefixEnv),
      DefaultLinkMTUConf := map_option trim_space (LookupEnv os defaultLinkMTUEnv),
      meshnetCNIPath := Some bytes)"

lemma Init_installs:
  assumes "fs_law ce files" "run_state (Init ce os) w = (None, w')"
  shows "\<exists>conf plugins bytes w1. run_state (loadConfList ce) w = (Inr conf, w1) \<and>
     map_of conf ''plugins'' = Some (JList plugins) \<and> MarshalIndent ce (JObj (chained ce conf plugins)) = Inr bytes \<and>
     (\<forall>f. f \<noteq> ''plugins'' \<longrightarrow> f \<noteq> ''cniVersion'' \<longrightarrow> map_of (chained ce conf plugins) f = map_of conf f) \<and>
     files w' = installed os bytes (files w)"
  using assms(2)
proof (cases rule: Init_run)
  case (full conf plugins w1 w2 w3 w4)
  obtain bytes where b: "MarshalIndent ce (JObj (chained ce conf plugins)) = Inr bytes"
    using full(6) by (cases "MarshalIndent ce (JObj (chained ce conf plugins))") (simp_all add: saveConfList_def)
  have "files w' = (files w4)(meshnetCNIPath \<mapsto> bytes)"
    using full(6) b fs_lawD(1) [OF assms(1)] by (simp add: saveConfList_def)
  moreover have "files w4 = (files w3)(DefaultLinkMTUConf := map_option trim_space (LookupEnv os defaultLinkMTUEnv))"
    using save_setting_run(1) [OF assms(1) full(5) [unfolded save_settings]] by simp
  moreover have "files w3 = (files w2)(DatapathIfacePrefixConf := map_option trim_space (LookupEnv os datapathIfacePrefixEnv))"
    using save_setting_run(1) [OF assms(1) full(4) [unfolded save_settings]] by simp
  moreover have "files w2 = (files w1)(interNodeLinkConf \<mapsto> ResolveInterNodeLinkType (Getenv os ''INTER_NODE_LINK_TYPE''))"
    using fs_lawD(1) [OF assms(1) full(3) [unfolded saveInterNodeLinkConf_def]] .
  moreover have "files w1 = files w" using keepsD [OF load_keeps [OF assms(1)] full(1)] .
  ultimately have "files w' = installed os bytes (files w)" by (simp add: installed_def)
  moreover have "map_of (chained ce conf plugins) f = map_of conf f" if "f \<noteq> ''plugins''" "f \<noteq> ''cniVersion''" for f
    using that by (simp add: chained_def update_conv')
  ultimately show ?thesis using full(1,2) b by blast
qed simp_all

text \<open>
  A successful installation writes exactly four files: the plugin list of the first
  valid base configuration with meshnet appended at its end, as version 0.3.0 and with
  every other field kept, and the three settings, each equal to its trimmed environment
  variable and absent when the variable is not set.
\<close>

theorem installation_result:
  assumes "fs_law ce files" "run_state (Init ce os) w = (None, w')"
  shows "\<exists>conf plugins bytes w1. run_state (loadConfList ce) w = (Inr conf, w1) \<and>
     map_of conf ''plugins'' = Some (JList plugins) \<and> MarshalIndent ce (JObj (chained ce conf plugins)) = Inr bytes \<and>
     (\<forall>f. f \<noteq> ''plugins'' \<longrightarrow> f \<noteq> ''cniVersion'' \<longrightarrow> map_of (chained ce conf plugins) f = map_of conf f) \<and>
     files w' = installed os bytes (files w)"
  using assms by (rule Init_installs)

lemma Init_needs_settings:
  assumes "fs_law ce files" "run_state (Init ce os) w = (None, w')"
  shows "LookupEnv os datapathIfacePrefixEnv = None \<Longrightarrow> files w DatapathIfacePrefixConf \<noteq> None"
    "LookupEnv os defaultLinkMTUEnv = None \<Longrightarrow> files w DefaultLinkMTUConf \<noteq> None"
proof -
  have "(LookupEnv os datapathIfacePrefixEnv = None \<longrightarrow> files w DatapathIfacePrefixConf \<noteq> None) \<and>
    (LookupEnv os defaultLinkMTUEnv = None \<longrightarrow> files w DefaultLinkMTUConf \<noteq> None)"
    using assms(2)
  proof (cases rule: Init_run)
    case (full conf plugins w1 w2 w3 w4)
    have "files w1 = files w" using keepsD [OF load_keeps [OF assms(1)] full(1)] .
    moreover have "files w2 q = files w1 q" if "q \<noteq> interNodeLinkConf" for q
      using fs_lawD(2) [OF assms(1) full(3) [unfolded saveInterNodeLinkConf_def] that] .
    moreover have "files w3 DefaultLinkMTUConf = files w2 DefaultLinkMTUConf"
      using save_setting_run(2) [OF assms(1) full(4) [unfolded save_settings]] paths_differ by metis
    ultimately show ?thesis
      using save_setting_run(3) [OF assms(1) full(4) [unfolded save_settings]]
        save_setting_run(3) [OF assms(1) full(5) [unfolded save_settings]] paths_differ by metis
  qed simp_all
  then show "LookupEnv os datapathIfacePrefixEnv = None \<Longrightarrow> files w DatapathIfacePrefixConf \<noteq> None"
    "LookupEnv os defaultLinkMTUEnv = None \<Longrightarrow> files w DefaultLinkMTUConf \<noteq> None" by blast+
qed

text \<open>
  On a node where a setting has never been stored, an installation without that
  environment variable fails: removing the file that is not there is an error, and the
  configuration with the meshnet plugin is not written.  The daemon exits, although an
  unset variable is documented to mean the default behaviour.
\<close>

theorem unset_variable_fails_installation:
  assumes "fs_law ce files" "run_state (Init ce os) w = (r, w')"
    and "LookupEnv os v = None \<and> files w p = None"
    and "(v, p) = (datapathIfacePrefixEnv, DatapathIfacePrefixConf) \<or> (v, p) = (defaultLinkMTUEnv, DefaultLinkMTUConf)"
  shows "r \<noteq> None \<and> files w' meshnetCNIPath = files w meshnetCNIPath"
proof -
  have load: "files w1 = files w" if "run_state (loadConfList ce) w = (c, w1)" for c w1
    using keepsD [OF load_keeps [OF assms(1)] that] .
  have flink: "q \<noteq> interNodeLinkConf \<Longrightarrow> files w2 q = files w1 q" if "run_state (saveInterNodeLinkConf ce os) w1 = (e, w2)" for q w1 w2 e
    using fs_lawD(2) [OF assms(1) that [unfolded saveInterNodeLinkConf_def]] .
  have fpre: "q \<noteq> DatapathIfacePrefixConf \<Longrightarrow> files w2 q = files w1 q"
    "LookupEnv os datapathIfacePrefixEnv = None \<Longrightarrow> files w1 DatapathIfacePrefixConf = None \<Longrightarrow> e \<noteq> None"
    if "run_state (saveDatapathIfacePrefixConf ce os) w1 = (e, w2)" for q w1 w2 e
    using save_setting_run(2,3) [OF assms(1) that [unfolded save_settings]] by blast+
  have fmtu: "q \<noteq> DefaultLinkMTUConf \<Longrightarrow> files w2 q = files w1 q"
    "LookupEnv os defaultLinkMTUEnv = None \<Longrightarrow> files w1 DefaultLinkMTUConf = None \<Longrightarrow> e \<noteq> None"
    if "run_state (saveDefaultLinkMTUConf ce os) w1 = (e, w2)" for q w1 w2 e
    using save_setting_run(2,3) [OF assms(1) that [unfolded save_settings]] by blast+
  note ne = paths_differ paths_differ [symmetric]
  show ?thesis using assms(2)
  proof (cases rule: Init_run)
    case (unloaded conf w1)
    then show ?thesis using load by simp
  next
    case (link conf w1 e)
    then show ?thesis using load [OF link(1)] flink [OF link(2), of meshnetCNIPath] ne by simp
  next
    case (prefix conf w1 w2 e)
    then show ?thesis
      using load [OF prefix(1)] flink [OF prefix(2), of meshnetCNIPath] fpre(1) [OF prefix(3), of meshnetCNIPath] ne by simp
  next
    case (mtu conf w1 w2 w3 e)
    then show ?thesis
      using load [OF mtu(1)] flink [OF mtu(2), of meshnetCNIPath] fpre(1) [OF mtu(3), of meshnetCNIPath]
        fmtu(1) [OF mtu(4), of meshnetCNIPath] ne by simp
  next
    case (full conf plugins w1 w2 w3 w4)
    have l: "files w1 = files w" using load [OF full(1)] .
    have "files w2 DatapathIfacePrefixConf = files w DatapathIfacePrefixConf" "files w2 DefaultLinkMTUConf = files w DefaultLinkMTUConf"
      using flink [OF full(3)] l ne by simp_all
    moreover have "files w3 DefaultLinkMTUConf = files w2 DefaultLinkMTUConf" using fpre(1) [OF full(4)] ne by simp
    ultimately show ?thesis using fpre(2) [OF full(4)] fmtu(2) [OF full(5)] assms(3,4) by auto
  qed
qed


section \<open>A concrete node\<close>

text \<open>The world is the files themselves; one base configuration is there.\<close>

definition map_env :: "(string \<Rightarrow> string option) conf_env" where
  "map_env =
     \<lparr>ConfFiles = (\<lambda>d x. return (Inr [''/etc/cni/net.d/10-azure.conflist''])),
      ConfListFromFile = (\<lambda>f. return (Inr \<lparr>ncl_Plugins = [\<lparr>nwc_Type = ''azure-vnet'', nwc_Bytes = ''''\<rparr>], ncl_Bytes = ''b''\<rparr>)),
      ConfFromFile = (\<lambda>f. return (Inl (Err ''not a conf''))), ConfListFromConf = (\<lambda>c. Inl (Err ''not a conf'')),
      UnmarshalMap = (\<lambda>b. Inr [(''name'', JStr ''azure''), (''plugins'', JList [JObj [(''type'', JStr ''azure-vnet'')]])]),
      MarshalIndent = (\<lambda>j. Inr ''json''), NetConfJson = (\<lambda>t n. JObj [(''name'', JStr n), (''type'', JStr t)]),
      WriteFile = (\<lambda>p b. do { modifies (\<lambda>f. f(p \<mapsto> b)); return None }),
      RemoveFile = (\<lambda>p. do { f \<leftarrow> reads id; if f p = None then return (Some (Err ''no such file'')) else do { modifies (\<lambda>f. f(p := None)); return None } })\<rparr>"

lemma map_env_law: "fs_law map_env (\<lambda>f. f)"
  unfolding fs_law_def by (auto simp: map_env_def keeps_def split: if_splits)

definition set_env :: "string \<Rightarrow> string option" where
  "set_env v = (if v = datapathIfacePrefixEnv then Some ''eno'' else if v = defaultLinkMTUEnv then Some '' 9300 '' else None)"

lemma load_demo:
  "run_state (loadConfList map_env) w =
     (Inr [(''name'', JStr ''azure''), (''plugins'', JList [JObj [(''type'', JStr ''azure-vnet'')]])], w)"
proof -
  have "\<not> contains ''/etc/cni/net.d/10-azure.conflist'' ''meshnet''" by (simp add: has_prefix_def)
  moreover have "has_suffix ''/etc/cni/net.d/10-azure.conflist'' ''.conflist''" by (simp add: has_suffix_def has_prefix_def)
  ultimately show ?thesis by (simp add: loadConfList_def map_env_def load_file_def del: contains.simps)
qed

lemma Init_demo: "\<exists>w'. run_state (Init map_env (ref_os set_env)) Map.empty = (None, w')"
  by (simp add: Init_def load_demo saveInterNodeLinkConf_def saveDatapathIfacePrefixConf_def saveDefaultLinkMTUConf_def
      saveConfList_def set_env_def datapathIfacePrefixEnv_def defaultLinkMTUEnv_def) (simp add: map_env_def)

theorem installation_result_witness:
  "\<exists>w' bytes. run_state (Init map_env (ref_os set_env)) Map.empty = (None, w') \<and>
     w' = installed (ref_os set_env :: (string \<Rightarrow> string option) os_env) bytes Map.empty"
proof -
  obtain w' where run: "run_state (Init map_env (ref_os set_env)) Map.empty = (None, w')" using Init_demo by blast
  from installation_result [OF map_env_law run] run show ?thesis by blast
qed

theorem unset_variable_fails_installation_witness:
  "\<exists>r w'. run_state (Init map_env (ref_os Map.empty)) Map.empty = (r, w') \<and> r \<noteq> None \<and> w' meshnetCNIPath = None"
proof -
  obtain r w' where run: "run_state (Init map_env (ref_os Map.empty)) Map.empty = (r, w')" by fastforce
  from unset_variable_fails_installation [OF map_env_law run, of datapathIfacePrefixEnv DatapathIfacePrefixConf] run
  show ?thesis by auto
qed

end
