(* ===== verification/Startup.thy ===== *)
theory Startup
  imports Wire_Ops Cni_Init
begin

text \<open>
  \<open>daemon/main.go\<close> and the settings the daemon reads when it starts: the order in which
  the configuration is installed, the state is seeded and the wires are restored before
  the server answers calls, and \<open>meshnet.New\<close>, which makes the server.  The background threads it starts are \<open>carrier_tick\<close>,
  \<open>vx_tick\<close>, \<open>ReassertLocalLinkStates\<close> and \<open>RemoveReadinessTaintWhenReady\<close>.
\<close>

section \<open>Settings\<close>

text \<open>\<open>strconv.ParseFloat\<close> and the float32 values the rate is taken from.\<close>

record 'f float_lib =
  ParseFloat32 :: "string \<Rightarrow> 'f option"
  Positive :: "'f \<Rightarrow> bool"
  FloatFifty :: "'f"

definition defaultClientBurst :: int where "defaultClientBurst = 100"

definition clientRateFromEnv :: "'f float_lib \<Rightarrow> 'w os_env \<Rightarrow> 'f \<times> int" where
  "clientRateFromEnv fl os =
     ((let v = Getenv os ''MESHNET_K8S_QPS'' in
         if v = '''' then FloatFifty fl
         else (case ParseFloat32 fl v of Some f \<Rightarrow> if Positive fl f then f else FloatFifty fl | None \<Rightarrow> FloatFifty fl)),
      (let v = Getenv os ''MESHNET_K8S_BURST'' in
         if v = '''' then defaultClientBurst
         else (case atoi v of Some b \<Rightarrow> if 0 < b then b else defaultClientBurst | None \<Rightarrow> defaultClientBurst)))"

definition grpc_port :: "'w os_env \<Rightarrow> int" where
  "grpc_port os = (case atoi (Getenv os ''GRPC_PORT'') of
     None \<Rightarrow> int GRPCDefaultPort | Some p \<Rightarrow> if p = 0 then int GRPCDefaultPort else p)"

section \<open>The start\<close>

datatype start_outcome = StillWaiting | Exited nat | Serves int

text \<open>
  \<open>new\<close> is \<open>meshnet.New\<close> for a port: it connects to the API server and listens.  An
  error of \<open>ReconGWires\<close> is logged, and the daemon goes on.
\<close>

definition seed_and_serve ::
    "(('w, goerr option) dio \<Rightarrow> ('w, goerr option) dio) \<Rightarrow> 'w sys \<Rightarrow> (int \<Rightarrow> ('w, goerr option) io) \<Rightarrow>
     ('w, start_outcome) dio" where
  "seed_and_serve retry sy new = do {
     ifs \<leftarrow> lift (Interfaces (sy_net sy));
     modifies (\<lambda>d. d\<lparr>dm_index := SeedIndexFromHost (map_sum id (map fst) ifs) (dm_index d)\<rparr>);
     e \<leftarrow> lift (new (grpc_port (sy_os sy)));
     (case e of
        Some e \<Rightarrow> return (Exited 1)
      | None \<Rightarrow> do {
          SetNodeClient;
          modifies (\<lambda>d. d\<lparr>dm_carrier := carrier_Init (sy_os sy)\<rparr>);
          e \<leftarrow> ReconGWires retry sy;
          return (Serves (grpc_port (sy_os sy)))
        })
   }"

definition daemon_start ::
    "nat \<Rightarrow> (('w, goerr option) dio \<Rightarrow> ('w, goerr option) dio) \<Rightarrow> 'w conf_env \<Rightarrow> 'w sys \<Rightarrow> (int \<Rightarrow> ('w, goerr option) io) \<Rightarrow>
     ('w, start_outcome) dio" where
  "daemon_start fuel retry ce sy new = do {
     r \<leftarrow> lift (WaitForNetConfig fuel ce (sy_os sy) DefaultWaitTimeout DefaultWaitInterval);
     (case r of
        None \<Rightarrow> return StillWaiting
      | Some (Some e) \<Rightarrow> return (Exited 1)
      | Some None \<Rightarrow> do {
          ei \<leftarrow> lift (Init ce (sy_os sy));
          (case ei of
             Some e \<Rightarrow> return (Exited 1)
           | None \<Rightarrow> seed_and_serve retry sy new)
        })
   }"

section \<open>Creating the server\<close>

text \<open>
  \<open>meshnet.New\<close> over client-go's configuration and clients and \<open>net.Listen\<close>: of a REST
  configuration the code sets the rate; of the clients only the errors matter.
\<close>

record 'f rest_config =
  rc_QPS :: 'f
  rc_Burst :: int

record ('w, 'f) client_lib =
  InClusterConfig :: "('w, 'f rest_config res) io"
  HomeDir :: "('w, string) io"
  BuildConfigFromFlags :: "string \<Rightarrow> ('w, 'f rest_config res) io"
  KubeForConfig :: "'f rest_config \<Rightarrow> ('w, goerr option) io"
  TopologyForConfig :: "'f rest_config \<Rightarrow> ('w, goerr option) io"
  DynamicForConfig :: "'f rest_config \<Rightarrow> ('w, goerr option) io"
  ListenTCP :: "string \<Rightarrow> ('w, goerr option) io"

record 'f Meshnet =
  mn_Port :: int
  mn_rCfg :: "'f rest_config"
  mn_Logging :: bool
  mn_Reflection :: bool

text \<open>\<open>filepath.Join\<close> of a home directory in its clean form.\<close>

definition kubeconfig_path :: "string \<Rightarrow> string" where
  "kubeconfig_path home = (if home \<noteq> '''' then home @ ''/.kube/config'' else ''.kube/config'')"

definition restConfig :: "('w, 'f) client_lib \<Rightarrow> 'f float_lib \<Rightarrow> 'w os_env \<Rightarrow> ('w, 'f rest_config res) io" where
  "restConfig lib fl os = do {
     r \<leftarrow> InClusterConfig lib;
     r \<leftarrow> (case r of
        Inr rCfg \<Rightarrow> return (Inr rCfg)
      | Inl e \<Rightarrow> do { home \<leftarrow> HomeDir lib; BuildConfigFromFlags lib (kubeconfig_path home) });
     return (case r of
         Inl e \<Rightarrow> Inl e
       | Inr rCfg \<Rightarrow> Inr (rCfg\<lparr>rc_QPS := fst (clientRateFromEnv fl os), rc_Burst := snd (clientRateFromEnv fl os)\<rparr>))
   }"

text \<open>The calls that only can fail, in their order.\<close>

fun first_error :: "('w, goerr option) io list \<Rightarrow> ('w, goerr option) io" where
  "first_error [] = return None"
| "first_error (m # ms) = do { e \<leftarrow> m; (case e of Some e \<Rightarrow> return (Some e) | None \<Rightarrow> first_error ms) }"

definition New :: "('w, 'f) client_lib \<Rightarrow> 'f float_lib \<Rightarrow> 'w os_env \<Rightarrow> int \<Rightarrow> ('w, 'f Meshnet res) io" where
  "New lib fl os port = do {
     r \<leftarrow> restConfig lib fl os;
     (case r of
        Inl e \<Rightarrow> return (Inl e)
      | Inr rCfg \<Rightarrow> do {
          e \<leftarrow> first_error [KubeForConfig lib rCfg, TopologyForConfig lib rCfg, DynamicForConfig lib rCfg,
                             ListenTCP lib ('':'' @ fmt_d port)];
          return (case e of
              Some e \<Rightarrow> Inl e
            | None \<Rightarrow> Inr
                \<lparr>mn_Port = port, mn_rCfg = rCfg,
                 mn_Logging = (ResolveInterNodeLinkType (Getenv os ''INTER_NODE_LINK_TYPE'') \<noteq> INTER_NODE_LINK_GRPC),
                 mn_Reflection = (Getenv os ''GRPC_REFLECTION'' = ''1'')\<rparr>)
        })
   }"

text \<open>\<open>New\<close> as the start uses it, and the whole of \<open>main\<close> up to \<open>Serve\<close>.\<close>

definition new_server :: "('w, 'f) client_lib \<Rightarrow> 'f float_lib \<Rightarrow> 'w os_env \<Rightarrow> int \<Rightarrow> ('w, goerr option) io" where
  "new_server lib fl os port = do {
     r \<leftarrow> New lib fl os port;
     return (case r of Inl e \<Rightarrow> Some e | Inr m \<Rightarrow> None)
   }"

definition daemon_main ::
    "nat \<Rightarrow> (('w, goerr option) dio \<Rightarrow> ('w, goerr option) dio) \<Rightarrow> 'w conf_env \<Rightarrow> 'w sys \<Rightarrow> ('w, 'f) client_lib \<Rightarrow>
     'f float_lib \<Rightarrow> ('w, start_outcome) dio" where
  "daemon_main fuel retry ce sy lib fl = daemon_start fuel retry ce sy (new_server lib fl (sy_os sy))"

lemma New_run:
  assumes "run_state (New lib fl os port) w = (Inr m, w')"
  shows "mn_Port m = port \<and> rc_QPS (mn_rCfg m) = fst (clientRateFromEnv fl os) \<and>
     rc_Burst (mn_rCfg m) = snd (clientRateFromEnv fl os) \<and>
     (\<exists>w1 w2. run_state (ListenTCP lib ('':'' @ fmt_d port)) w1 = (None, w2))"
proof -
  obtain r w1 where r: "run_state (restConfig lib fl os) w = (r, w1)" by fastforce
  obtain c where c: "r = Inr c" using assms r by (cases r) (auto simp: New_def)
  let ?ms = "[KubeForConfig lib c, TopologyForConfig lib c, DynamicForConfig lib c, ListenTCP lib ('':'' @ fmt_d port)]"
  obtain e w2 where e: "run_state (first_error ?ms) w1 = (e, w2)" by fastforce
  have en: "e = None" "mn_Port m = port" "mn_rCfg m = c"
    using assms r c e by (cases e; auto simp: New_def simp del: first_error.simps)+
  have "rc_QPS c = fst (clientRateFromEnv fl os)" "rc_Burst c = snd (clientRateFromEnv fl os)"
    using r c by (auto simp: restConfig_def split: sum.splits prod.splits)
  moreover have "\<exists>w1 w2. run_state (ListenTCP lib ('':'' @ fmt_d port)) w1 = (None, w2)"
    using e en(1) by (auto split: option.splits prod.splits)
  ultimately show ?thesis using en by blast
qed

section \<open>Properties\<close>

text \<open>
  Whatever the environment says, the client's burst is positive and the rate is a
  positive float, so the API client is never configured to block for ever.
\<close>

theorem client_rate_positive:
  assumes "Positive fl (FloatFifty fl)"
  shows "Positive fl (fst (clientRateFromEnv fl os)) \<and> 0 < snd (clientRateFromEnv fl os)"
  using assms by (auto simp: clientRateFromEnv_def defaultClientBurst_def Let_def split: option.splits)

theorem client_rate_positive_witness:
  "0 < snd (clientRateFromEnv \<lparr>ParseFloat32 = (\<lambda>s. Some (-1)), Positive = (\<lambda>f. 0 < f), FloatFifty = 50 :: int\<rparr>
     (ref_os (\<lambda>v. Some ''-7'') :: unit os_env))"
proof -
  have "Positive \<lparr>ParseFloat32 = (\<lambda>s. Some (-1)), Positive = (\<lambda>f. 0 < f), FloatFifty = 50 :: int\<rparr>
     (FloatFifty \<lparr>ParseFloat32 = (\<lambda>s. Some (-1)), Positive = (\<lambda>f. 0 < f), FloatFifty = 50 :: int\<rparr>)" by simp
  from client_rate_positive [OF this, of "ref_os (\<lambda>v. Some ''-7'')"] show ?thesis by (rule conjunct2)
qed

lemma wait_keeps:
  assumes "fs_law ce files" "os_keeps (\<lambda>w w'. files w' = files w) os"
  shows "keeps (\<lambda>w w'. files w' = files w) (WaitForNetConfig fuel ce os timeout interval)"
proof -
  have n: "keeps (\<lambda>w w'. files w' = files w) (Now os)" "\<And>t. keeps (\<lambda>w w'. files w' = files w) (Sleep os t)"
    using assms(2) by (simp_all add: os_keeps_def)
  have "keeps (\<lambda>w w'. files w' = files w) (wait_round ce os timeout dl interval)" for dl
    unfolding wait_round_def
    by (intro files_kept.keeps_bind files_kept.keeps_sum files_kept.keeps_if files_kept.keeps_return n load_keeps [OF assms(1)])
  then show ?thesis unfolding WaitForNetConfig_def
    by (intro files_kept.keeps_bind files_kept.keeps_forever n)
qed

text \<open>
  C23: The daemon answers calls only after it has installed its configuration: the files
  on the node have been those of a complete installation when it began to listen.  So on a
  new node, where a variable of the settings is not set and its file does not exist, the
  daemon never comes to serve.
\<close>

theorem daemon_serves_only_when_installed:
  assumes "fs_law ce files" "os_keeps (\<lambda>w w'. files w' = files w) (sy_os sy)"
    and "run_state (daemon_start fuel retry ce sy new) d = (Serves port, d')"
  shows "\<exists>bytes w1. files w1 = installed (sy_os sy) bytes (files (dm_world d)) \<and>
     run_state (seed_and_serve retry sy new) (d\<lparr>dm_world := w1\<rparr>) = (Serves port, d') \<and> port = grpc_port (sy_os sy) \<and>
     (LookupEnv (sy_os sy) datapathIfacePrefixEnv = None \<longrightarrow> files (dm_world d) DatapathIfacePrefixConf \<noteq> None) \<and>
     (LookupEnv (sy_os sy) defaultLinkMTUEnv = None \<longrightarrow> files (dm_world d) DefaultLinkMTUConf \<noteq> None)"
proof -
  obtain r w1 where r: "run_state (WaitForNetConfig fuel ce (sy_os sy) DefaultWaitTimeout DefaultWaitInterval) (dm_world d) = (r, w1)"
    by fastforce
  have w1: "files w1 = files (dm_world d)" using keepsD [OF wait_keeps [OF assms(1,2)] r] .
  have rn: "r = Some None" using assms(3) r by (auto simp: daemon_start_def split: option.splits prod.splits)
  obtain ei w2 where i: "run_state (Init ce (sy_os sy)) w1 = (ei, w2)" by fastforce
  have ein: "ei = None" using assms(3) r rn i by (cases ei) (auto simp: daemon_start_def)
  have s: "run_state (seed_and_serve retry sy new) (d\<lparr>dm_world := w2\<rparr>) = (Serves port, d')"
    using assms(3) r rn i ein by (simp add: daemon_start_def)
  then have "port = grpc_port (sy_os sy)"
    by (auto simp: seed_and_serve_def split: prod.splits option.splits)
  moreover obtain bytes where "files w2 = installed (sy_os sy) bytes (files w1)"
    using Init_installs [OF assms(1) i [unfolded ein]] by blast
  ultimately show ?thesis using Init_needs_settings [OF assms(1) i [unfolded ein]] s w1 by metis
qed

lemma serves_when_listening:
  "\<exists>d'. run_state (seed_and_serve retry sy (\<lambda>p. return None)) d = (Serves (grpc_port (sy_os sy)), d')"
proof -
  obtain ifs w where i: "run_state (Interfaces (sy_net sy)) (dm_world d) = (ifs, w)" by fastforce
  obtain e d2 where r: "run_state (ReconGWires retry sy) (d\<lparr>dm_world := w,
      dm_index := SeedIndexFromHost (map_sum id (map fst) ifs) (dm_index d),
      dm_ips := \<lparr>nodeClient = True, nodeIPSet = None, nodeIPCacheExpiry = 0\<rparr>,
      dm_carrier := carrier_Init (sy_os sy)\<rparr>) = (e, d2)" by fastforce
  show ?thesis using i r by (simp add: seed_and_serve_def SetNodeClient_def)
qed

text \<open>A node whose daemon comes up, over the files of \<open>Cni_Init\<close>.\<close>

definition map_sys :: "(string \<Rightarrow> string option) sys" where
  "map_sys = \<lparr>sy_lib = ref_lib, sy_os = ref_os set_env,
     sy_kube = \<lparr>TopoGet = (\<lambda>ns n. return (Inl (Err ''''))), TopoUpdateStatus = (\<lambda>ns ob. return (Inl (Err ''''))),
       GwList = (\<lambda>n. return (Inr [])), GwGet = (\<lambda>ns n. return (Inl (Err ''''))), GwCreate = (\<lambda>ns ob. return (Inl (Err ''''))),
       GwUpdate = (\<lambda>ns ob. return (Inl (Err ''''))), NodesList = return (Inr []), NodeGet = (\<lambda>n. return (Inl (Err ''''))),
       NodeUpdate = (\<lambda>n. return (Inl (Err ''''))), RetryOnConflict = id\<rparr>,
     sy_net = ref_net, sy_rpc = ref_rpc, sy_errs = (\<lambda>es. Err ''''), sy_pkt = blind_pkt\<rparr>"

definition fresh_daemon :: "'w \<Rightarrow> 'w daemon" where
  "fresh_daemon w = \<lparr>dm_world = w, dm_index = \<lparr>currId = 0\<rparr>, dm_wires = empty_wires, dm_links = Map.empty,
     dm_echo = Map.empty, dm_ips = \<lparr>nodeClient = False, nodeIPSet = None, nodeIPCacheExpiry = 0\<rparr>,
     dm_threads = [], dm_carrier = False\<rparr>"

lemma fresh_world [simp]: "dm_world (fresh_daemon w) = w"
  by (simp add: fresh_daemon_def)

lemma wait_demo:
  "run_state (WaitForNetConfig 1 map_env (ref_os set_env) DefaultWaitTimeout DefaultWaitInterval) Map.empty = (Some None, Map.empty)"
  by (simp add: WaitForNetConfig_def wait_round_def load_demo)

lemma start_reaches:
  assumes "run_state (WaitForNetConfig fuel ce (sy_os sy) DefaultWaitTimeout DefaultWaitInterval) (dm_world d) = (Some None, w)"
    and "run_state (Init ce (sy_os sy)) w = (None, w')"
  shows "\<exists>d'. run_state (daemon_start fuel retry ce sy (\<lambda>p. return None)) d = (Serves (grpc_port (sy_os sy)), d')"
  using assms serves_when_listening [of retry sy "d\<lparr>dm_world := w'\<rparr>"] by (simp add: daemon_start_def)

lemma map_sys_os [simp]: "sy_os map_sys = ref_os set_env"
  by (simp add: map_sys_def)

lemma port_demo: "grpc_port (ref_os set_env :: (string \<Rightarrow> string option) os_env) = 51111"
  by (simp add: grpc_port_def Getenv_def set_env_def datapathIfacePrefixEnv_def defaultLinkMTUEnv_def atoi_def GRPCDefaultPort_def)

lemma start_demo:
  "\<exists>d'. run_state (daemon_start 1 id map_env map_sys (\<lambda>p. return None)) (fresh_daemon Map.empty) = (Serves 51111, d')"
proof -
  obtain w1 where "run_state (Init map_env (ref_os set_env)) Map.empty = (None, w1)" using Init_demo by (elim exE)
  from start_reaches [of 1 map_env map_sys "fresh_daemon Map.empty", unfolded map_sys_os fresh_world, OF wait_demo this, unfolded port_demo]
  show ?thesis .
qed

theorem daemon_serves_only_when_installed_witness:
  "\<exists>d' bytes. run_state (daemon_start 1 id map_env map_sys (\<lambda>p. return None)) (fresh_daemon Map.empty) = (Serves 51111, d') \<and>
     run_state (seed_and_serve id map_sys (\<lambda>p. return None))
       ((fresh_daemon Map.empty)\<lparr>dm_world := installed (ref_os set_env :: (string \<Rightarrow> string option) os_env) bytes Map.empty\<rparr>) = (Serves 51111, d')"
proof -
  obtain d' where run: "run_state (daemon_start 1 id map_env map_sys (\<lambda>p. return None)) (fresh_daemon Map.empty) = (Serves 51111, d')"
    using start_demo by (elim exE)
  have "os_keeps (\<lambda>w w'. w' = w) (sy_os map_sys)" by (simp add: os_keeps_def ref_os_def keeps_def)
  from daemon_serves_only_when_installed [OF map_env_law this run, unfolded map_sys_os fresh_world]
  obtain bytes w1 where w1: "w1 = installed (ref_os set_env :: (string \<Rightarrow> string option) os_env) bytes Map.empty"
    and s: "run_state (seed_and_serve id map_sys (\<lambda>p. return None)) ((fresh_daemon Map.empty)\<lparr>dm_world := w1\<rparr>) = (Serves 51111, d')"
    by (elim exE conjE)
  from run s [unfolded w1] show ?thesis by (intro exI conjI)
qed

end
