(* ===== verification/Daemon_Calls.thy ===== *)
theory Daemon_Calls
  imports Startup Handler
begin

text \<open>
  The daemon as one state machine: it starts, then serves calls and runs the ticks of its
  background threads, one after the other, while the world around it changes.  Every
  state it reaches is well formed.  The proofs are Hoare triples over the handlers, whose
  wire steps are those of \<open>Wire_Steps\<close>.
\<close>

section \<open>Triples\<close>

definition hoare :: "('s \<Rightarrow> bool) \<Rightarrow> ('s, 'a) io \<Rightarrow> ('a \<Rightarrow> 's \<Rightarrow> bool) \<Rightarrow> bool" where
  "hoare P m Q \<longleftrightarrow> (\<forall>s r s'. P s \<longrightarrow> run_state m s = (r, s') \<longrightarrow> Q r s')"

named_theorems hoare_rules

lemma hoareI: "(\<And>s r s'. P s \<Longrightarrow> run_state m s = (r, s') \<Longrightarrow> Q r s') \<Longrightarrow> hoare P m Q"
  by (simp add: hoare_def)

lemma hoareD: "hoare P m Q \<Longrightarrow> P s \<Longrightarrow> run_state m s = (r, s') \<Longrightarrow> Q r s'"
  by (simp add: hoare_def)

lemma hoare_weaken: "hoare P m Q \<Longrightarrow> (\<And>s. P' s \<Longrightarrow> P s) \<Longrightarrow> (\<And>r s. Q r s \<Longrightarrow> Q' r s) \<Longrightarrow> hoare P' m Q'"
  unfolding hoare_def by blast

lemma hoare_seq: "hoare P m M \<Longrightarrow> (\<And>x. hoare (M x) (f x) Q) \<Longrightarrow> hoare P (State_Monad.bind m f) Q"
  unfolding hoare_def run_bind by (auto split: prod.splits)

lemma hoare_return [hoare_rules]: "(\<And>s. P s \<Longrightarrow> Q x s) \<Longrightarrow> hoare P (return x) Q"
  by (simp add: hoare_def)

text \<open>What every call before the last keeps, the sequence keeps.\<close>

lemma hoare_bind [hoare_rules]:
  "hoare P m (\<lambda>x. P) \<Longrightarrow> (\<And>x. hoare P (f x) Q) \<Longrightarrow> hoare P (State_Monad.bind m f) Q"
  by (rule hoare_seq)

lemma hoare_reads: "(\<And>x. hoare (\<lambda>s. P s \<and> x = f s) (g x) Q) \<Longrightarrow> hoare P (State_Monad.bind (reads f) g) Q"
  by (rule hoare_seq [where M = "\<lambda>x s. P s \<and> x = f s"]) (simp_all add: hoare_def)

lemma hoare_reads_keep [hoare_rules]: "hoare P (reads f) (\<lambda>x. P)"
  by (simp add: hoare_def)

lemma hoare_if [hoare_rules]: "(b \<Longrightarrow> hoare P m Q) \<Longrightarrow> (\<not> b \<Longrightarrow> hoare P n Q) \<Longrightarrow> hoare P (if b then m else n) Q"
  by simp

lemma hoare_option [hoare_rules]:
  "(x = None \<Longrightarrow> hoare P m Q) \<Longrightarrow> (\<And>y. x = Some y \<Longrightarrow> hoare P (f y) Q) \<Longrightarrow>
     hoare P (case x of None \<Rightarrow> m | Some y \<Rightarrow> f y) Q"
  by (cases x) simp_all

lemma hoare_sum [hoare_rules]:
  "(\<And>e. x = Inl e \<Longrightarrow> hoare P (f e) Q) \<Longrightarrow> (\<And>y. x = Inr y \<Longrightarrow> hoare P (g y) Q) \<Longrightarrow>
     hoare P (case x of Inl e \<Rightarrow> f e | Inr y \<Rightarrow> g y) Q"
  by (cases x) simp_all

lemma hoare_prod [hoare_rules]:
  "(\<And>a b. x = (a, b) \<Longrightarrow> hoare P (f a b) Q) \<Longrightarrow> hoare P (case x of (a, b) \<Rightarrow> f a b) Q"
  by (cases x) simp

lemma hoare_bool [hoare_rules]:
  "(b \<Longrightarrow> hoare P m Q) \<Longrightarrow> (\<not> b \<Longrightarrow> hoare P n Q) \<Longrightarrow> hoare P (case b of True \<Rightarrow> m | False \<Rightarrow> n) Q"
  by (cases b) simp_all

section \<open>Well-formed wires\<close>

abbreviation sys_of :: "wireMap \<Rightarrow> nat set \<Rightarrow> (nat \<rightharpoonup> stop_pc) \<Rightarrow> wire_sys" where
  "sys_of m C D \<equiv> \<lparr>ws_map = m, ws_chans = C, ws_stopping = D\<rparr>"

definition wires_ok :: "wireMap \<Rightarrow> bool" where
  "wires_ok m \<longleftrightarrow> wire_inv (sys_of m {} Map.empty)"

text \<open>A channel made and not used yet; a wire made and not filed yet.\<close>

definition holds_chan :: "nat \<Rightarrow> wireMap \<Rightarrow> bool" where
  "holds_chan c m \<longleftrightarrow> wire_inv (sys_of m {c} Map.empty)"

definition unfiled :: "nat \<Rightarrow> wireMap \<Rightarrow> bool" where
  "unfiled a m \<longleftrightarrow> wires_ok m \<and> (\<exists>w. wheap m a = Some w \<and> live m w) \<and> (\<forall>k. wires m k \<noteq> Some a)"

definition grows :: "wireMap \<Rightarrow> wireMap \<Rightarrow> bool" where
  "grows m m' \<longleftrightarrow> (\<forall>a. allocated m a \<longrightarrow> allocated m' a)"

lemma growsD: "grows m m' \<Longrightarrow> allocated m a \<Longrightarrow> allocated m' a"
  by (simp add: grows_def)

lemma holds_ok: "holds_chan c m \<Longrightarrow> wires_ok m"
  by (auto simp: holds_chan_def wires_ok_def wire_inv_def chans_ok_def)

lemma make_ok: "wires_ok m \<Longrightarrow> make_chan m = (c, m') \<Longrightarrow> holds_chan c m' \<and> grows m m'"
  using inv_make [of "sys_of m {} Map.empty" c m']
  by (auto simp: wires_ok_def holds_chan_def make_chan_def grows_def allocated_def)

lemma update_ok:
  assumes "holds_chan c m" "UpdateWireByUID ns uid p c m = (r, m')"
  shows "grows m m' \<and> (case r of None \<Rightarrow> m' = m | Some a \<Rightarrow> wires_ok m' \<and> allocated m' a)"
proof (cases r)
  case None
  then show ?thesis using assms(2) by (auto simp: UpdateWireByUID_def grows_def split: option.splits)
next
  case (Some a)
  have "wire_inv (sys_of m' {} Map.empty)"
    using inv_update [of "sys_of m {c} Map.empty" c ns uid p a m'] assms Some by (simp add: holds_chan_def)
  moreover have "wires m (ns, uid) = Some a" "grows m m'"
    using assms(2) Some by (auto simp: UpdateWireByUID_def grows_def allocated_def split: option.splits)
  moreover have "tracked_ok m" using assms(1) by (simp add: holds_chan_def wire_inv_def)
  ultimately show ?thesis using Some growsD [of m m' a] tracked_okD [of m "(ns, uid)" a]
    by (auto simp: wires_ok_def allocated_def)
qed

lemma new_ok:
  assumes "holds_chan c m" "gw_StopC w = c" "new_wire w m = (a, m')"
  shows "unfiled a m' \<and> grows m m'"
proof -
  have m: "a = wnext m" "m' = m\<lparr>wheap := (wheap m)(wnext m \<mapsto> w), wnext := Suc (wnext m)\<rparr>"
    using assms(3) by (auto simp: new_wire_def)
  from assms(1) have h: "heap_ok m" "chans_ok m {c}" "tracked_ok m"
    by (simp_all add: holds_chan_def wire_inv_def)
  have fresh: "wheap m a = None" using h(1) unfolding heap_ok_def m(1) by (metis less_irrefl not_None_eq)
  have un: "wires m k \<noteq> Some a" for k using tracked_okD [OF h(3), of k a] fresh by auto
  have c: "c < chnext m" "c \<notin> chclosed m" "\<And>b v. wheap m b = Some v \<Longrightarrow> gw_StopC v \<noteq> c"
    using h(2) unfolding chans_ok_def by blast+
  have "heap_ok m'" using h(1) c assms(2) unfolding heap_ok_def m by (auto simp: less_Suc_eq split: if_splits) (metis)+
  moreover have "tracked_ok m'" using h(3) un unfolding tracked_ok_def live_def m by fastforce
  ultimately have "wires_ok m'" by (simp add: wires_ok_def wire_inv_def chans_ok_def stopping_ok_def)
  then show ?thesis using c(2) assms(2) un m by (auto simp: unfiled_def live_def grows_def allocated_def)
qed


text \<open>Marking an unfiled wire ready, filing it, and filing its handle.\<close>

lemma unfiled_ok: "unfiled a m \<Longrightarrow> wires_ok m"
  by (simp add: unfiled_def)

lemma ready_ok:
  assumes "unfiled a m" "m' = upd_wire a (\<lambda>w. w\<lparr>gw_IsReady := True\<rparr>) m"
  shows "unfiled a m' \<and> gw_IsReady (wire_at m' a) \<and> grows m m'"
proof -
  obtain w where w: "wheap m a = Some w" "live m w" "\<And>k. wires m k \<noteq> Some a"
    and ok: "heap_ok m" "tracked_ok m"
    using assms(1) by (auto simp: unfiled_def wires_ok_def wire_inv_def)
  have "heap_ok m'" using ok(1) w(1) unfolding heap_ok_def assms(2) by (auto split: if_splits)
  moreover have "tracked_ok m'" using ok(2) w(1,3) unfolding tracked_ok_def live_def assms(2) by fastforce
  ultimately have "wires_ok m'" by (simp add: wires_ok_def wire_inv_def chans_ok_def stopping_ok_def)
  then show ?thesis using w by (auto simp: unfiled_def live_def wire_at_def assms(2) grows_def allocated_def)
qed

lemma file_ok:
  assumes "unfiled a m" "gw_IsReady (wire_at m a)"
  shows "wires_ok (m\<lparr>wires := (wires m)(key_of (wire_at m a) \<mapsto> a)\<rparr>) \<and> allocated m a"
proof -
  let ?n = "m\<lparr>wires := (wires m)(key_of (wire_at m a) \<mapsto> a)\<rparr>"
  obtain w where w: "wheap m a = Some w" "live m w" and ok: "heap_ok m" "tracked_ok m"
    using assms(1) by (auto simp: unfiled_def wires_ok_def wire_inv_def)
  have "heap_ok ?n" using ok(1) by (simp add: heap_ok_def)
  moreover have "tracked_ok ?n"
  proof (unfold tracked_ok_def, intro allI impI)
    fix k b assume k: "wires ?n k = Some b"
    show "\<exists>w. wheap ?n b = Some w \<and> key_of w = k \<and> gw_IsReady w = live ?n w"
    proof (cases "k = key_of (wire_at m a)")
      case True
      then show ?thesis using k w assms(2) by (simp add: wire_at_def live_def)
    next
      case False
      then show ?thesis using k tracked_okD [OF ok(2), of k b] by (simp add: live_def)
    qed
  qed
  ultimately show ?thesis using w(1) by (simp add: wires_ok_def wire_inv_def chans_ok_def stopping_ok_def allocated_def)
qed

lemma handles_ok [simp]: "wires_ok (m\<lparr>handles := h\<rparr>) = wires_ok m"
  by (simp add: wires_ok_def wire_inv_def heap_ok_def chans_ok_def tracked_ok_def stopping_ok_def live_def)

lemma down_ok: "wires_ok m \<Longrightarrow> WireDownByUID ns uid m = (e, m') \<Longrightarrow> wires_ok m' \<and> grows m m'"
  using inv_down [of "sys_of m {} Map.empty" ns uid e m']
  by (auto simp: wires_ok_def grows_def allocated_def WireDownByUID_def stop_wire_def mark_down_def close_if_ready_def
      close_chan_def split: option.splits)

text \<open>A wire that was taken out of the map and is about to be stopped.\<close>

definition taken_out :: "nat \<Rightarrow> wireMap \<Rightarrow> bool" where
  "taken_out a m \<longleftrightarrow> wire_inv (sys_of m {} [a \<mapsto> AtTest])"

lemma taken_out_ok: "taken_out a m \<Longrightarrow> wires_ok m"
  by (simp add: taken_out_def wires_ok_def wire_inv_def stopping_ok_def)

lemma extract_none: "ExtractOneWireByPod ks ns pod m = ((None, b), m') \<Longrightarrow> m' = m"
  by (induction ks) (auto split: option.splits if_splits)

lemma extract_grows: "ExtractOneWireByPod ks ns pod m = (r, m') \<Longrightarrow> wheap m' = wheap m"
  by (induction ks) (auto split: option.splits if_splits)

lemma extract_ok:
  assumes "wires_ok m" "ExtractOneWireByPod ks ns pod m = ((r, b), m')"
  shows "grows m m' \<and> (case r of None \<Rightarrow> wires_ok m' | Some a \<Rightarrow> taken_out a m')"
  using assms inv_extract [of "sys_of m {} Map.empty" ks ns pod _ b m'] extract_none [of ks ns pod m b m']
    extract_grows [OF assms(2)]
  by (cases r) (auto simp: wires_ok_def taken_out_def grows_def allocated_def)

lemma stop_ok:
  assumes "taken_out a m"
  shows "wires_ok (stop_wire a m) \<and> grows m (stop_wire a m)"
proof -
  obtain w where w: "wheap m a = Some w"
    using assms by (simp add: taken_out_def wire_inv_def stopping_ok_def) (metis option.distinct(1))
  have t: "wire_inv (sys_of m {} [a \<mapsto> (if gw_IsReady w then AtClose else AtMark)])"
    using inv_test [of "sys_of m {} [a \<mapsto> AtTest]" a w] assms w by (simp add: taken_out_def)
  have c: "wire_inv (sys_of (close_if_ready a m) {} [a \<mapsto> AtMark])"
  proof (cases "gw_IsReady w")
    case True
    then show ?thesis using t w inv_close [of "sys_of m {} [a \<mapsto> AtClose]" a w] by (simp add: close_if_ready_def)
  next
    case False
    then show ?thesis using t w by (simp add: close_if_ready_def)
  qed
  have "wire_inv (sys_of (stop_wire a m) {} Map.empty)"
    using inv_mark [OF c, of a] by (simp add: stop_wire_def)
  then show ?thesis
    using w by (auto simp: wires_ok_def grows_def allocated_def stop_wire_def mark_down_def close_if_ready_def)
qed


section \<open>Well-formed states\<close>

definition threads_ok :: "'w daemon \<Rightarrow> bool" where
  "threads_ok d \<longleftrightarrow> (\<forall>(a, ifc) \<in> set (dm_threads d). allocated (dm_wires d) a)"

definition well_formed :: "'w daemon \<Rightarrow> bool" where
  "well_formed d \<longleftrightarrow> wires_ok (dm_wires d) \<and> links_keyed (dm_links d) \<and> threads_ok d"

definition with_wires :: "(wireMap \<Rightarrow> bool) \<Rightarrow> 'w daemon \<Rightarrow> bool" where
  "with_wires P d \<longleftrightarrow> well_formed d \<and> P (dm_wires d)"

lemma well_formed_world [simp]: "well_formed (d\<lparr>dm_world := w\<rparr>) = well_formed d"
  by (simp add: well_formed_def threads_ok_def)

lemma with_wires_world [simp]: "with_wires P (d\<lparr>dm_world := w\<rparr>) = with_wires P d"
  by (simp add: with_wires_def)

lemma with_wires_True: "with_wires (\<lambda>m. True) = well_formed"
  by (simp add: fun_eq_iff with_wires_def)

lemma hoare_lift [hoare_rules]: "hoare well_formed (lift m) (\<lambda>x. well_formed)"
  by (auto simp: hoare_def split: prod.splits)

lemma hoare_lift_wires [hoare_rules]: "hoare (with_wires P) (lift m) (\<lambda>x. with_wires P)"
  by (auto simp: hoare_def split: prod.splits)

lemma well_formed_other [simp]:
  "well_formed (d\<lparr>dm_index := g\<rparr>) = well_formed d" "well_formed (d\<lparr>dm_echo := t\<rparr>) = well_formed d"
  "well_formed (d\<lparr>dm_ips := c\<rparr>) = well_formed d" "well_formed (d\<lparr>dm_carrier := b\<rparr>) = well_formed d"
  by (simp_all add: well_formed_def threads_ok_def)

lemma hoare_index [hoare_rules]: "hoare (with_wires P) (modifies (\<lambda>d. d\<lparr>dm_index := g d\<rparr>)) (\<lambda>x. with_wires P)"
  by (simp add: hoare_def with_wires_def)

lemma hoare_others [hoare_rules]:
  "hoare well_formed (modifies (\<lambda>d. d\<lparr>dm_index := g d\<rparr>)) (\<lambda>x. well_formed)"
  "hoare well_formed (modifies (\<lambda>d. d\<lparr>dm_echo := t d\<rparr>)) (\<lambda>x. well_formed)"
  "hoare well_formed (modifies (\<lambda>d. d\<lparr>dm_ips := c d\<rparr>)) (\<lambda>x. well_formed)"
  "hoare well_formed (modifies (\<lambda>d. d\<lparr>dm_carrier := b d\<rparr>)) (\<lambda>x. well_formed)"
  by (simp_all add: hoare_def)

lemma hoare_links [hoare_rules]:
  assumes "\<And>l. links_keyed l \<Longrightarrow> links_keyed (f l)"
  shows "hoare well_formed (modifies (\<lambda>d. d\<lparr>dm_links := f (dm_links d)\<rparr>)) (\<lambda>x. well_formed)"
  using assms by (simp add: hoare_def well_formed_def threads_ok_def)

text \<open>A step of the wires that only adds to the heap.\<close>

lemma hoare_wires:
  assumes "\<And>m r m'. wires_ok m \<Longrightarrow> P m \<Longrightarrow> f m = (r, m') \<Longrightarrow> grows m m' \<and> wires_ok m' \<and> Q r m'"
  shows "hoare (with_wires P) (on_wires f) (\<lambda>r. with_wires (Q r))"
proof (rule hoareI)
  fix s r s' assume P: "with_wires P s" and run: "run_state (on_wires f) s = (r, s')"
  obtain m' where f: "f (dm_wires s) = (r, m')" "s' = s\<lparr>dm_wires := m'\<rparr>" using run by (auto split: prod.splits)
  have "grows (dm_wires s) m' \<and> wires_ok m' \<and> Q r m'" using assms [OF _ _ f(1)] P by (simp add: with_wires_def well_formed_def)
  then show "with_wires (Q r) s'"
    using P f(2) by (auto simp: with_wires_def well_formed_def threads_ok_def grows_def)
qed

lemma hoare_thread:
  "hoare (with_wires (\<lambda>m. allocated m a)) (start_thread a ifc) (\<lambda>x. well_formed)"
  by (auto simp: hoare_def start_thread_def with_wires_def well_formed_def threads_ok_def)

text \<open>The end of every addition: read the wire, start its thread, answer.\<close>

lemma started_ok:
  "hoare (with_wires (\<lambda>m. allocated m a))
     (do { w \<leftarrow> wire_of a; start_thread a (gw_LocalNodeIfaceName w); return (x w) }) (\<lambda>x. well_formed)"
  unfolding wire_of_def
  by (rule hoare_bind [OF hoare_reads_keep], rule hoare_seq [OF hoare_thread], rule hoare_return)

lemma add_both_ok:
  "hoare (with_wires (\<lambda>m. unfiled a m \<and> gw_IsReady (wire_at m a))) (AddInMemNDataStore sy a h)
     (\<lambda>x. with_wires (\<lambda>m. allocated m a))"
proof -
  have filed: "hoare (with_wires (\<lambda>m. (unfiled a m \<and> gw_IsReady (wire_at m a)) \<and> w = wire_at m a))
      (on_wires (\<lambda>m. ((), m\<lparr>wires := (wires m)(key_of w \<mapsto> a)\<rparr>))) (\<lambda>x. with_wires (\<lambda>m. allocated m a))" for w
    by (rule hoare_wires) (use file_ok in \<open>auto simp: grows_def allocated_def\<close>)
  have hnd: "hoare (with_wires (\<lambda>m. allocated m a)) (on_wires (\<lambda>m. ((), m\<lparr>handles := (handles m)(i \<mapsto> h)\<rparr>)))
      (\<lambda>x. with_wires (\<lambda>m. allocated m a))" for i
    by (rule hoare_wires) (auto simp: grows_def allocated_def)
  show ?thesis unfolding AddInMemNDataStore_def wire_of_def
  proof (rule hoare_reads)
    fix w
    have "hoare (with_wires (\<lambda>m. (unfiled a m \<and> gw_IsReady (wire_at m a)) \<and> w = wire_at m a))
        (do { on_wires (\<lambda>m. ((), m\<lparr>wires := (wires m)(key_of w \<mapsto> a)\<rparr>));
              err \<leftarrow> lift (K8sStoreGWire (sy_lib sy) (sy_os sy) (sy_kube sy) w);
              on_wires (\<lambda>m. ((), m\<lparr>handles := (handles m)(gw_LocalNodeIfaceID w \<mapsto> h)\<rparr>)) })
        (\<lambda>x. with_wires (\<lambda>m. allocated m a))"
      by (rule hoare_seq [OF filed], rule hoare_bind [OF hoare_lift_wires hnd])
    then show "hoare (\<lambda>s. with_wires (\<lambda>m. unfiled a m \<and> gw_IsReady (wire_at m a)) s \<and> w = wire_at (dm_wires s) a)
        (do { on_wires (\<lambda>m. ((), m\<lparr>wires := (wires m)(key_of w \<mapsto> a)\<rparr>));
              err \<leftarrow> lift (K8sStoreGWire (sy_lib sy) (sy_os sy) (sy_kube sy) w);
              on_wires (\<lambda>m. ((), m\<lparr>handles := (handles m)(gw_LocalNodeIfaceID w \<mapsto> h)\<rparr>)) })
        (\<lambda>x. with_wires (\<lambda>m. allocated m a))"
      by (rule hoare_weaken) (auto simp: with_wires_def)
  qed
qed

lemma add_ready_ok:
  "hoare (with_wires (unfiled a)) (AddWireInMemNDataStore sy a h) (\<lambda>x. with_wires (\<lambda>m. allocated m a))"
proof -
  have "hoare (with_wires (unfiled a)) (on_wires (\<lambda>m. ((), upd_wire a (\<lambda>w. w\<lparr>gw_IsReady := True\<rparr>) m)))
      (\<lambda>x. with_wires (\<lambda>m. unfiled a m \<and> gw_IsReady (wire_at m a)))"
    by (rule hoare_wires) (use ready_ok unfiled_ok in blast)
  from hoare_seq [OF this add_both_ok] show ?thesis unfolding AddWireInMemNDataStore_def .
qed


section \<open>The handlers\<close>

lemma make_chan_ok:
  "hoare well_formed (on_wires make_chan) (\<lambda>c. with_wires (holds_chan c))"
  unfolding with_wires_True [symmetric]
  by (rule hoare_wires) (use make_ok holds_ok in blast)

lemma alloc_ok:
  assumes "\<And>w. gw_StopC (f w) = gw_StopC w"
  shows "hoare (with_wires (holds_chan c)) (alloc_wire i nm c wd f) (\<lambda>a. with_wires (unfiled a))"
  unfolding alloc_wire_def
proof (rule hoare_wires)
  fix m a m' assume "holds_chan c m" "new_wire (f (CreateGWire i nm c wd)) m = (a, m')"
  from new_ok [OF this(1) _ this(2)] assms show "grows m m' \<and> wires_ok m' \<and> unfiled a m'"
    by (auto simp: CreateGWire_def intro: unfiled_ok)
qed

lemma hoare_drop: "hoare (with_wires P) m (\<lambda>x. with_wires (Q x)) \<Longrightarrow> hoare (with_wires P) m (\<lambda>x. well_formed)"
  by (erule hoare_weaken) (simp_all add: with_wires_def)

lemma hoare_only: "hoare well_formed m Q \<Longrightarrow> hoare (with_wires P) m Q"
  by (erule hoare_weaken) (simp_all add: with_wires_def)

lemma local_ok: "hoare well_formed (AddGRPCWireLocal sy wd) (\<lambda>x. well_formed)"
proof -
  have core: "hoare well_formed
      (do { stopC \<leftarrow> on_wires make_chan;
            a \<leftarrow> alloc_wire i nm stopC wd (\<lambda>w. w\<lparr>gw_IsReady := False, gw_Originator := HOST_CREATED_WIRE, gw_OriginatorIP := ''unknown''\<rparr>);
            AddWireInMemNDataStore sy a h;
            w \<leftarrow> wire_of a;
            start_thread a (gw_LocalNodeIfaceName w);
            return (ok_response, None) }) (\<lambda>x. well_formed)" for i nm h
    by (rule hoare_seq [OF make_chan_ok], rule hoare_seq [OF alloc_ok], simp, rule hoare_seq [OF add_ready_ok], rule started_ok)
  have err: "hoare well_formed (return (no_response, Some e)) (\<lambda>x. well_formed)" for e :: goerr
    by (rule hoare_return)
  show ?thesis unfolding AddGRPCWireLocal_def CreateGRPCWireLocal_def
    by (rule hoare_bind [OF hoare_lift], rule hoare_sum [OF err], rule hoare_bind [OF hoare_lift],
        rule hoare_bind [OF hoare_lift], rule hoare_sum [OF err core])
qed

lemma restored_ok: "hoare well_formed (reconLocalGRPCWire sy wd) (\<lambda>x. well_formed)"
proof -
  have ready: "hoare (with_wires (holds_chan c)) (alloc_wire i nm c wd (\<lambda>w. w\<lparr>gw_IsReady := True\<rparr>))
      (\<lambda>a. with_wires (\<lambda>m. unfiled a m \<and> gw_IsReady (wire_at m a)))" for i nm c
    unfolding alloc_wire_def
  proof (rule hoare_wires)
    fix m a m' assume new: "holds_chan c m" "new_wire ((CreateGWire i nm c wd)\<lparr>gw_IsReady := True\<rparr>) m = (a, m')"
    from new_ok [OF new(1) _ new(2)] new(2)
    show "grows m m' \<and> wires_ok m' \<and> unfiled a m' \<and> gw_IsReady (wire_at m' a)"
      by (auto simp: CreateGWire_def new_wire_def wire_at_def intro: unfiled_ok)
  qed
  have filed: "hoare (with_wires (\<lambda>m. unfiled a m \<and> gw_IsReady (wire_at m a))) (on_wires (\<lambda>m. ((), AddInMem a h m)))
      (\<lambda>x. with_wires (\<lambda>m. allocated m a))" for a h
  proof (rule hoare_wires)
    fix m :: wireMap and r m' assume m: "unfiled a m \<and> gw_IsReady (wire_at m a)" "((), AddInMem a h m) = (r, m')"
    then obtain w where w: "wheap m a = Some w" by (auto simp: unfiled_def)
    have "m' = m\<lparr>wires := (wires m)(key_of (wire_at m a) \<mapsto> a)\<rparr>\<lparr>handles := (handles m)(gw_LocalNodeIfaceID w \<mapsto> h)\<rparr>"
      using m(2) w by (simp add: AddInMem_def wire_at_def)
    then show "grows m m' \<and> wires_ok m' \<and> allocated m' a" using file_ok [of a m] m(1) by (simp add: grows_def allocated_def)
  qed
  have core: "hoare well_formed
      (do { stopC \<leftarrow> on_wires make_chan;
            a \<leftarrow> alloc_wire i nm stopC wd (\<lambda>w. w\<lparr>gw_IsReady := True\<rparr>);
            on_wires (\<lambda>m. ((), AddInMem a h m));
            w \<leftarrow> wire_of a;
            start_thread a (gw_LocalNodeIfaceName w);
            return None }) (\<lambda>x. well_formed)" for i nm h
    by (rule hoare_seq [OF make_chan_ok], rule hoare_seq [OF ready], rule hoare_seq [OF filed], rule started_ok)
  have err: "hoare well_formed (return (Some e)) (\<lambda>x. well_formed)" for e :: goerr
    by (rule hoare_return)
  show ?thesis unfolding reconLocalGRPCWire_def
    by (rule hoare_bind [OF hoare_lift], rule hoare_sum [OF err], rule hoare_bind [OF hoare_lift], rule hoare_sum [OF err core])
qed

text \<open>The answer of a handler that files a wire: a wire that exists.\<close>

definition answers_wire :: "nat res \<Rightarrow> 'w daemon \<Rightarrow> bool" where
  "answers_wire r d \<longleftrightarrow> well_formed d \<and> (\<forall>a. r = Inr a \<longrightarrow> allocated (dm_wires d) a)"

lemma answers_wireI: "well_formed s \<Longrightarrow> answers_wire (Inl e) s" "with_wires (\<lambda>m. allocated m a) s \<Longrightarrow> answers_wire (Inr a) s"
  by (simp_all add: answers_wire_def with_wires_def)

lemma file_remote_ok: "hoare (with_wires (holds_chan c)) (file_remote_wire sy wd c nm) answers_wire"
proof -
  have err: "hoare (with_wires P) (return (Inl e)) answers_wire" for P :: "wireMap \<Rightarrow> bool" and e
    by (rule hoare_return) (simp add: answers_wire_def with_wires_def)
  have ok: "hoare (with_wires (unfiled a)) (do { AddWireInMemNDataStore sy a h; return (Inr a) }) answers_wire" for a h
    by (rule hoare_seq [OF add_ready_ok], rule hoare_return) (rule answers_wireI)
  have core: "hoare (with_wires (holds_chan c))
     (do { a \<leftarrow> alloc_wire i nm c wd (\<lambda>w. w);
           rh \<leftarrow> lift (PcapOpenLive (sy_net sy) nm);
           (case rh of Inl e \<Rightarrow> return (Inl e) | Inr h \<Rightarrow> do { AddWireInMemNDataStore sy a h; return (Inr a) }) }) answers_wire" for i
    by (rule hoare_seq [OF alloc_ok], simp, rule hoare_bind [OF hoare_lift_wires], rule hoare_sum) (rule err ok)+
  show ?thesis unfolding file_remote_wire_def by (rule hoare_bind [OF hoare_lift_wires], rule hoare_sum [OF err core])
qed

lemma stale_ok: "hoare (with_wires P) (ensureNoStaleRemoteEnd sy veth wd) (\<lambda>x. with_wires P)"
  unfolding ensureNoStaleRemoteEnd_def by (intro hoare_rules)


text \<open>An early error return, and a call that leaves the wires alone.\<close>

lemma refuse_ok: "hoare (with_wires P) (return (Inl e)) answers_wire"
  by (rule hoare_return) (simp add: answers_wire_def with_wires_def)

lemma triggered_update_ok:
  "hoare (with_wires (holds_chan c)) (on_wires (UpdateWireByUID ns uid p c))
     (\<lambda>r. with_wires (\<lambda>m. case r of None \<Rightarrow> holds_chan c m | Some a \<Rightarrow> allocated m a))"
proof (rule hoare_wires)
  fix m r m' assume "holds_chan c m" "UpdateWireByUID ns uid p c m = (r, m')"
  from update_ok [OF this] holds_ok [OF this(1)] \<open>holds_chan c m\<close>
  show "grows m m' \<and> wires_ok m' \<and> (case r of None \<Rightarrow> holds_chan c m' | Some a \<Rightarrow> allocated m' a)"
    by (cases r) auto
qed

lemma triggered_ok:
  "hoare (with_wires (holds_chan c)) (CreateUpdateGRPCWireRemoteTriggered sy wd c) answers_wire"
proof -
  have known: "hoare (with_wires (\<lambda>m. allocated m a))
     (do { w \<leftarrow> wire_of a; err \<leftarrow> lift (K8sStoreGWire (sy_lib sy) (sy_os sy) (sy_kube sy) w); return (Inr a) }) answers_wire" for a
    unfolding wire_of_def
    by (rule hoare_bind [OF hoare_reads_keep], rule hoare_bind [OF hoare_lift_wires], rule hoare_return, rule answers_wireI)
  have made: "hoare (with_wires (holds_chan c))
     (do { es \<leftarrow> ensureNoStaleRemoteEnd sy v wd;
           (case es of
              Some e \<Rightarrow> return (Inl e)
            | None \<Rightarrow> do {
                em \<leftarrow> lift (MakeVeth (sy_net sy) (sy_os sy) v v');
                (case em of
                   Some e \<Rightarrow> return (Inl e)
                 | None \<Rightarrow> do {
                     et \<leftarrow> lift (SetTxChecksumOff (sy_net sy) (ve_LinkName v) (ve_NsName v));
                     file_remote_wire sy wd c nm }) }) }) answers_wire" for v v' nm
    by (rule hoare_bind [OF stale_ok], rule hoare_option, rule hoare_bind [OF hoare_lift_wires], rule hoare_option,
        rule hoare_bind [OF hoare_lift_wires], rule file_remote_ok) (rule refuse_ok)+
  show ?thesis unfolding CreateUpdateGRPCWireRemoteTriggered_def
    by (rule hoare_seq [OF triggered_update_ok], rule hoare_option, hypsubst, unfold option.case,
        rule hoare_bind [OF hoare_reads_keep], rule hoare_prod, rule hoare_sum [OF refuse_ok],
        rule hoare_bind [OF hoare_index], rule hoare_bind [OF hoare_lift_wires],
        rule hoare_sum [OF refuse_ok], rule hoare_sum [OF refuse_ok made], hypsubst, unfold option.case, rule known)
qed

lemma remote_ok: "hoare well_formed (AddGRPCWireRemote sy wd) (\<lambda>x. well_formed)"
  unfolding AddGRPCWireRemote_def
proof (rule hoare_seq [OF make_chan_ok], rule hoare_seq [OF triggered_ok], rule hoare_sum)
  fix x :: "nat res" and a assume "x = Inr a"
  then have "answers_wire x s \<Longrightarrow> with_wires (\<lambda>m. allocated m a) s" for s :: "'a daemon"
    by (simp add: answers_wire_def with_wires_def)
  then show "hoare (answers_wire x :: 'a daemon \<Rightarrow> bool)
      (do { w \<leftarrow> wire_of a; start_thread a (gw_LocalNodeIfaceName w);
            return (\<lparr>wcr_Response = True, wcr_PeerIntfId = gw_LocalNodeIfaceID w\<rparr>, None) }) (\<lambda>x. well_formed)"
    by (rule hoare_weaken [OF started_ok])
next
  fix x :: "nat res" and e
  show "hoare (answers_wire x :: 'a daemon \<Rightarrow> bool)
      (return (\<lparr>wcr_Response = False, wcr_PeerIntfId = wd_WireIfIdOnPeerNode wd\<rparr>, Some e)) (\<lambda>x. well_formed)"
    by (rule hoare_return) (simp add: answers_wire_def)
qed

lemma wire_down_ok: "hoare well_formed (GRPCWireDownRemote wd) (\<lambda>x. well_formed)"
proof -
  have "hoare well_formed (on_wires (WireDownByUID ns uid)) (\<lambda>x. well_formed)" for ns uid
    unfolding with_wires_True [symmetric] by (rule hoare_wires) (use down_ok in blast)
  then show ?thesis unfolding GRPCWireDownRemote_def GRPCWireDownRemoteTriggered_def
    by (intro hoare_bind hoare_return)
qed


lemma remove_ok: "hoare (with_wires (taken_out a)) (RemoveWireAcrosAll sy (Some a) False) (\<lambda>x. well_formed)"
proof -
  have stop: "hoare (with_wires (taken_out a)) (on_wires (\<lambda>m. ((), stop_wire a m))) (\<lambda>x. well_formed)"
    unfolding with_wires_True [symmetric] by (rule hoare_wires) (use stop_ok in blast)
  show ?thesis unfolding RemoveWireAcrosAll_def wire_of_def option.case
    by (rule hoare_seq [OF stop]) (unfold if_False, intro hoare_rules)
qed

lemma drain_ok: "hoare well_formed (drain_pod fuel sy ks ns pod errs) (\<lambda>x. well_formed)"
proof (induction fuel arbitrary: errs)
  case 0
  show ?case by (simp add: hoare_def)
next
  case (Suc fuel)
  have take: "hoare well_formed (on_wires (ExtractOneWireByPod ks ns pod))
      (\<lambda>x. with_wires (\<lambda>m. case fst x of None \<Rightarrow> True | Some a \<Rightarrow> taken_out a m))"
    unfolding with_wires_True [symmetric]
  proof (rule hoare_wires)
    fix m m' and x :: "nat option \<times> bool"
    assume "wires_ok m" "ExtractOneWireByPod ks ns pod m = (x, m')"
    then show "grows m m' \<and> wires_ok m' \<and> (case fst x of None \<Rightarrow> True | Some a \<Rightarrow> taken_out a m')"
      using extract_ok [of m ks ns pod "fst x" "snd x" m'] by (auto split: option.splits intro: taken_out_ok)
  qed
  show ?case unfolding drain_pod.simps
  proof (rule hoare_seq [OF take], rule hoare_option)
    fix x :: "nat option \<times> bool" and a assume x: "fst x = Some a"
    show "hoare (with_wires (\<lambda>m. case fst x of None \<Rightarrow> True | Some a \<Rightarrow> taken_out a m))
        (do { e \<leftarrow> RemoveWireAcrosAll sy (Some a) False;
              drain_pod fuel sy ks ns pod (case e of None \<Rightarrow> errs | Some e \<Rightarrow> errs @ [e]) }) (\<lambda>x. well_formed)"
      unfolding x option.case by (rule hoare_seq [OF remove_ok], rule Suc.IH)
  qed (simp add: hoare_def with_wires_def)
qed

lemma rem_ok: "hoare well_formed (RemGRPCWire fuel sy ks wd) (\<lambda>x. well_formed)"
proof -
  have "hoare well_formed (DeletePodWires fuel sy ks ns pod) (\<lambda>x. well_formed)" for ns pod
    unfolding DeletePodWires_def by (rule hoare_bind [OF drain_ok]) (intro hoare_rules)
  then show ?thesis unfolding RemGRPCWire_def by (intro hoare_bind hoare_return)
qed

lemma recreate_ok: "hoare well_formed (recreate_all sy wss) (\<lambda>x. well_formed)"
proof (induction wss)
  case (Cons ws wss)
  have "hoare well_formed (reCreateGWire sy ws) (\<lambda>x. well_formed)"
    unfolding reCreateGWire_def
    by (rule hoare_bind [OF hoare_reads_keep], rule hoare_if, rule hoare_return, assumption,
        rule hoare_bind [OF restored_ok]) (intro hoare_rules)
  then show ?case unfolding recreate_all.simps by (rule hoare_bind) (rule Cons.IH)
qed (simp add: hoare_def)

text \<open>What is used of the retry loop: it runs its body any number of times.\<close>

definition reruns :: "(('w, goerr option) dio \<Rightarrow> ('w, goerr option) dio) \<Rightarrow> bool" where
  "reruns retry \<longleftrightarrow> (\<forall>P m. hoare P m (\<lambda>x. P) \<longrightarrow> hoare P (retry m) (\<lambda>x. P))"

lemma recon_ok:
  assumes "reruns retry"
  shows "hoare well_formed (ReconGWires retry sy) (\<lambda>x. well_formed)"
proof -
  have "hoare well_formed (recon_attempt sy nodeName) (\<lambda>x. well_formed)" for nodeName
    unfolding recon_attempt_def
    by (rule hoare_bind [OF hoare_lift], rule hoare_sum, rule hoare_return, assumption, rule hoare_bind [OF recreate_ok])
       (rule hoare_return)
  then have "hoare well_formed (retry (recon_attempt sy nodeName)) (\<lambda>x. well_formed)" for nodeName
    using assms by (simp add: reruns_def)
  then show ?thesis unfolding ReconGWires_def by (intro hoare_bind [OF hoare_lift] hoare_sum hoare_return)
qed

section \<open>Reading, carrier and VXLAN\<close>

lemma validate_ok: "hoare well_formed (validatePeerNodeIP os k ip) (\<lambda>x. well_formed)"
  unfolding validatePeerNodeIP_def refreshNodeIPs_def Let_def by (intro hoare_rules)

lemma get_ok: "hoare well_formed (Get sy q) (\<lambda>x. well_formed)"
proof -
  have v: "hoare well_formed (ValidatePeerNodeIP os k ip) (\<lambda>x. well_formed)" for os :: "'a os_env" and k ip
    unfolding ValidatePeerNodeIP_def by (rule validate_ok)
  show ?thesis unfolding Get_def Let_def
    by (intro hoare_bind [OF hoare_lift] hoare_bind [OF hoare_if] v hoare_return hoare_sum hoare_prod hoare_option hoare_bool)
qed

lemma vxlan_calls_ok:
  "hoare well_formed (Update_vxlan sy pod) (\<lambda>x. well_formed)"
  "hoare well_formed (RegisterVxlanLink def) (\<lambda>x. well_formed)"
  "hoare well_formed (UnregisterVxlanLink v) (\<lambda>x. well_formed)"
  unfolding Update_vxlan_def RegisterVxlanLink_def UnregisterVxlanLink_def RegisterFromRemotePod_def RegisterFromDef_def
  by (intro hoare_rules; simp)+

lemma name_ok: "hoare well_formed (GenerateNodeInterfaceName req) (\<lambda>x. well_formed)"
  unfolding GenerateNodeInterfaceName_def by (intro hoare_rules)

lemma send_ok: "hoare well_formed (SendToOnce sy pkt) (\<lambda>x. well_formed)"
  unfolding SendToOnce_def by (intro hoare_rules)

lemma peer_state_ok: "hoare well_formed (SetPeerLinkState sy ks vks st) (\<lambda>x. well_formed)"
  unfolding SetPeerLinkState_def SetLocalVethState_def SetLocalLinkState_def by (intro hoare_rules)

lemma wire_edges_ok: "hoare well_formed (wire_edges rpc ks es) (\<lambda>x. well_formed)"
proof (induction es)
  case (Cons e es)
  have "hoare well_formed (propagateEdge rpc ks i up) (\<lambda>x. well_formed)" for i up
    unfolding propagateEdge_def by (intro hoare_rules)
  then show ?case unfolding wire_edges.simps
    by (intro hoare_bind [OF hoare_reads_keep] hoare_prod hoare_bool hoare_bind [OF hoare_others(2)] hoare_bind Cons.IH)
qed (simp add: hoare_def)

lemma vx_edges_ok: "hoare well_formed (vx_edges rpc ks es) (\<lambda>x. well_formed)"
proof (induction es)
  case (Cons e es)
  have "hoare well_formed (vx_propagateEdge rpc ks i up) (\<lambda>x. well_formed)" for i up
    unfolding vx_propagateEdge_def by (intro hoare_rules)
  then show ?case unfolding vx_edges.simps
    by (intro hoare_bind [OF hoare_reads_keep] hoare_prod hoare_bool hoare_bind [OF hoare_others(2)] hoare_bind Cons.IH)
qed (simp add: hoare_def)

lemma tick_ok: "hoare well_formed (carrier_tick sy ks order now deb) (\<lambda>x. well_formed)"
  unfolding carrier_tick_def
  by (intro hoare_bind [OF hoare_reads_keep] hoare_bind [OF hoare_lift] hoare_prod hoare_bind [OF wire_edges_ok] hoare_return)

lemma vx_tick_ok: "hoare well_formed (vx_tick nt rpc ks order now deb) (\<lambda>x. well_formed)"
  unfolding vx_tick_def
  by (intro hoare_bind [OF hoare_reads_keep] hoare_bind [OF hoare_lift] hoare_prod hoare_bind [OF vx_edges_ok] hoare_return)


section \<open>The state machine\<close>

text \<open>
  What the daemon is asked to do, and what its background threads do.  The orders in which
  the runtime visits the maps are part of the call.
\<close>

datatype daemon_call =
    CallGet PodQuery
  | CallSetAlive Pod
  | CallSkip SkipQuery
  | CallSkipReverse SkipQuery
  | CallIsSkipped SkipQuery
  | CallUpdate RemotePod
  | CallRegisterVxlan VxlanLinkDef
  | CallUnregisterVxlan "VxlanLinkDef option"
  | CallRemGRPCWire nat "linkKey list" WireDef
  | CallAddGRPCWireLocal WireDef
  | CallAddGRPCWireRemote WireDef
  | CallGRPCWireDownRemote WireDef
  | CallGRPCWireExists WireDef
  | CallGenerateName GenerateNodeInterfaceNameRequest
  | CallSendToOnce Packet
  | CallSetPeerLinkState "linkKey list" "vxKey list" WireLinkState
  | WireTick "linkKey list" "int64 list" int Debouncer
  | VxlanTick "vxKey list" "int64 list" int Debouncer
  | ReassertWires "linkKey list"
  | ReassertVxlan "vxKey list"

abbreviation drop_result :: "('s, 'a) io \<Rightarrow> ('s, unit) io" where
  "drop_result m \<equiv> State_Monad.bind m (\<lambda>r. return ())"

fun perform :: "'w sys \<Rightarrow> daemon_call \<Rightarrow> ('w, unit) dio" where
  "perform sy (CallGet q) = drop_result (Get sy q)"
| "perform sy (CallSetAlive p) = drop_result (lift (SetAlive (sy_lib sy) (sy_kube sy) p))"
| "perform sy (CallSkip q) = drop_result (lift (Skip (sy_lib sy) (sy_kube sy) q))"
| "perform sy (CallSkipReverse q) = drop_result (lift (SkipReverse (sy_lib sy) (sy_kube sy) q))"
| "perform sy (CallIsSkipped q) = drop_result (lift (IsSkipped (sy_lib sy) (sy_kube sy) q))"
| "perform sy (CallUpdate p) = drop_result (Update_vxlan sy p)"
| "perform sy (CallRegisterVxlan v) = drop_result (RegisterVxlanLink v)"
| "perform sy (CallUnregisterVxlan v) = drop_result (UnregisterVxlanLink v)"
| "perform sy (CallRemGRPCWire fuel ks wd) = drop_result (RemGRPCWire fuel sy ks wd)"
| "perform sy (CallAddGRPCWireLocal wd) = drop_result (AddGRPCWireLocal sy wd)"
| "perform sy (CallAddGRPCWireRemote wd) = drop_result (AddGRPCWireRemote sy wd)"
| "perform sy (CallGRPCWireDownRemote wd) = drop_result (GRPCWireDownRemote wd)"
| "perform sy (CallGRPCWireExists wd) = drop_result (GRPCWireExists wd)"
| "perform sy (CallGenerateName q) = drop_result (GenerateNodeInterfaceName q)"
| "perform sy (CallSendToOnce p) = drop_result (SendToOnce sy p)"
| "perform sy (CallSetPeerLinkState ks vks st) = drop_result (SetPeerLinkState sy ks vks st)"
| "perform sy (WireTick ks order now deb) = drop_result (carrier_tick sy ks order now deb)"
| "perform sy (VxlanTick vks order now deb) = drop_result (vx_tick (sy_net sy) (sy_rpc sy) vks order now deb)"
| "perform sy (ReassertWires ks) = ReassertLocalLinkStates sy ks"
| "perform sy (ReassertVxlan vks) = vx_ReassertLocalLinkStates (sy_net sy) (sy_rpc sy) vks"

inductive daemon_reach ::
    "(('w, goerr option) dio \<Rightarrow> ('w, goerr option) dio) \<Rightarrow> 'w sys \<Rightarrow> (int \<Rightarrow> ('w, goerr option) io) \<Rightarrow> 'w daemon \<Rightarrow> bool"
  for retry sy new where
  started: "run_state (seed_and_serve retry sy new) (fresh_daemon w) = (r, d) \<Longrightarrow> daemon_reach retry sy new d"
| called: "daemon_reach retry sy new d \<Longrightarrow> run_state (perform sy c) d = ((), d') \<Longrightarrow> daemon_reach retry sy new d'"
| outside: "daemon_reach retry sy new d \<Longrightarrow> daemon_reach retry sy new (d\<lparr>dm_world := w\<rparr>)"

lemma fresh_well_formed: "well_formed (fresh_daemon w)"
  using wire_inv_init
  by (simp add: well_formed_def fresh_daemon_def threads_ok_def wires_ok_def sys_init_def)

lemma seed_ok:
  assumes "reruns retry"
  shows "hoare well_formed (seed_and_serve retry sy new) (\<lambda>x. well_formed)"
  unfolding seed_and_serve_def SetNodeClient_def
  by (intro hoare_bind [OF hoare_lift] hoare_bind [OF hoare_others(1)] hoare_bind [OF hoare_others(3)]
      hoare_bind [OF hoare_others(4)] hoare_bind [OF recon_ok [OF assms]] hoare_option hoare_return)

lemma perform_ok: "hoare well_formed (perform sy c) (\<lambda>x. well_formed)"
proof -
  have d: "hoare well_formed m (\<lambda>x. well_formed) \<Longrightarrow> hoare well_formed (drop_result m) (\<lambda>x. well_formed)"
    for m :: "('a, 'b) dio" by (intro hoare_bind hoare_return)
  have e: "hoare well_formed (GRPCWireExists wd) (\<lambda>x. well_formed)" for wd
    unfolding GRPCWireExists_def by (intro hoare_bind hoare_reads_keep hoare_return)
  have r: "hoare well_formed (ReassertLocalLinkStates sy ks) (\<lambda>x. well_formed)"
    "hoare well_formed (vx_ReassertLocalLinkStates (sy_net sy) (sy_rpc sy) vks) (\<lambda>x. well_formed)" for ks vks
    unfolding ReassertLocalLinkStates_def vx_ReassertLocalLinkStates_def
    by (intro hoare_bind [OF hoare_reads_keep] hoare_if hoare_return hoare_lift; assumption)+
  note rules = d [OF get_ok] d [OF hoare_lift] d [OF vxlan_calls_ok(1)] d [OF vxlan_calls_ok(2)] d [OF vxlan_calls_ok(3)]
    d [OF rem_ok] d [OF local_ok] d [OF remote_ok] d [OF wire_down_ok] d [OF e] d [OF name_ok] d [OF send_ok]
    d [OF peer_state_ok] d [OF tick_ok] d [OF vx_tick_ok] r
  show ?thesis by (cases c) (simp_all only: perform.simps rules)
qed

lemma reach_well_formed:
  assumes "daemon_reach retry sy new d" "reruns retry"
  shows "well_formed d"
  using assms(1)
proof induction
  case (started w r d)
  then show ?case using hoareD [OF seed_ok [OF assms(2)] fresh_well_formed] by blast
next
  case (called d c d')
  then show ?case using hoareD [OF perform_ok] by blast
next
  case (outside d w)
  then show ?case by simp
qed

section \<open>Property\<close>

text \<open>
  C1: From its start on, whatever calls the daemon serves, whatever its background threads
  do and however the world changes, its state is well formed: no stop channel was closed
  twice (the daemon would have panicked); a wire is filed under the key of its own fields
  and is ready exactly when its stop channel is open; a VXLAN link is filed under its own
  namespace and id; and every receive thread it started belongs to a wire that exists.
\<close>

theorem daemon_state_stays_well_formed:
  assumes "daemon_reach retry sy new d" "reruns retry"
  shows "\<not> panicked (dm_wires d) \<and>
     (\<forall>ns uid a. GetWire ns uid (dm_wires d) = Some a \<longrightarrow>
        (\<exists>w. wheap (dm_wires d) a = Some w \<and> key_of w = (ns, uid) \<and>
           (gw_IsReady w \<longleftrightarrow> gw_StopC w \<notin> chclosed (dm_wires d)))) \<and>
     (\<forall>ns uid l. GetLink ns uid (dm_links d) = Some l \<longrightarrow> vl_KubeNs l = ns \<and> vl_UID l = uid) \<and>
     (\<forall>a ifc. (a, ifc) \<in> set (dm_threads d) \<longrightarrow> wheap (dm_wires d) a \<noteq> None)"
proof -
  have w: "wires_ok (dm_wires d)" "links_keyed (dm_links d)" "threads_ok d"
    using reach_well_formed [OF assms] by (simp_all add: well_formed_def)
  have h: "heap_ok (dm_wires d)" "tracked_ok (dm_wires d)" using w(1) by (simp_all add: wires_ok_def wire_inv_def)
  show ?thesis
  proof (intro conjI allI impI)
    fix ns uid a assume "GetWire ns uid (dm_wires d) = Some a"
    then show "\<exists>w. wheap (dm_wires d) a = Some w \<and> key_of w = (ns, uid) \<and>
        (gw_IsReady w \<longleftrightarrow> gw_StopC w \<notin> chclosed (dm_wires d))"
      using tracked_okD [OF h(2), of "(ns, uid)" a] by (auto simp: GetWire_def live_def)
  qed (use h(1) w in \<open>auto simp: heap_ok_def links_keyed_def GetLink_def threads_ok_def allocated_def\<close>)
qed

theorem daemon_state_stays_well_formed_witness:
  "\<exists>d. daemon_reach id map_sys (\<lambda>p. return None) d \<and> dm_links d \<noteq> Map.empty \<and> \<not> panicked (dm_wires d)"
proof -
  let ?v = "\<lparr>vld_LinkUid = 7, vld_NetNs = ''/ns/a'', vld_IntfName = ''eth1'', vld_PeerNodeIp = ''10.0.0.2'', vld_KubeNs = ''t''\<rparr>"
  obtain d1 where "run_state (seed_and_serve id map_sys (\<lambda>p. return None)) (fresh_daemon Map.empty) =
      (Serves (grpc_port (sy_os map_sys)), d1)" using serves_when_listening [of id map_sys "fresh_daemon Map.empty"] by (elim exE)
  then have r1: "daemon_reach id map_sys (\<lambda>p. return None) d1" by (rule started)
  let ?d2 = "d1\<lparr>dm_links := RegisterFromDef ?v (dm_links d1)\<rparr>"
  have r2: "daemon_reach id map_sys (\<lambda>p. return None) ?d2"
    by (rule called [OF r1, of "CallRegisterVxlan ?v"]) (simp add: RegisterVxlanLink_def)
  have "reruns id" by (simp add: reruns_def)
  from conjunct1 [OF daemon_state_stays_well_formed [OF r2 this]]
  have "\<not> panicked (dm_wires ?d2)" .
  moreover have "dm_links ?d2 \<noteq> Map.empty" by (simp add: RegisterFromDef_def RegisterLink_def)
  ultimately show ?thesis using r2 by blast
qed

end
