(* ===== verification/Topology_Client.thy ===== *)
theory Topology_Client
  imports Skip_Ledger
begin

text \<open>
  The typed client of \<open>api/clientset/v1beta1/topology.go\<close>: a thin layer over the dynamic
  client of the Topology resource that converts objects to and from the Go structs.
\<close>

text \<open>The dynamic client's calls that the handlers do not use, and the scheme.\<close>

record 'w dyn_env =
  DynList :: "string \<Rightarrow> ('w, json res) io"
  DynCreate :: "string \<Rightarrow> json \<Rightarrow> ('w, json res) io"
  DynDelete :: "string \<Rightarrow> string \<Rightarrow> ('w, goerr option) io"
  GVKForObject :: "Topology \<Rightarrow> (string \<times> string) res"
  FromTopologyList :: "json \<Rightarrow> Topology list res"

definition as_topology :: "unstr_lib \<Rightarrow> json \<Rightarrow> Topology res" where
  "as_topology u ob = (case FromTopology u ob of
     Inl e \<Rightarrow> Inl (Wrap ''failed to type assert return to Topology: '' e) | Inr t \<Rightarrow> Inr t)"

definition topo_List :: "'w dyn_env \<Rightarrow> string \<Rightarrow> ('w, Topology list res) io" where
  "topo_List dy ns = do {
     r \<leftarrow> DynList dy ns;
     return (case r of
         Inl e \<Rightarrow> Inl e
       | Inr ob \<Rightarrow> (case FromTopologyList dy ob of
             Inl e \<Rightarrow> Inl (Wrap ''failed to type assert return to TopologyList: '' e) | Inr ts \<Rightarrow> Inr ts))
   }"

definition topo_Get :: "unstr_lib \<Rightarrow> 'w kube_env \<Rightarrow> string \<Rightarrow> string \<Rightarrow> ('w, Topology res) io" where
  "topo_Get u k ns name = do {
     r \<leftarrow> TopoGet k ns name;
     return (case r of Inl e \<Rightarrow> Inl e | Inr ob \<Rightarrow> as_topology u ob)
   }"

definition topo_Create :: "unstr_lib \<Rightarrow> 'w dyn_env \<Rightarrow> string \<Rightarrow> Topology \<Rightarrow> ('w, Topology res) io" where
  "topo_Create u dy ns topology =
     (case GVKForObject dy topology of
        Inl e \<Rightarrow> return (Inl (Wrap ''failed to get gvk for Topology: '' e))
      | Inr (kind, apiVersion) \<Rightarrow>
          (case ToTopology u (topology\<lparr>tp_Kind := kind, tp_APIVersion := apiVersion\<rparr>) of
             Inl e \<Rightarrow> return (Inl (Wrap ''failed to convert Topology to unstructured: '' e))
           | Inr ob \<Rightarrow> do {
               r \<leftarrow> DynCreate dy ns ob;
               return (case r of Inl e \<Rightarrow> Inl e | Inr ob' \<Rightarrow> as_topology u ob')
             }))"

definition topo_Delete :: "'w dyn_env \<Rightarrow> string \<Rightarrow> string \<Rightarrow> ('w, goerr option) io" where
  "topo_Delete dy ns name = DynDelete dy ns name"

definition topo_Update :: "unstr_lib \<Rightarrow> 'w kube_env \<Rightarrow> string \<Rightarrow> json \<Rightarrow> ('w, Topology res) io" where
  "topo_Update u k ns ob = do {
     r \<leftarrow> TopoUpdateStatus k ns ob;
     return (case r of Inl e \<Rightarrow> Inl e | Inr ob' \<Rightarrow> as_topology u ob')
   }"

definition topo_Unstructured :: "'w kube_env \<Rightarrow> string \<Rightarrow> string \<Rightarrow> ('w, json res) io" where
  "topo_Unstructured k ns name = TopoGet k ns name"

section \<open>Properties\<close>

text \<open>Converting a Topology and back gives it again, and the object has its name.\<close>

definition topology_codec :: "unstr_lib \<Rightarrow> bool" where
  "topology_codec u \<longleftrightarrow>
     (\<forall>t j. ToTopology u t = Inr j \<longrightarrow> FromTopology u j = Inr t \<and> GetName u j = tp_Name t)"

text \<open>
  A topology that was created is read back as it was given, with the kind and version
  of the scheme filled in, for as long as nobody else writes it; no other topology changes.
\<close>

theorem created_topology_is_read_back:
  assumes "topology_codec u" "put_law u st (DynCreate dy)" "get_law u st (TopoGet k)"
    and "run_state (topo_Create u dy ns t) w = (Inr t', w1)" "run_state (topo_Get u k ns (tp_Name t)) w1 = (r, w2)"
  shows "\<exists>kind v ob. GVKForObject dy t = Inr (kind, v) \<and> st w1 = (st w)(ns := (st w ns)(tp_Name t \<mapsto> ob)) \<and>
     (\<forall>x. r = Inr x \<longrightarrow> x = t\<lparr>tp_Kind := kind, tp_APIVersion := v\<rparr>)"
proof -
  obtain kind v where g: "GVKForObject dy t = Inr (kind, v)"
    using assms(4) by (cases "GVKForObject dy t") (auto simp: topo_Create_def)
  let ?t = "t\<lparr>tp_Kind := kind, tp_APIVersion := v\<rparr>"
  obtain ob where ob: "ToTopology u ?t = Inr ob"
    using assms(4) g by (cases "ToTopology u ?t") (auto simp: topo_Create_def)
  obtain c w0 where c: "run_state (DynCreate dy ns ob) w = (c, w0)" by fastforce
  obtain ob' where ob': "c = Inr ob'" "w0 = w1" using assms(4) g ob c by (cases c) (auto simp: topo_Create_def)
  have n: "FromTopology u ob = Inr ?t" "GetName u ob = tp_Name t" using assms(1) ob by (auto simp: topology_codec_def)
  have st: "st w1 = (st w)(ns := (st w ns)(tp_Name t \<mapsto> ob))" using put_lawD(1) [OF assms(2) c ob'(1)] ob'(2) n(2) by simp
  obtain x w3 where x: "run_state (TopoGet k ns (tp_Name t)) w1 = (x, w3)" by fastforce
  have "x = Inr y \<Longrightarrow> y = ob" for y using get_lawD(2) [OF assms(3) x] st by auto
  then have "r = Inr z \<Longrightarrow> z = ?t" for z
    using assms(5) x n(1) by (cases x) (auto simp: topo_Get_def as_topology_def)
  then show ?thesis using g st by blast
qed

definition one_topology :: Topology where
  "one_topology = \<lparr>tp_Kind = ''Topology'', tp_APIVersion = ''networkop.co.uk/v1beta1'', tp_Name = ''a'', tp_Namespace = ''t'',
     tp_Status = \<lparr>tst_Skipped = [], tst_SrcIP = '''', tst_NetNS = '''', tst_ContainerID = ''''\<rparr>, tp_Spec = \<lparr>ts_Links = []\<rparr>\<rparr>"

definition one_lib :: unstr_lib where
  "one_lib = ref_lib\<lparr>ToTopology := (\<lambda>t. if t = one_topology then Inr (demo_topo ''a'') else Inl type_error),
     FromTopology := (\<lambda>j. Inr one_topology)\<rparr>"

definition ref_dyn :: "api dyn_env" where
  "ref_dyn = \<lparr>DynList = (\<lambda>ns. return (Inl type_error)), DynCreate = put_topo, DynDelete = (\<lambda>ns n. return None),
     GVKForObject = (\<lambda>t. Inr (''Topology'', ''networkop.co.uk/v1beta1'')), FromTopologyList = (\<lambda>j. Inr [])\<rparr>"

theorem created_topology_is_read_back_witness:
  "\<exists>w1 r w2 ob. run_state (topo_Create one_lib ref_dyn ''t'' one_topology) demo_two = (Inr one_topology, w1) \<and>
     run_state (topo_Get one_lib ref_kube ''t'' (tp_Name one_topology)) w1 = (r, w2) \<and>
     topo_of w1 = (topo_of demo_two)(''t'' := (topo_of demo_two ''t'')(tp_Name one_topology \<mapsto> ob))"
proof -
  have codec: "topology_codec one_lib"
    by (auto simp: topology_codec_def one_lib_def one_topology_def demo_topo_def ref_name_def ref_string_def)
  have "put_law ref_lib topo_of put_topo" "get_law ref_lib topo_of (read_obj topo_of)" using put_topo_law read_obj_law by blast+
  then have laws: "put_law one_lib topo_of (DynCreate ref_dyn)" "get_law one_lib topo_of (TopoGet ref_kube)"
    by (simp_all add: put_law_def get_law_def one_lib_def ref_dyn_def)
  obtain w1 where c: "run_state (topo_Create one_lib ref_dyn ''t'' one_topology) demo_two = (Inr one_topology, w1)"
    by (simp add: topo_Create_def ref_dyn_def one_lib_def one_topology_def as_topology_def put_topo_def)
  obtain r w2 where g: "run_state (topo_Get one_lib ref_kube ''t'' (tp_Name one_topology)) w1 = (r, w2)" by fastforce
  from created_topology_is_read_back [OF codec laws c g] c g show ?thesis by blast
qed

text \<open>
  The handlers' updates go through \<open>Update\<close>; \<open>Skip_Ledger.updateStatus\<close> takes the
  server's answer for its error.  The two agree whenever the server returns objects that
  convert, and then \<open>Unstructured\<close> is the handlers' \<open>getPod\<close>.
\<close>

lemma update_error:
  assumes "\<And>w ob' w'. run_state (TopoUpdateStatus k ns ob) w = (Inr ob', w') \<Longrightarrow> \<exists>t. FromTopology u ob' = Inr t"
  shows "run_state (as_err (topo_Update u k ns ob)) w = run_state (updateStatus k ob ns) w"
proof -
  obtain r w' where r: "run_state (TopoUpdateStatus k ns ob) w = (r, w')" by fastforce
  then show ?thesis using assms [of w _ w']
    by (cases r) (auto simp: topo_Update_def updateStatus_def as_topology_def as_err_def)
qed

lemma unstructured_is_getPod: "topo_Unstructured k ns name = getPod k name ns"
  by (simp add: topo_Unstructured_def getPod_def)

text \<open>
  An update is reported as failed although it has been stored, when the object the
  server returns does not convert to the Go struct: the caller's error says nothing about
  the stored state.
\<close>

theorem failed_update_may_be_stored:
  assumes "put_law u st (TopoUpdateStatus k)" "run_state (TopoUpdateStatus k ns ob) w = (Inr ob', w')" "FromTopology u ob' = Inl e"
  shows "run_state (topo_Update u k ns ob) w = (Inl (Wrap ''failed to type assert return to Topology: '' e), w') \<and>
     st w' ns (GetName u ob) = Some ob"
  using put_lawD(1) [OF assms(1,2)] assms(2,3) by (simp add: topo_Update_def as_topology_def)

theorem failed_update_may_be_stored_witness:
  "\<exists>w'. run_state (topo_Update ref_lib ref_kube ''t'' (demo_topo ''a'')) demo_two =
     (Inl (Wrap ''failed to type assert return to Topology: '' type_error), w') \<and> topo_of w' ''t'' ''a'' = Some (demo_topo ''a'')"
proof -
  obtain w' where u: "run_state (TopoUpdateStatus ref_kube ''t'' (demo_topo ''a'')) demo_two = (Inr (demo_topo ''a''), w')"
    by (simp add: put_topo_def)
  have "put_law ref_lib topo_of (TopoUpdateStatus ref_kube)" using put_topo_law by simp
  from failed_update_may_be_stored [OF this u, of type_error] show ?thesis
    by (simp add: ref_lib_def demo_topo_def ref_name_def ref_string_def)
qed

end
