(* ===== verification/Carrier_Watch.thy ===== *)
theory Carrier_Watch
  imports Handler Frames
begin

text \<open>
  The two carrier watches, \<open>StartCarrierWatch\<close> of \<open>daemon/grpcwire/carrier.go\<close> and of
  \<open>daemon/vxlan/carrier.go\<close>, as loops over what happens to them: a tick of the 100 ms
  ticker, the stop channel, and between ticks the work of other goroutines that matters
  here: \<open>SetPeerLinkState\<close> entering an expected echo, and the world changing (carriers
  coming and going).

  The abstract watch is \<open>watch_tick\<close> of \<open>Carrier_Prop\<close> over samples.  One locale states
  what the two overlays share, and proves once that a loop of either refines it.
\<close>

section \<open>The loops\<close>

text \<open>A tick carries its time and the order in which \<open>Due\<close> visits the deadlines.\<close>

datatype 'w watch_event =
    WatchTick int "int64 list"
  | EchoExpected int64 bool
  | Outside "'w \<Rightarrow> 'w"
  | WatchStop

fun watch_loop ::
  "(int64 list \<Rightarrow> int \<Rightarrow> Debouncer \<Rightarrow> ('w, Debouncer) dio) \<Rightarrow> 'w watch_event list \<Rightarrow> Debouncer \<Rightarrow> ('w, Debouncer) dio" where
  "watch_loop tick [] deb = return deb"
| "watch_loop tick (WatchStop # es) deb = return deb"
| "watch_loop tick (WatchTick now order # es) deb = do {
     deb' \<leftarrow> tick order now deb;
     watch_loop tick es deb'
   }"
| "watch_loop tick (EchoExpected k up # es) deb = do {
     modifies (\<lambda>d. d\<lparr>dm_echo := SuppressEcho k up (dm_echo d)\<rparr>);
     watch_loop tick es deb
   }"
| "watch_loop tick (Outside f # es) deb = do {
     modifies (\<lambda>d. d\<lparr>dm_world := f (dm_world d)\<rparr>);
     watch_loop tick es deb
   }"

text \<open>The flag that \<open>InitCarrierPropagation\<close> sets from the environment.\<close>

definition CarrierPropagationEnabled :: "('w, bool) dio" where
  "CarrierPropagationEnabled = reads dm_carrier"

definition InitCarrierPropagation :: "'w os_env \<Rightarrow> ('w, unit) dio" where
  "InitCarrierPropagation os = modifies (\<lambda>d. d\<lparr>dm_carrier := carrier_Init os\<rparr>)"

text \<open>\<open>None\<close>: the watch did not start.  Otherwise the debouncer when it stopped or the events end.\<close>

definition grpc_StartCarrierWatch ::
  "'w sys \<Rightarrow> linkKey list \<Rightarrow> 'w watch_event list \<Rightarrow> ('w, Debouncer option) dio" where
  "grpc_StartCarrierWatch sy ks es = do {
     on \<leftarrow> CarrierPropagationEnabled;
     if \<not> on then return None
     else do {
       deb \<leftarrow> watch_loop (carrier_tick sy ks) es (NewDebouncer Debounce);
       return (Some deb)
     }
   }"

definition vxlan_StartCarrierWatch ::
  "'w sys \<Rightarrow> vxKey list \<Rightarrow> 'w watch_event list \<Rightarrow> ('w, Debouncer option) dio" where
  "vxlan_StartCarrierWatch sy vks es = do {
     on \<leftarrow> CarrierPropagationEnabled;
     if \<not> on then return None
     else do {
       deb \<leftarrow> watch_loop (vx_tick (sy_net sy) (sy_rpc sy) vks) es (NewDebouncer Debounce);
       return (Some deb)
     }
   }"

section \<open>The abstract watch\<close>

text \<open>What the watch is given: samples, time and visiting order of a tick, or an expected echo.\<close>

datatype watch_input = Sampled "(int64 \<times> bool) list" "int64 list" int | Expected int64 bool

fun watch_spec :: "watch_input list \<Rightarrow> Debouncer \<Rightarrow> echo_table \<Rightarrow> Edge list \<times> Debouncer \<times> echo_table" where
  "watch_spec [] d t = ([], d, t)"
| "watch_spec (Sampled ss ks now # is') d t =
     (case watch_tick ss ks now d t of (out, d', t') \<Rightarrow>
        (case watch_spec is' d' t' of (out', d'', t'') \<Rightarrow> (out @ out', d'', t'')))"
| "watch_spec (Expected k up # is') d t = watch_spec is' d (SuppressEcho k up t)"

text \<open>
  The inputs that belong to the events, up to the first stop, when \<open>smp\<close> are the samples a
  tick takes in a world: what the watch would be given if it told nobody anything.
\<close>

fun inputs_of :: "('w \<Rightarrow> (int64 \<times> bool) list) \<Rightarrow> 'w watch_event list \<Rightarrow> 'w \<Rightarrow> watch_input list" where
  "inputs_of smp [] w = []"
| "inputs_of smp (WatchStop # es) w = []"
| "inputs_of smp (WatchTick now order # es) w = Sampled (smp w) order now # inputs_of smp es w"
| "inputs_of smp (EchoExpected k up # es) w = Expected k up # inputs_of smp es w"
| "inputs_of smp (Outside f # es) w = inputs_of smp es (f w)"

text \<open>
  \<open>told\<close> is what the peers have been told and \<open>view\<close> what of the world reading a carrier
  depends on: the outside events tell the peers nothing and act on the view.
\<close>

definition silent :: "('w \<Rightarrow> 'm list) \<Rightarrow> ('w \<Rightarrow> 'v) \<Rightarrow> 'w watch_event list \<Rightarrow> bool" where
  "silent told view es \<longleftrightarrow>
     (\<forall>f. Outside f \<in> set es \<longrightarrow>
        (\<forall>w. told (f w) = told w) \<and> (\<forall>w w'. view w = view w' \<longrightarrow> view (f w) = view (f w')))"

lemma silent_Cons: "silent told view (e # es) \<Longrightarrow> silent told view es"
  unfolding silent_def by (meson list.set_intros(2))

lemma silent_Outside:
  assumes "silent told view (Outside f # es)"
  shows "told (f w) = told w" "view w = view w' \<Longrightarrow> view (f w) = view (f w')"
  using assms list.set_intros(1) [of "Outside f" es] unfolding silent_def by blast+

text \<open>
  What the two overlays share: \<open>msg\<close> is what one edge makes the peer be told, \<open>smp\<close> what a
  tick samples, \<open>ok\<close> what the overlay's tables and the network satisfy.
\<close>

locale overlay_watch =
  fixes tick :: "int64 list \<Rightarrow> int \<Rightarrow> Debouncer \<Rightarrow> ('w, Debouncer) dio"
    and told :: "'w \<Rightarrow> 'm list"
    and view :: "'w \<Rightarrow> 'v"
    and smp :: "'w \<Rightarrow> (int64 \<times> bool) list"
    and msg :: "Edge \<Rightarrow> 'm list"
    and ok :: "'w daemon \<Rightarrow> bool"
  assumes tick_spec: "ok d \<Longrightarrow> run_state (tick order now deb) d = (deb', d') \<Longrightarrow>
      \<exists>out. watch_tick (smp (dm_world d)) order now deb (dm_echo d) = (out, deb', dm_echo d') \<and>
        told (dm_world d') = told (dm_world d) @ concat (map msg out) \<and> view (dm_world d') = view (dm_world d) \<and> ok d'"
    and smp_view: "ok d \<Longrightarrow> view w = view w' \<Longrightarrow> smp w = smp w'"
    and echo_ok: "ok d \<Longrightarrow> ok (d\<lparr>dm_echo := t\<rparr>)"
    and world_ok: "ok d \<Longrightarrow> ok (d\<lparr>dm_world := w\<rparr>)"
begin

lemma loop_spec:
  assumes "ok d" "silent told view es" "view w = view (dm_world d)" "run_state (watch_loop tick es deb) d = (deb', d')"
  shows "\<exists>out. watch_spec (inputs_of smp es w) deb (dm_echo d) = (out, deb', dm_echo d') \<and>
    told (dm_world d') = told (dm_world d) @ concat (map msg out)"
  using assms
proof (induction es arbitrary: d deb w)
  case Nil
  then show ?case by simp
next
  case (Cons e es)
  note sil = silent_Cons [OF Cons.prems(2)]
  show ?case
  proof (cases e)
    case (WatchTick now order)
    obtain deb1 d1 where 1: "run_state (tick order now deb) d = (deb1, d1)" by fastforce
    have 2: "run_state (watch_loop tick es deb1) d1 = (deb', d')" using Cons.prems(4) WatchTick 1 by simp
    obtain out where a: "watch_tick (smp (dm_world d)) order now deb (dm_echo d) = (out, deb1, dm_echo d1)"
      "told (dm_world d1) = told (dm_world d) @ concat (map msg out)" "view (dm_world d1) = view (dm_world d)" "ok d1"
      using tick_spec [OF Cons.prems(1) 1] by blast
    have v: "view w = view (dm_world d1)" using a(3) Cons.prems(3) by simp
    obtain out' where b: "watch_spec (inputs_of smp es w) deb1 (dm_echo d1) = (out', deb', dm_echo d')"
      "told (dm_world d') = told (dm_world d1) @ concat (map msg out')"
      using Cons.IH [OF a(4) sil v 2] by blast
    have "smp w = smp (dm_world d)" by (rule smp_view [OF Cons.prems(1,3)])
    with a b WatchTick show ?thesis by simp
  next
    case (EchoExpected k up)
    let ?d = "d\<lparr>dm_echo := SuppressEcho k up (dm_echo d)\<rparr>"
    have r: "run_state (watch_loop tick es deb) ?d = (deb', d')"
      using Cons.prems(4) by (simp add: EchoExpected)
    have "view w = view (dm_world ?d)" using Cons.prems(3) by simp
    from Cons.IH [OF echo_ok [OF Cons.prems(1)] sil this r]
    show ?thesis by (simp add: EchoExpected)
  next
    case (Outside f)
    have r: "run_state (watch_loop tick es deb) (d\<lparr>dm_world := f (dm_world d)\<rparr>) = (deb', d')"
      using Cons.prems(4) by (simp add: Outside)
    note f = silent_Outside [OF Cons.prems(2) [unfolded Outside]]
    have "view (f w) = view (dm_world (d\<lparr>dm_world := f (dm_world d)\<rparr>))" using f(2) [OF Cons.prems(3)] by simp
    from Cons.IH [OF world_ok [OF Cons.prems(1)] sil this r] show ?thesis by (simp add: Outside f(1))
  next
    case WatchStop
    then show ?thesis using Cons.prems(4) by simp
  qed
qed

end

section \<open>Reading and telling\<close>

text \<open>Reads that answer from the view and change neither it nor what has been told.\<close>

definition quiet :: "('w \<Rightarrow> 'm list) \<Rightarrow> ('w \<Rightarrow> 'v) \<Rightarrow> ('w, 'a) io \<Rightarrow> bool" where
  "quiet told view m \<longleftrightarrow>
     (\<forall>w. told (snd (run_state m w)) = told w \<and> view (snd (run_state m w)) = view w) \<and>
     (\<forall>w w'. view w = view w' \<longrightarrow> fst (run_state m w) = fst (run_state m w'))"

lemma quiet_return: "quiet told view (return x)"
  by (simp add: quiet_def)

lemma quiet_bind:
  assumes "quiet told view m" "\<And>x. quiet told view (f x)"
  shows "quiet told view (State_Monad.bind m f)"
proof -
  have m: "told (snd (run_state m w)) = told w" "view (snd (run_state m w)) = view w"
    "view w = view w' \<Longrightarrow> fst (run_state m w) = fst (run_state m w')" for w w'
    using assms(1) unfolding quiet_def by blast+
  have f: "told (snd (run_state (f x) w)) = told w" "view (snd (run_state (f x) w)) = view w"
    "view w = view w' \<Longrightarrow> fst (run_state (f x) w) = fst (run_state (f x) w')" for x w w'
    using assms(2) unfolding quiet_def by blast+
  have "fst (run_state (State_Monad.bind m f) w) = fst (run_state (State_Monad.bind m f) w')" if "view w = view w'" for w w'
  proof -
    have "view (snd (run_state m w)) = view (snd (run_state m w'))" using m(2) that by metis
    from f(3) [OF this] show ?thesis by (simp add: run_bind case_prod_beta m(3) [OF that])
  qed
  moreover have "told (snd (run_state (State_Monad.bind m f) w)) = told w"
    "view (snd (run_state (State_Monad.bind m f) w)) = view w" for w
    by (simp_all add: run_bind case_prod_beta m(1,2) f(1,2))
  ultimately show ?thesis unfolding quiet_def by blast
qed

lemma quiet_sum:
  "(\<And>e. quiet told view (f e)) \<Longrightarrow> (\<And>y. quiet told view (g y)) \<Longrightarrow>
     quiet told view (case x of Inl e \<Rightarrow> f e | Inr y \<Rightarrow> g y)"
  by (cases x) simp_all

lemma quiet_option:
  "quiet told view m \<Longrightarrow> (\<And>y. quiet told view (f y)) \<Longrightarrow> quiet told view (case x of None \<Rightarrow> m | Some y \<Rightarrow> f y)"
  by (cases x) simp_all

lemma quiet_if: "quiet told view m \<Longrightarrow> quiet told view n \<Longrightarrow> quiet told view (if b then m else n)"
  by simp

lemmas quiet_rules = quiet_bind quiet_sum quiet_option quiet_if quiet_return

text \<open>
  Calls to the peers that are recorded: dialling works, and \<open>told\<close> grows by each link state
  sent; the kernel's reads are quiet.
\<close>

definition recorded_calls ::
  "'w sys \<Rightarrow> ('w \<Rightarrow> (string \<times> WireLinkState) list) \<Rightarrow> ('w \<Rightarrow> 'v) \<Rightarrow> bool" where
  "recorded_calls sy told view \<longleftrightarrow>
     (\<forall>u w. \<exists>w'. run_state (Dial (sy_rpc sy) u) w = (None, w') \<and> told w' = told w \<and> view w' = view w) \<and>
     (\<forall>u st w. \<exists>r w'. run_state (RemSetPeerLinkState (sy_rpc sy) u st) w = (r, w') \<and>
        told w' = told w @ [(u, st)] \<and> view w' = view w) \<and>
     (\<forall>c i. quiet told view (LinkByIndex (sy_net sy) c i)) \<and> (\<forall>c n. quiet told view (LinkByName (sy_net sy) c n)) \<and>
     (\<forall>p. quiet told view (GetNS (sy_net sy) p)) \<and> (\<forall>n. quiet told view (EnterNS (sy_net sy) n)) \<and>
     (\<forall>c. quiet told view (NewHandle (sy_net sy) c))"

text \<open>What one tick samples, and what one edge tells.\<close>

definition wire_smp :: "'w net_env \<Rightarrow> GRPCWire list \<Rightarrow> 'w \<Rightarrow> (int64 \<times> bool) list" where
  "wire_smp nt ws w = concat (map (\<lambda>x. case fst (run_state (wireDatapathOperUp nt x) w) of
     Inl e \<Rightarrow> [] | Inr up \<Rightarrow> [(gw_LocalNodeIfaceID x, up)]) ws)"

definition vx_smp :: "'w net_env \<Rightarrow> vxLink list \<Rightarrow> 'w \<Rightarrow> (int64 \<times> bool) list" where
  "vx_smp nt ls w = concat (map (\<lambda>x. case fst (run_state (linkOperUp nt x) w) of
     Inl e \<Rightarrow> [] | Inr up \<Rightarrow> [(vl_UID x, up)]) ls)"

definition wire_msg :: "wireMap \<Rightarrow> linkKey list \<Rightarrow> Edge \<Rightarrow> (string \<times> WireLinkState) list" where
  "wire_msg m ks e =
     (case GetWireByIfIndex ks (ed_Key e) m of
        None \<Rightarrow> []
      | Some a \<Rightarrow> [(peer_url (gw_PeerNodeIP (wire_at m a)), wire_link_state (wire_at m a) (ed_Up e))])"

definition vx_msg :: "linkMap \<Rightarrow> vxKey list \<Rightarrow> Edge \<Rightarrow> (string \<times> WireLinkState) list" where
  "vx_msg m ks e =
     (case GetLinkByUID ks (ed_Key e) m of
        None \<Rightarrow> []
      | Some l \<Rightarrow> [(peer_url (vl_PeerNodeIP l), vx_link_state l (ed_Up e))])"

lemma notify_tells:
  assumes "recorded_calls sy told view"
  shows "\<exists>e w'. run_state (NotifyPeerLinkState (sy_rpc sy) ip st) w = (e, w') \<and>
    told w' = told w @ [(peer_url ip, st)] \<and> view w' = view w"
proof -
  obtain w1 where 1: "run_state (Dial (sy_rpc sy) (peer_url ip)) w = (None, w1)" "told w1 = told w" "view w1 = view w"
    using assms unfolding recorded_calls_def by blast
  obtain r w2 where 2: "run_state (RemSetPeerLinkState (sy_rpc sy) (peer_url ip) st) w1 = (r, w2)"
    "told w2 = told w1 @ [(peer_url ip, st)]" "view w2 = view w1"
    using assms unfolding recorded_calls_def by blast
  show ?thesis using 1 2 by (simp add: NotifyPeerLinkState_def)
qed

lemma reads_quiet:
  assumes "recorded_calls sy told view"
  shows "quiet told view (wireDatapathOperUp (sy_net sy) w)" "quiet told view (linkOperUp (sy_net sy) l)"
proof -
  have n: "quiet told view (LinkByIndex (sy_net sy) c i)" "quiet told view (LinkByName (sy_net sy) c nm)"
    "quiet told view (GetNS (sy_net sy) p)" "quiet told view (EnterNS (sy_net sy) ns)"
    "quiet told view (NewHandle (sy_net sy) c)" for c i nm p ns
    using assms unfolding recorded_calls_def by blast+
  have pod: "quiet told view (OperUpInPodNetNS (sy_net sy) p i)" for p i
    unfolding OperUpInPodNetNS_def ns_Do_def by (intro quiet_rules n)
  show "quiet told view (wireDatapathOperUp (sy_net sy) w)"
    unfolding wireDatapathOperUp_def OperUpOnHost_def OperUpOnHostByName_def Let_def
    by (intro quiet_rules n pod)
  show "quiet told view (linkOperUp (sy_net sy) l)"
    unfolding linkOperUp_def by (rule pod)
qed

lemma smp_cong:
  assumes "recorded_calls sy told view" "view w = view w'"
  shows "wire_smp (sy_net sy) ws w = wire_smp (sy_net sy) ws w'" "vx_smp (sy_net sy) ls w = vx_smp (sy_net sy) ls w'"
proof -
  have "fst (run_state (wireDatapathOperUp (sy_net sy) x) w) = fst (run_state (wireDatapathOperUp (sy_net sy) x) w')"
    "fst (run_state (linkOperUp (sy_net sy) y) w) = fst (run_state (linkOperUp (sy_net sy) y) w')" for x y
    using reads_quiet [OF assms(1)] assms(2) unfolding quiet_def by blast+
  then show "wire_smp (sy_net sy) ws w = wire_smp (sy_net sy) ws w'" "vx_smp (sy_net sy) ls w = vx_smp (sy_net sy) ls w'"
    by (simp_all add: wire_smp_def vx_smp_def)
qed

lemma quiet_run:
  assumes "quiet told view m" "run_state m w = (r, w')"
  shows "told w' = told w" "view w' = view w" "fst (run_state m w) = r"
  using assms unfolding quiet_def by (metis snd_conv fst_conv)+

lemma wire_samples_spec:
  assumes "recorded_calls sy told view" "run_state (wire_samples (sy_net sy) ws now deb) w = (deb', w')"
  shows "deb' = observe_all (wire_smp (sy_net sy) ws w) now deb \<and> told w' = told w \<and> view w' = view w"
  using assms(2)
proof (induction ws arbitrary: deb w)
  case Nil
  then show ?case by (simp add: wire_smp_def)
next
  case (Cons x ws)
  obtain r w1 where 1: "run_state (wireDatapathOperUp (sy_net sy) x) w = (r, w1)" by fastforce
  note q = quiet_run [OF reads_quiet(1) [OF assms(1)] 1]
  let ?deb = "case r of Inl e \<Rightarrow> deb | Inr up \<Rightarrow> Observe (gw_LocalNodeIfaceID x) up now deb"
  have "run_state (wire_samples (sy_net sy) ws now ?deb) w1 = (deb', w')" using Cons.prems 1 by simp
  from Cons.IH [OF this] have "deb' = observe_all (wire_smp (sy_net sy) ws w) now ?deb" "told w' = told w" "view w' = view w"
    by (simp_all add: q smp_cong(1) [OF assms(1) q(2)])
  then show ?case using q(3) by (cases r) (simp_all add: wire_smp_def)
qed

lemma vx_samples_spec:
  assumes "recorded_calls sy told view" "run_state (vx_samples (sy_net sy) ls now deb) w = (deb', w')"
  shows "deb' = observe_all (vx_smp (sy_net sy) ls w) now deb \<and> told w' = told w \<and> view w' = view w"
  using assms(2)
proof (induction ls arbitrary: deb w)
  case Nil
  then show ?case by (simp add: vx_smp_def)
next
  case (Cons x ls)
  obtain r w1 where 1: "run_state (linkOperUp (sy_net sy) x) w = (r, w1)" by fastforce
  note q = quiet_run [OF reads_quiet(2) [OF assms(1)] 1]
  let ?deb = "case r of Inl e \<Rightarrow> deb | Inr up \<Rightarrow> Observe (vl_UID x) up now deb"
  have "run_state (vx_samples (sy_net sy) ls now ?deb) w1 = (deb', w')" using Cons.prems 1 by simp
  from Cons.IH [OF this] have "deb' = observe_all (vx_smp (sy_net sy) ls w) now ?deb" "told w' = told w" "view w' = view w"
    by (simp_all add: q smp_cong(2) [OF assms(1) q(2)])
  then show ?case using q(3) by (cases r) (simp_all add: vx_smp_def)
qed

lemma propagate_tells:
  assumes "recorded_calls sy told view"
  shows "\<exists>w'. run_state (propagateEdge (sy_rpc sy) ks (ed_Key e) (ed_Up e)) d = ((), d\<lparr>dm_world := w'\<rparr>) \<and>
     told w' = told (dm_world d) @ wire_msg (dm_wires d) ks e \<and> view w' = view (dm_world d)"
    "\<exists>w'. run_state (vx_propagateEdge (sy_rpc sy) vks (ed_Key e) (ed_Up e)) d = ((), d\<lparr>dm_world := w'\<rparr>) \<and>
     told w' = told (dm_world d) @ vx_msg (dm_links d) vks e \<and> view w' = view (dm_world d)"
proof -
  show "\<exists>w'. run_state (propagateEdge (sy_rpc sy) ks (ed_Key e) (ed_Up e)) d = ((), d\<lparr>dm_world := w'\<rparr>) \<and>
     told w' = told (dm_world d) @ wire_msg (dm_wires d) ks e \<and> view w' = view (dm_world d)"
  proof (cases "GetWireByIfIndex ks (ed_Key e) (dm_wires d)")
    case None
    then show ?thesis by (intro exI [of _ "dm_world d"]) (simp add: propagateEdge_def wire_msg_def)
  next
    case (Some a)
    obtain r w' where "run_state (NotifyPeerLinkState (sy_rpc sy) (gw_PeerNodeIP (wire_at (dm_wires d) a))
        (wire_link_state (wire_at (dm_wires d) a) (ed_Up e))) (dm_world d) = (r, w')"
      "told w' = told (dm_world d) @ [(peer_url (gw_PeerNodeIP (wire_at (dm_wires d) a)),
        wire_link_state (wire_at (dm_wires d) a) (ed_Up e))]" "view w' = view (dm_world d)"
      using notify_tells [OF assms] by blast
    with Some show ?thesis
      by (intro exI [of _ w']) (simp add: propagateEdge_def notifyPeerLinkState_def wire_msg_def)
  qed
  show "\<exists>w'. run_state (vx_propagateEdge (sy_rpc sy) vks (ed_Key e) (ed_Up e)) d = ((), d\<lparr>dm_world := w'\<rparr>) \<and>
     told w' = told (dm_world d) @ vx_msg (dm_links d) vks e \<and> view w' = view (dm_world d)"
  proof (cases "GetLinkByUID vks (ed_Key e) (dm_links d)")
    case None
    then show ?thesis by (intro exI [of _ "dm_world d"]) (simp add: vx_propagateEdge_def vx_msg_def)
  next
    case (Some l)
    obtain r w' where "run_state (NotifyPeerLinkState (sy_rpc sy) (vl_PeerNodeIP l) (vx_link_state l (ed_Up e))) (dm_world d) = (r, w')"
      "told w' = told (dm_world d) @ [(peer_url (vl_PeerNodeIP l), vx_link_state l (ed_Up e))]" "view w' = view (dm_world d)"
      using notify_tells [OF assms] by blast
    with Some show ?thesis
      by (intro exI [of _ w']) (simp add: vx_propagateEdge_def vx_msg_def)
  qed
qed

text \<open>Both loops over the due edges are instances of one.\<close>

lemma edges_spec:
  assumes p: "\<And>e d. tab d = T \<Longrightarrow> \<exists>w'. run_state (step e) d = ((), d\<lparr>dm_world := w'\<rparr>) \<and>
       told w' = told (dm_world d) @ msg e \<and> view w' = view (dm_world d)"
    and tab: "\<And>d t. tab (d\<lparr>dm_echo := t\<rparr>) = tab d" "\<And>d w. tab (d\<lparr>dm_world := w\<rparr>) = tab d"
    and loop: "loop [] = return ()" "\<And>e es. loop (e # es) = do {
      t \<leftarrow> reads dm_echo;
      (case ConsumeEcho (ed_Key e) (ed_Up e) t of
         (True, t') \<Rightarrow> do { modifies (\<lambda>d. d\<lparr>dm_echo := t'\<rparr>); loop es }
       | (False, t') \<Rightarrow> do { step e; loop es }) }"
    and "tab d = T" "run_state (loop es) d = ((), d')"
  shows "\<exists>out w. pass_edges es (dm_echo d) = (out, dm_echo d') \<and> d' = d\<lparr>dm_echo := dm_echo d', dm_world := w\<rparr> \<and>
     told w = told (dm_world d) @ concat (map msg out) \<and> view w = view (dm_world d)"
  using assms(6,7)
proof (induction es arbitrary: d)
  case Nil
  then show ?case using loop(1) by (intro exI [of _ "[]"] exI [of _ "dm_world d"]) simp
next
  case (Cons e es)
  show ?case
  proof (cases "dm_echo d (ed_Key e) = Some (ed_Up e)")
    case True
    let ?d = "d\<lparr>dm_echo := (dm_echo d)(ed_Key e := None)\<rparr>"
    have "run_state (loop es) ?d = ((), d')" using Cons.prems(2) True by (simp add: loop(2) ConsumeEcho_def)
    from Cons.IH [OF _ this] Cons.prems(1) tab(1) obtain out w where
      "pass_edges es (dm_echo ?d) = (out, dm_echo d')" "d' = ?d\<lparr>dm_echo := dm_echo d', dm_world := w\<rparr>"
      "told w = told (dm_world ?d) @ concat (map msg out)" "view w = view (dm_world ?d)" by metis
    then show ?thesis using True by (intro exI [of _ out] exI [of _ w]) (simp add: ConsumeEcho_def)
  next
    case False
    obtain w1 where w1: "run_state (step e) d = ((), d\<lparr>dm_world := w1\<rparr>)" "told w1 = told (dm_world d) @ msg e" "view w1 = view (dm_world d)"
      using p [OF Cons.prems(1)] by blast
    let ?d = "d\<lparr>dm_world := w1\<rparr>"
    have "run_state (loop es) ?d = ((), d')" using Cons.prems(2) False w1(1) by (simp add: loop(2) ConsumeEcho_def)
    from Cons.IH [OF _ this] Cons.prems(1) tab(2) obtain out w where
      "pass_edges es (dm_echo ?d) = (out, dm_echo d')" "d' = ?d\<lparr>dm_echo := dm_echo d', dm_world := w\<rparr>"
      "told w = told (dm_world ?d) @ concat (map msg out)" "view w = view (dm_world ?d)" by metis
    then show ?thesis using False w1(2,3) by (intro exI [of _ "e # out"] exI [of _ w]) (simp add: ConsumeEcho_def)
  qed
qed

text \<open>The two ticks, and with them the two interpretations.\<close>

definition wires_ok :: "'w sys \<Rightarrow> ('w \<Rightarrow> (string \<times> WireLinkState) list) \<Rightarrow> ('w \<Rightarrow> 'v) \<Rightarrow> wireMap \<Rightarrow> 'w daemon \<Rightarrow> bool" where
  "wires_ok sy told view m d \<longleftrightarrow> recorded_calls sy told view \<and> dm_wires d = m"

definition links_ok :: "'w sys \<Rightarrow> ('w \<Rightarrow> (string \<times> WireLinkState) list) \<Rightarrow> ('w \<Rightarrow> 'v) \<Rightarrow> linkMap \<Rightarrow> 'w daemon \<Rightarrow> bool" where
  "links_ok sy told view m d \<longleftrightarrow> recorded_calls sy told view \<and> dm_links d = m"

abbreviation snapped_wires :: "linkKey list \<Rightarrow> wireMap \<Rightarrow> GRPCWire list" where
  "snapped_wires ks m \<equiv> map (wire_at m) (snapshotWires ks m)"

lemma carrier_tick_spec:
  assumes "wires_ok sy told view m d" "run_state (carrier_tick sy ks order now deb) d = (deb', d')"
  shows "\<exists>out. watch_tick (wire_smp (sy_net sy) (snapped_wires ks m) (dm_world d)) order now deb (dm_echo d) =
       (out, deb', dm_echo d') \<and> told (dm_world d') = told (dm_world d) @ concat (map (wire_msg m ks) out) \<and>
     view (dm_world d') = view (dm_world d) \<and> wires_ok sy told view m d'"
proof -
  have rc: "recorded_calls sy told view" and m: "dm_wires d = m" using assms(1) by (simp_all add: wires_ok_def)
  obtain deb1 w1 where s: "run_state (wire_samples (sy_net sy) (snapped_wires ks m) now deb) (dm_world d) = (deb1, w1)"
    by fastforce
  note sp = wire_samples_spec [OF rc s]
  obtain es deb2 where due: "Due order now deb1 = (es, deb2)" by fastforce
  let ?d = "d\<lparr>dm_world := w1\<rparr>"
  obtain d2 where e: "run_state (wire_edges (sy_rpc sy) ks es) ?d = ((), d2)" by (metis old.unit.exhaust surj_pair)
  have fin: "deb' = deb2" "d' = d2" using assms(2) s due e m by (simp_all add: carrier_tick_def)
  have "\<exists>out w. pass_edges es (dm_echo ?d) = (out, dm_echo d2) \<and> d2 = ?d\<lparr>dm_echo := dm_echo d2, dm_world := w\<rparr> \<and>
     told w = told (dm_world ?d) @ concat (map (wire_msg m ks) out) \<and> view w = view (dm_world ?d)"
    by (rule edges_spec [where tab = dm_wires and T = m and loop = "wire_edges (sy_rpc sy) ks"
          and step = "\<lambda>e. propagateEdge (sy_rpc sy) ks (ed_Key e) (ed_Up e)" and es = es])
      (use propagate_tells(1) [OF rc, of ks] m e in auto)
  then obtain out w where o: "pass_edges es (dm_echo d) = (out, dm_echo d2)" "d2 = ?d\<lparr>dm_echo := dm_echo d2, dm_world := w\<rparr>"
    "told w = told w1 @ concat (map (wire_msg m ks) out)" "view w = view w1" by auto
  have d2: "dm_world d2 = w" "dm_wires d2 = m" by (subst o(2), simp add: m)+
  show ?thesis
    using sp due o(1,3,4) d2 fin rc by (intro exI [of _ out]) (simp add: watch_tick_def wires_ok_def)
qed


lemma vx_tick_spec:
  assumes "links_ok sy told view m d" "run_state (vx_tick (sy_net sy) (sy_rpc sy) ks order now deb) d = (deb', d')"
  shows "\<exists>out. watch_tick (vx_smp (sy_net sy) (snapshotLinks ks m) (dm_world d)) order now deb (dm_echo d) =
       (out, deb', dm_echo d') \<and> told (dm_world d') = told (dm_world d) @ concat (map (vx_msg m ks) out) \<and>
     view (dm_world d') = view (dm_world d) \<and> links_ok sy told view m d'"
proof -
  have rc: "recorded_calls sy told view" and m: "dm_links d = m" using assms(1) by (simp_all add: links_ok_def)
  obtain deb1 w1 where s: "run_state (vx_samples (sy_net sy) (snapshotLinks ks m) now deb) (dm_world d) = (deb1, w1)"
    by fastforce
  note sp = vx_samples_spec [OF rc s]
  obtain es deb2 where due: "Due order now deb1 = (es, deb2)" by fastforce
  let ?d = "d\<lparr>dm_world := w1\<rparr>"
  obtain d2 where e: "run_state (vx_edges (sy_rpc sy) ks es) ?d = ((), d2)" by (metis old.unit.exhaust surj_pair)
  have fin: "deb' = deb2" "d' = d2" using assms(2) s due e m by (simp_all add: vx_tick_def)
  have "\<exists>out w. pass_edges es (dm_echo ?d) = (out, dm_echo d2) \<and> d2 = ?d\<lparr>dm_echo := dm_echo d2, dm_world := w\<rparr> \<and>
     told w = told (dm_world ?d) @ concat (map (vx_msg m ks) out) \<and> view w = view (dm_world ?d)"
    by (rule edges_spec [where tab = dm_links and T = m and loop = "vx_edges (sy_rpc sy) ks"
          and step = "\<lambda>e. vx_propagateEdge (sy_rpc sy) ks (ed_Key e) (ed_Up e)" and es = es])
      (use propagate_tells(2) [OF rc, of ks] m e in auto)
  then obtain out w where o: "pass_edges es (dm_echo d) = (out, dm_echo d2)" "d2 = ?d\<lparr>dm_echo := dm_echo d2, dm_world := w\<rparr>"
    "told w = told w1 @ concat (map (vx_msg m ks) out)" "view w = view w1" by auto
  have d2: "dm_world d2 = w" "dm_links d2 = m" by (subst o(2), simp add: m)+
  show ?thesis
    using sp due o(1,3,4) d2 fin rc by (intro exI [of _ out]) (simp add: watch_tick_def links_ok_def)
qed

lemma tables_ok:
  "wires_ok sy told view m d \<Longrightarrow> wires_ok sy told view m (d\<lparr>dm_echo := t\<rparr>)"
  "wires_ok sy told view m d \<Longrightarrow> wires_ok sy told view m (d\<lparr>dm_world := w\<rparr>)"
  "links_ok sy told view m' d \<Longrightarrow> links_ok sy told view m' (d\<lparr>dm_echo := t\<rparr>)"
  "links_ok sy told view m' d \<Longrightarrow> links_ok sy told view m' (d\<lparr>dm_world := w\<rparr>)"
  by (simp_all add: wires_ok_def links_ok_def)

lemma smp_ok:
  "wires_ok sy told view m d \<Longrightarrow> view w = view w' \<Longrightarrow> wire_smp (sy_net sy) ws w = wire_smp (sy_net sy) ws w'"
  "links_ok sy told view m' d \<Longrightarrow> view w = view w' \<Longrightarrow> vx_smp (sy_net sy) ls w = vx_smp (sy_net sy) ls w'"
  unfolding wires_ok_def links_ok_def by (erule conjE, rule smp_cong, assumption+)+

interpretation grpc_watch: overlay_watch "carrier_tick sy ks" told view
    "wire_smp (sy_net sy) (snapped_wires ks m)" "wire_msg m ks" "wires_ok sy told view m"
  for sy ks told view m
  by unfold_locales (rule carrier_tick_spec smp_ok(1) tables_ok(1,2); assumption)+

interpretation vxlan_watch: overlay_watch "vx_tick (sy_net sy) (sy_rpc sy) ks" told view
    "vx_smp (sy_net sy) (snapshotLinks ks m)" "vx_msg m ks" "links_ok sy told view m"
  for sy ks told view m
  by unfold_locales (rule vx_tick_spec smp_ok(2) tables_ok(3,4); assumption)+

abbreviation "grpc_inputs sy ks m \<equiv> inputs_of (wire_smp (sy_net sy) (snapped_wires ks m))"

abbreviation "vxlan_inputs sy ks m \<equiv> inputs_of (vx_smp (sy_net sy) (snapshotLinks ks m))"

lemma grpc_watch_run:
  assumes "recorded_calls sy told view" "dm_carrier d" "silent told view es"
    and "run_state (grpc_StartCarrierWatch sy ks es) d = (r, d')"
  shows "\<exists>out deb. r = Some deb \<and>
     watch_spec (grpc_inputs sy ks (dm_wires d) es (dm_world d)) (NewDebouncer Debounce) (dm_echo d) = (out, deb, dm_echo d') \<and>
     told (dm_world d') = told (dm_world d) @ concat (map (wire_msg (dm_wires d) ks) out)"
proof -
  obtain deb where deb: "run_state (watch_loop (carrier_tick sy ks) es (NewDebouncer Debounce)) d = (deb, d')" "r = Some deb"
    using assms(2,4) by (auto simp: grpc_StartCarrierWatch_def CarrierPropagationEnabled_def split: prod.splits)
  have "wires_ok sy told view (dm_wires d) d" using assms(1) by (simp add: wires_ok_def)
  from grpc_watch.loop_spec [OF this assms(3) refl deb(1)] deb(2) show ?thesis by blast
qed

lemma vxlan_watch_run:
  assumes "recorded_calls sy told view" "dm_carrier d" "silent told view es"
    and "run_state (vxlan_StartCarrierWatch sy ks es) d = (r, d')"
  shows "\<exists>out deb. r = Some deb \<and>
     watch_spec (vxlan_inputs sy ks (dm_links d) es (dm_world d)) (NewDebouncer Debounce) (dm_echo d) = (out, deb, dm_echo d') \<and>
     told (dm_world d') = told (dm_world d) @ concat (map (vx_msg (dm_links d) ks) out)"
proof -
  obtain deb where deb: "run_state (watch_loop (vx_tick (sy_net sy) (sy_rpc sy) ks) es (NewDebouncer Debounce)) d = (deb, d')" "r = Some deb"
    using assms(2,4) by (auto simp: vxlan_StartCarrierWatch_def CarrierPropagationEnabled_def split: prod.splits)
  have "links_ok sy told view (dm_links d) d" using assms(1) by (simp add: links_ok_def)
  from vxlan_watch.loop_spec [OF this assms(3) refl deb(1)] deb(2) show ?thesis by blast
qed

section \<open>What becomes of the edges of one interface\<close>

text \<open>An expected echo swallows the first edge equal to it, and no other.\<close>

fun swallow :: "bool option \<Rightarrow> bool list \<Rightarrow> bool list \<times> bool option" where
  "swallow x [] = ([], x)"
| "swallow x (u # us) =
     (if x = Some u then swallow None us else (case swallow x us of (vs, y) \<Rightarrow> (u # vs, y)))"

lemma swallow_None [simp]: "swallow None us = (us, None)"
  by (induction us) auto

lemma swallow_first: "u \<notin> set us \<Longrightarrow> swallow (Some u) (us @ u # vs) = (us @ vs, None)"
  by (induction us) auto

lemma swallow_append:
  "swallow x (us @ vs) = (case swallow x us of (us', y) \<Rightarrow> (case swallow y vs of (vs', z) \<Rightarrow> (us' @ vs', z)))"
  by (induction us arbitrary: x) (auto split: prod.split)

lemma pass_edges_key:
  "pass_edges es t = (out, t') \<Longrightarrow> swallow (t k) (ups_of k es) = (ups_of k out, t' k)"
proof (induction es arbitrary: t out t')
  case (Cons e es)
  show ?case
  proof (cases "t (ed_Key e) = Some (ed_Up e)")
    case True
    then have "pass_edges es (t(ed_Key e := None)) = (out, t')" using Cons.prems by (simp add: ConsumeEcho_def)
    from Cons.IH [OF this] True show ?thesis by (auto split: if_splits)
  next
    case False
    then obtain out1 where o: "pass_edges es t = (out1, t')" "out = e # out1"
      using Cons.prems by (auto simp: ConsumeEcho_def split: prod.splits)
    from Cons.IH [OF o(1)] o(2) False show ?thesis by auto
  qed
qed simp

lemma run_watch_key:
  "run_watch ts d t = (out, d', t') \<Longrightarrow> swallow (t k) (ups_of k (fst (run_edges ts d))) = (ups_of k out, t' k)"
proof (induction ts arbitrary: d t out)
  case (Cons tk ts)
  obtain ss ks now where tk: "tk = (ss, ks, now)" by (cases tk)
  obtain es d1 where due: "Due ks now (observe_all ss now d) = (es, d1)" by fastforce
  obtain o1 t1 where p: "pass_edges es t = (o1, t1)" by fastforce
  obtain o2 where r: "run_watch ts d1 t1 = (o2, d', t')" "out = o1 @ o2"
    using Cons.prems tk due p by (auto simp: watch_tick_def split: prod.splits)
  obtain es2 d2 where e: "run_edges ts d1 = (es2, d2)" by fastforce
  have "swallow (t1 k) (ups_of k es2) = (ups_of k o2, t' k)" using Cons.IH [OF r(1)] e by simp
  then show ?case using pass_edges_key [OF p, of k] tk due e r(2) by (simp add: swallow_append)
qed simp


section \<open>A carrier that stays\<close>

text \<open>
  Inputs in which the carrier of \<open>i\<close> always reads \<open>up\<close> and no echo of \<open>i\<close> is expected;
  the visiting orders enumerate the deadlines there are; the times of the ticks.
\<close>

definition reads_as :: "int64 \<Rightarrow> bool \<Rightarrow> (int64 \<times> bool) list \<Rightarrow> bool" where
  "reads_as i up ss \<longleftrightarrow> list_all (\<lambda>s. fst s = i \<longrightarrow> snd s = up) ss"

fun settled :: "int64 \<Rightarrow> bool \<Rightarrow> watch_input \<Rightarrow> bool" where
  "settled i up (Sampled ss ks now) \<longleftrightarrow> (i, up) \<in> set ss \<and> reads_as i up ss"
| "settled i up (Expected k u) \<longleftrightarrow> i \<noteq> k"

fun proper_orders :: "watch_input list \<Rightarrow> Debouncer \<Rightarrow> bool" where
  "proper_orders [] d \<longleftrightarrow> True"
| "proper_orders (Sampled ss ks now # is') d \<longleftrightarrow>
     range_order ks (deadline (observe_all ss now d)) \<and> proper_orders is' (snd (Due ks now (observe_all ss now d)))"
| "proper_orders (Expected k u # is') d \<longleftrightarrow> proper_orders is' d"

fun tick_times :: "watch_input list \<Rightarrow> int list" where
  "tick_times [] = []"
| "tick_times (Sampled ss ks now # is') = now # tick_times is'"
| "tick_times (Expected k u # is') = tick_times is'"

lemma reads_as_Cons: "reads_as i up ((j, u) # ss) \<longleftrightarrow> (j = i \<longrightarrow> u = up) \<and> reads_as i up ss"
  by (simp add: reads_as_def)

lemma observe_all_same:
  "reads_as i up ss \<Longrightarrow> pending d i = Some up \<Longrightarrow>
     pending (observe_all ss now d) i = Some up \<and> deadline (observe_all ss now d) i = deadline d i"
proof (induction ss arbitrary: d)
  case (Cons s ss)
  obtain j u where s: "s = (j, u)" by fastforce
  have all: "reads_as i up ss" and j: "j = i \<longrightarrow> u = up" using Cons.prems(1) unfolding s reads_as_Cons by blast+
  from j have "pending (Observe j u now d) i = Some up" "deadline (Observe j u now d) i = deadline d i"
    using Cons.prems(2) by (auto simp: Observe_def)
  with Cons.IH [OF all, of "Observe j u now d"] s show ?case by simp
qed simp

lemma observe_all_settled:
  "(i, up) \<in> set ss \<Longrightarrow> reads_as i up ss \<Longrightarrow>
     pending (observe_all ss now d) i = Some up \<and>
     deadline (observe_all ss now d) i = (if pending d i = Some up then deadline d i else Some (now + debounce d))"
proof (induction ss arbitrary: d)
  case (Cons s ss)
  obtain j u where s: "s = (j, u)" by fastforce
  have all: "reads_as i up ss" and j: "j = i \<longrightarrow> u = up" using Cons.prems(2) unfolding s reads_as_Cons by blast+
  show ?case
  proof (cases "j = i")
    case True
    have "pending (Observe i up now d) i = Some up"
      "deadline (Observe i up now d) i = (if pending d i = Some up then deadline d i else Some (now + debounce d))"
      by (auto simp: Observe_def)
    with observe_all_same [OF all, of "Observe i up now d" now] s True j show ?thesis by simp
  next
    case False
    then have mem: "(i, up) \<in> set ss" using Cons.prems(1) s by auto
    have "pending (Observe j u now d) i = pending d i" "deadline (Observe j u now d) i = deadline d i"
      using False by (auto simp: Observe_def)
    with Cons.IH [OF mem all, of "Observe j u now d"] s show ?thesis by simp
  qed
qed simp

lemma settled_tick:
  assumes "settled i up (Sampled ss ks now)" "range_order ks (deadline (observe_all ss now d))" "t i = None"
    and "watch_tick ss ks now d t = (out, d', t')"
  shows "t' i = None" "pending d' i = Some up" "debounce d' = debounce d"
    "pending d i = Some up \<Longrightarrow> deadline d i = None \<Longrightarrow> ups_of i out = [] \<and> deadline d' i = None"
    "pending d i = Some up \<Longrightarrow> deadline d i = Some T \<Longrightarrow> emitted d i \<noteq> Some up \<Longrightarrow>
       (if T \<le> now then ups_of i out = [up] \<and> deadline d' i = None
        else ups_of i out = [] \<and> deadline d' i = Some T \<and> emitted d' i = emitted d i)"
    "pending d i = None \<Longrightarrow> 0 < debounce d \<Longrightarrow>
       ups_of i out = [] \<and> deadline d' i = Some (now + debounce d) \<and> emitted d' i = emitted d i"
proof -
  let ?o = "observe_all ss now d"
  obtain es where due: "Due ks now ?o = (es, d')" and p: "pass_edges es t = (out, t')"
    using assms(4) by (auto simp: watch_tick_def split: prod.splits)
  have o: "pending ?o i = Some up"
    "deadline ?o i = (if pending d i = Some up then deadline d i else Some (now + debounce d))"
    using observe_all_settled [of i up ss now d] assms(1) unfolding settled.simps by blast+
  have d': "d' = snd (due_loop now ks ?o)" using due by (simp add: Due_def)
  have ks: "distinct ks" "i \<in> set ks \<longleftrightarrow> deadline ?o i \<noteq> None" using assms(2) by (auto simp: range_order_def)
  have deb: "debounce ?o = debounce d" by (induction ss arbitrary: d) auto
  have ups: "ups_of i out = ups_of i es" and t: "t' i = None"
    using pass_edges_key [OF p, of i] assms(3) by simp_all
  have e: "ups_of i es = (if i \<in> set ks then (case due_now ?o now i of None \<Rightarrow> [] | Some up \<Rightarrow> [up]) else [])"
    using Due_ups [OF ks(1), of i now ?o] due by simp
  have dl: "deadline d' i = (if i \<in> set ks \<and> (\<exists>dl. deadline ?o i = Some dl \<and> dl \<le> now) then None else deadline ?o i)"
    unfolding d' by (rule due_loop_deadline [OF ks(1)])
  have em: "emitted d' i = last_up (emitted d i) (ups_of i es)"
    using Due_emitted [OF ks(1), of now ?o i] due by simp
  show "t' i = None" "pending d' i = Some up" "debounce d' = debounce d"
    using t o deb by (simp_all add: d')
  show "pending d i = Some up \<Longrightarrow> deadline d i = None \<Longrightarrow> ups_of i out = [] \<and> deadline d' i = None"
    using ups e dl ks o by simp
  show "pending d i = Some up \<Longrightarrow> deadline d i = Some T \<Longrightarrow> emitted d i \<noteq> Some up \<Longrightarrow>
       (if T \<le> now then ups_of i out = [up] \<and> deadline d' i = None
        else ups_of i out = [] \<and> deadline d' i = Some T \<and> emitted d' i = emitted d i)"
    using ups e dl ks o em by (simp add: due_now_def last_up_def)
  show "pending d i = None \<Longrightarrow> 0 < debounce d \<Longrightarrow>
       ups_of i out = [] \<and> deadline d' i = Some (now + debounce d) \<and> emitted d' i = emitted d i"
    using ups e dl ks o em by (simp add: due_now_def last_up_def)
qed

text \<open>The three phases of a carrier that stays: announced, waiting for its deadline, never seen.\<close>

lemma settled_announced:
  assumes "\<forall>x \<in> set is'. settled i up x" "proper_orders is' d" "t i = None" "pending d i = Some up" "deadline d i = None"
    and "watch_spec is' d t = (out, d', t')"
  shows "ups_of i out = []"
  using assms
proof (induction is' d t arbitrary: out rule: watch_spec.induct)
  case (2 ss ks now is' d t)
  obtain o1 d1 t1 where w: "watch_tick ss ks now d t = (o1, d1, t1)" by (metis surj_pair)
  obtain o2 where r: "watch_spec is' d1 t1 = (o2, d', t')" "out = o1 @ o2" using "2.prems"(6) w by (auto split: prod.splits)
  have s: "settled i up (Sampled ss ks now)" "range_order ks (deadline (observe_all ss now d))"
    using "2.prems"(1,2) by simp_all
  note tk = settled_tick [OF s "2.prems"(3) w]
  have "snd (Due ks now (observe_all ss now d)) = d1" using w by (auto simp: watch_tick_def split: prod.splits)
  then have "proper_orders is' d1" using "2.prems"(2) by simp
  then have "ups_of i o2 = []"
    using "2.IH" [OF w [symmetric] refl] "2.prems"(1) tk(1,2) tk(4) [OF "2.prems"(4,5)] r(1) by simp
  then show ?case using tk(4) [OF "2.prems"(4,5)] r(2) by simp
next
  case (3 k u is' d t)
  have "SuppressEcho k u t i = None" using "3.prems"(1,3) by (simp add: SuppressEcho_def)
  from "3.IH" [OF _ _ this] "3.prems" show ?case by simp
qed simp

lemma settled_waiting:
  assumes "\<forall>x \<in> set is'. settled i up x" "proper_orders is' d" "t i = None" "pending d i = Some up" "deadline d i = Some T"
    and "emitted d i \<noteq> Some up" "watch_spec is' d t = (out, d', t')"
  shows "ups_of i out = (if \<exists>now \<in> set (tick_times is'). T \<le> now then [up] else [])"
  using assms
proof (induction is' d t arbitrary: out rule: watch_spec.induct)
  case (2 ss ks now is' d t)
  obtain o1 d1 t1 where w: "watch_tick ss ks now d t = (o1, d1, t1)" by (metis surj_pair)
  obtain o2 where r: "watch_spec is' d1 t1 = (o2, d', t')" "out = o1 @ o2" using "2.prems"(7) w by (auto split: prod.splits)
  have s: "settled i up (Sampled ss ks now)" "range_order ks (deadline (observe_all ss now d))"
    using "2.prems"(1,2) by simp_all
  note tk = settled_tick [OF s "2.prems"(3) w]
  have "snd (Due ks now (observe_all ss now d)) = d1" using w by (auto simp: watch_tick_def split: prod.splits)
  then have rest: "proper_orders is' d1" "\<forall>x \<in> set is'. settled i up x" using "2.prems"(1,2) by simp_all
  show ?case
  proof (cases "T \<le> now")
    case True
    then have a: "ups_of i o1 = [up]" "deadline d1 i = None" using tk(5) [OF "2.prems"(4,5,6)] by simp_all
    have "ups_of i o2 = []" by (rule settled_announced [OF rest(2,1) tk(1,2) a(2) r(1)])
    then show ?thesis using a(1) r(2) True by simp
  next
    case False
    then have a: "ups_of i o1 = []" "deadline d1 i = Some T" "emitted d1 i = emitted d i"
      using tk(5) [OF "2.prems"(4,5,6)] by simp_all
    have "ups_of i o2 = (if \<exists>now \<in> set (tick_times is'). T \<le> now then [up] else [])"
      using "2.IH" [OF w [symmetric] refl] rest tk(1,2) a(2,3) "2.prems"(6) r(1) by simp
    then show ?thesis using a(1) r(2) False by simp
  qed
next
  case (3 k u is' d t)
  have "SuppressEcho k u t i = None" using "3.prems"(1,3) by (simp add: SuppressEcho_def)
  from "3.IH" [OF _ _ this] "3.prems" show ?case by simp
qed simp

lemma settled_fresh:
  assumes "\<forall>x \<in> set is'. settled i up x" "proper_orders is' d" "t i = None" "pending d i = None" "emitted d i = None"
    and "0 < debounce d" "watch_spec is' d t = (out, d', t')" "tick_times is' = t0 # ts"
  shows "ups_of i out = (if \<exists>now \<in> set ts. t0 + debounce d \<le> now then [up] else [])"
  using assms
proof (induction is' d t arbitrary: out rule: watch_spec.induct)
  case (2 ss ks now is' d t)
  obtain o1 d1 t1 where w: "watch_tick ss ks now d t = (o1, d1, t1)" by (metis surj_pair)
  obtain o2 where r: "watch_spec is' d1 t1 = (o2, d', t')" "out = o1 @ o2" using "2.prems"(7) w by (auto split: prod.splits)
  have s: "settled i up (Sampled ss ks now)" "range_order ks (deadline (observe_all ss now d))"
    using "2.prems"(1,2) by simp_all
  note tk = settled_tick [OF s "2.prems"(3) w]
  have "snd (Due ks now (observe_all ss now d)) = d1" using w by (auto simp: watch_tick_def split: prod.splits)
  then have rest: "proper_orders is' d1" "\<forall>x \<in> set is'. settled i up x" using "2.prems"(1,2) by simp_all
  have a: "ups_of i o1 = []" "deadline d1 i = Some (t0 + debounce d)" "emitted d1 i \<noteq> Some up"
    using tk(6) [OF "2.prems"(4,6)] "2.prems"(5,8) by simp_all
  from settled_waiting [OF rest(2,1) tk(1,2) a(2,3) r(1)] a(1) r(2) "2.prems"(8) show ?case by simp
next
  case (3 k u is' d t)
  have "SuppressEcho k u t i = None" using "3.prems"(1,3) by (simp add: SuppressEcho_def)
  from "3.IH" [OF _ _ this] "3.prems" show ?case by simp
qed simp

section \<open>Properties\<close>

text \<open>
  C15: A carrier watch of the grpc overlay does what the debounced watch specifies. Over any
  run, in which carriers may change and echoes be expected at any time between the ticks,
  the link states its peers are told are, in order, those of the edges that the debouncer
  and the echo table let through for the samples the ticks take, and nothing else is told;
  the watch ends with that debouncer and echo table.
\<close>

theorem carrier_watch_tells_debounced_edges:
  assumes "recorded_calls sy told view" "dm_carrier d" "silent told view es"
    and "run_state (grpc_StartCarrierWatch sy ks es) d = (r, d')"
  shows "\<exists>out deb. r = Some deb \<and>
     watch_spec (grpc_inputs sy ks (dm_wires d) es (dm_world d)) (NewDebouncer Debounce) (dm_echo d) = (out, deb, dm_echo d') \<and>
     told (dm_world d') = told (dm_world d) @ concat (map (wire_msg (dm_wires d) ks) out)"
  by (rule grpc_watch_run [OF assms])

text \<open>Peers that write down every link state they are sent, and a daemon with one wire.\<close>

type_synonym call_log = "(string \<times> WireLinkState) list"

definition note_rpc :: "call_log rpc_env" where
  "note_rpc = ref_rpc\<lparr>RemSetPeerLinkState := (\<lambda>a st. do { modifies (\<lambda>l. l @ [(a, st)]); return (Inr (Some ok_response)) })\<rparr>"

definition demo_watched :: "call_log daemon" where
  "demo_watched = \<lparr>dm_world = [], dm_index = \<lparr>currId = 0\<rparr>, dm_wires = dm_wires (demo_peer ''6.6.6.6''),
     dm_links = Map.empty, dm_echo = Map.empty,
     dm_ips = \<lparr>nodeClient = True, nodeIPSet = Some {''10.0.0.1''}, nodeIPCacheExpiry = 9\<rparr>,
     dm_threads = [], dm_carrier = True\<rparr>"

abbreviation noting :: "call_log sys \<Rightarrow> call_log sys" where
  "noting S \<equiv> S\<lparr>sy_net := ref_net, sy_rpc := note_rpc\<rparr>"

lemma noting_recorded: "recorded_calls (noting S) id (\<lambda>w. ())"
  by (simp add: recorded_calls_def note_rpc_def ref_rpc_def ref_net_def quiet_def)

abbreviation "demo_ticks \<equiv> [WatchTick 0 [3], WatchTick (milliseconds 100) [3], WatchTick (milliseconds 300) [3],
   WatchTick (milliseconds 400) []] :: call_log watch_event list"

lemma demo_silent: "silent id (\<lambda>w. ()) demo_ticks"
  by (simp add: silent_def)

lemma demo_started:
  "\<exists>r d'. run_state (grpc_StartCarrierWatch (noting S) [(''/ns/a'', 7)] demo_ticks) demo_watched = (r, d')"
  "dm_carrier demo_watched" "dm_world demo_watched = []" "dm_echo demo_watched = Map.empty"
  by (simp_all add: demo_watched_def)

theorem carrier_watch_tells_debounced_edges_witness:
  "\<forall>S. \<exists>out deb d'. run_state (grpc_StartCarrierWatch (noting S) [(''/ns/a'', 7)] demo_ticks) demo_watched = (Some deb, d') \<and>
     watch_spec (grpc_inputs (noting S) [(''/ns/a'', 7)] (dm_wires demo_watched) demo_ticks []) (NewDebouncer Debounce) Map.empty =
       (out, deb, dm_echo d') \<and>
     dm_world d' = concat (map (wire_msg (dm_wires demo_watched) [(''/ns/a'', 7)]) out)"
proof
  fix S
  obtain r d' where run: "run_state (grpc_StartCarrierWatch (noting S) [(''/ns/a'', 7)] demo_ticks) demo_watched = (r, d')"
    using demo_started(1) by blast
  obtain out deb where "r = Some deb"
    "watch_spec (grpc_inputs (noting S) [(''/ns/a'', 7)] (dm_wires demo_watched) demo_ticks (dm_world demo_watched))
       (NewDebouncer Debounce) (dm_echo demo_watched) = (out, deb, dm_echo d')"
    "id (dm_world d') = id (dm_world demo_watched) @ concat (map (wire_msg (dm_wires demo_watched) [(''/ns/a'', 7)]) out)"
    using carrier_watch_tells_debounced_edges [OF noting_recorded demo_started(2) demo_silent run] by blast
  then show "\<exists>out deb d'. run_state (grpc_StartCarrierWatch (noting S) [(''/ns/a'', 7)] demo_ticks) demo_watched = (Some deb, d') \<and>
     watch_spec (grpc_inputs (noting S) [(''/ns/a'', 7)] (dm_wires demo_watched) demo_ticks []) (NewDebouncer Debounce) Map.empty =
       (out, deb, dm_echo d') \<and>
     dm_world d' = concat (map (wire_msg (dm_wires demo_watched) [(''/ns/a'', 7)]) out)"
    using run by (intro exI [of _ out] exI [of _ deb] exI [of _ d']) (simp add: demo_started)
qed

text \<open>
  C16: A carrier that stays is announced exactly once. If from the start of the watch on the
  carrier of a tracked wire reads the same at every tick and the peer asks for no change of
  it, the watch lets exactly one edge of that wire through, with that state, as soon as a
  tick comes at least the debounce interval after the first one, and none before: the
  peer learns every carrier, and is not told twice.
\<close>

theorem stable_carrier_is_told_once:
  assumes "recorded_calls sy told view" "dm_carrier d" "silent told view es"
    and "is' = grpc_inputs sy ks (dm_wires d) es (dm_world d)"
    and "\<forall>x \<in> set is'. settled i up x" "proper_orders is' (NewDebouncer Debounce)" "dm_echo d i = None"
    and "tick_times is' = t0 # ts" "run_state (grpc_StartCarrierWatch sy ks es) d = (r, d')"
  shows "\<exists>out. told (dm_world d') = told (dm_world d) @ concat (map (wire_msg (dm_wires d) ks) out) \<and>
     ups_of i out = (if \<exists>now \<in> set ts. t0 + Debounce \<le> now then [up] else [])"
proof -
  obtain out deb where
    w: "watch_spec is' (NewDebouncer Debounce) (dm_echo d) = (out, deb, dm_echo d')"
    and t: "told (dm_world d') = told (dm_world d) @ concat (map (wire_msg (dm_wires d) ks) out)"
    using grpc_watch_run [OF assms(1-3,9)] assms(4) by blast
  have new: "pending (NewDebouncer Debounce) i = None" "emitted (NewDebouncer Debounce) i = None"
    "debounce (NewDebouncer Debounce) = Debounce" "0 < debounce (NewDebouncer Debounce)"
    by (simp_all add: NewDebouncer_def Debounce_def milliseconds_def)
  from settled_fresh [of _ i up _ "dm_echo d", OF assms(5,6,7) new(1,2,4) w assms(8)] t show ?thesis
    unfolding new(3) by (intro exI [of _ out] conjI)
qed

lemma demo_smp: "wire_smp ref_net (snapped_wires [(''/ns/a'', 7)] (dm_wires demo_watched)) w = [(3, True)]"
  by (simp add: wire_smp_def demo_watched_def snapshotWires_def demo_peer_wire wire_at_def CreateGWire_def
      wireDatapathOperUp_def OperUpOnHost_def OperUp_def ref_net_def ref_link_def IFFRunning_def)

theorem stable_carrier_is_told_once_witness:
  "\<forall>S. \<exists>out d'. snd (run_state (grpc_StartCarrierWatch (noting S) [(''/ns/a'', 7)] demo_ticks) demo_watched) = d' \<and>
     dm_world d' = concat (map (wire_msg (dm_wires demo_watched) [(''/ns/a'', 7)]) out) \<and> ups_of 3 out = [True]"
proof
  fix S
  obtain r d' where run: "run_state (grpc_StartCarrierWatch (noting S) [(''/ns/a'', 7)] demo_ticks) demo_watched = (r, d')"
    using demo_started(1) by blast
  let ?is = "grpc_inputs (noting S) [(''/ns/a'', 7)] (dm_wires demo_watched) demo_ticks (dm_world demo_watched)"
  have inp: "?is = [Sampled [(3, True)] [3] 0, Sampled [(3, True)] [3] (milliseconds 100),
      Sampled [(3, True)] [3] (milliseconds 300), Sampled [(3, True)] [] (milliseconds 400)]"
    by (simp add: demo_smp)
  have 1: "\<forall>x \<in> set ?is. settled 3 True x" unfolding inp by (simp add: reads_as_def)
  have 2: "proper_orders ?is (NewDebouncer Debounce)"
    unfolding inp by (simp add: NewDebouncer_def Debounce_def milliseconds_def Observe_def Due_def due_step_def range_order_def)
  have 3: "tick_times ?is = 0 # [milliseconds 100, milliseconds 300, milliseconds 400]" unfolding inp by simp
  have 4: "dm_echo demo_watched 3 = None" by (simp add: demo_started)
  from stable_carrier_is_told_once [OF noting_recorded demo_started(2) demo_silent refl 1 2 4 3 run]
  obtain out where "id (dm_world d') = id (dm_world demo_watched) @ concat (map (wire_msg (dm_wires demo_watched) [(''/ns/a'', 7)]) out)"
    "ups_of 3 out = [True]" by (auto simp: Debounce_def milliseconds_def)
  then show "\<exists>out d'. snd (run_state (grpc_StartCarrierWatch (noting S) [(''/ns/a'', 7)] demo_ticks) demo_watched) = d' \<and>
     dm_world d' = concat (map (wire_msg (dm_wires demo_watched) [(''/ns/a'', 7)]) out) \<and> ups_of 3 out = [True]"
    using run by (intro exI [of _ out] exI [of _ d']) (simp add: demo_started)
qed

text \<open>
  C17: A state that the peer asks for and that the interface already has leaves an expected
  echo that no edge answers, and it swallows a later genuine edge: whatever the ticks
  sample afterwards, the first edge to that state is not told to the peer, however many
  edges of the other state came before it. So after a flap the last the peer was told is
  the opposite of the carrier.
\<close>

theorem stale_echo_swallows_edge:
  assumes "GetWireByIfIndex ks i (dm_wires d) \<noteq> None"
    and "run_state (SetLocalVethState nt ks i uid ns up) d = (None, d1)"
    and "run_watch ticks deb (dm_echo d1) = (out, deb', t')"
    and "ups_of i (fst (run_edges ticks deb)) = us @ up # vs" "up \<notin> set us"
  shows "ups_of i out = us @ vs"
proof -
  obtain a where "GetWireByIfIndex ks i (dm_wires d) = Some a" using assms(1) by auto
  from SetLocalVethState_run [OF this assms(2)] have "dm_echo d1 i = Some up" by (auto simp: SuppressEcho_def)
  then show ?thesis
    using run_watch_key [OF assms(3), of i] assms(4) swallow_first [OF assms(5), of vs] by simp
qed

text \<open>
  The peer asks for \<open>up\<close> while the interface is up and has been announced; then it goes
  down and comes up again, each for longer than the debounce interval.
\<close>

abbreviation "demo_settled \<equiv> \<lparr>debounce = Debounce, pending = [3 \<mapsto> True], deadline = Map.empty, emitted = [3 \<mapsto> True]\<rparr>"

abbreviation "demo_flap \<equiv> [([(3, False)], [3], 0), ([(3, False)], [3], milliseconds 300),
   ([(3, True)], [3], milliseconds 400), ([(3, True)], [3], milliseconds 700)]"

theorem stale_echo_swallows_edge_witness:
  "\<exists>d1 out deb' t'. run_state (SetLocalVethState ref_net [(''/ns/a'', 7)] 3 7 ''/ns/a'' True) demo_watched = (None, d1) \<and>
     run_watch demo_flap demo_settled (dm_echo d1) = (out, deb', t') \<and> ups_of 3 out = [False]"
proof -
  have at: "GetWireByIfIndex [(''/ns/a'', 7)] 3 (dm_wires demo_watched) \<noteq> None"
    by (simp add: demo_watched_def demo_peer_wire wire_at_def CreateGWire_def)
  obtain d1 where run: "run_state (SetLocalVethState ref_net [(''/ns/a'', 7)] 3 7 ''/ns/a'' True) demo_watched = (None, d1)"
    using at by (auto simp: SetLocalVethState_def ref_net_def)
  obtain out deb' t' where w: "run_watch demo_flap demo_settled (dm_echo d1) = (out, deb', t')" by (metis surj_pair)
  have e: "ups_of 3 (fst (run_edges demo_flap demo_settled)) = [False] @ True # []"
    by (simp add: Observe_def Due_def due_step_def Debounce_def milliseconds_def Let_def)
  from stale_echo_swallows_edge [OF at run w e] run w show ?thesis by auto
qed

end
