(* ===== verification/Deep_Copy.thy ===== *)
theory Deep_Copy
  imports Messages
begin

text \<open>
  The deep copies of \<open>zz_generated.deepcopy.go\<close> and
  \<open>zz_generated_grpcwire.deepcopy.go\<close>.  Here, unlike in the other theories, a custom
  resource is a struct in memory: a slice is a pointer into a backing array, so that
  assigning a struct shares its arrays.  The arrays live in a store of addresses, one map
  for each element type and one counter for all of them.  \<open>ObjectMeta\<close> and
  \<open>ListMeta\<close> belong to the Kubernetes library: their type, their heap and their
  \<open>DeepCopyInto\<close> are parameters, of which only the documented behaviour is used: the
  copy reads as the original, and making it changes no other value.

  The theorems: a copy reads as its original, and whatever is then written through the
  copy's arrays, the original does not change.
\<close>

section \<open>Structs and slices in memory\<close>

text \<open>
  A slice is nil, or the array, the offset and the length it shows; the copies do not look
  at its capacity.
\<close>

datatype slice = Nil_Slice | Slice nat nat nat

record TypeMeta =
  tm_Kind :: string
  tm_APIVersion :: string

record SpecS =
  sp_TypeMeta :: TypeMeta
  sp_Links :: slice

record StatusS =
  ss_TypeMeta :: TypeMeta
  ss_Skipped :: slice
  ss_SrcIP :: string
  ss_NetNS :: string
  ss_ContainerID :: string

record 'm TopologyS =
  to_TypeMeta :: TypeMeta
  to_ObjectMeta :: 'm
  to_Status :: StatusS
  to_Spec :: SpecS

record 'l TopologyList =
  tlist_TypeMeta :: TypeMeta
  tlist_ListMeta :: 'l
  tlist_Items :: slice

record GWireKNodeSpec =
  gsp_TypeMeta :: TypeMeta
  gsp_UIDs :: slice

record NodeStatusS =
  nst_TypeMeta :: TypeMeta
  nst_GWireKItems :: slice

record 'm GWireKObjS =
  go_TypeMeta :: TypeMeta
  go_ObjectMeta :: 'm
  go_Status :: NodeStatusS
  go_Spec :: GWireKNodeSpec

record 'l GWireKObjList =
  gol_TypeMeta :: TypeMeta
  gol_ListMeta :: 'l
  gol_Items :: slice

type_synonym 'a arrays = "nat \<Rightarrow> 'a list option"

record ('m, 'h) store =
  st_links :: "TopoLink arrays"
  st_skipped :: "Skipped arrays"
  st_ints :: "int64 arrays"
  st_wires :: "GWireStatus arrays"
  st_topos :: "'m TopologyS arrays"
  st_objs :: "'m GWireKObjS arrays"
  st_next :: nat
  st_lib :: 'h

text \<open>The library's part: its zero values and its copies, over its own heap.\<close>

record ('m, 'l, 'h) meta_lib =
  ml_zero :: 'm
  ml_copy :: "'h \<Rightarrow> 'm \<Rightarrow> 'm \<times> 'h"
  ml_copy_list :: "'h \<Rightarrow> 'l \<Rightarrow> 'l \<times> 'h"

text \<open>Reading a slice, \<open>make\<close> and \<open>copy\<close>.\<close>

definition elems :: "'a arrays \<Rightarrow> nat \<Rightarrow> nat \<Rightarrow> nat \<Rightarrow> 'a list" where
  "elems A a off n = (case A a of Some xs \<Rightarrow> take n (drop off xs) | None \<Rightarrow> [])"

fun read_slice :: "'a arrays \<Rightarrow> slice \<Rightarrow> 'a list option" where
  "read_slice A Nil_Slice = None"
| "read_slice A (Slice a off n) = Some (elems A a off n)"

definition go_make :: "'a arrays \<Rightarrow> nat \<Rightarrow> 'a \<Rightarrow> nat \<Rightarrow> 'a arrays" where
  "go_make A a z n = A(a \<mapsto> replicate n z)"

definition write_at :: "'a arrays \<Rightarrow> nat \<Rightarrow> nat \<Rightarrow> 'a list \<Rightarrow> 'a arrays" where
  "write_at A a i ys =
     (case A a of None \<Rightarrow> A | Some xs \<Rightarrow> A(a \<mapsto> take i xs @ ys @ drop (i + length ys) xs))"

definition go_copy :: "'a arrays \<Rightarrow> nat \<Rightarrow> nat \<Rightarrow> 'a list \<Rightarrow> 'a arrays" where
  "go_copy A a n src = write_at A a 0 (take n src)"

text \<open>\<open>make\<close> and \<open>copy\<close> as the generated code uses them, for elements without pointers.\<close>

definition dup_slice :: "'a \<Rightarrow> 'a arrays \<Rightarrow> nat \<Rightarrow> slice \<Rightarrow> slice \<times> 'a arrays \<times> nat" where
  "dup_slice z A nx s =
     (case s of
        Nil_Slice \<Rightarrow> (s, A, nx)
      | Slice a off n \<Rightarrow>
          let A' = go_make A nx z n
          in (Slice nx 0 n, go_copy A' nx n (elems A' a off n), Suc nx))"

section \<open>The copies\<close>

definition zero_TypeMeta :: TypeMeta where
  "zero_TypeMeta = \<lparr>tm_Kind = '''', tm_APIVersion = ''''\<rparr>"

definition zero_TopoLink :: TopoLink where
  "zero_TopoLink = \<lparr>tl_LocalIntf = '''', tl_LocalIP = '''', tl_PeerIntf = '''', tl_PeerIP = '''',
     tl_PeerPod = '''', tl_UID = 0, tl_MTU = 0\<rparr>"

definition zero_Skipped :: Skipped where
  "zero_Skipped = \<lparr>sk_PodName = '''', sk_LinkId = 0\<rparr>"

definition zero_GWireStatus :: GWireStatus where
  "zero_GWireStatus = \<lparr>gs_LocalNodeName = '''', gs_LinkId = 0, gs_TopoNamespace = '''',
     gs_LocalPodNetNs = '''', gs_LocalPodName = '''', gs_LocalPodIp = '''',
     gs_LocalPodIfaceName = '''', gs_WireIfaceNameOnLocalNode = '''',
     gs_WireIfaceIdOnPeerNode = 0, gs_GWirePeerNodeIp = ''''\<rparr>"

definition zero_Spec :: SpecS where
  "zero_Spec = \<lparr>sp_TypeMeta = zero_TypeMeta, sp_Links = Nil_Slice\<rparr>"

definition zero_Status :: StatusS where
  "zero_Status = \<lparr>ss_TypeMeta = zero_TypeMeta, ss_Skipped = Nil_Slice, ss_SrcIP = '''',
     ss_NetNS = '''', ss_ContainerID = ''''\<rparr>"

definition zero_Topology :: "('m, 'l, 'h) meta_lib \<Rightarrow> 'm TopologyS" where
  "zero_Topology L = \<lparr>to_TypeMeta = zero_TypeMeta, to_ObjectMeta = ml_zero L,
     to_Status = zero_Status, to_Spec = zero_Spec\<rparr>"

definition zero_Obj :: "('m, 'l, 'h) meta_lib \<Rightarrow> 'm GWireKObjS" where
  "zero_Obj L = \<lparr>go_TypeMeta = zero_TypeMeta, go_ObjectMeta = ml_zero L,
     go_Status = \<lparr>nst_TypeMeta = zero_TypeMeta, nst_GWireKItems = Nil_Slice\<rparr>,
     go_Spec = \<lparr>gsp_TypeMeta = zero_TypeMeta, gsp_UIDs = Nil_Slice\<rparr>\<rparr>"

text \<open>
  \<open>DeepCopyInto\<close> of each type: the struct assignment \<open>*out = *in\<close> first, then
  the fields that need more.  The copy is the value \<open>out\<close> points at in the end.
\<close>

definition spec_DeepCopyInto :: "SpecS \<Rightarrow> ('m, 'h) store \<Rightarrow> SpecS \<times> ('m, 'h) store" where
  "spec_DeepCopyInto inp s =
     (let out = inp\<lparr>sp_TypeMeta := sp_TypeMeta inp\<rparr>;
          (sl, A, nx) = dup_slice zero_TopoLink (st_links s) (st_next s) (sp_Links inp)
      in (out\<lparr>sp_Links := sl\<rparr>, s\<lparr>st_links := A, st_next := nx\<rparr>))"

definition status_DeepCopyInto :: "StatusS \<Rightarrow> ('m, 'h) store \<Rightarrow> StatusS \<times> ('m, 'h) store" where
  "status_DeepCopyInto inp s =
     (let out = inp\<lparr>ss_TypeMeta := ss_TypeMeta inp\<rparr>;
          (sl, A, nx) = dup_slice zero_Skipped (st_skipped s) (st_next s) (ss_Skipped inp)
      in (out\<lparr>ss_Skipped := sl\<rparr>, s\<lparr>st_skipped := A, st_next := nx\<rparr>))"

definition nodespec_DeepCopyInto ::
  "GWireKNodeSpec \<Rightarrow> ('m, 'h) store \<Rightarrow> GWireKNodeSpec \<times> ('m, 'h) store" where
  "nodespec_DeepCopyInto inp s =
     (let out = inp\<lparr>gsp_TypeMeta := gsp_TypeMeta inp\<rparr>;
          (sl, A, nx) = dup_slice 0 (st_ints s) (st_next s) (gsp_UIDs inp)
      in (out\<lparr>gsp_UIDs := sl\<rparr>, s\<lparr>st_ints := A, st_next := nx\<rparr>))"

definition nodestatus_DeepCopyInto ::
  "NodeStatusS \<Rightarrow> ('m, 'h) store \<Rightarrow> NodeStatusS \<times> ('m, 'h) store" where
  "nodestatus_DeepCopyInto inp s =
     (let out = inp\<lparr>nst_TypeMeta := nst_TypeMeta inp\<rparr>;
          (sl, A, nx) = dup_slice zero_GWireStatus (st_wires s) (st_next s) (nst_GWireKItems inp)
      in (out\<lparr>nst_GWireKItems := sl\<rparr>, s\<lparr>st_wires := A, st_next := nx\<rparr>))"

definition topology_DeepCopyInto ::
  "('m, 'l, 'h) meta_lib \<Rightarrow> 'm TopologyS \<Rightarrow> ('m, 'h) store \<Rightarrow> 'm TopologyS \<times> ('m, 'h) store" where
  "topology_DeepCopyInto L inp s =
     (let out = inp\<lparr>to_TypeMeta := to_TypeMeta inp\<rparr>;
          (om, h) = ml_copy L (st_lib s) (to_ObjectMeta inp);
          s = s\<lparr>st_lib := h\<rparr>;
          (stat, s) = status_DeepCopyInto (to_Status inp) s;
          (spec, s) = spec_DeepCopyInto (to_Spec inp) s
      in (out\<lparr>to_ObjectMeta := om, to_Status := stat, to_Spec := spec\<rparr>, s))"

definition obj_DeepCopyInto ::
  "('m, 'l, 'h) meta_lib \<Rightarrow> 'm GWireKObjS \<Rightarrow> ('m, 'h) store \<Rightarrow> 'm GWireKObjS \<times> ('m, 'h) store" where
  "obj_DeepCopyInto L inp s =
     (let out = inp\<lparr>go_TypeMeta := go_TypeMeta inp\<rparr>;
          (om, h) = ml_copy L (st_lib s) (go_ObjectMeta inp);
          s = s\<lparr>st_lib := h\<rparr>;
          (stat, s) = nodestatus_DeepCopyInto (go_Status inp) s;
          (spec, s) = nodespec_DeepCopyInto (go_Spec inp) s
      in (out\<lparr>go_ObjectMeta := om, go_Status := stat, go_Spec := spec\<rparr>, s))"

text \<open>
  The loop over the items of a list: item \<open>i\<close> is read from the array of the original
  when its turn comes and its copy is written to the new array.  \<open>get\<close> and
  \<open>put\<close> say which of the store's maps holds the items.
\<close>

fun copy_items ::
  "('x \<Rightarrow> 's \<Rightarrow> 'x \<times> 's) \<Rightarrow> ('s \<Rightarrow> 'x arrays) \<Rightarrow> ('x arrays \<Rightarrow> 's \<Rightarrow> 's) \<Rightarrow>
   nat \<Rightarrow> nat \<Rightarrow> nat \<Rightarrow> nat list \<Rightarrow> 's \<Rightarrow> 's" where
  "copy_items into get put a off b [] s = s"
| "copy_items into get put a off b (i # is') s =
     (case elems (get s) a (off + i) 1 of
        [x] \<Rightarrow>
          let (y, s) = into x s
          in copy_items into get put a off b is' (put (write_at (get s) b i [y]) s)
      | _ \<Rightarrow> s)"

abbreviation set_topos :: "'m TopologyS arrays \<Rightarrow> ('m, 'h) store \<Rightarrow> ('m, 'h) store" where
  "set_topos A s \<equiv> s\<lparr>st_topos := A\<rparr>"

abbreviation set_objs :: "'m GWireKObjS arrays \<Rightarrow> ('m, 'h) store \<Rightarrow> ('m, 'h) store" where
  "set_objs A s \<equiv> s\<lparr>st_objs := A\<rparr>"

definition topologyList_DeepCopyInto ::
  "('m, 'l, 'h) meta_lib \<Rightarrow> 'l TopologyList \<Rightarrow> ('m, 'h) store \<Rightarrow> 'l TopologyList \<times> ('m, 'h) store" where
  "topologyList_DeepCopyInto L inp s =
     (let out = inp\<lparr>tlist_TypeMeta := tlist_TypeMeta inp\<rparr>;
          (lm, h) = ml_copy_list L (st_lib s) (tlist_ListMeta inp);
          s = s\<lparr>st_lib := h\<rparr>;
          out = out\<lparr>tlist_ListMeta := lm\<rparr>
      in case tlist_Items inp of
           Nil_Slice \<Rightarrow> (out, s)
         | Slice a off n \<Rightarrow>
             let b = st_next s;
                 s = s\<lparr>st_topos := go_make (st_topos s) b (zero_Topology L) n, st_next := Suc b\<rparr>
             in (out\<lparr>tlist_Items := Slice b 0 n\<rparr>, copy_items (topology_DeepCopyInto L) st_topos set_topos a off b [0..<n] s))"

definition objList_DeepCopyInto ::
  "('m, 'l, 'h) meta_lib \<Rightarrow> 'l GWireKObjList \<Rightarrow> ('m, 'h) store \<Rightarrow> 'l GWireKObjList \<times> ('m, 'h) store" where
  "objList_DeepCopyInto L inp s =
     (let out = inp\<lparr>gol_TypeMeta := gol_TypeMeta inp\<rparr>;
          (lm, h) = ml_copy_list L (st_lib s) (gol_ListMeta inp);
          s = s\<lparr>st_lib := h\<rparr>;
          out = out\<lparr>gol_ListMeta := lm\<rparr>
      in case gol_Items inp of
           Nil_Slice \<Rightarrow> (out, s)
         | Slice a off n \<Rightarrow>
             let b = st_next s;
                 s = s\<lparr>st_objs := go_make (st_objs s) b (zero_Obj L) n, st_next := Suc b\<rparr>
             in (out\<lparr>gol_Items := Slice b 0 n\<rparr>, copy_items (obj_DeepCopyInto L) st_objs set_objs a off b [0..<n] s))"

text \<open>
  \<open>DeepCopy\<close> takes and answers a pointer, nil for nil.  \<open>DeepCopyObject\<close> answers
  a value of the interface \<open>runtime.Object\<close>: an interface that holds a nil pointer is
  not itself nil, which is why the code asks before it converts.
\<close>

definition deep_copy :: "('a \<Rightarrow> 's \<Rightarrow> 'a \<times> 's) \<Rightarrow> 'a option \<Rightarrow> 's \<Rightarrow> 'a option \<times> 's" where
  "deep_copy into inp s =
     (case inp of None \<Rightarrow> (None, s) | Some x \<Rightarrow> (case into x s of (out, s') \<Rightarrow> (Some out, s')))"

datatype 'a iface = Nil_Iface | Iface "'a option"

definition deep_copy_object :: "('a option \<Rightarrow> 's \<Rightarrow> 'a option \<times> 's) \<Rightarrow> 'a option \<Rightarrow> 's \<Rightarrow> 'a iface \<times> 's" where
  "deep_copy_object copy inp s =
     (case copy inp s of
        (Some c, s') \<Rightarrow> (Iface (Some c), s')
      | (None, s') \<Rightarrow> (Nil_Iface, s'))"

definition spec_DeepCopy :: "SpecS option \<Rightarrow> ('m, 'h) store \<Rightarrow> (SpecS) option \<times> ('m, 'h) store" where
  "spec_DeepCopy = deep_copy spec_DeepCopyInto"

definition spec_DeepCopyObject :: "SpecS option \<Rightarrow> ('m, 'h) store \<Rightarrow> (SpecS) iface \<times> ('m, 'h) store" where
  "spec_DeepCopyObject = deep_copy_object (spec_DeepCopy)"

definition status_DeepCopy :: "StatusS option \<Rightarrow> ('m, 'h) store \<Rightarrow> (StatusS) option \<times> ('m, 'h) store" where
  "status_DeepCopy = deep_copy status_DeepCopyInto"

definition status_DeepCopyObject :: "StatusS option \<Rightarrow> ('m, 'h) store \<Rightarrow> (StatusS) iface \<times> ('m, 'h) store" where
  "status_DeepCopyObject = deep_copy_object (status_DeepCopy)"

definition topology_DeepCopy :: "('m, 'l, 'h) meta_lib \<Rightarrow>
   'm TopologyS option \<Rightarrow> ('m, 'h) store \<Rightarrow> ('m TopologyS) option \<times> ('m, 'h) store" where
  "topology_DeepCopy L = deep_copy (topology_DeepCopyInto L)"

definition topology_DeepCopyObject :: "('m, 'l, 'h) meta_lib \<Rightarrow>
   'm TopologyS option \<Rightarrow> ('m, 'h) store \<Rightarrow> ('m TopologyS) iface \<times> ('m, 'h) store" where
  "topology_DeepCopyObject L = deep_copy_object (topology_DeepCopy L)"

definition topologyList_DeepCopy :: "('m, 'l, 'h) meta_lib \<Rightarrow>
   'l TopologyList option \<Rightarrow> ('m, 'h) store \<Rightarrow> ('l TopologyList) option \<times> ('m, 'h) store" where
  "topologyList_DeepCopy L = deep_copy (topologyList_DeepCopyInto L)"

definition topologyList_DeepCopyObject :: "('m, 'l, 'h) meta_lib \<Rightarrow>
   'l TopologyList option \<Rightarrow> ('m, 'h) store \<Rightarrow> ('l TopologyList) iface \<times> ('m, 'h) store" where
  "topologyList_DeepCopyObject L = deep_copy_object (topologyList_DeepCopy L)"

definition nodespec_DeepCopy :: "GWireKNodeSpec option \<Rightarrow> ('m, 'h) store \<Rightarrow> (GWireKNodeSpec) option \<times> ('m, 'h) store" where
  "nodespec_DeepCopy = deep_copy nodespec_DeepCopyInto"

definition nodespec_DeepCopyObject :: "GWireKNodeSpec option \<Rightarrow> ('m, 'h) store \<Rightarrow> (GWireKNodeSpec) iface \<times> ('m, 'h) store" where
  "nodespec_DeepCopyObject = deep_copy_object (nodespec_DeepCopy)"

definition nodestatus_DeepCopy :: "NodeStatusS option \<Rightarrow> ('m, 'h) store \<Rightarrow> (NodeStatusS) option \<times> ('m, 'h) store" where
  "nodestatus_DeepCopy = deep_copy nodestatus_DeepCopyInto"

definition nodestatus_DeepCopyObject :: "NodeStatusS option \<Rightarrow> ('m, 'h) store \<Rightarrow> (NodeStatusS) iface \<times> ('m, 'h) store" where
  "nodestatus_DeepCopyObject = deep_copy_object (nodestatus_DeepCopy)"

definition obj_DeepCopy :: "('m, 'l, 'h) meta_lib \<Rightarrow>
   'm GWireKObjS option \<Rightarrow> ('m, 'h) store \<Rightarrow> ('m GWireKObjS) option \<times> ('m, 'h) store" where
  "obj_DeepCopy L = deep_copy (obj_DeepCopyInto L)"

definition obj_DeepCopyObject :: "('m, 'l, 'h) meta_lib \<Rightarrow>
   'm GWireKObjS option \<Rightarrow> ('m, 'h) store \<Rightarrow> ('m GWireKObjS) iface \<times> ('m, 'h) store" where
  "obj_DeepCopyObject L = deep_copy_object (obj_DeepCopy L)"

definition objList_DeepCopy :: "('m, 'l, 'h) meta_lib \<Rightarrow>
   'l GWireKObjList option \<Rightarrow> ('m, 'h) store \<Rightarrow> ('l GWireKObjList) option \<times> ('m, 'h) store" where
  "objList_DeepCopy L = deep_copy (objList_DeepCopyInto L)"

definition objList_DeepCopyObject :: "('m, 'l, 'h) meta_lib \<Rightarrow>
   'l GWireKObjList option \<Rightarrow> ('m, 'h) store \<Rightarrow> ('l GWireKObjList) iface \<times> ('m, 'h) store" where
  "objList_DeepCopyObject L = deep_copy_object (objList_DeepCopy L)"

section \<open>Stores and what is read in them\<close>

text \<open>
  What the library promises of a metadata value: which values have all their pointers
  allocated (\<open>okm\<close>, \<open>okl\<close>) and what they read as (\<open>vm\<close>, \<open>vl\<close>).
\<close>

record ('m, 'l, 'h, 'v, 'u) meta_sem =
  okm :: "'h \<Rightarrow> 'm \<Rightarrow> bool"
  vm :: "'h \<Rightarrow> 'm \<Rightarrow> 'v"
  okl :: "'h \<Rightarrow> 'l \<Rightarrow> bool"
  vl :: "'h \<Rightarrow> 'l \<Rightarrow> 'u"

definition lib_extends :: "('m, 'l, 'h, 'v, 'u) meta_sem \<Rightarrow> 'h \<Rightarrow> 'h \<Rightarrow> bool" where
  "lib_extends V h h' \<longleftrightarrow>
     (\<forall>m. okm V h m \<longrightarrow> okm V h' m \<and> vm V h' m = vm V h m) \<and>
     (\<forall>l. okl V h l \<longrightarrow> okl V h' l \<and> vl V h' l = vl V h l)"

definition lib_law :: "('m, 'l, 'h, 'v, 'u) meta_sem \<Rightarrow> ('m, 'l, 'h) meta_lib \<Rightarrow> bool" where
  "lib_law V L \<longleftrightarrow>
     (\<forall>h m m' h'. ml_copy L h m = (m', h') \<longrightarrow> okm V h m \<longrightarrow>
        lib_extends V h h' \<and> okm V h' m' \<and> vm V h' m' = vm V h m) \<and>
     (\<forall>h l l' h'. ml_copy_list L h l = (l', h') \<longrightarrow> okl V h l \<longrightarrow>
        lib_extends V h h' \<and> okl V h' l' \<and> vl V h' l' = vl V h l)"

text \<open>A slice whose array exists and is long enough, and the addresses a slice shows.\<close>

fun slice_ok :: "'a arrays \<Rightarrow> slice \<Rightarrow> bool" where
  "slice_ok A Nil_Slice \<longleftrightarrow> True"
| "slice_ok A (Slice a off n) \<longleftrightarrow> (case A a of None \<Rightarrow> False | Some xs \<Rightarrow> off + n \<le> length xs)"

fun cells :: "slice \<Rightarrow> nat set" where
  "cells Nil_Slice = {}"
| "cells (Slice a off n) = {a}"

definition below :: "'a arrays \<Rightarrow> nat \<Rightarrow> bool" where
  "below A n \<longleftrightarrow> (\<forall>a. A a \<noteq> None \<longrightarrow> a < n)"

definition agree :: "nat set \<Rightarrow> 'a arrays \<Rightarrow> 'a arrays \<Rightarrow> bool" where
  "agree X A B \<longleftrightarrow> (\<forall>a\<in>X. A a = B a)"

definition store_ok :: "('m, 'h) store \<Rightarrow> bool" where
  "store_ok s \<longleftrightarrow> below (st_links s) (st_next s) \<and> below (st_skipped s) (st_next s) \<and>
     below (st_ints s) (st_next s) \<and> below (st_wires s) (st_next s) \<and>
     below (st_topos s) (st_next s) \<and> below (st_objs s) (st_next s)"

definition same_on :: "nat set \<Rightarrow> ('m, 'h) store \<Rightarrow> ('m, 'h) store \<Rightarrow> bool" where
  "same_on X s t \<longleftrightarrow> agree X (st_links s) (st_links t) \<and> agree X (st_skipped s) (st_skipped t) \<and>
     agree X (st_ints s) (st_ints t) \<and> agree X (st_wires s) (st_wires t) \<and>
     agree X (st_topos s) (st_topos t) \<and> agree X (st_objs s) (st_objs t)"

definition extends ::
  "('m, 'l, 'h, 'v, 'u) meta_sem \<Rightarrow> ('m, 'h) store \<Rightarrow> ('m, 'h) store \<Rightarrow> bool" where
  "extends V s t \<longleftrightarrow> st_next s \<le> st_next t \<and> same_on {..<st_next s} s t \<and>
     lib_extends V (st_lib s) (st_lib t)"

text \<open>What a struct reads as, which structs are sound, and the addresses a struct reaches.\<close>

definition view_spec :: "('m, 'h) store \<Rightarrow> SpecS \<Rightarrow> TypeMeta \<times> TopoLink list option" where
  "view_spec s x = (sp_TypeMeta x, read_slice (st_links s) (sp_Links x))"

definition view_status ::
  "('m, 'h) store \<Rightarrow> StatusS \<Rightarrow> TypeMeta \<times> Skipped list option \<times> string \<times> string \<times> string" where
  "view_status s x = (ss_TypeMeta x, read_slice (st_skipped s) (ss_Skipped x), ss_SrcIP x,
     ss_NetNS x, ss_ContainerID x)"

definition view_nodespec :: "('m, 'h) store \<Rightarrow> GWireKNodeSpec \<Rightarrow> TypeMeta \<times> int64 list option" where
  "view_nodespec s x = (gsp_TypeMeta x, read_slice (st_ints s) (gsp_UIDs x))"

definition view_nodestatus :: "('m, 'h) store \<Rightarrow> NodeStatusS \<Rightarrow> TypeMeta \<times> GWireStatus list option" where
  "view_nodestatus s x = (nst_TypeMeta x, read_slice (st_wires s) (nst_GWireKItems x))"

definition view_topology where
  "view_topology V s x = (to_TypeMeta x, vm V (st_lib s) (to_ObjectMeta x),
     view_status s (to_Status x), view_spec s (to_Spec x))"

definition view_obj where
  "view_obj V s x = (go_TypeMeta x, vm V (st_lib s) (go_ObjectMeta x),
     view_nodestatus s (go_Status x), view_nodespec s (go_Spec x))"

definition topology_ok where
  "topology_ok V s x \<longleftrightarrow> okm V (st_lib s) (to_ObjectMeta x) \<and>
     slice_ok (st_skipped s) (ss_Skipped (to_Status x)) \<and> slice_ok (st_links s) (sp_Links (to_Spec x))"

definition obj_ok where
  "obj_ok V s x \<longleftrightarrow> okm V (st_lib s) (go_ObjectMeta x) \<and>
     slice_ok (st_wires s) (nst_GWireKItems (go_Status x)) \<and> slice_ok (st_ints s) (gsp_UIDs (go_Spec x))"

definition reach_topology :: "'m TopologyS \<Rightarrow> nat set" where
  "reach_topology x = cells (ss_Skipped (to_Status x)) \<union> cells (sp_Links (to_Spec x))"

definition reach_obj :: "'m GWireKObjS \<Rightarrow> nat set" where
  "reach_obj x = cells (nst_GWireKItems (go_Status x)) \<union> cells (gsp_UIDs (go_Spec x))"

text \<open>The same for a list, from what its items are.\<close>

definition items_ok :: "('x \<Rightarrow> bool) \<Rightarrow> 'x arrays \<Rightarrow> slice \<Rightarrow> bool" where
  "items_ok P A sl \<longleftrightarrow> slice_ok A sl \<and> (case read_slice A sl of None \<Rightarrow> True | Some xs \<Rightarrow> list_all P xs)"

definition view_items :: "('x \<Rightarrow> 'v) \<Rightarrow> 'x arrays \<Rightarrow> slice \<Rightarrow> 'v list option" where
  "view_items f A sl = map_option (map f) (read_slice A sl)"

definition reach_items :: "('x \<Rightarrow> nat set) \<Rightarrow> 'x arrays \<Rightarrow> slice \<Rightarrow> nat set" where
  "reach_items f A sl = cells sl \<union> (case read_slice A sl of None \<Rightarrow> {} | Some xs \<Rightarrow> \<Union> (f ` set xs))"

definition view_topologyList where
  "view_topologyList V s x = (tlist_TypeMeta x, vl V (st_lib s) (tlist_ListMeta x),
     view_items (view_topology V s) (st_topos s) (tlist_Items x))"

definition view_objList where
  "view_objList V s x = (gol_TypeMeta x, vl V (st_lib s) (gol_ListMeta x),
     view_items (view_obj V s) (st_objs s) (gol_Items x))"

definition topologyList_ok where
  "topologyList_ok V s x \<longleftrightarrow> okl V (st_lib s) (tlist_ListMeta x) \<and>
     items_ok (topology_ok V s) (st_topos s) (tlist_Items x)"

definition objList_ok where
  "objList_ok V s x \<longleftrightarrow> okl V (st_lib s) (gol_ListMeta x) \<and>
     items_ok (obj_ok V s) (st_objs s) (gol_Items x)"

section \<open>What is kept by a copy\<close>

lemma agree_mono: "agree Y A B \<Longrightarrow> X \<subseteq> Y \<Longrightarrow> agree X A B"
  by (auto simp: agree_def)

lemma agree_trans: "agree X A B \<Longrightarrow> agree X B C \<Longrightarrow> agree X A C"
  by (simp add: agree_def)

lemma agree_refl [simp]: "agree X A A"
  by (simp add: agree_def)

lemma same_on_mono: "same_on Y s t \<Longrightarrow> X \<subseteq> Y \<Longrightarrow> same_on X s t"
  unfolding same_on_def by (elim conjE) (intro conjI; erule (1) agree_mono)

lemma same_on_trans: "same_on X s t \<Longrightarrow> same_on X t u \<Longrightarrow> same_on X s u"
  unfolding same_on_def by (elim conjE) (intro conjI; erule (1) agree_trans)

lemma same_on_refl [simp]: "same_on X s s"
  by (simp add: same_on_def)

lemma lib_extends_refl [simp]: "lib_extends V h h"
  by (simp add: lib_extends_def)

lemma lib_extends_trans: "lib_extends V h h' \<Longrightarrow> lib_extends V h' h'' \<Longrightarrow> lib_extends V h h''"
  by (simp add: lib_extends_def)

lemma extends_refl [simp]: "extends V s s"
  by (simp add: extends_def)

lemma extends_trans:
  assumes "extends V s t" "extends V t u"
  shows "extends V s u"
proof -
  have "same_on {..<st_next s} t u"
    using assms by (auto simp: extends_def intro: same_on_mono)
  with assms show ?thesis
    by (auto simp: extends_def intro: same_on_trans lib_extends_trans)
qed

lemma slice_keeps:
  assumes "agree (cells sl) A B"
  shows "read_slice B sl = read_slice A sl" "slice_ok B sl = slice_ok A sl"
  using assms by (cases sl; simp add: agree_def elems_def)+

lemma cells_below: "slice_ok A sl \<Longrightarrow> below A n \<Longrightarrow> cells sl \<subseteq> {..<n}"
  by (cases sl) (auto simp: below_def split: option.splits)

lemma below_mono: "below A n \<Longrightarrow> n \<le> k \<Longrightarrow> below A k"
  by (auto simp: below_def)

lemma below_upd: "below A n \<Longrightarrow> below (A(n \<mapsto> xs)) (Suc n)"
  by (auto simp: below_def less_Suc_eq)

lemma dup_slice_cases:
  assumes "below A nx" "slice_ok A sl" "dup_slice z A nx sl = (sl', A', nx')"
  shows "nx \<le> nx'" "agree {..<nx} A A'" "below A' nx'" "slice_ok A' sl'"
    "read_slice A' sl' = read_slice A sl" "cells sl' \<subseteq> {nx..<nx'}"
proof -
  have "nx \<le> nx' \<and> agree {..<nx} A A' \<and> below A' nx' \<and> slice_ok A' sl' \<and>
    read_slice A' sl' = read_slice A sl \<and> cells sl' \<subseteq> {nx..<nx'}"
  proof (cases sl)
    case Nil_Slice
    then show ?thesis using assms by (auto simp: dup_slice_def)
  next
    case (Slice a off n)
    then obtain xs where xs: "A a = Some xs" "off + n \<le> length xs"
      using assms(2) by (auto split: option.splits)
    then have a: "a \<noteq> nx" "A nx = None" using assms(1) by (auto simp: below_def)
    have r: "sl' = Slice nx 0 n" "A' = A(nx \<mapsto> take n (drop off xs))" "nx' = Suc nx"
      using assms(3) Slice xs a
      by (auto simp: dup_slice_def Let_def go_make_def go_copy_def elems_def write_at_def)
    then show ?thesis using Slice xs a assms(1) below_upd [OF assms(1)]
      by (auto simp: agree_def elems_def)
  qed
  then show "nx \<le> nx'" "agree {..<nx} A A'" "below A' nx'" "slice_ok A' sl'"
    "read_slice A' sl' = read_slice A sl" "cells sl' \<subseteq> {nx..<nx'}" by simp_all
qed

text \<open>What a copy of a struct achieves: \<open>made V s s' X\<close>.\<close>

definition made ::
  "('m, 'l, 'h, 'v, 'u) meta_sem \<Rightarrow> ('m, 'h) store \<Rightarrow> ('m, 'h) store \<Rightarrow> nat set \<Rightarrow> bool" where
  "made V s s' X \<longleftrightarrow> extends V s s' \<and> store_ok s' \<and> X \<subseteq> {st_next s..<st_next s'} \<and>
     st_topos s' = st_topos s \<and> st_objs s' = st_objs s"

lemma made_seq:
  assumes "made V s s1 X" "made V s1 s2 Y"
  shows "made V s s2 (X \<union> Y)"
proof -
  have "st_next s \<le> st_next s1" "st_next s1 \<le> st_next s2"
    using assms by (simp_all add: made_def extends_def)
  then show ?thesis
    using assms unfolding made_def by (fastforce intro: extends_trans)
qed

lemma spec_copied:
  assumes "store_ok s" "slice_ok (st_links s) (sp_Links x)" "spec_DeepCopyInto x s = (y, s')"
  shows "made V s s' (cells (sp_Links y))" "slice_ok (st_links s') (sp_Links y)"
    "view_spec s' y = view_spec s x" "st_lib s' = st_lib s" "st_skipped s' = st_skipped s"
proof -
  obtain sl A nx where d: "dup_slice zero_TopoLink (st_links s) (st_next s) (sp_Links x) = (sl, A, nx)"
    by (metis prod_cases3)
  have b: "below (st_links s) (st_next s)" using assms(1) by (simp add: store_ok_def)
  note f = dup_slice_cases [OF b assms(2) d]
  have r: "y = x\<lparr>sp_Links := sl\<rparr>" "s' = s\<lparr>st_links := A, st_next := nx\<rparr>"
    using assms(3) d by (auto simp: spec_DeepCopyInto_def)
  show "made V s s' (cells (sp_Links y))" "slice_ok (st_links s') (sp_Links y)"
    "view_spec s' y = view_spec s x" "st_lib s' = st_lib s" "st_skipped s' = st_skipped s"
    using f r assms(1)
    by (auto simp: made_def extends_def same_on_def store_ok_def view_spec_def intro: below_mono)
qed

lemma status_copied:
  assumes "store_ok s" "slice_ok (st_skipped s) (ss_Skipped x)" "status_DeepCopyInto x s = (y, s')"
  shows "made V s s' (cells (ss_Skipped y))" "slice_ok (st_skipped s') (ss_Skipped y)"
    "view_status s' y = view_status s x" "st_lib s' = st_lib s" "st_links s' = st_links s"
proof -
  obtain sl A nx where d: "dup_slice zero_Skipped (st_skipped s) (st_next s) (ss_Skipped x) = (sl, A, nx)"
    by (metis prod_cases3)
  have b: "below (st_skipped s) (st_next s)" using assms(1) by (simp add: store_ok_def)
  note f = dup_slice_cases [OF b assms(2) d]
  have r: "y = x\<lparr>ss_Skipped := sl\<rparr>" "s' = s\<lparr>st_skipped := A, st_next := nx\<rparr>"
    using assms(3) d by (auto simp: status_DeepCopyInto_def)
  show "made V s s' (cells (ss_Skipped y))" "slice_ok (st_skipped s') (ss_Skipped y)"
    "view_status s' y = view_status s x" "st_lib s' = st_lib s" "st_links s' = st_links s"
    using f r assms(1)
    by (auto simp: made_def extends_def same_on_def store_ok_def view_status_def intro: below_mono)
qed

lemma nodespec_copied:
  assumes "store_ok s" "slice_ok (st_ints s) (gsp_UIDs x)" "nodespec_DeepCopyInto x s = (y, s')"
  shows "made V s s' (cells (gsp_UIDs y))" "slice_ok (st_ints s') (gsp_UIDs y)"
    "view_nodespec s' y = view_nodespec s x" "st_lib s' = st_lib s" "st_wires s' = st_wires s"
proof -
  obtain sl A nx where d: "dup_slice 0 (st_ints s) (st_next s) (gsp_UIDs x) = (sl, A, nx)"
    by (metis prod_cases3)
  have b: "below (st_ints s) (st_next s)" using assms(1) by (simp add: store_ok_def)
  note f = dup_slice_cases [OF b assms(2) d]
  have r: "y = x\<lparr>gsp_UIDs := sl\<rparr>" "s' = s\<lparr>st_ints := A, st_next := nx\<rparr>"
    using assms(3) d by (auto simp: nodespec_DeepCopyInto_def)
  show "made V s s' (cells (gsp_UIDs y))" "slice_ok (st_ints s') (gsp_UIDs y)"
    "view_nodespec s' y = view_nodespec s x" "st_lib s' = st_lib s" "st_wires s' = st_wires s"
    using f r assms(1)
    by (auto simp: made_def extends_def same_on_def store_ok_def view_nodespec_def intro: below_mono)
qed

lemma nodestatus_copied:
  assumes "store_ok s" "slice_ok (st_wires s) (nst_GWireKItems x)" "nodestatus_DeepCopyInto x s = (y, s')"
  shows "made V s s' (cells (nst_GWireKItems y))" "slice_ok (st_wires s') (nst_GWireKItems y)"
    "view_nodestatus s' y = view_nodestatus s x" "st_lib s' = st_lib s" "st_ints s' = st_ints s"
proof -
  obtain sl A nx where d: "dup_slice zero_GWireStatus (st_wires s) (st_next s) (nst_GWireKItems x) = (sl, A, nx)"
    by (metis prod_cases3)
  have b: "below (st_wires s) (st_next s)" using assms(1) by (simp add: store_ok_def)
  note f = dup_slice_cases [OF b assms(2) d]
  have r: "y = x\<lparr>nst_GWireKItems := sl\<rparr>" "s' = s\<lparr>st_wires := A, st_next := nx\<rparr>"
    using assms(3) d by (auto simp: nodestatus_DeepCopyInto_def)
  show "made V s s' (cells (nst_GWireKItems y))" "slice_ok (st_wires s') (nst_GWireKItems y)"
    "view_nodestatus s' y = view_nodestatus s x" "st_lib s' = st_lib s" "st_ints s' = st_ints s"
    using f r assms(1)
    by (auto simp: made_def extends_def same_on_def store_ok_def view_nodestatus_def intro: below_mono)
qed

lemma topology_keeps:
  assumes "same_on (reach_topology x) s t" "lib_extends V (st_lib s) (st_lib t)" "topology_ok V s x"
  shows "topology_ok V t x" "view_topology V t x = view_topology V s x"
proof -
  have a: "agree (cells (ss_Skipped (to_Status x))) (st_skipped s) (st_skipped t)"
    "agree (cells (sp_Links (to_Spec x))) (st_links s) (st_links t)"
    using assms(1) by (auto simp: same_on_def reach_topology_def intro: agree_mono)
  show "topology_ok V t x" "view_topology V t x = view_topology V s x"
    using assms(2,3) slice_keeps [OF a(1)] slice_keeps [OF a(2)]
    by (simp_all add: topology_ok_def view_topology_def lib_extends_def view_status_def view_spec_def)
qed

lemma obj_keeps:
  assumes "same_on (reach_obj x) s t" "lib_extends V (st_lib s) (st_lib t)" "obj_ok V s x"
  shows "obj_ok V t x" "view_obj V t x = view_obj V s x"
proof -
  have a: "agree (cells (nst_GWireKItems (go_Status x))) (st_wires s) (st_wires t)"
    "agree (cells (gsp_UIDs (go_Spec x))) (st_ints s) (st_ints t)"
    using assms(1) by (auto simp: same_on_def reach_obj_def intro: agree_mono)
  show "obj_ok V t x" "view_obj V t x = view_obj V s x"
    using assms(2,3) slice_keeps [OF a(1)] slice_keeps [OF a(2)]
    by (simp_all add: obj_ok_def view_obj_def lib_extends_def view_nodestatus_def view_nodespec_def)
qed

lemma reach_topology_below: "store_ok s \<Longrightarrow> topology_ok V s x \<Longrightarrow> reach_topology x \<subseteq> {..<st_next s}"
  unfolding store_ok_def topology_ok_def reach_topology_def by (blast dest: cells_below)

lemma reach_obj_below: "store_ok s \<Longrightarrow> obj_ok V s x \<Longrightarrow> reach_obj x \<subseteq> {..<st_next s}"
  unfolding store_ok_def obj_ok_def reach_obj_def by (blast dest: cells_below)

lemma same_on_next [simp]: "same_on X s (t\<lparr>st_next := n\<rparr>) \<longleftrightarrow> same_on X s t"
  by (simp add: same_on_def)

lemma lib_step:
  assumes "store_ok s" "lib_extends V (st_lib s) h"
  shows "made V s (s\<lparr>st_lib := h\<rparr>) {}"
  using assms by (simp add: made_def extends_def same_on_def store_ok_def)

lemma made_extends: "made V s s' X \<Longrightarrow> extends V s s'"
  by (simp add: made_def)

lemma topology_copied:
  assumes L: "lib_law V L" and s: "store_ok s" "topology_ok V s x"
    and c: "topology_DeepCopyInto L x s = (y, s')"
  shows "made V s s' (reach_topology y)" "topology_ok V s' y" "view_topology V s' y = view_topology V s x"
proof -
  obtain om h where m: "ml_copy L (st_lib s) (to_ObjectMeta x) = (om, h)" by fastforce
  then have lib: "lib_extends V (st_lib s) h" "okm V h om"
    "vm V h om = vm V (st_lib s) (to_ObjectMeta x)"
    using L s(2) by (simp_all add: lib_law_def topology_ok_def)
  define s1 where "s1 = s\<lparr>st_lib := h\<rparr>"
  obtain st s2 where c1: "status_DeepCopyInto (to_Status x) s1 = (st, s2)" by fastforce
  obtain sp s3 where c2: "spec_DeepCopyInto (to_Spec x) s2 = (sp, s3)" by fastforce
  have r: "y = x\<lparr>to_ObjectMeta := om, to_Status := st, to_Spec := sp\<rparr>" "s' = s3"
    using c m c1 c2 by (auto simp: topology_DeepCopyInto_def s1_def)
  have m1: "made V s s1 {}" using lib_step [OF s(1) lib(1)] by (simp add: s1_def)
  then have ok1: "store_ok s1" "slice_ok (st_skipped s1) (ss_Skipped (to_Status x))"
    using s(2) by (simp_all add: made_def topology_ok_def s1_def)
  note f1 = status_copied(2-5) [OF ok1 c1] and m2 = status_copied(1) [where V = V, OF ok1 c1]
  have ok2: "store_ok s2" "slice_ok (st_links s2) (sp_Links (to_Spec x))"
    using f1 m2 s(2) by (simp_all add: made_def topology_ok_def s1_def)
  note f2 = spec_copied(2-5) [OF ok2 c2] and m3 = spec_copied(1) [where V = V, OF ok2 c2]
  show "made V s s' (reach_topology y)"
    using made_seq [OF made_seq [OF m1 m2] m3] r by (simp add: reach_topology_def)
  show "topology_ok V s' y"
    using f1 f2 r lib(2) by (simp add: topology_ok_def s1_def)
  show "view_topology V s' y = view_topology V s x"
    using f1 f2 r lib(3)
    by (simp add: view_topology_def view_status_def view_spec_def s1_def)
qed

lemma obj_copied:
  assumes L: "lib_law V L" and s: "store_ok s" "obj_ok V s x"
    and c: "obj_DeepCopyInto L x s = (y, s')"
  shows "made V s s' (reach_obj y)" "obj_ok V s' y" "view_obj V s' y = view_obj V s x"
proof -
  obtain om h where m: "ml_copy L (st_lib s) (go_ObjectMeta x) = (om, h)" by fastforce
  then have lib: "lib_extends V (st_lib s) h" "okm V h om"
    "vm V h om = vm V (st_lib s) (go_ObjectMeta x)"
    using L s(2) by (simp_all add: lib_law_def obj_ok_def)
  define s1 where "s1 = s\<lparr>st_lib := h\<rparr>"
  obtain st s2 where c1: "nodestatus_DeepCopyInto (go_Status x) s1 = (st, s2)" by fastforce
  obtain sp s3 where c2: "nodespec_DeepCopyInto (go_Spec x) s2 = (sp, s3)" by fastforce
  have r: "y = x\<lparr>go_ObjectMeta := om, go_Status := st, go_Spec := sp\<rparr>" "s' = s3"
    using c m c1 c2 by (auto simp: obj_DeepCopyInto_def s1_def)
  have m1: "made V s s1 {}" using lib_step [OF s(1) lib(1)] by (simp add: s1_def)
  then have ok1: "store_ok s1" "slice_ok (st_wires s1) (nst_GWireKItems (go_Status x))"
    using s(2) by (simp_all add: made_def obj_ok_def s1_def)
  note f1 = nodestatus_copied(2-5) [OF ok1 c1] and m2 = nodestatus_copied(1) [where V = V, OF ok1 c1]
  have ok2: "store_ok s2" "slice_ok (st_ints s2) (gsp_UIDs (go_Spec x))"
    using f1 m2 s(2) by (simp_all add: made_def obj_ok_def s1_def)
  note f2 = nodespec_copied(2-5) [OF ok2 c2] and m3 = nodespec_copied(1) [where V = V, OF ok2 c2]
  show "made V s s' (reach_obj y)"
    using made_seq [OF made_seq [OF m1 m2] m3] r by (simp add: reach_obj_def)
  show "obj_ok V s' y"
    using f1 f2 r lib(2) by (simp add: obj_ok_def s1_def)
  show "view_obj V s' y = view_obj V s x"
    using f1 f2 r lib(3)
    by (simp add: view_obj_def view_nodestatus_def view_nodespec_def s1_def)
qed

section \<open>Lists of structs\<close>

text \<open>
  The interface between the loop over a list and the copy of one item: what an item's
  \<open>DeepCopyInto\<close> promises, and where the store keeps the items.
\<close>

locale item_copies =
  fixes into :: "'x \<Rightarrow> ('m, 'h) store \<Rightarrow> 'x \<times> ('m, 'h) store"
    and get :: "('m, 'h) store \<Rightarrow> 'x arrays"
    and put :: "'x arrays \<Rightarrow> ('m, 'h) store \<Rightarrow> ('m, 'h) store"
    and V :: "('m, 'l, 'h, 'v, 'u) meta_sem"
    and ok :: "('m, 'h) store \<Rightarrow> 'x \<Rightarrow> bool"
    and view :: "('m, 'h) store \<Rightarrow> 'x \<Rightarrow> 'w"
    and reach :: "'x \<Rightarrow> nat set"
  assumes get_put [simp]: "get (put A s) = A"
    and get_next [simp]: "get (s\<lparr>st_next := n\<rparr>) = get s"
    and put_next: "put A (s\<lparr>st_next := n\<rparr>) = put A s\<lparr>st_next := n\<rparr>"
    and next_put [simp]: "st_next (put A s) = st_next s"
    and lib_put [simp]: "st_lib (put A s) = st_lib s"
    and same_put: "same_on X s (put A s) \<longleftrightarrow> agree X (get s) A"
    and same_get: "same_on X s t \<Longrightarrow> agree X (get s) (get t)"
    and put_ok: "store_ok s \<Longrightarrow> below A (st_next s) \<Longrightarrow> store_ok (put A s)"
    and get_below: "store_ok s \<Longrightarrow> below (get s) (st_next s)"
    and into_extends: "store_ok s \<Longrightarrow> ok s x \<Longrightarrow> into x s = (y, s') \<Longrightarrow> extends V s s' \<and> store_ok s'"
    and into_get: "store_ok s \<Longrightarrow> ok s x \<Longrightarrow> into x s = (y, s') \<Longrightarrow> get s' = get s"
    and into_view: "store_ok s \<Longrightarrow> ok s x \<Longrightarrow> into x s = (y, s') \<Longrightarrow> ok s' y \<and> view s' y = view s x"
    and into_fresh: "store_ok s \<Longrightarrow> ok s x \<Longrightarrow> into x s = (y, s') \<Longrightarrow> reach y \<subseteq> {st_next s..<st_next s'}"
    and keeps: "same_on (reach x) s t \<Longrightarrow> lib_extends V (st_lib s) (st_lib t) \<Longrightarrow> ok s x \<Longrightarrow>
      ok t x \<and> view t x = view s x"
    and reach_below: "store_ok s \<Longrightarrow> ok s x \<Longrightarrow> reach x \<subseteq> {..<st_next s}"
begin

definition copied :: "('m, 'h) store \<Rightarrow> ('m, 'h) store \<Rightarrow> nat \<Rightarrow> 'x \<Rightarrow> 'x \<Rightarrow> bool" where
  "copied s s' b x y \<longleftrightarrow> ok s' y \<and> view s' y = view s x \<and> reach y \<subseteq> {b<..<st_next s'}"

lemma loop:
  assumes "store_ok s" "get s a = Some xs" "off + n \<le> length xs" "a < b" "b < st_next s"
    "\<forall>i<n. ok s (xs ! (off + i)) \<and> reach (xs ! (off + i)) \<subseteq> {..<b}"
    "get s b = Some ys" "length ys = n" "j \<le> n"
  shows "\<exists>zs s'. copy_items into get put a off b [j..<n] s = s' \<and> store_ok s' \<and>
    same_on {..<b} s s' \<and> same_on ({..<st_next s} - {b}) s s' \<and> lib_extends V (st_lib s) (st_lib s') \<and>
    st_next s \<le> st_next s' \<and> get s' b = Some (take j ys @ zs) \<and> length zs = n - j \<and>
    (\<forall>k<n - j. copied s s' b (xs ! (off + j + k)) (zs ! k))"
  using assms
proof (induction "n - j" arbitrary: j s ys)
  case 0
  then show ?case by (intro exI [of _ "[]"] exI [of _ s]) simp
next
  case (Suc d)
  let ?x = "xs ! (off + j)"
  have j: "j < n" "[j..<n] = j # [Suc j..<n]" using Suc.hyps(2) by (auto simp: upt_conv_Cons)
  have x: "ok s ?x" "elems (get s) a (off + j) 1 = [?x]"
    using Suc.prems j(1) by (auto simp: elems_def take_Suc_conv_app_nth hd_drop_conv_nth take_Suc)
  obtain y s1 where c: "into ?x s = (y, s1)" by fastforce
  note e = into_extends [OF Suc.prems(1) x(1) c] and g = into_get [OF Suc.prems(1) x(1) c]
    and v = into_view [OF Suc.prems(1) x(1) c] and f = into_fresh [OF Suc.prems(1) x(1) c]
  have nx: "st_next s \<le> st_next s1" using e by (simp add: extends_def)
  define A where "A = (get s1)(b \<mapsto> take j ys @ y # drop (Suc j) ys)"
  define s2 where "s2 = put A s1"
  have wr: "write_at (get s1) b j [y] = A"
    using Suc.prems g by (simp add: write_at_def A_def)
  have run: "copy_items into get put a off b [j..<n] s = copy_items into get put a off b [Suc j..<n] s2"
    using j(2) x(2) c wr by (simp add: s2_def)
  have ok2: "store_ok s2"
    unfolding s2_def using e get_below [of s1] Suc.prems nx
    by (intro put_ok) (auto simp: A_def below_def)
  have same12: "same_on X s1 s2" if "b \<notin> X" for X
    unfolding s2_def same_put using that by (auto simp: agree_def A_def)
  have same2: "same_on X s s2" if "X \<subseteq> {..<st_next s}" "b \<notin> X" for X
  proof (rule same_on_trans)
    show "same_on X s s1" using e that by (auto simp: extends_def intro: same_on_mono)
    show "same_on X s1 s2" by (rule same12 [OF that(2)])
  qed
  have lib2: "lib_extends V (st_lib s) (st_lib s2)" "st_next s2 = st_next s1"
    using e by (simp_all add: s2_def extends_def)
  have keep2: "ok s2 (xs ! (off + i)) \<and> view s2 (xs ! (off + i)) = view s (xs ! (off + i))" if "i < n" for i
    using Suc.prems(5,6) that lib2(1)
    by (intro keeps same2) (auto simp: subset_eq dest!: spec [of _ i])
  have y2: "ok s2 y" "view s2 y = view s ?x" "reach y \<subseteq> {b<..<st_next s2}" "b \<notin> reach y"
  proof -
    show "reach y \<subseteq> {b<..<st_next s2}" "b \<notin> reach y" using f Suc.prems(5) lib2(2) by auto
    then show "ok s2 y" "view s2 y = view s ?x"
      using v keeps [of y s1 s2] same12 [of "reach y"] by (simp_all add: s2_def)
  qed
  have pre: "get s2 a = Some xs" "b < st_next s2" "get s2 b = Some (take j ys @ y # drop (Suc j) ys)"
    "\<forall>i<n. ok s2 (xs ! (off + i)) \<and> reach (xs ! (off + i)) \<subseteq> {..<b}"
    using Suc.prems g nx keep2 lib2(2) by (simp_all add: s2_def A_def)
  have len: "length (take j ys @ y # drop (Suc j) ys) = n" "Suc j \<le> n" "d = n - Suc j"
    using Suc.prems Suc.hyps(2) j(1) by simp_all
  obtain zs s' where ih: "copy_items into get put a off b [Suc j..<n] s2 = s'" "store_ok s'"
    "same_on {..<b} s2 s'" "same_on ({..<st_next s2} - {b}) s2 s'" "lib_extends V (st_lib s2) (st_lib s')"
    "st_next s2 \<le> st_next s'" "get s' b = Some (take (Suc j) (take j ys @ y # drop (Suc j) ys) @ zs)"
    "length zs = n - Suc j" "\<forall>k<n - Suc j. copied s2 s' b (xs ! (off + Suc j + k)) (zs ! k)"
    using Suc.hyps(1) [OF len(3) ok2 pre(1) Suc.prems(3,4) pre(2,4,3) len(1,2)] by metis
  have y': "copied s s' b ?x y"
  proof -
    have "same_on (reach y) s2 s'" using y2(3,4) by (intro same_on_mono [OF ih(4)]) auto
    from keeps [OF this ih(5) y2(1)] show ?thesis using y2 ih(6) by (auto simp: copied_def)
  qed
  have rest: "copied s s' b (xs ! (off + Suc j + k)) (zs ! k)" if "k < n - Suc j" for k
    using ih(9) keep2 [of "Suc j + k"] that by (simp add: copied_def add.assoc)
  have all: "copied s s' b (xs ! (off + j + k)) ((y # zs) ! k)" if "k < n - j" for k
    using y' rest that by (cases k) simp_all
  have "same_on {..<b} s s'"
    using same2 [of "{..<b}"] Suc.prems(5) ih(3) by (auto intro: same_on_trans)
  moreover have "same_on ({..<st_next s} - {b}) s s'"
    using nx lib2(2)
    by (intro same_on_trans [OF same2 same_on_mono [OF ih(4)]]) auto
  moreover have "take (Suc j) (take j ys @ y # drop (Suc j) ys) = take j ys @ [y]"
    using Suc.prems j(1) by simp
  ultimately show ?case
    using run ih lib2 nx all Suc.hyps(2)
    by (intro exI [of _ "y # zs"] exI [of _ s']) (auto intro: lib_extends_trans)
qed

text \<open>A list of items is copied: the new array holds a copy of each item, in order.\<close>

lemma list_copied:
  assumes s: "store_ok s" "items_ok (ok s) (get s) (Slice a off n)" "b = st_next s"
    and r: "copy_items into get put a off b [0..<n] (put (go_make (get s) b z n) s\<lparr>st_next := Suc b\<rparr>) = s'"
  shows "extends V s s'" "store_ok s'" "items_ok (ok s') (get s') (Slice b 0 n)"
    "view_items (view s') (get s') (Slice b 0 n) = view_items (view s) (get s) (Slice a off n)"
    "reach_items reach (get s') (Slice b 0 n) \<subseteq> {b..<st_next s'}"
proof -
  obtain xs where xs: "get s a = Some xs" "off + n \<le> length xs"
    "list_all (ok s) (take n (drop off xs))"
    using s(2) by (auto simp: items_ok_def elems_def split: option.splits)
  have ab: "a < b" using get_below [OF s(1)] xs(1) s(3) by (auto simp: below_def)
  define A where "A = go_make (get s) b z n"
  define s1 where "s1 = put A s\<lparr>st_next := Suc b\<rparr>"
  have ok1: "store_ok s1"
  proof -
    have "store_ok (s\<lparr>st_next := Suc b\<rparr>)"
      using s(1,3) by (auto simp: store_ok_def intro: below_mono)
    then have "store_ok (put A (s\<lparr>st_next := Suc b\<rparr>))"
      using get_below [OF s(1)] s(3) by (intro put_ok) (simp_all add: A_def go_make_def below_upd)
    then show ?thesis by (simp add: put_next s1_def)
  qed
  have same1: "same_on {..<b} s s1"
    by (auto simp: s1_def same_put A_def go_make_def agree_def)
  have items: "ok s (xs ! (off + i)) \<and> reach (xs ! (off + i)) \<subseteq> {..<b}" if "i < n" for i
    using xs that reach_below [OF s(1)] s(3) by (auto simp: list_all_length)
  have keep1: "ok s1 (xs ! (off + i)) \<and> view s1 (xs ! (off + i)) = view s (xs ! (off + i))" if "i < n" for i
    using items [OF that] by (intro keeps same_on_mono [OF same1]) (simp_all add: s1_def)
  have get1: "get s1 a = Some xs" "get s1 b = Some (replicate n z)" "b < st_next s1"
    using ab xs by (simp_all add: s1_def A_def go_make_def)
  have items1: "\<forall>i<n. ok s1 (xs ! (off + i)) \<and> reach (xs ! (off + i)) \<subseteq> {..<b}"
    using items keep1 by blast
  obtain zs where z: "store_ok s'" "same_on {..<b} s1 s'" "lib_extends V (st_lib s1) (st_lib s')"
    "st_next s1 \<le> st_next s'" "get s' b = Some zs" "length zs = n"
    "\<forall>k<n. copied s1 s' b (xs ! (off + k)) (zs ! k)"
    using loop [OF ok1 get1(1) xs(2) ab get1(3) items1 get1(2), of 0] r
    by (auto simp: s1_def A_def)
  show "extends V s s'"
    using z same_on_trans [OF same1 z(2)] s(3) by (simp add: extends_def s1_def)
  show "store_ok s'" by (rule z(1))
  show "items_ok (ok s') (get s') (Slice b 0 n)"
    using z by (simp add: items_ok_def elems_def list_all_length copied_def)
  show "view_items (view s') (get s') (Slice b 0 n) = view_items (view s) (get s) (Slice a off n)"
    using z xs keep1 by (simp add: view_items_def elems_def list_eq_iff_nth_eq copied_def)
  have "reach (zs ! k) \<subseteq> {b..<st_next s'}" if "k < n" for k
    using z(7) that by (fastforce simp: copied_def)
  moreover have "b < st_next s'" using z(4) by (simp add: s1_def)
  ultimately show "reach_items reach (get s') (Slice b 0 n) \<subseteq> {b..<st_next s'}"
    using z(5,6) by (fastforce simp: reach_items_def elems_def in_set_conv_nth)
qed

text \<open>What a list reads does not depend on addresses it does not reach.\<close>

lemma list_keeps:
  assumes "items_ok (ok s) (get s) sl" "same_on (reach_items reach (get s) sl) s t"
    "lib_extends V (st_lib s) (st_lib t)"
  shows "view_items (view t) (get t) sl = view_items (view s) (get s) sl"
proof (cases sl)
  case Nil_Slice
  then show ?thesis by (simp add: view_items_def)
next
  case (Slice a off n)
  have g: "get t a = get s a"
    using same_get [OF assms(2)] Slice by (simp add: agree_def reach_items_def)
  then have el: "elems (get t) a off n = elems (get s) a off n" by (simp add: elems_def)
  have "view t x = view s x" if "x \<in> set (elems (get s) a off n)" for x
  proof -
    have "ok s x" using assms(1) Slice that by (simp add: items_ok_def list_all_iff)
    moreover have "same_on (reach x) s t"
      using that Slice by (intro same_on_mono [OF assms(2)]) (auto simp: reach_items_def)
    ultimately show ?thesis using keeps assms(3) by blast
  qed
  with Slice el show ?thesis by (simp add: view_items_def)
qed

lemma list_below:
  assumes "store_ok s" "items_ok (ok s) (get s) sl"
  shows "reach_items reach (get s) sl \<subseteq> {..<st_next s}"
  using assms cells_below [of "get s" sl] get_below reach_below
  by (cases sl) (fastforce simp: items_ok_def reach_items_def list_all_iff)+

end

interpretation topologies: item_copies "topology_DeepCopyInto L" st_topos set_topos V
  "\<lambda>s x. lib_law V L \<and> topology_ok V s x" "view_topology V" reach_topology
  for L :: "('m, 'l, 'h) meta_lib" and V :: "('m, 'l, 'h, 'v, 'u) meta_sem"
proof (unfold_locales, goal_cases)
  case (10 s x y s')
  then show ?case using topology_copied(1) [of V L s x y s'] by (simp add: made_def)
next
  case (11 s x y s')
  then show ?case using topology_copied(1) [of V L s x y s'] by (simp add: made_def)
next
  case (12 s x y s')
  then show ?case using topology_copied(2,3) [of V L s x y s'] by simp
next
  case (13 s x y s')
  then show ?case using topology_copied(1) [of V L s x y s'] by (simp add: made_def)
next
  case (14 x s t)
  then show ?case using topology_keeps [of x s t V] by simp
next
  case (15 s x)
  then show ?case using reach_topology_below [of s V x] by simp
qed (simp_all add: same_on_def store_ok_def)

interpretation objs: item_copies "obj_DeepCopyInto L" st_objs set_objs V
  "\<lambda>s x. lib_law V L \<and> obj_ok V s x" "view_obj V" reach_obj
  for L :: "('m, 'l, 'h) meta_lib" and V :: "('m, 'l, 'h, 'v, 'u) meta_sem"
proof (unfold_locales, goal_cases)
  case (10 s x y s')
  then show ?case using obj_copied(1) [of V L s x y s'] by (simp add: made_def)
next
  case (11 s x y s')
  then show ?case using obj_copied(1) [of V L s x y s'] by (simp add: made_def)
next
  case (12 s x y s')
  then show ?case using obj_copied(2,3) [of V L s x y s'] by simp
next
  case (13 s x y s')
  then show ?case using obj_copied(1) [of V L s x y s'] by (simp add: made_def)
next
  case (14 x s t)
  then show ?case using obj_keeps [of x s t V] by simp
next
  case (15 s x)
  then show ?case using reach_obj_below [of s V x] by simp
qed (simp_all add: same_on_def store_ok_def)

section \<open>The lists as a whole\<close>

definition reach_topologyList :: "('m, 'h) store \<Rightarrow> 'l TopologyList \<Rightarrow> nat set" where
  "reach_topologyList s x = reach_items reach_topology (st_topos s) (tlist_Items x)"

definition reach_objList :: "('m, 'h) store \<Rightarrow> 'l GWireKObjList \<Rightarrow> nat set" where
  "reach_objList s x = reach_items reach_obj (st_objs s) (gol_Items x)"

lemma topologyList_copied:
  assumes L: "lib_law V L" and s: "store_ok s" "topologyList_ok V s x"
    and c: "topologyList_DeepCopyInto L x s = (y, s')"
  shows "extends V s s'" "view_topologyList V s' y = view_topologyList V s x"
    "reach_topologyList s' y \<subseteq> {st_next s..<st_next s'}"
proof -
  obtain lm h where m: "ml_copy_list L (st_lib s) (tlist_ListMeta x) = (lm, h)" by fastforce
  then have lib: "lib_extends V (st_lib s) h" "okl V h lm" "vl V h lm = vl V (st_lib s) (tlist_ListMeta x)"
    using L s(2) by (simp_all add: lib_law_def topologyList_ok_def)
  define s1 where "s1 = s\<lparr>st_lib := h\<rparr>"
  have m1: "extends V s s1" "store_ok s1"
    using lib_step [OF s(1) lib(1)] by (simp_all add: made_def s1_def)
  have v1: "view_topology V s1 z = view_topology V s z \<and> topology_ok V s1 z" if "topology_ok V s z" for z
    using that lib(1)
    by (simp add: view_topology_def topology_ok_def s1_def view_status_def view_spec_def lib_extends_def)
  have all: "extends V s s' \<and> view_topologyList V s' y = view_topologyList V s x \<and>
    reach_topologyList s' y \<subseteq> {st_next s..<st_next s'}"
  proof (cases "tlist_Items x")
    case Nil_Slice
    then have "y = x\<lparr>tlist_ListMeta := lm\<rparr>" "s' = s1"
      using c m by (simp_all add: topologyList_DeepCopyInto_def s1_def)
    then show ?thesis using m1 lib(3) Nil_Slice
      by (simp add: view_topologyList_def view_items_def s1_def reach_topologyList_def reach_items_def)
  next
    case (Slice a off n)
    have ok1: "items_ok (\<lambda>z. lib_law V L \<and> topology_ok V s1 z) (st_topos s1) (Slice a off n)"
      using s(2) v1 L Slice by (auto simp: topologyList_ok_def items_ok_def s1_def list_all_iff)
    have r: "y = x\<lparr>tlist_ListMeta := lm, tlist_Items := Slice (st_next s1) 0 n\<rparr>"
      "copy_items (topology_DeepCopyInto L) st_topos set_topos a off (st_next s1) [0..<n]
        (set_topos (go_make (st_topos s1) (st_next s1) (zero_Topology L) n) s1\<lparr>st_next := Suc (st_next s1)\<rparr>) = s'"
      using c m Slice by (simp_all add: topologyList_DeepCopyInto_def s1_def Let_def)
    note f = topologies.list_copied [where V = V, OF m1(2) ok1 refl r(2)]
    have l: "vl V (st_lib s') lm = vl V (st_lib s) (tlist_ListMeta x)"
      using f(1) lib by (simp add: extends_def lib_extends_def s1_def)
    have "view_items (view_topology V s1) (st_topos s1) (Slice a off n) =
      view_items (view_topology V s) (st_topos s) (Slice a off n)"
      using s(2) v1 Slice
      by (auto simp: topologyList_ok_def items_ok_def view_items_def s1_def list_all_iff)
    then show ?thesis
      using f(1,4,5) r(1) l Slice extends_trans [OF m1(1) f(1)]
      by (simp add: view_topologyList_def reach_topologyList_def s1_def)
  qed
  then show "extends V s s'" "view_topologyList V s' y = view_topologyList V s x"
    "reach_topologyList s' y \<subseteq> {st_next s..<st_next s'}" by simp_all
qed

lemma objList_copied:
  assumes L: "lib_law V L" and s: "store_ok s" "objList_ok V s x"
    and c: "objList_DeepCopyInto L x s = (y, s')"
  shows "extends V s s'" "view_objList V s' y = view_objList V s x"
    "reach_objList s' y \<subseteq> {st_next s..<st_next s'}"
proof -
  obtain lm h where m: "ml_copy_list L (st_lib s) (gol_ListMeta x) = (lm, h)" by fastforce
  then have lib: "lib_extends V (st_lib s) h" "okl V h lm" "vl V h lm = vl V (st_lib s) (gol_ListMeta x)"
    using L s(2) by (simp_all add: lib_law_def objList_ok_def)
  define s1 where "s1 = s\<lparr>st_lib := h\<rparr>"
  have m1: "extends V s s1" "store_ok s1"
    using lib_step [OF s(1) lib(1)] by (simp_all add: made_def s1_def)
  have v1: "view_obj V s1 z = view_obj V s z \<and> obj_ok V s1 z" if "obj_ok V s z" for z
    using that lib(1)
    by (simp add: view_obj_def obj_ok_def s1_def view_nodestatus_def view_nodespec_def lib_extends_def)
  have all: "extends V s s' \<and> view_objList V s' y = view_objList V s x \<and>
    reach_objList s' y \<subseteq> {st_next s..<st_next s'}"
  proof (cases "gol_Items x")
    case Nil_Slice
    then have "y = x\<lparr>gol_ListMeta := lm\<rparr>" "s' = s1"
      using c m by (simp_all add: objList_DeepCopyInto_def s1_def)
    then show ?thesis using m1 lib(3) Nil_Slice
      by (simp add: view_objList_def view_items_def s1_def reach_objList_def reach_items_def)
  next
    case (Slice a off n)
    have ok1: "items_ok (\<lambda>z. lib_law V L \<and> obj_ok V s1 z) (st_objs s1) (Slice a off n)"
      using s(2) v1 L Slice by (auto simp: objList_ok_def items_ok_def s1_def list_all_iff)
    have r: "y = x\<lparr>gol_ListMeta := lm, gol_Items := Slice (st_next s1) 0 n\<rparr>"
      "copy_items (obj_DeepCopyInto L) st_objs set_objs a off (st_next s1) [0..<n]
        (set_objs (go_make (st_objs s1) (st_next s1) (zero_Obj L) n) s1\<lparr>st_next := Suc (st_next s1)\<rparr>) = s'"
      using c m Slice by (simp_all add: objList_DeepCopyInto_def s1_def Let_def)
    note f = objs.list_copied [where V = V, OF m1(2) ok1 refl r(2)]
    have l: "vl V (st_lib s') lm = vl V (st_lib s) (gol_ListMeta x)"
      using f(1) lib by (simp add: extends_def lib_extends_def s1_def)
    have "view_items (view_obj V s1) (st_objs s1) (Slice a off n) =
      view_items (view_obj V s) (st_objs s) (Slice a off n)"
      using s(2) v1 Slice
      by (auto simp: objList_ok_def items_ok_def view_items_def s1_def list_all_iff)
    then show ?thesis
      using f(1,4,5) r(1) l Slice extends_trans [OF m1(1) f(1)]
      by (simp add: view_objList_def reach_objList_def s1_def)
  qed
  then show "extends V s s'" "view_objList V s' y = view_objList V s x"
    "reach_objList s' y \<subseteq> {st_next s..<st_next s'}" by simp_all
qed

text \<open>The original survives the copy and every later write outside its own addresses.\<close>

lemma topologyList_keeps:
  assumes "lib_law V L" "store_ok s" "topologyList_ok V s x" "extends V s t"
  shows "view_topologyList V t x = view_topologyList V s x"
proof -
  have ok: "items_ok (\<lambda>z. lib_law V L \<and> topology_ok V s z) (st_topos s) (tlist_Items x)"
    using assms(1,3) by (simp add: topologyList_ok_def items_ok_def)
  have "view_items (view_topology V t) (st_topos t) (tlist_Items x) =
    view_items (view_topology V s) (st_topos s) (tlist_Items x)"
    using topologies.list_below [OF assms(2) ok] assms(4)
    by (intro topologies.list_keeps [OF ok]) (auto simp: extends_def intro: same_on_mono)
  with assms(3,4) show ?thesis
    by (simp add: view_topologyList_def topologyList_ok_def extends_def lib_extends_def)
qed

lemma objList_keeps:
  assumes "lib_law V L" "store_ok s" "objList_ok V s x" "extends V s t"
  shows "view_objList V t x = view_objList V s x"
proof -
  have ok: "items_ok (\<lambda>z. lib_law V L \<and> obj_ok V s z) (st_objs s) (gol_Items x)"
    using assms(1,3) by (simp add: objList_ok_def items_ok_def)
  have "view_items (view_obj V t) (st_objs t) (gol_Items x) =
    view_items (view_obj V s) (st_objs s) (gol_Items x)"
    using objs.list_below [OF assms(2) ok] assms(4)
    by (intro objs.list_keeps [OF ok]) (auto simp: extends_def intro: same_on_mono)
  with assms(3,4) show ?thesis
    by (simp add: view_objList_def objList_ok_def extends_def lib_extends_def)
qed

lemma written_outside:
  assumes "extends V s s'" "X \<subseteq> {st_next s..<st_next s'}"
    "same_on (- X) s' t" "st_lib t = st_lib s'" "st_next t = st_next s'"
  shows "extends V s t"
proof -
  have "same_on {..<st_next s} s' t"
    using assms(2) by (intro same_on_mono [OF assms(3)]) auto
  with assms show ?thesis by (auto simp: extends_def intro: same_on_trans)
qed

lemma objList_DeepCopy_reads_as_original:
  assumes "lib_law V L" "store_ok s" "objList_ok V s x" "objList_DeepCopy L (Some x) s = (Some y, s')"
  shows "view_objList V s' y = view_objList V s x"
  using objList_copied [OF assms(1-3), of y s'] assms(4)
  by (simp add: objList_DeepCopy_def deep_copy_def split: prod.splits)

lemma objList_DeepCopy_independent:
  assumes "lib_law V L" "store_ok s" "objList_ok V s x" "objList_DeepCopy L (Some x) s = (Some y, s')"
    "same_on (- reach_objList s' y) s' t" "st_lib t = st_lib s'" "st_next t = st_next s'"
  shows "view_objList V t x = view_objList V s x"
proof -
  have c: "objList_DeepCopyInto L x s = (y, s')"
    using assms(4) by (simp add: objList_DeepCopy_def deep_copy_def split: prod.splits)
  note f = objList_copied [OF assms(1-3) c]
  show ?thesis
    using written_outside [OF f(1,3) assms(5-7)] by (rule objList_keeps [OF assms(1-3)])
qed

text \<open>Only a nil pointer has the nil interface as its copy.\<close>

lemma deep_copy_object_nil: "fst (deep_copy_object (deep_copy into) x s) = Nil_Iface \<longleftrightarrow> x = None"
  by (cases x) (simp_all add: deep_copy_object_def deep_copy_def split: prod.splits)

lemma deep_copy_object_not_nil_pointer: "fst (deep_copy_object copy x s) \<noteq> Iface None"
  by (simp add: deep_copy_object_def split: prod.splits option.splits)

text \<open>
  A library for the examples: a metadata value is a name and a slice of labels in a heap
  of string arrays; a list's metadata is a string.
\<close>

definition lab_lib :: "(string \<times> slice, string, string arrays \<times> nat) meta_lib" where
  "lab_lib = \<lparr>ml_zero = ('''', Nil_Slice),
     ml_copy = (\<lambda>(A, nx) (nm, sl). case dup_slice '''' A nx sl of (sl', A', nx') \<Rightarrow> ((nm, sl'), (A', nx'))),
     ml_copy_list = (\<lambda>h l. (l, h))\<rparr>"

definition lab_sem ::
  "(string \<times> slice, string, string arrays \<times> nat, string \<times> string list option, string) meta_sem" where
  "lab_sem = \<lparr>okm = (\<lambda>(A, nx) (nm, sl). below A nx \<and> slice_ok A sl),
     vm = (\<lambda>(A, nx) (nm, sl). (nm, read_slice A sl)), okl = (\<lambda>h l. True), vl = (\<lambda>h l. l)\<rparr>"

lemma lab_extends:
  assumes "below A nx" "slice_ok A sl" "dup_slice z A nx sl = (sl', A', nx')"
  shows "lib_extends lab_sem (A, nx) (A', nx')"
proof -
  note f = dup_slice_cases [OF assms]
  have k: "read_slice A' sl0 = read_slice A sl0 \<and> slice_ok A' sl0" if "slice_ok A sl0" for sl0
    using slice_keeps [OF agree_mono [OF f(2) cells_below [OF that assms(1)]]] that by simp
  then show ?thesis using f(3) by (auto simp: lib_extends_def lab_sem_def)
qed

lemma lab_law: "lib_law lab_sem lab_lib"
  unfolding lib_law_def
proof (intro conjI allI impI)
  fix h m m' h'
  assume c: "ml_copy lab_lib h m = (m', h')" and k: "okm lab_sem h m"
  obtain A nx nm sl where hm: "h = (A, nx)" "m = (nm, sl)" by (metis surj_pair)
  obtain sl' A' nx' where d: "dup_slice '''' A nx sl = (sl', A', nx')" by (metis prod_cases3)
  then have r: "m' = (nm, sl')" "h' = (A', nx')" using c hm by (simp_all add: lab_lib_def)
  have ok: "below A nx" "slice_ok A sl" using k hm by (simp_all add: lab_sem_def)
  note f = dup_slice_cases [OF ok d]
  show "lib_extends lab_sem h h'" using lab_extends [OF ok d] hm r by simp
  show "okm lab_sem h' m'" "vm lab_sem h' m' = vm lab_sem h m"
    using f hm r by (simp_all add: lab_sem_def)
qed (simp_all add: lab_lib_def lab_sem_def)

definition demo_store :: "(string \<times> slice, string arrays \<times> nat) store" where
  "demo_store = \<lparr>st_links = [0 \<mapsto> [zero_TopoLink\<lparr>tl_UID := 7\<rparr>]],
     st_skipped = (\<lambda>_. None), st_ints = (\<lambda>_. None), st_wires = (\<lambda>_. None),
     st_topos = [1 \<mapsto> [zero_Topology lab_lib\<lparr>to_ObjectMeta := (''r1'', Slice 0 0 1),
       to_Spec := zero_Spec\<lparr>sp_Links := Slice 0 0 1\<rparr>\<rparr>]],
     st_objs = (\<lambda>_. None), st_next = 2, st_lib = ([0 \<mapsto> [''a'']], 1)\<rparr>"

definition demo_list :: "string TopologyList" where
  "demo_list = \<lparr>tlist_TypeMeta = zero_TypeMeta, tlist_ListMeta = ''v1'', tlist_Items = Slice 1 0 1\<rparr>"

lemma demo_store_ok: "store_ok demo_store"
  by (simp add: store_ok_def demo_store_def below_def)

lemma demo_list_ok: "topologyList_ok lab_sem demo_store demo_list"
  by (simp add: topologyList_ok_def items_ok_def demo_list_def demo_store_def lab_sem_def
      topology_ok_def elems_def below_def zero_Topology_def zero_Status_def zero_Spec_def)

text \<open>
  C30: The copy that DeepCopyObject of a TopologyList answers reads exactly as the original did:
  the same type and list metadata, nil items where they were nil, and the same topologies
  in the same order, with their links and skip lists.  It is never the nil interface.
\<close>

theorem deep_copy_reads_as_original:
  assumes "lib_law V L" "store_ok s" "topologyList_ok V s x"
    and "topologyList_DeepCopyObject L (Some x) s = (c, s')"
  shows "\<exists>y. c = Iface (Some y) \<and> view_topologyList V s' y = view_topologyList V s x"
proof -
  obtain y s1 where d: "topologyList_DeepCopyInto L x s = (y, s1)" by fastforce
  then have "c = Iface (Some y)" "s' = s1"
    using assms(4)
    by (simp_all add: topologyList_DeepCopyObject_def topologyList_DeepCopy_def deep_copy_object_def deep_copy_def)
  with topologyList_copied(2) [OF assms(1-3) d] show ?thesis by blast
qed

lemma deep_copy_reads_as_original_witness:
  "\<exists>y. fst (topologyList_DeepCopyObject lab_lib (Some demo_list) demo_store) = Iface (Some y) \<and>
    view_topologyList lab_sem (snd (topologyList_DeepCopyObject lab_lib (Some demo_list) demo_store)) y =
    view_topologyList lab_sem demo_store demo_list"
  by (rule deep_copy_reads_as_original [OF lab_law demo_store_ok demo_list_ok]) simp

text \<open>
  C29: a deep copy of a TopologyList shares nothing with its original: after any writes through the
  arrays that the copy reaches (its items, their links and their skip lists), the original
  reads as it did before it was copied.
\<close>

theorem deep_copy_is_independent:
  assumes "lib_law V L" "store_ok s" "topologyList_ok V s x"
    and "topologyList_DeepCopy L (Some x) s = (Some y, s')"
    and "same_on (- reach_topologyList s' y) s' t" "st_lib t = st_lib s'" "st_next t = st_next s'"
  shows "view_topologyList V t x = view_topologyList V s x"
proof -
  have c: "topologyList_DeepCopyInto L x s = (y, s')"
    using assms(4) by (simp add: topologyList_DeepCopy_def deep_copy_def split: prod.splits)
  note f = topologyList_copied [OF assms(1-3) c]
  show ?thesis
    using written_outside [OF f(1,3) assms(5-7)] by (rule topologyList_keeps [OF assms(1-3)])
qed

text \<open>In the example the link of the copied topology is rewritten; the original keeps link 7.\<close>

definition demo_copy :: "string TopologyList \<times> (string \<times> slice, string arrays \<times> nat) store" where
  "demo_copy = topologyList_DeepCopyInto lab_lib demo_list demo_store"

definition demo_written :: "(string \<times> slice, string arrays \<times> nat) store" where
  "demo_written = (snd demo_copy)\<lparr>st_links := (st_links (snd demo_copy))(3 \<mapsto> [zero_TopoLink])\<rparr>"

lemmas demo_copy_simps = demo_copy_def topologyList_DeepCopyInto_def topology_DeepCopyInto_def
  status_DeepCopyInto_def spec_DeepCopyInto_def dup_slice_def demo_list_def demo_store_def
  lab_lib_def zero_Topology_def zero_Status_def zero_Spec_def elems_def write_at_def go_make_def
  go_copy_def

lemma demo_reach: "3 \<in> reach_topologyList (snd demo_copy) (fst demo_copy)"
  by (simp add: demo_copy_simps reach_topologyList_def reach_items_def reach_topology_def Let_def)

lemma deep_copy_is_independent_witness:
  "st_links demo_written 3 = Some [zero_TopoLink] \<and>
   view_topologyList lab_sem demo_written demo_list = view_topologyList lab_sem demo_store demo_list"
proof
  show "st_links demo_written 3 = Some [zero_TopoLink]" by (simp add: demo_written_def)
  have "same_on (- reach_topologyList (snd demo_copy) (fst demo_copy)) (snd demo_copy) demo_written"
    using demo_reach by (auto simp: same_on_def demo_written_def agree_def)
  then show "view_topologyList lab_sem demo_written demo_list = view_topologyList lab_sem demo_store demo_list"
    by (rule deep_copy_is_independent [OF lab_law demo_store_ok demo_list_ok, rotated])
      (simp_all add: demo_written_def demo_copy_def topologyList_DeepCopy_def deep_copy_def split: prod.splits)
qed

end
