(* ===== verification/Api_Clients.thy ===== *)
theory Api_Clients
  imports Cluster_Links Topology_Client Startup
begin

text \<open>
  How the program gets at its two custom resources: the scheme and the typed client of
  \<open>api/clientset\<close> and \<open>api/types\<close>, and the client of the wire records in
  \<open>daemon/grpcwire/gwire_recon.go\<close>.  Both are thin layers over one dynamic client, which
  is the library's; the other theories take the operations they come down to as the
  fields of \<open>kube_env\<close>.
\<close>

section \<open>The dynamic client\<close>

record GVR =
  gvr_Group :: string
  gvr_Version :: string
  gvr_Resource :: string

record ListOptions =
  lo_Kind :: string
  lo_FieldSelector :: "(string \<times> string) list"
  lo_Watch :: bool

definition all_objects :: ListOptions where
  "all_objects = \<lparr>lo_Kind = '''', lo_FieldSelector = [], lo_Watch = False\<rparr>"

text \<open>A \<open>NamespaceableResourceInterface\<close>: its operations take the namespace first.\<close>

record 'w resource =
  rs_List :: "string \<Rightarrow> ListOptions \<Rightarrow> ('w, json list res) io"
  rs_Get :: "string \<Rightarrow> string \<Rightarrow> ('w, json res) io"
  rs_Create :: "string \<Rightarrow> json \<Rightarrow> ('w, json res) io"
  rs_Update :: "string \<Rightarrow> json \<Rightarrow> ('w, json res) io"
  rs_UpdateStatus :: "string \<Rightarrow> json \<Rightarrow> ('w, json res) io"
  rs_Delete :: "string \<Rightarrow> string \<Rightarrow> ('w, goerr option) io"
  rs_Watch :: "string \<Rightarrow> ListOptions \<Rightarrow> ('w, nat res) io"

type_synonym 'w dynamic_client = "GVR \<Rightarrow> 'w resource"

section \<open>The typed client\<close>

definition topologies_gvr :: GVR where
  "topologies_gvr = \<lparr>gvr_Group = GroupName, gvr_Version = GroupVersion, gvr_Resource = ''topologies''\<rparr>"

definition get_GVR :: GVR where "get_GVR = topologies_gvr"

definition groupVersion :: "string \<times> string" where "groupVersion = (GroupName, GroupVersion)"

definition GV :: "string \<times> string" where "GV = groupVersion"

record 'w Clientset =
  cs_dInterface :: "'w resource"

record 'w topologyClient =
  tc_dInterface :: "'w resource"
  tc_ns :: string

text \<open>The fields of a REST configuration that \<open>NewForConfig\<close> touches, beside the rate.\<close>

datatype serializer = NoSerializer | CodecsWithoutConversion

record 'f full_config = "'f rest_config" +
  fc_GroupVersion :: "(string \<times> string) option"
  fc_APIPath :: string
  fc_NegotiatedSerializer :: serializer
  fc_UserAgent :: string

text \<open>
  \<open>dyn\<close> is \<open>dynamic.NewForConfig\<close> and \<open>agent\<close> the default user agent.  As in the code,
  the settings go to a copy of the configuration that is not used any more.
\<close>

definition NewForConfig ::
    "('f full_config \<Rightarrow> ('w, 'w dynamic_client res) io) \<Rightarrow> string \<Rightarrow> 'f full_config \<Rightarrow> ('w, 'w Clientset res) io" where
  "NewForConfig dyn agent c =
     (let config = c;
          config = config\<lparr>fc_GroupVersion := Some groupVersion\<rparr>;
          config = config\<lparr>fc_APIPath := ''/apis''\<rparr>;
          config = config\<lparr>fc_NegotiatedSerializer := CodecsWithoutConversion\<rparr>;
          config = config\<lparr>fc_UserAgent := agent\<rparr>
      in do {
        r \<leftarrow> dyn c;
        (case r of
           Inl e \<Rightarrow> return (Inl e)
         | Inr dClient \<Rightarrow> return (Inr \<lparr>cs_dInterface = dClient topologies_gvr\<rparr>))
      })"

definition SetDynamicClient :: "'w resource \<Rightarrow> 'w Clientset \<Rightarrow> 'w Clientset" where
  "SetDynamicClient d c = c\<lparr>cs_dInterface := d\<rparr>"

definition client_of_namespace :: "'w Clientset \<Rightarrow> string \<Rightarrow> 'w topologyClient" where
  "client_of_namespace c namespace = \<lparr>tc_dInterface = cs_dInterface c, tc_ns = namespace\<rparr>"

definition client_Unstructured :: "'w topologyClient \<Rightarrow> string \<Rightarrow> ('w, json res) io" where
  "client_Unstructured t name = rs_Get (tc_dInterface t) (tc_ns t) name"

definition client_Update :: "unstr_lib \<Rightarrow> 'w topologyClient \<Rightarrow> json \<Rightarrow> ('w, Topology res) io" where
  "client_Update u t ob = do {
     r \<leftarrow> rs_UpdateStatus (tc_dInterface t) (tc_ns t) ob;
     return (case r of Inl e \<Rightarrow> Inl e | Inr ob' \<Rightarrow> as_topology u ob')
   }"

definition client_Watch :: "'w topologyClient \<Rightarrow> ListOptions \<Rightarrow> ('w, nat res) io" where
  "client_Watch t opts = rs_Watch (tc_dInterface t) (tc_ns t) (opts\<lparr>lo_Watch := True\<rparr>)"

text \<open>The fake client set of the tests: \<open>fake\<close> is the library's fake dynamic client.\<close>

definition NewSimpleClientset ::
    "('f full_config \<Rightarrow> ('w, 'w dynamic_client res) io) \<Rightarrow> string \<Rightarrow> 'f full_config \<Rightarrow> (json list \<Rightarrow> 'w dynamic_client) \<Rightarrow>
     json list \<Rightarrow> ('w, 'w Clientset res) io" where
  "NewSimpleClientset dyn agent empty_config fake objects = do {
     r \<leftarrow> NewForConfig dyn agent empty_config;
     (case r of
        Inl e \<Rightarrow> return (Inl e)
      | Inr cs \<Rightarrow> do {
          let c = fake objects;
          return (Inr (SetDynamicClient (c get_GVR) cs))
        })
   }"

section \<open>The scheme\<close>

text \<open>
  The scheme that knows the Go types of the group, over the library's scheme.  An error of
  \<open>AddMetaToScheme\<close> panics when the package is loaded: \<open>Inl\<close> of the message.
\<close>

record 's scheme_lib =
  NewScheme :: 's
  AddKnownTypes :: "string \<times> string \<Rightarrow> string list \<Rightarrow> 's \<Rightarrow> 's"
  AddToGroupVersion :: "string \<times> string \<Rightarrow> 's \<Rightarrow> 's"
  AddMetaToScheme :: "'s \<Rightarrow> 's \<times> goerr option"
  ObjectKind :: "'s \<Rightarrow> string \<Rightarrow> ((string \<times> string) \<times> string) option"

definition SchemeGroupVersion :: "string \<times> string" where "SchemeGroupVersion = (GroupName, GroupVersion)"

definition scheme_init :: "'s scheme_lib \<Rightarrow> string + 's" where
  "scheme_init L =
     (let Scheme = NewScheme L;
          Scheme = AddKnownTypes L SchemeGroupVersion [''Topology'', ''TopologyList''] Scheme;
          Scheme = AddToGroupVersion L SchemeGroupVersion Scheme
      in case AddMetaToScheme L Scheme of
           (Scheme, Some err) \<Rightarrow> Inl (''failed to add meta to scheme: '' @ err_text err)
         | (Scheme, None) \<Rightarrow> Inr Scheme)"

text \<open>Types that are added have the kind of their name; adding others does not take it back.\<close>

definition scheme_law :: "'s scheme_lib \<Rightarrow> bool" where
  "scheme_law L \<longleftrightarrow>
     (\<forall>gv ks s k. k \<in> set ks \<longrightarrow> ObjectKind L (AddKnownTypes L gv ks s) k = Some (gv, k)) \<and>
     (\<forall>gv s k g. ObjectKind L s k = Some g \<longrightarrow> ObjectKind L (AddToGroupVersion L gv s) k = Some g) \<and>
     (\<forall>s k g. ObjectKind L s k = Some g \<longrightarrow> ObjectKind L (fst (AddMetaToScheme L s)) k = Some g)"

lemma scheme_knows_topology:
  assumes "scheme_law L" "scheme_init L = Inr s"
  shows "ObjectKind L s ''Topology'' = Some ((''networkop.co.uk'', ''v1beta1''), ''Topology'')"
proof -
  let ?s = "AddToGroupVersion L SchemeGroupVersion (AddKnownTypes L SchemeGroupVersion [''Topology'', ''TopologyList''] (NewScheme L))"
  have s: "s = fst (AddMetaToScheme L ?s)" using assms(2) by (auto simp: scheme_init_def split: prod.splits option.splits)
  have k: "ObjectKind L (AddKnownTypes L SchemeGroupVersion [''Topology'', ''TopologyList''] (NewScheme L)) ''Topology'' =
      Some (SchemeGroupVersion, ''Topology'')"
    using assms(1) unfolding scheme_law_def by (meson list.set_intros(1))
  have "ObjectKind L ?s ''Topology'' = Some (SchemeGroupVersion, ''Topology'')"
    using assms(1) k unfolding scheme_law_def by blast
  then have "ObjectKind L s ''Topology'' = Some (SchemeGroupVersion, ''Topology'')"
    using assms(1) unfolding scheme_law_def s by blast
  then show ?thesis by (simp add: SchemeGroupVersion_def GroupName_def GroupVersion_def)
qed

section \<open>The client of the wire records\<close>

text \<open>The global \<open>gWClient\<close>; before it is set its interface is nil and nothing uses it.\<close>

record 'w GWireClient =
  gc_di :: "'w resource"
  gc_gvr :: GVR

definition SetGWireClient :: "'w dynamic_client \<Rightarrow> 'w GWireClient \<Rightarrow> 'w GWireClient" where
  "SetGWireClient gClient gWClient =
     (let gWClient = gWClient\<lparr>gc_gvr := \<lparr>gvr_Group = GroupName, gvr_Version = GroupVersion, gvr_Resource = GWireResNamePlural\<rparr>\<rparr>
      in gWClient\<lparr>gc_di := gClient (gc_gvr gWClient)\<rparr>)"

definition SetGWireClientInterface :: "'w resource \<Rightarrow> 'w GWireClient \<Rightarrow> 'w GWireClient" where
  "SetGWireClientInterface gClient gWClient = gWClient\<lparr>gc_di := gClient\<rparr>"

definition GetWireObjListUS :: "'w GWireClient \<Rightarrow> string \<Rightarrow> ('w, json list res) io" where
  "GetWireObjListUS gc ndName =
     rs_List (gc_di gc) ''''
       \<lparr>lo_Kind = ''GWireKObj'', lo_FieldSelector = [(''metadata.name'', ndName)], lo_Watch = False\<rparr>"

definition CreatWireObj :: "'w GWireClient \<Rightarrow> string \<Rightarrow> json \<Rightarrow> ('w, json res) io" where
  "CreatWireObj gc nSpace uWbj = rs_Create (gc_di gc) nSpace uWbj"

definition UpdateWireObj :: "'w GWireClient \<Rightarrow> string \<Rightarrow> json \<Rightarrow> ('w, json res) io" where
  "UpdateWireObj gc nSpace wObjsOnNd = rs_Update (gc_di gc) nSpace wObjsOnNd"

definition read_wire_obj :: "'w GWireClient \<Rightarrow> string \<Rightarrow> string \<Rightarrow> ('w, json res) io" where
  "read_wire_obj gc nSpace nodeName = rs_Get (gc_di gc) nSpace nodeName"

section \<open>Two clients, two resources\<close>

definition wires_gvr :: GVR where
  "wires_gvr = \<lparr>gvr_Group = GroupName, gvr_Version = GroupVersion, gvr_Resource = GWireResNamePlural\<rparr>"

text \<open>
  Both clients come from one dynamic client; the topologies and the wire records are
  different resources of the same group.
\<close>

lemma two_resources: "topologies_gvr \<noteq> wires_gvr"
  by (simp add: topologies_gvr_def wires_gvr_def GWireResNamePlural_def)

lemma wires_client: "gc_di (SetGWireClient dc gc) = dc wires_gvr" "gc_gvr (SetGWireClient dc gc) = wires_gvr"
  by (simp_all add: SetGWireClient_def wires_gvr_def)

lemma topologies_client:
  assumes "run_state (NewForConfig dyn agent c) w = (Inr cs, w')"
  obtains dc where "run_state (dyn c) w = (Inr dc, w')" "cs_dInterface cs = dc topologies_gvr"
  using assms by (auto simp: NewForConfig_def split: sum.splits prod.splits)

text \<open>
  An update that the server took is reported as an error when its answer does not convert:
  the caller cannot tell it from one that was refused.
\<close>

lemma client_Update_answer:
  assumes "run_state (rs_UpdateStatus (tc_dInterface t) (tc_ns t) ob) w = (Inr ob', w')" "FromTopology u ob' = Inl e"
  shows "run_state (client_Update u t ob) w = (Inl (Wrap ''failed to type assert return to Topology: '' e), w')"
  using assms by (simp add: client_Update_def as_topology_def)

end
