(* ===== verification/Restart.thy ===== *)
theory Restart
  imports Api_Clients Daemon_Calls
begin

text \<open>
  A daemon that restarts.  Its memory is empty, and what it knows of its wires is what it
  has recorded in the API server.  Storing a wire (\<open>Wire_Store\<close>) and reconciliation
  (\<open>Wire_Ops\<close>) are composed here over the store between them: the daemon that starts
  again has every wire that was recorded.
\<close>

section \<open>What reconciliation does to the world\<close>

definition on_world :: "('w \<Rightarrow> 'w \<Rightarrow> bool) \<Rightarrow> 'w daemon \<Rightarrow> 'w daemon \<Rightarrow> bool" where
  "on_world R d d' \<longleftrightarrow> R (dm_world d) (dm_world d')"

definition node_calls_keep :: "('w \<Rightarrow> 'w \<Rightarrow> bool) \<Rightarrow> 'w sys \<Rightarrow> bool" where
  "node_calls_keep R sy \<longleftrightarrow> os_keeps R (sy_os sy) \<and> net_keeps R (sy_net sy) \<and> gw_keeps R (sy_kube sy) \<and>
     keeps R (Interfaces (sy_net sy))"

lemma world_lift: "keeps R m \<Longrightarrow> keeps (on_world R) (lift m)"
  by (auto simp: keeps_def on_world_def split: prod.splits)

context frame
begin

lemma on_world_frame: "frame (on_world R)"
  by unfold_locales (auto simp: on_world_def intro: refl_R trans_R)

lemma world_table:
  "keeps (on_world R) (on_wires f)" "keeps (on_world R) (start_thread a n)"
  "keeps (on_world R) (alloc_wire i n c wd g)" "keeps (on_world R) (wire_of a)"
  "keeps (on_world R) SetNodeClient"
  "keeps (on_world R) (modifies (\<lambda>d. d\<lparr>dm_index := ix d\<rparr>))"
  "keeps (on_world R) (modifies (\<lambda>d. d\<lparr>dm_carrier := cr d\<rparr>))"
  by (auto simp: keeps_def on_world_def on_wires_def start_thread_def alloc_wire_def wire_of_def SetNodeClient_def refl_R
      split: prod.splits)

lemma keeps_deleteGRPCWireStatus:
  assumes "gw_keeps R k"
  shows "keeps R (deleteGRPCWireStatus u k ws)"
proof -
  have n: "\<And>ns n. keeps R (GwGet k ns n)" "\<And>ns ob. keeps R (GwUpdate k ns ob)"
    "\<And>fn. keeps R fn \<Longrightarrow> keeps R (RetryOnConflict k fn)"
    using assms by (simp_all add: gw_keeps_def retry_keeps_def)
  have "keeps R (delete_attempt u k ws)"
    unfolding delete_attempt_def GetWireObjGrpUS_def
    by (intro keeps_bind keeps_sum keeps_if keeps_option keeps_prod keeps_as_err keeps_return n)
  then show ?thesis unfolding deleteGRPCWireStatus_def by (rule n(3))
qed

lemma keeps_reCreateGWire:
  assumes "node_calls_keep R sy"
  shows "keeps (on_world R) (reCreateGWire sy ws)"
proof -
  note W = on_world_frame
  have nt: "net_keeps R (sy_net sy)" and gw: "gw_keeps R (sy_kube sy)" using assms by (simp_all add: node_calls_keep_def)
  have n: "keeps R (LinkByName (sy_net sy) c nm)" "keeps R (PcapOpenLive (sy_net sy) nm)" for c nm
    using nt by (simp_all add: net_keeps_def)
  note rules = world_lift [OF n(1)] world_lift [OF n(2)] world_lift [OF keeps_deleteGRPCWireStatus [OF gw]] world_table
  have "keeps (on_world R) (reconLocalGRPCWire sy wd)" for wd
    unfolding reconLocalGRPCWire_def
    by (intro frame.keeps_bind [OF W] frame.keeps_sum [OF W] frame.keeps_return [OF W] rules)
  note rules = rules this
  show ?thesis unfolding reCreateGWire_def
    by (intro frame.keeps_bind [OF W] frame.keeps_if [OF W] frame.keeps_option [OF W] frame.keeps_return [OF W]
        frame.keeps_reads [OF W] rules)
qed

lemma keeps_ReconGWires:
  assumes "node_calls_keep R sy" "\<And>m. keeps (on_world R) m \<Longrightarrow> keeps (on_world R) (retry m)"
  shows "keeps (on_world R) (ReconGWires retry sy)"
proof -
  note W = on_world_frame
  have os: "os_keeps R (sy_os sy)" and l: "keeps R (GwList (sy_kube sy) n)" for n
    using assms(1) by (simp_all add: node_calls_keep_def gw_keeps_def)
  have all: "keeps (on_world R) (recreate_all sy wss)" for wss
    by (induction wss) (auto intro: frame.keeps_return [OF W] frame.keeps_bind [OF W] keeps_reCreateGWire [OF assms(1)])
  have "keeps (on_world R) (recon_attempt sy nd)" for nd
    unfolding recon_attempt_def
    by (intro frame.keeps_bind [OF W] frame.keeps_sum [OF W] frame.keeps_return [OF W] world_lift [OF l] all)
  note rules = world_lift [OF keeps_findNodeName [OF os]] assms(2) [OF this]
  show ?thesis unfolding ReconGWires_def
    by (intro frame.keeps_bind [OF W] frame.keeps_sum [OF W] frame.keeps_return [OF W] rules)
qed

end

section \<open>A wire that is tracked as it was recorded\<close>

definition tracked_as :: "GWireStatus \<Rightarrow> 'w daemon \<Rightarrow> bool" where
  "tracked_as ws d \<longleftrightarrow>
     (\<exists>a w. GetWire (gs_LocalPodNetNs ws) (gs_LinkId ws) (dm_wires d) = Some a \<and> wheap (dm_wires d) a = Some w \<and>
        CreateWireStatus w (gs_LocalNodeName ws) = ws \<and> gw_IsReady w \<and>
        handles (dm_wires d) (gw_LocalNodeIfaceID w) \<noteq> None \<and> (a, gw_LocalNodeIfaceName w) \<in> set (dm_threads d))"

definition heap_below :: "'w daemon \<Rightarrow> bool" where
  "heap_below d \<longleftrightarrow> (\<forall>a. wheap (dm_wires d) a \<noteq> None \<longrightarrow> a < wnext (dm_wires d))"

lemma tracked_world [simp]: "tracked_as ws (d\<lparr>dm_world := w\<rparr>) = tracked_as ws d" "heap_below (d\<lparr>dm_world := w\<rparr>) = heap_below d"
  by (simp_all add: tracked_as_def heap_below_def)

text \<open>
  One record is restored: either nothing but the world changes, or a wire with the record's
  fields is filed at the next address and its thread started.
\<close>

definition restored_wire :: "GWireStatus \<Rightarrow> nlink \<Rightarrow> nat \<Rightarrow> GRPCWire" where
  "restored_wire ws l c =
     (CreateGWire (word_of_int (nl_Index l)) (gs_WireIfaceNameOnLocalNode ws) c (wiredef_of ws))\<lparr>gw_IsReady := True\<rparr>"

definition file_restored :: "GWireStatus \<Rightarrow> nlink \<Rightarrow> nat \<Rightarrow> 'w \<Rightarrow> 'w daemon \<Rightarrow> 'w daemon" where
  "file_restored ws l h w d =
     (let m = dm_wires d; wr = restored_wire ws l (chnext m) in
      d\<lparr>dm_world := w,
        dm_wires := m\<lparr>wheap := (wheap m)(wnext m \<mapsto> wr), wnext := Suc (wnext m),
          wires := (wires m)((gs_LocalPodNetNs ws, gs_LinkId ws) \<mapsto> wnext m),
          handles := (handles m)(gw_LocalNodeIfaceID wr \<mapsto> h), chnext := Suc (chnext m)\<rparr>,
        dm_threads := dm_threads d @ [(wnext m, gs_WireIfaceNameOnLocalNode ws)]\<rparr>)"

definition wire_present :: "GWireStatus \<Rightarrow> 'w daemon \<Rightarrow> bool" where
  "wire_present ws d \<longleftrightarrow> (case GetWire (gs_LocalPodNetNs ws) (gs_LinkId ws) (dm_wires d) of
     None \<Rightarrow> False | Some a \<Rightarrow> gw_IsReady (wire_at (dm_wires d) a))"

lemma restored_fields [simp]:
  "gw_LocalPodNetNS (restored_wire ws l c) = gs_LocalPodNetNs ws" "gw_UID (restored_wire ws l c) = gs_LinkId ws"
  "gw_LocalNodeIfaceName (restored_wire ws l c) = gs_WireIfaceNameOnLocalNode ws" "gw_IsReady (restored_wire ws l c)"
  "CreateWireStatus (restored_wire ws l c) (gs_LocalNodeName ws) = ws"
  by (simp_all add: restored_wire_def CreateGWire_def wiredef_of_def zero_WireDef_def CreateWireStatus_def)

lemma reconLocal_run:
  assumes "run_state (LinkByName (sy_net sy) CurrentNs (gs_WireIfaceNameOnLocalNode ws)) (dm_world d) = (Inr l, w1)"
    and "run_state (PcapOpenLive (sy_net sy) (gs_WireIfaceNameOnLocalNode ws)) w1 = (Inr h, w2)"
  shows "run_state (reconLocalGRPCWire sy (wiredef_of ws)) d = (None, file_restored ws l h w2 d)"
proof -
  have n: "wd_WireIfNameOnLocalNode (wiredef_of ws) = gs_WireIfaceNameOnLocalNode ws"
    by (simp add: wiredef_of_def zero_WireDef_def)
  have k: "key_of (restored_wire ws l c) = (gs_LocalPodNetNs ws, gs_LinkId ws)" for c by (simp add: key_of_def)
  show ?thesis
    using assms k [unfolded restored_wire_def]
    by (simp add: reconLocalGRPCWire_def n make_chan_def alloc_wire_def new_wire_def wire_of_def start_thread_def
        AddInMem_def wire_at_def file_restored_def restored_wire_def Let_def) (simp add: CreateGWire_def)
qed

lemma reconLocal_fails:
  assumes "run_state (reconLocalGRPCWire sy wd) d = (Some e, d')"
  shows "\<exists>w. d' = d\<lparr>dm_world := w\<rparr>"
proof -
  obtain r w1 where r: "run_state (LinkByName (sy_net sy) CurrentNs (wd_WireIfNameOnLocalNode wd)) (dm_world d) = (r, w1)"
    by fastforce
  obtain x w2 where x: "run_state (PcapOpenLive (sy_net sy) (wd_WireIfNameOnLocalNode wd)) w1 = (x, w2)" by fastforce
  show ?thesis
  proof (cases r)
    case (Inl y)
    then show ?thesis using assms r by (auto simp: reconLocalGRPCWire_def)
  next
    case (Inr l)
    then show ?thesis using assms r x
      by (cases x) (auto simp: reconLocalGRPCWire_def wire_of_def split: prod.splits)
  qed
qed

lemma recreate_cases:
  assumes "run_state (reCreateGWire sy ws) d = (e, d')"
  obtains (kept) w where "d' = d\<lparr>dm_world := w\<rparr>"
    "wire_present ws d \<or> (\<exists>l w1 x w2. run_state (LinkByName (sy_net sy) CurrentNs (gs_WireIfaceNameOnLocalNode ws)) (dm_world d) = (l, w1) \<and>
       run_state (PcapOpenLive (sy_net sy) (gs_WireIfaceNameOnLocalNode ws)) w1 = (x, w2) \<and> (isl l \<or> isl x))"
  | (filed) l h w where "d' = file_restored ws l h w d" "\<not> wire_present ws d"
proof -
  obtain l w1 where l: "run_state (LinkByName (sy_net sy) CurrentNs (gs_WireIfaceNameOnLocalNode ws)) (dm_world d) = (l, w1)"
    by fastforce
  obtain x w2 where x: "run_state (PcapOpenLive (sy_net sy) (gs_WireIfaceNameOnLocalNode ws)) w1 = (x, w2)" by fastforce
  obtain er d1 where r: "run_state (reconLocalGRPCWire sy (wiredef_of ws)) d = (er, d1)" by fastforce
  show thesis
  proof (cases "wire_present ws d")
    case True
    then have "d' = d\<lparr>dm_world := dm_world d\<rparr>"
      using assms by (simp add: reCreateGWire_def wire_present_def)
    then show thesis using kept True by blast
  next
    case False
    then have run: "run_state (do {
       err \<leftarrow> reconLocalGRPCWire sy (wiredef_of ws);
       (case err of
          Some e \<Rightarrow> do {
            ed \<leftarrow> lift (deleteGRPCWireStatus (sy_lib sy) (sy_kube sy) ws);
            return (Some (errorf_v ''reCreateGWire: Failed to reconciliate local end of the GRPC channel: '' e))
          }
        | None \<Rightarrow> return None) }) d = (e, d')"
      using assms by (simp add: reCreateGWire_def wire_present_def)
    show thesis
    proof (cases "isl l \<or> isl x")
      case True
      have n: "wd_WireIfNameOnLocalNode (wiredef_of ws) = gs_WireIfaceNameOnLocalNode ws"
        by (simp add: wiredef_of_def zero_WireDef_def)
      have "er \<noteq> None"
      proof (cases l)
        case (Inl y)
        then show ?thesis using r l by (auto simp: reconLocalGRPCWire_def n)
      next
        case (Inr ll)
        then obtain y where "x = Inl y" using True by (cases x) auto
        then show ?thesis using r l x Inr
          by (auto simp: reconLocalGRPCWire_def n wire_of_def split: prod.splits)
      qed
      then obtain y where y: "er = Some y" by blast
      obtain w where w: "d1 = d\<lparr>dm_world := w\<rparr>" using reconLocal_fails [OF r [unfolded y]] by blast
      have "\<exists>w. d' = d\<lparr>dm_world := w\<rparr>" using run r y w by (auto split: prod.splits)
      then show thesis using kept l x True by blast
    next
      case False
      then obtain ll h where "l = Inr ll" "x = Inr h" by (cases l; cases x) auto
      then have "run_state (reconLocalGRPCWire sy (wiredef_of ws)) d = (None, file_restored ws ll h w2 d)"
        using reconLocal_run [of sy ws d ll w1 h w2] l x by simp
      then have "d' = file_restored ws ll h w2 d" using run r by simp
      then show thesis using filed \<open>\<not> wire_present ws d\<close> by blast
    qed
  qed
qed

text \<open>
  \<open>ifc_stays I sy n\<close>: while the world has the property \<open>I\<close>, which no call of the node
  destroys, the node's interface \<open>n\<close> is found and a capture handle on it can be opened.
\<close>

definition ifc_stays :: "('w \<Rightarrow> bool) \<Rightarrow> 'w sys \<Rightarrow> string \<Rightarrow> bool" where
  "ifc_stays I sy n \<longleftrightarrow> node_calls_keep (\<lambda>w w'. I w \<longrightarrow> I w') sy \<and>
     (\<forall>w. I w \<longrightarrow> \<not> isl (fst (run_state (LinkByName (sy_net sy) CurrentNs n) w)) \<and>
                     \<not> isl (fst (run_state (PcapOpenLive (sy_net sy) n) w)))"

lemma ifc_stays_list: "ifc_stays I sy n \<Longrightarrow> keeps (\<lambda>w w'. I w \<longrightarrow> I w') (GwList (sy_kube sy) nd)"
  by (simp add: ifc_stays_def node_calls_keep_def gw_keeps_def)

interpretation world_stays: frame "\<lambda>w w'. I w \<longrightarrow> I w'" for I :: "'w \<Rightarrow> bool"
  by unfold_locales auto

text \<open>What holds while the records are worked through: the slot of \<open>ws\<close> is its own.\<close>

definition slot_free :: "GWireStatus \<Rightarrow> ('w \<Rightarrow> bool) \<Rightarrow> 'w daemon \<Rightarrow> bool" where
  "slot_free ws I d \<longleftrightarrow> I (dm_world d) \<and> heap_below d \<and>
     (GetWire (gs_LocalPodNetNs ws) (gs_LinkId ws) (dm_wires d) = None \<or> tracked_as ws d)"

lemma tracked_present: "tracked_as ws d \<Longrightarrow> wire_present ws d"
  by (auto simp: tracked_as_def wire_present_def wire_at_def)

lemma filed_tracked: "tracked_as ws (file_restored ws l h w d)"
  by (auto simp: tracked_as_def file_restored_def Let_def GetWire_def)

lemma filed_below: "heap_below d \<Longrightarrow> heap_below (file_restored ws l h w d)"
  by (auto simp: heap_below_def file_restored_def Let_def less_Suc_eq)

lemma filed_other:
  assumes "slot_free ws I d" "(gs_LocalPodNetNs ws', gs_LinkId ws') \<noteq> (gs_LocalPodNetNs ws, gs_LinkId ws)"
  shows "GetWire (gs_LocalPodNetNs ws) (gs_LinkId ws) (dm_wires (file_restored ws' l h w d)) = None \<or>
     tracked_as ws (file_restored ws' l h w d)"
proof -
  have below: "wheap (dm_wires d) a = Some x \<Longrightarrow> a \<noteq> wnext (dm_wires d)" for a x
    using assms(1) by (auto simp: slot_free_def heap_below_def)
  have "GetWire (gs_LocalPodNetNs ws) (gs_LinkId ws) (dm_wires (file_restored ws' l h w d)) =
     GetWire (gs_LocalPodNetNs ws) (gs_LinkId ws) (dm_wires d)"
    using assms(2) by (auto simp: file_restored_def Let_def GetWire_def)
  moreover have "tracked_as ws (file_restored ws' l h w d)" if t: "tracked_as ws d"
  proof -
    obtain a x where a: "GetWire (gs_LocalPodNetNs ws) (gs_LinkId ws) (dm_wires d) = Some a" "wheap (dm_wires d) a = Some x"
      "CreateWireStatus x (gs_LocalNodeName ws) = ws" "gw_IsReady x" "handles (dm_wires d) (gw_LocalNodeIfaceID x) \<noteq> None"
      "(a, gw_LocalNodeIfaceName x) \<in> set (dm_threads d)"
      using t by (auto simp: tracked_as_def)
    show ?thesis unfolding tracked_as_def
      by (intro exI [of _ a] exI [of _ x]) (use a assms(2) below [OF a(2)] in \<open>auto simp: file_restored_def Let_def GetWire_def\<close>)
  qed
  ultimately show ?thesis using assms(1) unfolding slot_free_def by metis
qed

lemma recreate_keeps_slot:
  assumes "ifc_stays I sy (gs_WireIfaceNameOnLocalNode ws)" "slot_free ws I d"
    and "(gs_LocalPodNetNs ws', gs_LinkId ws') = (gs_LocalPodNetNs ws, gs_LinkId ws) \<Longrightarrow> ws' = ws"
    and "run_state (reCreateGWire sy ws') d = (e, d')"
  shows "slot_free ws I d' \<and> (ws' = ws \<or> tracked_as ws d \<longrightarrow> tracked_as ws d')"
proof -
  have nk: "node_calls_keep (\<lambda>w w'. I w \<longrightarrow> I w') sy" using assms(1) by (simp add: ifc_stays_def)
  have world: "I (dm_world d')"
    using keepsD [OF world_stays.keeps_reCreateGWire [OF nk] assms(4)] assms(2) by (simp add: on_world_def slot_free_def)
  show ?thesis
  proof (rule recreate_cases [OF assms(4)])
    fix w
    assume d': "d' = d\<lparr>dm_world := w\<rparr>" and why: "wire_present ws' d \<or> (\<exists>l w1 x w2.
       run_state (LinkByName (sy_net sy) CurrentNs (gs_WireIfaceNameOnLocalNode ws')) (dm_world d) = (l, w1) \<and>
       run_state (PcapOpenLive (sy_net sy) (gs_WireIfaceNameOnLocalNode ws')) w1 = (x, w2) \<and> (isl l \<or> isl x))"
    have "tracked_as ws d" if same: "ws' = ws"
      using why
    proof
      assume "wire_present ws' d"
      then show ?thesis using assms(2) same by (auto simp: slot_free_def wire_present_def)
    next
      assume "\<exists>l w1 x w2.
         run_state (LinkByName (sy_net sy) CurrentNs (gs_WireIfaceNameOnLocalNode ws')) (dm_world d) = (l, w1) \<and>
         run_state (PcapOpenLive (sy_net sy) (gs_WireIfaceNameOnLocalNode ws')) w1 = (x, w2) \<and> (isl l \<or> isl x)"
      then obtain l w1 x w2 where
        l: "run_state (LinkByName (sy_net sy) CurrentNs (gs_WireIfaceNameOnLocalNode ws)) (dm_world d) = (l, w1)" and
        x: "run_state (PcapOpenLive (sy_net sy) (gs_WireIfaceNameOnLocalNode ws)) w1 = (x, w2)" and bad: "isl l \<or> isl x"
        unfolding same by blast
      have I: "I (dm_world d)" using assms(2) by (simp add: slot_free_def)
      have "keeps (\<lambda>w w'. I w \<longrightarrow> I w') (LinkByName (sy_net sy) CurrentNs (gs_WireIfaceNameOnLocalNode ws))"
        using nk by (simp add: node_calls_keep_def net_keeps_def)
      then have "I w1" using keepsD [OF _ l] I by blast
      with I assms(1) have "\<not> isl l" "\<not> isl x" unfolding ifc_stays_def using l x by (metis fst_conv)+
      with bad show ?thesis by simp
    qed
    then show ?thesis using assms(2) world d' by (auto simp: slot_free_def)
  next
    fix l h w
    assume d': "d' = file_restored ws' l h w d" and new: "\<not> wire_present ws' d"
    show ?thesis
    proof (cases "ws' = ws")
      case True
      then show ?thesis
        using d' world assms(2) filed_tracked [of ws l h w d] filed_below [of d ws l h w] by (simp add: slot_free_def)
    next
      case False
      then have k: "(gs_LocalPodNetNs ws', gs_LinkId ws') \<noteq> (gs_LocalPodNetNs ws, gs_LinkId ws)" using assms(3) by blast
      have "tracked_as ws d \<Longrightarrow> GetWire (gs_LocalPodNetNs ws) (gs_LinkId ws) (dm_wires d') \<noteq> None"
        using k d' by (auto simp: tracked_as_def file_restored_def Let_def GetWire_def)
      then show ?thesis
        using filed_other [OF assms(2) k, of l h w] d' world assms(2) filed_below [of d ws' l h w] False
        by (auto simp: slot_free_def)
    qed
  qed
qed

lemma recreate_all_restores:
  assumes "ifc_stays I sy (gs_WireIfaceNameOnLocalNode ws)"
  shows "slot_free ws I d \<Longrightarrow>
     (\<And>s. s \<in> set wss \<Longrightarrow> (gs_LocalPodNetNs s, gs_LinkId s) = (gs_LocalPodNetNs ws, gs_LinkId ws) \<Longrightarrow> s = ws) \<Longrightarrow>
     run_state (recreate_all sy wss) d = ((), d') \<Longrightarrow>
     slot_free ws I d' \<and> (ws \<in> set wss \<or> tracked_as ws d \<longrightarrow> tracked_as ws d')"
proof (induction wss arbitrary: d)
  case (Cons s wss)
  obtain e d1 where r: "run_state (reCreateGWire sy s) d = (e, d1)" by fastforce
  have 1: "slot_free ws I d1 \<and> (s = ws \<or> tracked_as ws d \<longrightarrow> tracked_as ws d1)"
    by (rule recreate_keeps_slot [OF assms Cons.prems(1) _ r]) (use Cons.prems(2) in auto)
  have "run_state (recreate_all sy wss) d1 = ((), d')" using Cons.prems(3) r by simp
  from Cons.IH [OF _ _ this] 1 Cons.prems(2) show ?case by auto
qed auto

section \<open>Stored, restarted, restored\<close>

lemma attempts_inv:
  assumes "attempts fn w r w'" "P w" "\<And>w e w'. P w \<Longrightarrow> run_state fn w = (Some e, w') \<Longrightarrow> P w'"
  shows "\<exists>w0. P w0 \<and> run_state fn w0 = (r, w')"
  using assms by (induction rule: attempts.induct) blast+

lemma recon_restores:
  assumes "gw_store (sy_lib sy) (sy_kube sy) st" "ifc_stays I sy (gs_WireIfaceNameOnLocalNode ws)"
    and "slot_free ws I d" "st (dm_world d) ns nd = Some ob" "ws \<in> set (decoded (sy_lib sy) (node_items (sy_lib sy) ob))"
    and "\<And>ns ob s. st (dm_world d) ns nd = Some ob \<Longrightarrow> s \<in> set (decoded (sy_lib sy) (node_items (sy_lib sy) ob)) \<Longrightarrow>
       (gs_LocalPodNetNs s, gs_LinkId s) = (gs_LocalPodNetNs ws, gs_LinkId ws) \<Longrightarrow> s = ws"
    and "run_state (recon_attempt sy nd) d = (None, d')"
  shows "tracked_as ws d'"
proof -
  have ls: "list_law st (GwList (sy_kube sy))" using assms(1) by (simp add: gw_store_def)
  obtain obs w where l: "run_state (GwList (sy_kube sy) nd) (dm_world d) = (Inr obs, w)"
    and r: "run_state (recreate_all sy (concat (map (\<lambda>n. decoded (sy_lib sy) (node_items (sy_lib sy) n)) obs))) (d\<lparr>dm_world := w\<rparr>) = ((), d')"
    using assms(7) by (auto simp: recon_attempt_def split: prod.splits sum.splits)
  have obs: "set obs = {ob. \<exists>ns. st (dm_world d) ns nd = Some ob}" using list_lawD(2) [OF ls l] by simp
  have "slot_free ws I (d\<lparr>dm_world := w\<rparr>)"
    using keepsD [OF ifc_stays_list [OF assms(2)] l] assms(3) by (simp add: slot_free_def)
  from recreate_all_restores [OF assms(2) this _ r] obs assms(4-6) show ?thesis by auto
qed

text \<open>
  C31: A restart loses no recorded wire. Suppose storing a wire's status succeeded, and the
  daemon then starts again with empty memory, over the same records and with the wire's
  interface still on the node. When reconciliation reports success, the wire is tracked
  under its pod namespace and link id with every recorded field as it was stored, is ready,
  has a capture handle, and has its receive thread; whatever other records are worked
  through before or after it, and whichever of them fail and are deleted.
\<close>

theorem restart_restores_wire:
  assumes "items_laws (sy_lib sy)" "gw_store (sy_lib sy) (sy_kube sy) st" "retry_law (sy_kube sy)" "node_named (sy_os sy) nd"
    and "\<And>m d r d'. run_state (retry m) d = (r, d') \<Longrightarrow> attempts m d r d'"
    and "run_state (updateGRPCWireStatus (sy_lib sy) (sy_kube sy) (CreateWireStatus wire nd)) w = (None, w1)"
    and "\<And>ob. st w (gw_TopoNamespace wire) nd = Some ob \<Longrightarrow> has_items (sy_lib sy) ob"
    and "\<And>ns ob s. st w1 ns nd = Some ob \<Longrightarrow> s \<in> set (decoded (sy_lib sy) (node_items (sy_lib sy) ob)) \<Longrightarrow>
       (gs_LocalPodNetNs s, gs_LinkId s) = (gw_LocalPodNetNS wire, gw_UID wire) \<Longrightarrow> s = CreateWireStatus wire nd"
    and "ifc_stays I sy (gw_LocalNodeIfaceName wire)" "I w2" "st w2 = st w1"
    and "run_state (ReconGWires retry sy) (fresh_daemon w2) = (None, d')"
  shows "tracked_as (CreateWireStatus wire nd) d'"
proof -
  let ?ws = "CreateWireStatus wire nd" and ?u = "sy_lib sy"
  have f: "gs_LocalPodNetNs ?ws = gw_LocalPodNetNS wire" "gs_LinkId ?ws = gw_UID wire"
    "gs_WireIfaceNameOnLocalNode ?ws = gw_LocalNodeIfaceName wire" "gs_TopoNamespace ?ws = gw_TopoNamespace wire"
    "gs_LocalNodeName ?ws = nd"
    by (simp_all add: CreateWireStatus_def)
  obtain ob where ob: "st w1 = set_object (st w) (gw_TopoNamespace wire) nd ob" "?ws \<in> set (decoded ?u (node_items ?u ob))"
    using update_records [OF assms(1-3,6)] assms(7) by (auto simp: f)
  then have at: "st w1 (gw_TopoNamespace wire) nd = Some ob" by (simp add: set_object_def)
  let ?P = "\<lambda>d. slot_free ?ws I d \<and> st (dm_world d) = st w1"
  have start: "?P (fresh_daemon w2)"
    using assms(10,11) by (simp add: slot_free_def fresh_daemon_def heap_below_def GetWire_def empty_wires_def)
  have ls: "list_law st (GwList (sy_kube sy))" using assms(2) by (simp add: gw_store_def)
  have stay: "?P d'" if "?P d" "run_state (recon_attempt sy nd) d = (Some e, d')" for d e d'
  proof -
    obtain x w' where l: "run_state (GwList (sy_kube sy) nd) (dm_world d) = (x, w')" by fastforce
    have d': "d' = d\<lparr>dm_world := w'\<rparr>"
      using that(2) l by (auto simp: recon_attempt_def split: prod.splits sum.splits)
    show ?thesis
      using that(1) list_lawD(1) [OF ls l] keepsD [OF ifc_stays_list [OF assms(9)] l] d' by (simp add: slot_free_def)
  qed
  have "run_state (retry (recon_attempt sy nd)) (fresh_daemon w2) = (None, d')"
    using assms(12) by (simp add: ReconGWires_def findNodeName_named [OF assms(4)] split: prod.splits)
  from assms(5) [OF this] have "\<exists>d0. ?P d0 \<and> run_state (recon_attempt sy nd) d0 = (None, d')"
    by (rule attempts_inv [where P = ?P, OF _ start]) (rule stay)
  then obtain d0 where d0: "?P d0" "run_state (recon_attempt sy nd) d0 = (None, d')" by blast
  show ?thesis
    using recon_restores [OF assms(2) _ _ _ ob(2) _ d0(2), of I "gw_TopoNamespace wire"] assms(8,9) d0(1) at by (simp add: f)
qed

lemma ref_ifc_stays: "ifc_stays (\<lambda>w. True) (ref_sys env) n"
  by (simp add: ifc_stays_def node_calls_keep_def os_keeps_def net_keeps_def gw_keeps_def retry_keeps_def keeps_def)

lemma recon_runs: "\<exists>d'. run_state (ReconGWires id (ref_sys demo_env)) d = (None, d')"
proof -
  have "node_named (sy_os (ref_sys demo_env)) ''node1''" using demo_node_named by simp
  then show ?thesis by (simp add: ReconGWires_def findNodeName_named recon_attempt_def split: prod.split)
qed

theorem restart_restores_wire_witness:
  "\<exists>w1 d'. run_state (updateGRPCWireStatus ref_lib ref_kube (CreateWireStatus demo_wire_a ''node1'')) demo_api = (None, w1) \<and>
     run_state (ReconGWires id (ref_sys demo_env)) (fresh_daemon w1) = (None, d') \<and>
     tracked_as (CreateWireStatus demo_wire_a ''node1'') d'"
proof -
  let ?ws = "CreateWireStatus demo_wire_a ''node1''"
  have new: "gw_of demo_api ns n = None" for ns n by (simp add: gw_of_def demo_api_def)
  obtain w1 where w1: "run_state (updateGRPCWireStatus ref_lib ref_kube ?ws) demo_api = (None, w1)"
    using demo_store_runs by blast
  obtain w0 where w0: "gw_of w0 = gw_of demo_api" "run_state (update_attempt ref_lib ref_kube ?ws) w0 = (None, w1)"
    using update_effect [OF ref_items_laws ref_gw_store ref_retry w1] by blast
  have only: "s = ?ws" if "gw_of w1 ns ''node1'' = Some ob" "s \<in> set (decoded ref_lib (node_items ref_lib ob))" for ns ob s
    using update_attempt_effect [OF ref_items_laws ref_gw_store w0(2)] that
    by (auto simp: w0(1) new set_object_def split: if_splits)
  obtain d' where r: "run_state (ReconGWires id (ref_sys demo_env)) (fresh_daemon w1) = (None, d')" using recon_runs by blast
  have "tracked_as ?ws d'"
  proof (rule restart_restores_wire [where sy = "ref_sys demo_env" and st = gw_of and w = demo_api and ?w1.0 = w1 and ?w2.0 = w1
        and retry = id and I = "\<lambda>w. True"])
    show "run_state (id m) d = (x, d') \<Longrightarrow> attempts m d x d'" for m :: "(api, goerr option) dio" and d x d'
      by (simp add: attempts.last_attempt)
    show "s = ?ws" if "gw_of w1 ns ''node1'' = Some ob"
      "s \<in> set (decoded (sy_lib (ref_sys demo_env)) (node_items (sy_lib (ref_sys demo_env)) ob))" for ns ob s
      using that only by simp
  qed (use r w1 new demo_node_named ref_items_laws ref_gw_store ref_retry ref_ifc_stays in simp_all)
  with w1 r show ?thesis by blast
qed

end
