(* ===== verification/Processes.thy ===== *)
theory Processes
  imports Restart
begin

text \<open>
  The two programs as processes.  The whole of \<open>daemon/main.go\<close>: the start of \<open>Startup\<close>,
  the background work it sets off, \<open>Serve\<close>, and what becomes of the deferred
  \<open>cni.Cleanup\<close> at each way the process ends.  And \<open>main\<close> of \<open>plugin/meshnet.go\<close>.
\<close>

section \<open>The daemon\<close>

text \<open>\<open>main\<close> ends by \<open>os.Exit\<close>, which runs no deferred call, or by returning, which does.\<close>

datatype main_outcome = MainWaiting | MainExit nat | MainReturned

text \<open>
  \<open>serve\<close> is \<open>grpc.Server.Serve\<close> on the listener: it blocks until the server stops.  What
  the handlers and the goroutines started just before (the carrier watches,
  \<open>reassert_states\<close>, \<open>RemoveReadinessTaintWhenReady\<close>) do meanwhile is in the change of
  the state it makes.
\<close>

definition daemon_process ::
    "nat \<Rightarrow> (('w, goerr option) dio \<Rightarrow> ('w, goerr option) dio) \<Rightarrow> 'w conf_env \<Rightarrow> 'w sys \<Rightarrow> (int \<Rightarrow> ('w, goerr option) io) \<Rightarrow>
     ('w, goerr option) dio \<Rightarrow> ('w, main_outcome) dio" where
  "daemon_process fuel retry ce sy new serve = do {
     r \<leftarrow> daemon_start fuel retry ce sy new;
     (case r of
        StillWaiting \<Rightarrow> return MainWaiting
      | Exited n \<Rightarrow> return (MainExit n)
      | Serves port \<Rightarrow> do {
          err \<leftarrow> serve;
          (case err of
             Some e \<Rightarrow> return (MainExit 1)
           | None \<Rightarrow> do { lift (Cleanup ce); return MainReturned })
        })
   }"

text \<open>The goroutine that tells the peers the present carrier once the server is up.\<close>

definition reassert_states :: "'w sys \<Rightarrow> linkKey list \<Rightarrow> vxKey list \<Rightarrow> ('w, unit) dio" where
  "reassert_states sy ks vks = do {
     lift (Sleep (sy_os sy) (seconds 2));
     ReassertLocalLinkStates sy ks;
     vx_ReassertLocalLinkStates (sy_net sy) (sy_rpc sy) vks
   }"

text \<open>The interceptors that the logging server puts around every call, after the given options.\<close>

datatype interceptor = ContextTags | LogrusLogging

datatype 'o server_option = GivenOption 'o | UnaryChain "interceptor list" | StreamChain "interceptor list"

definition newServerWithLogging :: "'o list \<Rightarrow> 'o server_option list" where
  "newServerWithLogging opts =
     map GivenOption opts @ [UnaryChain [ContextTags, LogrusLogging], StreamChain [ContextTags, LogrusLogging]]"

section \<open>The plugin\<close>

text \<open>
  The CNI library's dispatcher reads the command from the environment and calls the
  handler given for it; the log file is opened if it can be.
\<close>

record 'w skel_lib =
  OpenLog :: "('w, nat res) io"
  CloseLog :: "nat \<Rightarrow> ('w, goerr option) io"
  PluginMainWithError :: "(CmdArgs \<Rightarrow> ('w, goerr option option) io) \<Rightarrow> (CmdArgs \<Rightarrow> ('w, goerr option option) io) \<Rightarrow>
     (CmdArgs \<Rightarrow> ('w, goerr option option) io) \<Rightarrow> ('w, goerr option option) io"

text \<open>The exit code; \<open>None\<close> when ADD is still waiting for the daemon.\<close>

definition plugin_main :: "nat \<Rightarrow> 'w skel_lib \<Rightarrow> 'w plugin \<Rightarrow> ('w, nat option) io" where
  "plugin_main fuel sk pl = do {
     fp \<leftarrow> OpenLog sk;
     pl \<leftarrow> SetInterNodeLinkType pl;
     r \<leftarrow> PluginMainWithError sk (cmdAdd fuel pl) (\<lambda>args. return (Some (cmdGet pl args)))
            (\<lambda>args. do { e \<leftarrow> cmdDel pl args; return (Some e) });
     (case r of
        None \<Rightarrow> return None
      | Some e \<Rightarrow> do {
          let retCode = (if e \<noteq> None then 1 else 0);
          ce \<leftarrow> (case fp of Inl _ \<Rightarrow> return None | Inr f \<Rightarrow> CloseLog sk f);
          return (Some retCode)
        })
   }"

text \<open>An ADD that fails is reported to the kubelet by the exit code, whatever the log file does.\<close>

lemma plugin_exit_code:
  assumes "\<And>a g d. PluginMainWithError sk a g d = a args"
    and "run_state (plugin_main fuel sk pl) w = (Some n, w')"
  shows "\<exists>t w1 e w2. run_state (cmdAdd fuel (pl\<lparr>pl_type := t\<rparr>) args) w1 = (Some e, w2) \<and> (n = 0 \<longleftrightarrow> e = None)"
proof -
  obtain fp w0 where o: "run_state (OpenLog sk) w = (fp, w0)" by fastforce
  obtain t w1 where t: "run_state (LookupInterNodeLinkType (pl_os pl)) w0 = (t, w1)" by fastforce
  obtain r w2 where r: "run_state (cmdAdd fuel (pl\<lparr>pl_type := t\<rparr>) args) w1 = (r, w2)" by fastforce
  obtain e where e: "r = Some e" using assms o t r by (cases r) (simp_all add: plugin_main_def SetInterNodeLinkType_def)
  have "n = 0 \<longleftrightarrow> e = None"
    using assms o t r e by (auto simp: plugin_main_def SetInterNodeLinkType_def split: prod.splits sum.splits if_splits)
  with r e show ?thesis by blast
qed

section \<open>What the start leaves alone\<close>

abbreviation world_files :: "('w \<Rightarrow> string \<Rightarrow> string option) \<Rightarrow> 'w daemon \<Rightarrow> 'w daemon \<Rightarrow> bool" where
  "world_files files \<equiv> on_world (\<lambda>w w'. files w' = files w)"

interpretation daemon_files: frame "world_files files" for files :: "'w \<Rightarrow> string \<Rightarrow> string option"
  by (rule frame.on_world_frame [OF files_kept.frame_axioms])

lemma files_seed:
  assumes "node_calls_keep (\<lambda>w w'. files w' = files w) sy"
    and "\<And>m. keeps (world_files files) m \<Longrightarrow> keeps (world_files files) (retry m)"
    and "\<And>p. keeps (\<lambda>w w'. files w' = files w) (new p)"
  shows "keeps (world_files files) (seed_and_serve retry sy new)"
proof -
  have i: "keeps (\<lambda>w w'. files w' = files w) (Interfaces (sy_net sy))" using assms(1) by (simp add: node_calls_keep_def)
  note rules = world_lift [OF i] world_lift [OF assms(3)] frame.world_table [OF files_kept.frame_axioms]
    frame.keeps_ReconGWires [OF files_kept.frame_axioms assms(1,2)]
  show ?thesis unfolding seed_and_serve_def
    by (intro daemon_files.keeps_bind daemon_files.keeps_option daemon_files.keeps_return rules)
qed

section \<open>What an exit leaves behind\<close>

text \<open>
  C24: Once the configuration is installed, only a server that stops without an error takes
  it back. If the server cannot be created, or serving ends in an error, the process exits
  by \<open>os.Exit\<close>, which skips the deferred clean-up: the meshnet configuration stays
  installed exactly as \<open>Init\<close> wrote it, and the kubelet goes on calling the plugin on a
  node without a daemon.
\<close>

theorem failed_daemon_leaves_configuration:
  assumes "fs_law ce files" "node_calls_keep (\<lambda>w w'. files w' = files w) sy"
    and "\<And>m. keeps (world_files files) m \<Longrightarrow> keeps (world_files files) (retry m)"
    and "\<And>p. keeps (\<lambda>w w'. files w' = files w) (new p)" "keeps (world_files files) serve"
    and "run_state (WaitForNetConfig fuel ce (sy_os sy) DefaultWaitTimeout DefaultWaitInterval) (dm_world d) = (Some None, w1)"
    and "run_state (Init ce (sy_os sy)) w1 = (None, w2)"
    and "run_state (daemon_process fuel retry ce sy new serve) d = (out, d')"
  shows "\<exists>bytes w. files w = installed (sy_os sy) bytes (files (dm_world d)) \<and>
     (out = MainReturned \<and> run_state (Cleanup ce) w = ((), dm_world d') \<or> out = MainExit 1 \<and> files (dm_world d') = files w)"
proof -
  have os: "os_keeps (\<lambda>w w'. files w' = files w) (sy_os sy)" using assms(2) by (simp add: node_calls_keep_def)
  have w1: "files w1 = files (dm_world d)" using keepsD [OF wait_keeps [OF assms(1) os] assms(6)] .
  obtain bytes where w2: "files w2 = installed (sy_os sy) bytes (files (dm_world d))"
    using Init_installs [OF assms(1,7)] w1 by metis
  obtain r d2 where s: "run_state (seed_and_serve retry sy new) (d\<lparr>dm_world := w2\<rparr>) = (r, d2)" by fastforce
  have "world_files files (d\<lparr>dm_world := w2\<rparr>) d2"
    by (rule keepsD [OF files_seed [of files, OF assms(2,3,4)] s])
  then have f2: "files (dm_world d2) = files w2" by (simp add: on_world_def)
  have start: "run_state (daemon_start fuel retry ce sy new) d = (r, d2)"
    using assms(6,7) s by (simp add: daemon_start_def)
  have r: "r = Exited 1 \<or> (\<exists>port. r = Serves port)"
    using s by (auto simp: seed_and_serve_def split: prod.splits option.splits)
  show ?thesis
  proof (cases r)
    case (Exited n)
    then have "out = MainExit 1" "d' = d2" using r start assms(8) by (simp_all add: daemon_process_def)
    then show ?thesis using f2 w2 by (intro exI [of _ bytes] exI [of _ w2]) simp
  next
    case (Serves port)
    obtain e d3 where e: "run_state serve d2 = (e, d3)" by fastforce
    have "world_files files d2 d3" by (rule keepsD [OF assms(5) e])
    then have f3: "files (dm_world d3) = installed (sy_os sy) bytes (files (dm_world d))"
      using f2 w2 by (simp add: on_world_def)
    show ?thesis
    proof (cases e)
      case None
      obtain w4 where "run_state (Cleanup ce) (dm_world d3) = ((), w4)" by (metis old.unit.exhaust surj_pair)
      then show ?thesis using None start Serves e assms(8) f3
        by (intro exI [of _ bytes] exI [of _ "dm_world d3"]) (auto simp: daemon_process_def)
    next
      case (Some x)
      then show ?thesis using start Serves e assms(8) f3
        by (intro exI [of _ bytes] exI [of _ "dm_world d3"]) (simp add: daemon_process_def)
    qed
  qed (use r in simp)
qed

text \<open>A node where the port is taken.\<close>

abbreviation "port_taken \<equiv> \<lambda>p :: int. return (Some (Err ''address already in use'')) :: (string \<Rightarrow> string option, goerr option) io"

lemma map_sys_calls: "node_calls_keep (\<lambda>w w'. w' = w) map_sys"
  by (simp add: node_calls_keep_def map_sys_def os_keeps_def net_keeps_def gw_keeps_def retry_keeps_def ref_os_def
      ref_net_def keeps_def)

theorem failed_daemon_leaves_configuration_witness:
  "\<exists>d' bytes. run_state (daemon_process 1 id map_env map_sys port_taken (return None)) (fresh_daemon Map.empty) = (MainExit 1, d') \<and>
     dm_world d' = installed (ref_os set_env :: (string \<Rightarrow> string option) os_env) bytes Map.empty"
proof -
  obtain w1 where i: "run_state (Init map_env (ref_os set_env)) Map.empty = (None, w1)" using Init_demo by (elim exE)
  obtain out d' where run: "run_state (daemon_process 1 id map_env map_sys port_taken (return None)) (fresh_daemon Map.empty) = (out, d')"
    by fastforce
  have exit: "out = MainExit 1"
    using run wait_demo i
    by (auto simp: daemon_process_def daemon_start_def seed_and_serve_def split: prod.splits start_outcome.splits option.splits)
  have s: "keeps (world_files (\<lambda>w. w)) (return None)" by (rule daemon_files.keeps_return)
  have p: "keeps (\<lambda>w w'. w' = w) (port_taken n)" for n by (simp add: keeps_def)
  have ri: "keeps (world_files (\<lambda>w. w)) m \<Longrightarrow> keeps (world_files (\<lambda>w. w)) (id m)"
    for m :: "(string \<Rightarrow> string option, goerr option) dio" by simp
  from failed_daemon_leaves_configuration [where retry = id and d = "fresh_daemon Map.empty", OF map_env_law map_sys_calls ri p s, unfolded map_sys_os fresh_world, OF _ wait_demo i run]
  show ?thesis using run exit by auto
qed

end
