(* ===== verification/Proto_Messages.thy ===== *)
theory Proto_Messages
  imports Messages
begin

text \<open>
  The messages as \<open>daemon/proto/meshnet/v1beta1/meshnet.pb.go\<close> handles them: any of them
  as an \<open>interface{}\<close>, the struct that \<open>new\<close> makes, the type assertions, the getters that
  may be called on a nil pointer, and the tables that give every method of the three
  services its request and reply type.
\<close>

section \<open>Messages as \<open>interface{}\<close> values\<close>

datatype msg_type =
    T_Pod
  | T_Link
  | T_PodQuery
  | T_SkipQuery
  | T_BoolResponse
  | T_RemotePod
  | T_WireDef
  | T_WireCreateResponse
  | T_WireDownResponse
  | T_WireLinkState
  | T_VxlanLinkDef
  | T_Packet
  | T_GenerateNodeInterfaceNameRequest
  | T_GenerateNodeInterfaceNameResponse

datatype msg =
    M_Pod Pod
  | M_Link Link
  | M_PodQuery PodQuery
  | M_SkipQuery SkipQuery
  | M_BoolResponse BoolResponse
  | M_RemotePod RemotePod
  | M_WireDef WireDef
  | M_WireCreateResponse WireCreateResponse
  | M_WireDownResponse WireDownResponse
  | M_WireLinkState WireLinkState
  | M_VxlanLinkDef VxlanLinkDef
  | M_Packet Packet
  | M_GenerateNodeInterfaceNameRequest GenerateNodeInterfaceNameRequest
  | M_GenerateNodeInterfaceNameResponse GenerateNodeInterfaceNameResponse

fun type_of :: "msg \<Rightarrow> msg_type" where
  "type_of (M_Pod x) = T_Pod"
| "type_of (M_Link x) = T_Link"
| "type_of (M_PodQuery x) = T_PodQuery"
| "type_of (M_SkipQuery x) = T_SkipQuery"
| "type_of (M_BoolResponse x) = T_BoolResponse"
| "type_of (M_RemotePod x) = T_RemotePod"
| "type_of (M_WireDef x) = T_WireDef"
| "type_of (M_WireCreateResponse x) = T_WireCreateResponse"
| "type_of (M_WireDownResponse x) = T_WireDownResponse"
| "type_of (M_WireLinkState x) = T_WireLinkState"
| "type_of (M_VxlanLinkDef x) = T_VxlanLinkDef"
| "type_of (M_Packet x) = T_Packet"
| "type_of (M_GenerateNodeInterfaceNameRequest x) = T_GenerateNodeInterfaceNameRequest"
| "type_of (M_GenerateNodeInterfaceNameResponse x) = T_GenerateNodeInterfaceNameResponse"

definition zero_Link :: Link where
  "zero_Link = \<lparr>lk_PeerPod = '''', lk_LocalIntf = '''', lk_PeerIntf = '''', lk_LocalIp = '''', lk_PeerIp = '''', lk_Uid = 0, lk_Mtu = 0\<rparr>"

definition zero_PodQuery :: PodQuery where
  "zero_PodQuery = \<lparr>pq_Name = '''', pq_KubeNs = ''''\<rparr>"

definition zero_SkipQuery :: SkipQuery where
  "zero_SkipQuery = \<lparr>sq_Pod = '''', sq_Peer = '''', sq_KubeNs = '''', sq_LinkId = 0\<rparr>"

definition zero_BoolResponse :: BoolResponse where
  "zero_BoolResponse = \<lparr>br_Response = False\<rparr>"

definition zero_RemotePod :: RemotePod where
  "zero_RemotePod = \<lparr>rp_NetNs = '''', rp_IntfName = '''', rp_IntfIp = '''', rp_PeerVtep = '''', rp_KubeNs = '''', rp_Vni = 0, rp_NodeIntf = '''', rp_Mtu = 0\<rparr>"

definition zero_WireCreateResponse :: WireCreateResponse where
  "zero_WireCreateResponse = \<lparr>wcr_Response = False, wcr_PeerIntfId = 0\<rparr>"

definition zero_WireDownResponse :: WireDownResponse where
  "zero_WireDownResponse = \<lparr>wdr_Response = False\<rparr>"

definition zero_WireLinkState :: WireLinkState where
  "zero_WireLinkState = \<lparr>wls_LinkUid = 0, wls_LocalPodNetNs = '''', wls_Up = False, wls_PeerIfaceId = 0\<rparr>"

definition zero_VxlanLinkDef :: VxlanLinkDef where
  "zero_VxlanLinkDef = \<lparr>vld_LinkUid = 0, vld_NetNs = '''', vld_IntfName = '''', vld_PeerNodeIp = '''', vld_KubeNs = ''''\<rparr>"

definition zero_Packet :: Packet where
  "zero_Packet = \<lparr>pkt_RemotIntfId = 0, pkt_Frame = []\<rparr>"

definition zero_GenerateNodeInterfaceNameRequest :: GenerateNodeInterfaceNameRequest where
  "zero_GenerateNodeInterfaceNameRequest = \<lparr>gnr_PodIntfName = '''', gnr_PodName = ''''\<rparr>"

definition zero_GenerateNodeInterfaceNameResponse :: GenerateNodeInterfaceNameResponse where
  "zero_GenerateNodeInterfaceNameResponse = \<lparr>gns_Ok = False, gns_NodeIntfName = ''''\<rparr>"

text \<open>\<open>new(T)\<close>\<close>

fun new :: "msg_type \<Rightarrow> msg" where
  "new T_Pod = M_Pod zero_Pod"
| "new T_Link = M_Link zero_Link"
| "new T_PodQuery = M_PodQuery zero_PodQuery"
| "new T_SkipQuery = M_SkipQuery zero_SkipQuery"
| "new T_BoolResponse = M_BoolResponse zero_BoolResponse"
| "new T_RemotePod = M_RemotePod zero_RemotePod"
| "new T_WireDef = M_WireDef zero_WireDef"
| "new T_WireCreateResponse = M_WireCreateResponse zero_WireCreateResponse"
| "new T_WireDownResponse = M_WireDownResponse zero_WireDownResponse"
| "new T_WireLinkState = M_WireLinkState zero_WireLinkState"
| "new T_VxlanLinkDef = M_VxlanLinkDef zero_VxlanLinkDef"
| "new T_Packet = M_Packet zero_Packet"
| "new T_GenerateNodeInterfaceNameRequest = M_GenerateNodeInterfaceNameRequest zero_GenerateNodeInterfaceNameRequest"
| "new T_GenerateNodeInterfaceNameResponse = M_GenerateNodeInterfaceNameResponse zero_GenerateNodeInterfaceNameResponse"

lemma type_of_new [simp]: "type_of (new t) = t"
  by (cases t) simp_all

text \<open>\<open>x.(*T)\<close>; \<open>None\<close> is the panic of an assertion that fails.\<close>

fun as_Pod :: "msg \<Rightarrow> Pod option" where
  "as_Pod (M_Pod x) = Some x"
| "as_Pod x = None"

fun as_Link :: "msg \<Rightarrow> Link option" where
  "as_Link (M_Link x) = Some x"
| "as_Link x = None"

fun as_PodQuery :: "msg \<Rightarrow> PodQuery option" where
  "as_PodQuery (M_PodQuery x) = Some x"
| "as_PodQuery x = None"

fun as_SkipQuery :: "msg \<Rightarrow> SkipQuery option" where
  "as_SkipQuery (M_SkipQuery x) = Some x"
| "as_SkipQuery x = None"

fun as_BoolResponse :: "msg \<Rightarrow> BoolResponse option" where
  "as_BoolResponse (M_BoolResponse x) = Some x"
| "as_BoolResponse x = None"

fun as_RemotePod :: "msg \<Rightarrow> RemotePod option" where
  "as_RemotePod (M_RemotePod x) = Some x"
| "as_RemotePod x = None"

fun as_WireDef :: "msg \<Rightarrow> WireDef option" where
  "as_WireDef (M_WireDef x) = Some x"
| "as_WireDef x = None"

fun as_WireCreateResponse :: "msg \<Rightarrow> WireCreateResponse option" where
  "as_WireCreateResponse (M_WireCreateResponse x) = Some x"
| "as_WireCreateResponse x = None"

fun as_WireDownResponse :: "msg \<Rightarrow> WireDownResponse option" where
  "as_WireDownResponse (M_WireDownResponse x) = Some x"
| "as_WireDownResponse x = None"

fun as_WireLinkState :: "msg \<Rightarrow> WireLinkState option" where
  "as_WireLinkState (M_WireLinkState x) = Some x"
| "as_WireLinkState x = None"

fun as_VxlanLinkDef :: "msg \<Rightarrow> VxlanLinkDef option" where
  "as_VxlanLinkDef (M_VxlanLinkDef x) = Some x"
| "as_VxlanLinkDef x = None"

fun as_Packet :: "msg \<Rightarrow> Packet option" where
  "as_Packet (M_Packet x) = Some x"
| "as_Packet x = None"

fun as_GenerateNodeInterfaceNameRequest :: "msg \<Rightarrow> GenerateNodeInterfaceNameRequest option" where
  "as_GenerateNodeInterfaceNameRequest (M_GenerateNodeInterfaceNameRequest x) = Some x"
| "as_GenerateNodeInterfaceNameRequest x = None"

fun as_GenerateNodeInterfaceNameResponse :: "msg \<Rightarrow> GenerateNodeInterfaceNameResponse option" where
  "as_GenerateNodeInterfaceNameResponse (M_GenerateNodeInterfaceNameResponse x) = Some x"
| "as_GenerateNodeInterfaceNameResponse x = None"

text \<open>An assertion succeeds on exactly the messages of its type.\<close>

lemma as_type:
  "as_Pod m \<noteq> None \<longleftrightarrow> type_of m = T_Pod"
  "as_Link m \<noteq> None \<longleftrightarrow> type_of m = T_Link"
  "as_PodQuery m \<noteq> None \<longleftrightarrow> type_of m = T_PodQuery"
  "as_SkipQuery m \<noteq> None \<longleftrightarrow> type_of m = T_SkipQuery"
  "as_BoolResponse m \<noteq> None \<longleftrightarrow> type_of m = T_BoolResponse"
  "as_RemotePod m \<noteq> None \<longleftrightarrow> type_of m = T_RemotePod"
  "as_WireDef m \<noteq> None \<longleftrightarrow> type_of m = T_WireDef"
  "as_WireCreateResponse m \<noteq> None \<longleftrightarrow> type_of m = T_WireCreateResponse"
  "as_WireDownResponse m \<noteq> None \<longleftrightarrow> type_of m = T_WireDownResponse"
  "as_WireLinkState m \<noteq> None \<longleftrightarrow> type_of m = T_WireLinkState"
  "as_VxlanLinkDef m \<noteq> None \<longleftrightarrow> type_of m = T_VxlanLinkDef"
  "as_Packet m \<noteq> None \<longleftrightarrow> type_of m = T_Packet"
  "as_GenerateNodeInterfaceNameRequest m \<noteq> None \<longleftrightarrow> type_of m = T_GenerateNodeInterfaceNameRequest"
  "as_GenerateNodeInterfaceNameResponse m \<noteq> None \<longleftrightarrow> type_of m = T_GenerateNodeInterfaceNameResponse"
  by (cases m; simp)+

section \<open>Getters\<close>

text \<open>Every getter of a nil message answers the zero value of its field.\<close>

text \<open>\<open>Pod\<close>\<close>

definition Pod_GetName :: "Pod option \<Rightarrow> string" where
  "Pod_GetName x = (case x of Some m \<Rightarrow> pod_Name m | None \<Rightarrow> '''')"

definition Pod_GetSrcIp :: "Pod option \<Rightarrow> string" where
  "Pod_GetSrcIp x = (case x of Some m \<Rightarrow> pod_SrcIp m | None \<Rightarrow> '''')"

definition Pod_GetNetNs :: "Pod option \<Rightarrow> string" where
  "Pod_GetNetNs x = (case x of Some m \<Rightarrow> pod_NetNs m | None \<Rightarrow> '''')"

definition Pod_GetKubeNs :: "Pod option \<Rightarrow> string" where
  "Pod_GetKubeNs x = (case x of Some m \<Rightarrow> pod_KubeNs m | None \<Rightarrow> '''')"

definition Pod_GetLinks :: "Pod option \<Rightarrow> Link list" where
  "Pod_GetLinks x = (case x of Some m \<Rightarrow> pod_Links m | None \<Rightarrow> [])"

definition Pod_GetNodeIp :: "Pod option \<Rightarrow> string" where
  "Pod_GetNodeIp x = (case x of Some m \<Rightarrow> pod_NodeIp m | None \<Rightarrow> '''')"

definition Pod_GetNodeIntf :: "Pod option \<Rightarrow> string" where
  "Pod_GetNodeIntf x = (case x of Some m \<Rightarrow> pod_NodeIntf m | None \<Rightarrow> '''')"

definition Pod_GetContainerId :: "Pod option \<Rightarrow> string" where
  "Pod_GetContainerId x = (case x of Some m \<Rightarrow> pod_ContainerId m | None \<Rightarrow> '''')"

text \<open>\<open>Link\<close>\<close>

definition Link_GetPeerPod :: "Link option \<Rightarrow> string" where
  "Link_GetPeerPod x = (case x of Some m \<Rightarrow> lk_PeerPod m | None \<Rightarrow> '''')"

definition Link_GetLocalIntf :: "Link option \<Rightarrow> string" where
  "Link_GetLocalIntf x = (case x of Some m \<Rightarrow> lk_LocalIntf m | None \<Rightarrow> '''')"

definition Link_GetPeerIntf :: "Link option \<Rightarrow> string" where
  "Link_GetPeerIntf x = (case x of Some m \<Rightarrow> lk_PeerIntf m | None \<Rightarrow> '''')"

definition Link_GetLocalIp :: "Link option \<Rightarrow> string" where
  "Link_GetLocalIp x = (case x of Some m \<Rightarrow> lk_LocalIp m | None \<Rightarrow> '''')"

definition Link_GetPeerIp :: "Link option \<Rightarrow> string" where
  "Link_GetPeerIp x = (case x of Some m \<Rightarrow> lk_PeerIp m | None \<Rightarrow> '''')"

definition Link_GetUid :: "Link option \<Rightarrow> int64" where
  "Link_GetUid x = (case x of Some m \<Rightarrow> lk_Uid m | None \<Rightarrow> 0)"

definition Link_GetMtu :: "Link option \<Rightarrow> int32" where
  "Link_GetMtu x = (case x of Some m \<Rightarrow> lk_Mtu m | None \<Rightarrow> 0)"

text \<open>\<open>PodQuery\<close>\<close>

definition PodQuery_GetName :: "PodQuery option \<Rightarrow> string" where
  "PodQuery_GetName x = (case x of Some m \<Rightarrow> pq_Name m | None \<Rightarrow> '''')"

definition PodQuery_GetKubeNs :: "PodQuery option \<Rightarrow> string" where
  "PodQuery_GetKubeNs x = (case x of Some m \<Rightarrow> pq_KubeNs m | None \<Rightarrow> '''')"

text \<open>\<open>SkipQuery\<close>\<close>

definition SkipQuery_GetPod :: "SkipQuery option \<Rightarrow> string" where
  "SkipQuery_GetPod x = (case x of Some m \<Rightarrow> sq_Pod m | None \<Rightarrow> '''')"

definition SkipQuery_GetPeer :: "SkipQuery option \<Rightarrow> string" where
  "SkipQuery_GetPeer x = (case x of Some m \<Rightarrow> sq_Peer m | None \<Rightarrow> '''')"

definition SkipQuery_GetKubeNs :: "SkipQuery option \<Rightarrow> string" where
  "SkipQuery_GetKubeNs x = (case x of Some m \<Rightarrow> sq_KubeNs m | None \<Rightarrow> '''')"

definition SkipQuery_GetLinkId :: "SkipQuery option \<Rightarrow> int64" where
  "SkipQuery_GetLinkId x = (case x of Some m \<Rightarrow> sq_LinkId m | None \<Rightarrow> 0)"

text \<open>\<open>BoolResponse\<close>\<close>

definition BoolResponse_GetResponse :: "BoolResponse option \<Rightarrow> bool" where
  "BoolResponse_GetResponse x = (case x of Some m \<Rightarrow> br_Response m | None \<Rightarrow> False)"

text \<open>\<open>RemotePod\<close>\<close>

definition RemotePod_GetNetNs :: "RemotePod option \<Rightarrow> string" where
  "RemotePod_GetNetNs x = (case x of Some m \<Rightarrow> rp_NetNs m | None \<Rightarrow> '''')"

definition RemotePod_GetIntfName :: "RemotePod option \<Rightarrow> string" where
  "RemotePod_GetIntfName x = (case x of Some m \<Rightarrow> rp_IntfName m | None \<Rightarrow> '''')"

definition RemotePod_GetIntfIp :: "RemotePod option \<Rightarrow> string" where
  "RemotePod_GetIntfIp x = (case x of Some m \<Rightarrow> rp_IntfIp m | None \<Rightarrow> '''')"

definition RemotePod_GetPeerVtep :: "RemotePod option \<Rightarrow> string" where
  "RemotePod_GetPeerVtep x = (case x of Some m \<Rightarrow> rp_PeerVtep m | None \<Rightarrow> '''')"

definition RemotePod_GetKubeNs :: "RemotePod option \<Rightarrow> string" where
  "RemotePod_GetKubeNs x = (case x of Some m \<Rightarrow> rp_KubeNs m | None \<Rightarrow> '''')"

definition RemotePod_GetVni :: "RemotePod option \<Rightarrow> int64" where
  "RemotePod_GetVni x = (case x of Some m \<Rightarrow> rp_Vni m | None \<Rightarrow> 0)"

definition RemotePod_GetNodeIntf :: "RemotePod option \<Rightarrow> string" where
  "RemotePod_GetNodeIntf x = (case x of Some m \<Rightarrow> rp_NodeIntf m | None \<Rightarrow> '''')"

definition RemotePod_GetMtu :: "RemotePod option \<Rightarrow> int32" where
  "RemotePod_GetMtu x = (case x of Some m \<Rightarrow> rp_Mtu m | None \<Rightarrow> 0)"

text \<open>\<open>WireDef\<close>\<close>

definition WireDef_GetWireIfIdOnPeerNode :: "WireDef option \<Rightarrow> int64" where
  "WireDef_GetWireIfIdOnPeerNode x = (case x of Some m \<Rightarrow> wd_WireIfIdOnPeerNode m | None \<Rightarrow> 0)"

definition WireDef_GetPeerNodeIp :: "WireDef option \<Rightarrow> string" where
  "WireDef_GetPeerNodeIp x = (case x of Some m \<Rightarrow> wd_PeerNodeIp m | None \<Rightarrow> '''')"

definition WireDef_GetIntfNameInPod :: "WireDef option \<Rightarrow> string" where
  "WireDef_GetIntfNameInPod x = (case x of Some m \<Rightarrow> wd_IntfNameInPod m | None \<Rightarrow> '''')"

definition WireDef_GetLocalPodNetNs :: "WireDef option \<Rightarrow> string" where
  "WireDef_GetLocalPodNetNs x = (case x of Some m \<Rightarrow> wd_LocalPodNetNs m | None \<Rightarrow> '''')"

definition WireDef_GetLinkUid :: "WireDef option \<Rightarrow> int64" where
  "WireDef_GetLinkUid x = (case x of Some m \<Rightarrow> wd_LinkUid m | None \<Rightarrow> 0)"

definition WireDef_GetLocalPodName :: "WireDef option \<Rightarrow> string" where
  "WireDef_GetLocalPodName x = (case x of Some m \<Rightarrow> wd_LocalPodName m | None \<Rightarrow> '''')"

definition WireDef_GetWireIfNameOnLocalNode :: "WireDef option \<Rightarrow> string" where
  "WireDef_GetWireIfNameOnLocalNode x = (case x of Some m \<Rightarrow> wd_WireIfNameOnLocalNode m | None \<Rightarrow> '''')"

definition WireDef_GetTopoNs :: "WireDef option \<Rightarrow> string" where
  "WireDef_GetTopoNs x = (case x of Some m \<Rightarrow> wd_TopoNs m | None \<Rightarrow> '''')"

definition WireDef_GetLocalPodIp :: "WireDef option \<Rightarrow> string" where
  "WireDef_GetLocalPodIp x = (case x of Some m \<Rightarrow> wd_LocalPodIp m | None \<Rightarrow> '''')"

definition WireDef_GetMtu :: "WireDef option \<Rightarrow> int32" where
  "WireDef_GetMtu x = (case x of Some m \<Rightarrow> wd_Mtu m | None \<Rightarrow> 0)"

text \<open>\<open>WireCreateResponse\<close>\<close>

definition WireCreateResponse_GetResponse :: "WireCreateResponse option \<Rightarrow> bool" where
  "WireCreateResponse_GetResponse x = (case x of Some m \<Rightarrow> wcr_Response m | None \<Rightarrow> False)"

definition WireCreateResponse_GetPeerIntfId :: "WireCreateResponse option \<Rightarrow> int64" where
  "WireCreateResponse_GetPeerIntfId x = (case x of Some m \<Rightarrow> wcr_PeerIntfId m | None \<Rightarrow> 0)"

text \<open>\<open>WireDownResponse\<close>\<close>

definition WireDownResponse_GetResponse :: "WireDownResponse option \<Rightarrow> bool" where
  "WireDownResponse_GetResponse x = (case x of Some m \<Rightarrow> wdr_Response m | None \<Rightarrow> False)"

text \<open>\<open>WireLinkState\<close>\<close>

definition WireLinkState_GetLinkUid :: "WireLinkState option \<Rightarrow> int64" where
  "WireLinkState_GetLinkUid x = (case x of Some m \<Rightarrow> wls_LinkUid m | None \<Rightarrow> 0)"

definition WireLinkState_GetLocalPodNetNs :: "WireLinkState option \<Rightarrow> string" where
  "WireLinkState_GetLocalPodNetNs x = (case x of Some m \<Rightarrow> wls_LocalPodNetNs m | None \<Rightarrow> '''')"

definition WireLinkState_GetUp :: "WireLinkState option \<Rightarrow> bool" where
  "WireLinkState_GetUp x = (case x of Some m \<Rightarrow> wls_Up m | None \<Rightarrow> False)"

definition WireLinkState_GetPeerIfaceId :: "WireLinkState option \<Rightarrow> int64" where
  "WireLinkState_GetPeerIfaceId x = (case x of Some m \<Rightarrow> wls_PeerIfaceId m | None \<Rightarrow> 0)"

text \<open>\<open>VxlanLinkDef\<close>\<close>

definition VxlanLinkDef_GetLinkUid :: "VxlanLinkDef option \<Rightarrow> int64" where
  "VxlanLinkDef_GetLinkUid x = (case x of Some m \<Rightarrow> vld_LinkUid m | None \<Rightarrow> 0)"

definition VxlanLinkDef_GetNetNs :: "VxlanLinkDef option \<Rightarrow> string" where
  "VxlanLinkDef_GetNetNs x = (case x of Some m \<Rightarrow> vld_NetNs m | None \<Rightarrow> '''')"

definition VxlanLinkDef_GetIntfName :: "VxlanLinkDef option \<Rightarrow> string" where
  "VxlanLinkDef_GetIntfName x = (case x of Some m \<Rightarrow> vld_IntfName m | None \<Rightarrow> '''')"

definition VxlanLinkDef_GetPeerNodeIp :: "VxlanLinkDef option \<Rightarrow> string" where
  "VxlanLinkDef_GetPeerNodeIp x = (case x of Some m \<Rightarrow> vld_PeerNodeIp m | None \<Rightarrow> '''')"

definition VxlanLinkDef_GetKubeNs :: "VxlanLinkDef option \<Rightarrow> string" where
  "VxlanLinkDef_GetKubeNs x = (case x of Some m \<Rightarrow> vld_KubeNs m | None \<Rightarrow> '''')"

text \<open>\<open>Packet\<close>\<close>

definition Packet_GetRemotIntfId :: "Packet option \<Rightarrow> int64" where
  "Packet_GetRemotIntfId x = (case x of Some m \<Rightarrow> pkt_RemotIntfId m | None \<Rightarrow> 0)"

definition Packet_GetFrame :: "Packet option \<Rightarrow> 8 word list" where
  "Packet_GetFrame x = (case x of Some m \<Rightarrow> pkt_Frame m | None \<Rightarrow> [])"

text \<open>\<open>GenerateNodeInterfaceNameRequest\<close>\<close>

definition GenerateNodeInterfaceNameRequest_GetPodIntfName :: "GenerateNodeInterfaceNameRequest option \<Rightarrow> string" where
  "GenerateNodeInterfaceNameRequest_GetPodIntfName x = (case x of Some m \<Rightarrow> gnr_PodIntfName m | None \<Rightarrow> '''')"

definition GenerateNodeInterfaceNameRequest_GetPodName :: "GenerateNodeInterfaceNameRequest option \<Rightarrow> string" where
  "GenerateNodeInterfaceNameRequest_GetPodName x = (case x of Some m \<Rightarrow> gnr_PodName m | None \<Rightarrow> '''')"

text \<open>\<open>GenerateNodeInterfaceNameResponse\<close>\<close>

definition GenerateNodeInterfaceNameResponse_GetOk :: "GenerateNodeInterfaceNameResponse option \<Rightarrow> bool" where
  "GenerateNodeInterfaceNameResponse_GetOk x = (case x of Some m \<Rightarrow> gns_Ok m | None \<Rightarrow> False)"

definition GenerateNodeInterfaceNameResponse_GetNodeIntfName :: "GenerateNodeInterfaceNameResponse option \<Rightarrow> string" where
  "GenerateNodeInterfaceNameResponse_GetNodeIntfName x = (case x of Some m \<Rightarrow> gns_NodeIntfName m | None \<Rightarrow> '''')"

lemmas getter_defs =
  Pod_GetName_def Pod_GetSrcIp_def Pod_GetNetNs_def Pod_GetKubeNs_def Pod_GetLinks_def Pod_GetNodeIp_def Pod_GetNodeIntf_def Pod_GetContainerId_def
  Link_GetPeerPod_def Link_GetLocalIntf_def Link_GetPeerIntf_def Link_GetLocalIp_def Link_GetPeerIp_def Link_GetUid_def Link_GetMtu_def
  PodQuery_GetName_def PodQuery_GetKubeNs_def
  SkipQuery_GetPod_def SkipQuery_GetPeer_def SkipQuery_GetKubeNs_def SkipQuery_GetLinkId_def
  BoolResponse_GetResponse_def
  RemotePod_GetNetNs_def RemotePod_GetIntfName_def RemotePod_GetIntfIp_def RemotePod_GetPeerVtep_def RemotePod_GetKubeNs_def RemotePod_GetVni_def RemotePod_GetNodeIntf_def RemotePod_GetMtu_def
  WireDef_GetWireIfIdOnPeerNode_def WireDef_GetPeerNodeIp_def WireDef_GetIntfNameInPod_def WireDef_GetLocalPodNetNs_def WireDef_GetLinkUid_def WireDef_GetLocalPodName_def WireDef_GetWireIfNameOnLocalNode_def WireDef_GetTopoNs_def WireDef_GetLocalPodIp_def WireDef_GetMtu_def
  WireCreateResponse_GetResponse_def WireCreateResponse_GetPeerIntfId_def
  WireDownResponse_GetResponse_def
  WireLinkState_GetLinkUid_def WireLinkState_GetLocalPodNetNs_def WireLinkState_GetUp_def WireLinkState_GetPeerIfaceId_def
  VxlanLinkDef_GetLinkUid_def VxlanLinkDef_GetNetNs_def VxlanLinkDef_GetIntfName_def VxlanLinkDef_GetPeerNodeIp_def VxlanLinkDef_GetKubeNs_def
  Packet_GetRemotIntfId_def Packet_GetFrame_def
  GenerateNodeInterfaceNameRequest_GetPodIntfName_def GenerateNodeInterfaceNameRequest_GetPodName_def
  GenerateNodeInterfaceNameResponse_GetOk_def GenerateNodeInterfaceNameResponse_GetNodeIntfName_def

text \<open>
  Reading a nil pointer is reading the message that \<open>new\<close> makes, and a message is what its
  getters say.
\<close>

lemma getters_of_nil:
  "Pod_GetName None = Pod_GetName (Some zero_Pod)"
  "Pod_GetSrcIp None = Pod_GetSrcIp (Some zero_Pod)"
  "Pod_GetNetNs None = Pod_GetNetNs (Some zero_Pod)"
  "Pod_GetKubeNs None = Pod_GetKubeNs (Some zero_Pod)"
  "Pod_GetLinks None = Pod_GetLinks (Some zero_Pod)"
  "Pod_GetNodeIp None = Pod_GetNodeIp (Some zero_Pod)"
  "Pod_GetNodeIntf None = Pod_GetNodeIntf (Some zero_Pod)"
  "Pod_GetContainerId None = Pod_GetContainerId (Some zero_Pod)"
  "Link_GetPeerPod None = Link_GetPeerPod (Some zero_Link)"
  "Link_GetLocalIntf None = Link_GetLocalIntf (Some zero_Link)"
  "Link_GetPeerIntf None = Link_GetPeerIntf (Some zero_Link)"
  "Link_GetLocalIp None = Link_GetLocalIp (Some zero_Link)"
  "Link_GetPeerIp None = Link_GetPeerIp (Some zero_Link)"
  "Link_GetUid None = Link_GetUid (Some zero_Link)"
  "Link_GetMtu None = Link_GetMtu (Some zero_Link)"
  "PodQuery_GetName None = PodQuery_GetName (Some zero_PodQuery)"
  "PodQuery_GetKubeNs None = PodQuery_GetKubeNs (Some zero_PodQuery)"
  "SkipQuery_GetPod None = SkipQuery_GetPod (Some zero_SkipQuery)"
  "SkipQuery_GetPeer None = SkipQuery_GetPeer (Some zero_SkipQuery)"
  "SkipQuery_GetKubeNs None = SkipQuery_GetKubeNs (Some zero_SkipQuery)"
  "SkipQuery_GetLinkId None = SkipQuery_GetLinkId (Some zero_SkipQuery)"
  "BoolResponse_GetResponse None = BoolResponse_GetResponse (Some zero_BoolResponse)"
  "RemotePod_GetNetNs None = RemotePod_GetNetNs (Some zero_RemotePod)"
  "RemotePod_GetIntfName None = RemotePod_GetIntfName (Some zero_RemotePod)"
  "RemotePod_GetIntfIp None = RemotePod_GetIntfIp (Some zero_RemotePod)"
  "RemotePod_GetPeerVtep None = RemotePod_GetPeerVtep (Some zero_RemotePod)"
  "RemotePod_GetKubeNs None = RemotePod_GetKubeNs (Some zero_RemotePod)"
  "RemotePod_GetVni None = RemotePod_GetVni (Some zero_RemotePod)"
  "RemotePod_GetNodeIntf None = RemotePod_GetNodeIntf (Some zero_RemotePod)"
  "RemotePod_GetMtu None = RemotePod_GetMtu (Some zero_RemotePod)"
  "WireDef_GetWireIfIdOnPeerNode None = WireDef_GetWireIfIdOnPeerNode (Some zero_WireDef)"
  "WireDef_GetPeerNodeIp None = WireDef_GetPeerNodeIp (Some zero_WireDef)"
  "WireDef_GetIntfNameInPod None = WireDef_GetIntfNameInPod (Some zero_WireDef)"
  "WireDef_GetLocalPodNetNs None = WireDef_GetLocalPodNetNs (Some zero_WireDef)"
  "WireDef_GetLinkUid None = WireDef_GetLinkUid (Some zero_WireDef)"
  "WireDef_GetLocalPodName None = WireDef_GetLocalPodName (Some zero_WireDef)"
  "WireDef_GetWireIfNameOnLocalNode None = WireDef_GetWireIfNameOnLocalNode (Some zero_WireDef)"
  "WireDef_GetTopoNs None = WireDef_GetTopoNs (Some zero_WireDef)"
  "WireDef_GetLocalPodIp None = WireDef_GetLocalPodIp (Some zero_WireDef)"
  "WireDef_GetMtu None = WireDef_GetMtu (Some zero_WireDef)"
  "WireCreateResponse_GetResponse None = WireCreateResponse_GetResponse (Some zero_WireCreateResponse)"
  "WireCreateResponse_GetPeerIntfId None = WireCreateResponse_GetPeerIntfId (Some zero_WireCreateResponse)"
  "WireDownResponse_GetResponse None = WireDownResponse_GetResponse (Some zero_WireDownResponse)"
  "WireLinkState_GetLinkUid None = WireLinkState_GetLinkUid (Some zero_WireLinkState)"
  "WireLinkState_GetLocalPodNetNs None = WireLinkState_GetLocalPodNetNs (Some zero_WireLinkState)"
  "WireLinkState_GetUp None = WireLinkState_GetUp (Some zero_WireLinkState)"
  "WireLinkState_GetPeerIfaceId None = WireLinkState_GetPeerIfaceId (Some zero_WireLinkState)"
  "VxlanLinkDef_GetLinkUid None = VxlanLinkDef_GetLinkUid (Some zero_VxlanLinkDef)"
  "VxlanLinkDef_GetNetNs None = VxlanLinkDef_GetNetNs (Some zero_VxlanLinkDef)"
  "VxlanLinkDef_GetIntfName None = VxlanLinkDef_GetIntfName (Some zero_VxlanLinkDef)"
  "VxlanLinkDef_GetPeerNodeIp None = VxlanLinkDef_GetPeerNodeIp (Some zero_VxlanLinkDef)"
  "VxlanLinkDef_GetKubeNs None = VxlanLinkDef_GetKubeNs (Some zero_VxlanLinkDef)"
  "Packet_GetRemotIntfId None = Packet_GetRemotIntfId (Some zero_Packet)"
  "Packet_GetFrame None = Packet_GetFrame (Some zero_Packet)"
  "GenerateNodeInterfaceNameRequest_GetPodIntfName None = GenerateNodeInterfaceNameRequest_GetPodIntfName (Some zero_GenerateNodeInterfaceNameRequest)"
  "GenerateNodeInterfaceNameRequest_GetPodName None = GenerateNodeInterfaceNameRequest_GetPodName (Some zero_GenerateNodeInterfaceNameRequest)"
  "GenerateNodeInterfaceNameResponse_GetOk None = GenerateNodeInterfaceNameResponse_GetOk (Some zero_GenerateNodeInterfaceNameResponse)"
  "GenerateNodeInterfaceNameResponse_GetNodeIntfName None = GenerateNodeInterfaceNameResponse_GetNodeIntfName (Some zero_GenerateNodeInterfaceNameResponse)"
  by (simp_all add: getter_defs zero_Pod_def zero_Link_def zero_PodQuery_def zero_SkipQuery_def zero_BoolResponse_def zero_RemotePod_def zero_WireDef_def zero_WireCreateResponse_def zero_WireDownResponse_def zero_WireLinkState_def zero_VxlanLinkDef_def zero_Packet_def zero_GenerateNodeInterfaceNameRequest_def zero_GenerateNodeInterfaceNameResponse_def)

lemma Pod_by_getters: "\<lparr>pod_Name = Pod_GetName (Some m), pod_SrcIp = Pod_GetSrcIp (Some m), pod_NetNs = Pod_GetNetNs (Some m), pod_KubeNs = Pod_GetKubeNs (Some m), pod_Links = Pod_GetLinks (Some m), pod_NodeIp = Pod_GetNodeIp (Some m), pod_NodeIntf = Pod_GetNodeIntf (Some m), pod_ContainerId = Pod_GetContainerId (Some m)\<rparr> = m"
  by (simp add: getter_defs)

lemma Link_by_getters: "\<lparr>lk_PeerPod = Link_GetPeerPod (Some m), lk_LocalIntf = Link_GetLocalIntf (Some m), lk_PeerIntf = Link_GetPeerIntf (Some m), lk_LocalIp = Link_GetLocalIp (Some m), lk_PeerIp = Link_GetPeerIp (Some m), lk_Uid = Link_GetUid (Some m), lk_Mtu = Link_GetMtu (Some m)\<rparr> = m"
  by (simp add: getter_defs)

lemma PodQuery_by_getters: "\<lparr>pq_Name = PodQuery_GetName (Some m), pq_KubeNs = PodQuery_GetKubeNs (Some m)\<rparr> = m"
  by (simp add: getter_defs)

lemma SkipQuery_by_getters: "\<lparr>sq_Pod = SkipQuery_GetPod (Some m), sq_Peer = SkipQuery_GetPeer (Some m), sq_KubeNs = SkipQuery_GetKubeNs (Some m), sq_LinkId = SkipQuery_GetLinkId (Some m)\<rparr> = m"
  by (simp add: getter_defs)

lemma BoolResponse_by_getters: "\<lparr>br_Response = BoolResponse_GetResponse (Some m)\<rparr> = m"
  by (simp add: getter_defs)

lemma RemotePod_by_getters: "\<lparr>rp_NetNs = RemotePod_GetNetNs (Some m), rp_IntfName = RemotePod_GetIntfName (Some m), rp_IntfIp = RemotePod_GetIntfIp (Some m), rp_PeerVtep = RemotePod_GetPeerVtep (Some m), rp_KubeNs = RemotePod_GetKubeNs (Some m), rp_Vni = RemotePod_GetVni (Some m), rp_NodeIntf = RemotePod_GetNodeIntf (Some m), rp_Mtu = RemotePod_GetMtu (Some m)\<rparr> = m"
  by (simp add: getter_defs)

lemma WireDef_by_getters: "\<lparr>wd_WireIfIdOnPeerNode = WireDef_GetWireIfIdOnPeerNode (Some m), wd_PeerNodeIp = WireDef_GetPeerNodeIp (Some m), wd_IntfNameInPod = WireDef_GetIntfNameInPod (Some m), wd_LocalPodNetNs = WireDef_GetLocalPodNetNs (Some m), wd_LinkUid = WireDef_GetLinkUid (Some m), wd_LocalPodName = WireDef_GetLocalPodName (Some m), wd_WireIfNameOnLocalNode = WireDef_GetWireIfNameOnLocalNode (Some m), wd_TopoNs = WireDef_GetTopoNs (Some m), wd_LocalPodIp = WireDef_GetLocalPodIp (Some m), wd_Mtu = WireDef_GetMtu (Some m)\<rparr> = m"
  by (simp add: getter_defs)

lemma WireCreateResponse_by_getters: "\<lparr>wcr_Response = WireCreateResponse_GetResponse (Some m), wcr_PeerIntfId = WireCreateResponse_GetPeerIntfId (Some m)\<rparr> = m"
  by (simp add: getter_defs)

lemma WireDownResponse_by_getters: "\<lparr>wdr_Response = WireDownResponse_GetResponse (Some m)\<rparr> = m"
  by (simp add: getter_defs)

lemma WireLinkState_by_getters: "\<lparr>wls_LinkUid = WireLinkState_GetLinkUid (Some m), wls_LocalPodNetNs = WireLinkState_GetLocalPodNetNs (Some m), wls_Up = WireLinkState_GetUp (Some m), wls_PeerIfaceId = WireLinkState_GetPeerIfaceId (Some m)\<rparr> = m"
  by (simp add: getter_defs)

lemma VxlanLinkDef_by_getters: "\<lparr>vld_LinkUid = VxlanLinkDef_GetLinkUid (Some m), vld_NetNs = VxlanLinkDef_GetNetNs (Some m), vld_IntfName = VxlanLinkDef_GetIntfName (Some m), vld_PeerNodeIp = VxlanLinkDef_GetPeerNodeIp (Some m), vld_KubeNs = VxlanLinkDef_GetKubeNs (Some m)\<rparr> = m"
  by (simp add: getter_defs)

lemma Packet_by_getters: "\<lparr>pkt_RemotIntfId = Packet_GetRemotIntfId (Some m), pkt_Frame = Packet_GetFrame (Some m)\<rparr> = m"
  by (simp add: getter_defs)

lemma GenerateNodeInterfaceNameRequest_by_getters: "\<lparr>gnr_PodIntfName = GenerateNodeInterfaceNameRequest_GetPodIntfName (Some m), gnr_PodName = GenerateNodeInterfaceNameRequest_GetPodName (Some m)\<rparr> = m"
  by (simp add: getter_defs)

lemma GenerateNodeInterfaceNameResponse_by_getters: "\<lparr>gns_Ok = GenerateNodeInterfaceNameResponse_GetOk (Some m), gns_NodeIntfName = GenerateNodeInterfaceNameResponse_GetNodeIntfName (Some m)\<rparr> = m"
  by (simp add: getter_defs)

section \<open>The tables of the descriptor\<close>

text \<open>
  \<open>go_types\<close> numbers the messages; \<open>dep_idxs\<close> gives first the type of the one field that is a
  message (a pod's links), then the request types of the seventeen methods in the order of
  the services, then their reply types.
\<close>

definition go_types :: "msg_type list" where
  "go_types = [T_Pod, T_Link, T_PodQuery, T_SkipQuery, T_BoolResponse, T_RemotePod, T_WireDef, T_WireCreateResponse, T_WireDownResponse, T_WireLinkState, T_VxlanLinkDef, T_Packet, T_GenerateNodeInterfaceNameRequest, T_GenerateNodeInterfaceNameResponse]"

definition dep_idxs :: "nat list" where
  "dep_idxs = [1, 2, 0, 3, 3, 3, 6, 6, 6, 12, 10, 10, 5, 6, 6, 9, 11, 11, 0, 4, 4, 4, 4, 7, 4, 4, 13, 4, 4, 4, 7, 8, 4, 4, 4, 18, 1, 1, 1, 0]"

definition request_type :: "nat \<Rightarrow> msg_type" where
  "request_type k = go_types ! (dep_idxs ! (dep_idxs ! 36 + k))"

definition reply_type :: "nat \<Rightarrow> msg_type" where
  "reply_type k = go_types ! (dep_idxs ! (dep_idxs ! 35 + k))"

end
