(* ===== verification/Grpc_Stubs.thy ===== *)
theory Grpc_Stubs
  imports Proto_Messages Cluster
begin

text \<open>
  \<open>daemon/proto/meshnet/v1beta1/meshnet_grpc.pb.go\<close>: the clients and servers of the three
  gRPC services.  A client method hands its message and a new reply to the connection's
  \<open>Invoke\<close> under a full method name; a server is a table of handlers, each of which decodes
  the request, lets the interceptor have it and calls the implementation.  How the gRPC
  library carries a call from \<open>Invoke\<close> to a registered handler is the law \<open>serves\<close>; that
  the clients of \<open>Node\<close> and \<open>Cluster\<close> are these stubs over such a connection is proved.
\<close>

section \<open>Connections\<close>

text \<open>
  \<open>Invoke cc method in out\<close>: the reply, stored in \<open>out\<close>, or an error.  A stream is given by its
  operations.
\<close>

record 'w client_stream =
  cs_SendMsg :: "msg \<Rightarrow> ('w, goerr option) io"
  cs_RecvMsg :: "msg \<Rightarrow> ('w, msg res) io"
  cs_CloseSend :: "('w, goerr option) io"

record 'w server_stream =
  ss_SendMsg :: "msg \<Rightarrow> ('w, goerr option) io"
  ss_RecvMsg :: "msg \<Rightarrow> ('w, msg res) io"

record 'w client_conn =
  Invoke :: "string \<Rightarrow> msg \<Rightarrow> msg \<Rightarrow> ('w, msg res) io"
  NewStream :: "string \<times> bool \<Rightarrow> string \<Rightarrow> ('w, 'w client_stream res) io"

text \<open>
  What a library filled has the type of the struct it was given; the model says \<open>panic\<close> where
  it would not.
\<close>

definition filled :: "(msg \<Rightarrow> 'a option) \<Rightarrow> msg res \<Rightarrow> 'a res" where
  "filled as r = (case r of
       Inl e \<Rightarrow> Inl e
     | Inr m \<Rightarrow> (case as m of Some x \<Rightarrow> Inr x | None \<Rightarrow> Inl (go_panic ''interface conversion'')))"

text \<open>\<open>out := new(T); err := cc.Invoke(...)\<close>\<close>

definition unary_call :: "'w client_conn \<Rightarrow> string \<Rightarrow> msg \<Rightarrow> msg_type \<Rightarrow> (msg \<Rightarrow> 'a option) \<Rightarrow> ('w, 'a res) io" where
  "unary_call cc meth m t as = do { r \<leftarrow> Invoke cc meth m (new t); return (filled as r) }"

section \<open>Servers\<close>

text \<open>
  A handler's reply is a message pointer and an error.  An interceptor gets the request, the
  full method name and the handler to call.
\<close>

type_synonym reply = "msg option \<times> goerr option"
type_synonym 'w interceptor = "msg \<Rightarrow> string \<Rightarrow> (msg \<Rightarrow> ('w, reply) io) \<Rightarrow> ('w, reply) io"
type_synonym 'w handler = "(msg \<Rightarrow> msg res) \<Rightarrow> 'w interceptor option \<Rightarrow> ('w, reply) io"

text \<open>The body of the generated \<open>_Service_Method_Handler\<close>; \<open>run\<close> is \<open>srv.(Server).Method\<close>.\<close>

definition call_with :: "(msg \<Rightarrow> 'a option) \<Rightarrow> ('b \<Rightarrow> msg) \<Rightarrow> ('a \<Rightarrow> ('w, 'b option \<times> goerr option) io) \<Rightarrow> msg \<Rightarrow> ('w, reply) io" where
  "call_with as mk run req = (case as req of
       None \<Rightarrow> return (None, Some (go_panic ''interface conversion''))
     | Some x \<Rightarrow> do { r \<leftarrow> run x; return (map_option mk (fst r), snd r) })"

definition unary_handler ::
    "msg_type \<Rightarrow> (msg \<Rightarrow> 'a option) \<Rightarrow> ('b \<Rightarrow> msg) \<Rightarrow> string \<Rightarrow> ('a \<Rightarrow> ('w, 'b option \<times> goerr option) io) \<Rightarrow> 'w handler" where
  "unary_handler t as mk fullMethod run decode interceptor =
     (case decode (new t) of
        Inl e \<Rightarrow> return (None, Some e)
      | Inr m \<Rightarrow>
          (case interceptor of
             None \<Rightarrow> call_with as mk run m
           | Some ic \<Rightarrow> ic m fullMethod (call_with as mk run)))"

text \<open>\<open>grpc.ServiceDesc\<close>, with the implementation \<open>'s\<close> the handlers take; the Boolean is \<open>ClientStreams\<close>.\<close>

record ('s, 'w) ServiceDesc =
  ServiceName :: string
  Methods :: "(string \<times> ('s \<Rightarrow> 'w handler)) list"
  Streams :: "(string \<times> ('s \<Rightarrow> 'w server_stream \<Rightarrow> ('w, goerr option) io) \<times> bool) list"

text \<open>What \<open>RegisterService\<close> adds to a server: the service's handlers on their implementation.\<close>

record 'w service =
  sv_name :: string
  sv_methods :: "(string \<times> 'w handler) list"
  sv_streams :: "(string \<times> ('w server_stream \<Rightarrow> ('w, goerr option) io)) list"

definition RegisterService :: "'w service list \<Rightarrow> ('s, 'w) ServiceDesc \<Rightarrow> 's \<Rightarrow> 'w service list" where
  "RegisterService s d srv = s @ [\<lparr>sv_name = ServiceName d,
     sv_methods = map (\<lambda>(n, h). (n, h srv)) (Methods d),
     sv_streams = map (\<lambda>(n, h, cs). (n, h srv)) (Streams d)\<rparr>]"

definition unimplemented :: "string \<Rightarrow> goerr" where
  "unimplemented m = Status Unimplemented (''method '' @ m @ '' not implemented'')"

section \<open>The Local service\<close>

definition Local_Get_FullMethodName :: string where "Local_Get_FullMethodName = ''/meshnet.v1beta1.Local/Get''"
definition Local_SetAlive_FullMethodName :: string where "Local_SetAlive_FullMethodName = ''/meshnet.v1beta1.Local/SetAlive''"
definition Local_SkipReverse_FullMethodName :: string where "Local_SkipReverse_FullMethodName = ''/meshnet.v1beta1.Local/SkipReverse''"
definition Local_Skip_FullMethodName :: string where "Local_Skip_FullMethodName = ''/meshnet.v1beta1.Local/Skip''"
definition Local_IsSkipped_FullMethodName :: string where "Local_IsSkipped_FullMethodName = ''/meshnet.v1beta1.Local/IsSkipped''"
definition Local_GRPCWireExists_FullMethodName :: string where "Local_GRPCWireExists_FullMethodName = ''/meshnet.v1beta1.Local/GRPCWireExists''"
definition Local_AddGRPCWireLocal_FullMethodName :: string where "Local_AddGRPCWireLocal_FullMethodName = ''/meshnet.v1beta1.Local/AddGRPCWireLocal''"
definition Local_RemGRPCWire_FullMethodName :: string where "Local_RemGRPCWire_FullMethodName = ''/meshnet.v1beta1.Local/RemGRPCWire''"
definition Local_GenerateNodeInterfaceName_FullMethodName :: string where "Local_GenerateNodeInterfaceName_FullMethodName = ''/meshnet.v1beta1.Local/GenerateNodeInterfaceName''"
definition Local_RegisterVxlanLink_FullMethodName :: string where "Local_RegisterVxlanLink_FullMethodName = ''/meshnet.v1beta1.Local/RegisterVxlanLink''"
definition Local_UnregisterVxlanLink_FullMethodName :: string where "Local_UnregisterVxlanLink_FullMethodName = ''/meshnet.v1beta1.Local/UnregisterVxlanLink''"

definition localClient_Get :: "'w client_conn \<Rightarrow> PodQuery \<Rightarrow> ('w, Pod res) io" where
  "localClient_Get cc m = unary_call cc Local_Get_FullMethodName (M_PodQuery m) T_Pod as_Pod"

definition localClient_SetAlive :: "'w client_conn \<Rightarrow> Pod \<Rightarrow> ('w, BoolResponse res) io" where
  "localClient_SetAlive cc m = unary_call cc Local_SetAlive_FullMethodName (M_Pod m) T_BoolResponse as_BoolResponse"

definition localClient_SkipReverse :: "'w client_conn \<Rightarrow> SkipQuery \<Rightarrow> ('w, BoolResponse res) io" where
  "localClient_SkipReverse cc m = unary_call cc Local_SkipReverse_FullMethodName (M_SkipQuery m) T_BoolResponse as_BoolResponse"

definition localClient_Skip :: "'w client_conn \<Rightarrow> SkipQuery \<Rightarrow> ('w, BoolResponse res) io" where
  "localClient_Skip cc m = unary_call cc Local_Skip_FullMethodName (M_SkipQuery m) T_BoolResponse as_BoolResponse"

definition localClient_IsSkipped :: "'w client_conn \<Rightarrow> SkipQuery \<Rightarrow> ('w, BoolResponse res) io" where
  "localClient_IsSkipped cc m = unary_call cc Local_IsSkipped_FullMethodName (M_SkipQuery m) T_BoolResponse as_BoolResponse"

definition localClient_GRPCWireExists :: "'w client_conn \<Rightarrow> WireDef \<Rightarrow> ('w, WireCreateResponse res) io" where
  "localClient_GRPCWireExists cc m = unary_call cc Local_GRPCWireExists_FullMethodName (M_WireDef m) T_WireCreateResponse as_WireCreateResponse"

definition localClient_AddGRPCWireLocal :: "'w client_conn \<Rightarrow> WireDef \<Rightarrow> ('w, BoolResponse res) io" where
  "localClient_AddGRPCWireLocal cc m = unary_call cc Local_AddGRPCWireLocal_FullMethodName (M_WireDef m) T_BoolResponse as_BoolResponse"

definition localClient_RemGRPCWire :: "'w client_conn \<Rightarrow> WireDef \<Rightarrow> ('w, BoolResponse res) io" where
  "localClient_RemGRPCWire cc m = unary_call cc Local_RemGRPCWire_FullMethodName (M_WireDef m) T_BoolResponse as_BoolResponse"

definition localClient_GenerateNodeInterfaceName :: "'w client_conn \<Rightarrow> GenerateNodeInterfaceNameRequest \<Rightarrow> ('w, GenerateNodeInterfaceNameResponse res) io" where
  "localClient_GenerateNodeInterfaceName cc m = unary_call cc Local_GenerateNodeInterfaceName_FullMethodName (M_GenerateNodeInterfaceNameRequest m) T_GenerateNodeInterfaceNameResponse as_GenerateNodeInterfaceNameResponse"

definition localClient_RegisterVxlanLink :: "'w client_conn \<Rightarrow> VxlanLinkDef \<Rightarrow> ('w, BoolResponse res) io" where
  "localClient_RegisterVxlanLink cc m = unary_call cc Local_RegisterVxlanLink_FullMethodName (M_VxlanLinkDef m) T_BoolResponse as_BoolResponse"

definition localClient_UnregisterVxlanLink :: "'w client_conn \<Rightarrow> VxlanLinkDef \<Rightarrow> ('w, BoolResponse res) io" where
  "localClient_UnregisterVxlanLink cc m = unary_call cc Local_UnregisterVxlanLink_FullMethodName (M_VxlanLinkDef m) T_BoolResponse as_BoolResponse"

record 'w LocalServer =
  ls_Get :: "PodQuery \<Rightarrow> ('w, Pod option \<times> goerr option) io"
  ls_SetAlive :: "Pod \<Rightarrow> ('w, BoolResponse option \<times> goerr option) io"
  ls_SkipReverse :: "SkipQuery \<Rightarrow> ('w, BoolResponse option \<times> goerr option) io"
  ls_Skip :: "SkipQuery \<Rightarrow> ('w, BoolResponse option \<times> goerr option) io"
  ls_IsSkipped :: "SkipQuery \<Rightarrow> ('w, BoolResponse option \<times> goerr option) io"
  ls_GRPCWireExists :: "WireDef \<Rightarrow> ('w, WireCreateResponse option \<times> goerr option) io"
  ls_AddGRPCWireLocal :: "WireDef \<Rightarrow> ('w, BoolResponse option \<times> goerr option) io"
  ls_RemGRPCWire :: "WireDef \<Rightarrow> ('w, BoolResponse option \<times> goerr option) io"
  ls_GenerateNodeInterfaceName :: "GenerateNodeInterfaceNameRequest \<Rightarrow> ('w, GenerateNodeInterfaceNameResponse option \<times> goerr option) io"
  ls_RegisterVxlanLink :: "VxlanLinkDef \<Rightarrow> ('w, BoolResponse option \<times> goerr option) io"
  ls_UnregisterVxlanLink :: "VxlanLinkDef \<Rightarrow> ('w, BoolResponse option \<times> goerr option) io"

definition UnimplementedLocalServer :: "'w LocalServer" where
  "UnimplementedLocalServer = \<lparr>ls_Get = (\<lambda>x. return (None, Some (unimplemented ''Get''))),
     ls_SetAlive = (\<lambda>x. return (None, Some (unimplemented ''SetAlive''))),
     ls_SkipReverse = (\<lambda>x. return (None, Some (unimplemented ''SkipReverse''))),
     ls_Skip = (\<lambda>x. return (None, Some (unimplemented ''Skip''))),
     ls_IsSkipped = (\<lambda>x. return (None, Some (unimplemented ''IsSkipped''))),
     ls_GRPCWireExists = (\<lambda>x. return (None, Some (unimplemented ''GRPCWireExists''))),
     ls_AddGRPCWireLocal = (\<lambda>x. return (None, Some (unimplemented ''AddGRPCWireLocal''))),
     ls_RemGRPCWire = (\<lambda>x. return (None, Some (unimplemented ''RemGRPCWire''))),
     ls_GenerateNodeInterfaceName = (\<lambda>x. return (None, Some (unimplemented ''GenerateNodeInterfaceName''))),
     ls_RegisterVxlanLink = (\<lambda>x. return (None, Some (unimplemented ''RegisterVxlanLink''))),
     ls_UnregisterVxlanLink = (\<lambda>x. return (None, Some (unimplemented ''UnregisterVxlanLink'')))\<rparr>"

definition Local_Get_Handler :: "'w LocalServer \<Rightarrow> 'w handler" where
  "Local_Get_Handler srv = unary_handler T_PodQuery as_PodQuery M_Pod Local_Get_FullMethodName (ls_Get srv)"

definition Local_SetAlive_Handler :: "'w LocalServer \<Rightarrow> 'w handler" where
  "Local_SetAlive_Handler srv = unary_handler T_Pod as_Pod M_BoolResponse Local_SetAlive_FullMethodName (ls_SetAlive srv)"

definition Local_SkipReverse_Handler :: "'w LocalServer \<Rightarrow> 'w handler" where
  "Local_SkipReverse_Handler srv = unary_handler T_SkipQuery as_SkipQuery M_BoolResponse Local_SkipReverse_FullMethodName (ls_SkipReverse srv)"

definition Local_Skip_Handler :: "'w LocalServer \<Rightarrow> 'w handler" where
  "Local_Skip_Handler srv = unary_handler T_SkipQuery as_SkipQuery M_BoolResponse Local_Skip_FullMethodName (ls_Skip srv)"

definition Local_IsSkipped_Handler :: "'w LocalServer \<Rightarrow> 'w handler" where
  "Local_IsSkipped_Handler srv = unary_handler T_SkipQuery as_SkipQuery M_BoolResponse Local_IsSkipped_FullMethodName (ls_IsSkipped srv)"

definition Local_GRPCWireExists_Handler :: "'w LocalServer \<Rightarrow> 'w handler" where
  "Local_GRPCWireExists_Handler srv = unary_handler T_WireDef as_WireDef M_WireCreateResponse Local_GRPCWireExists_FullMethodName (ls_GRPCWireExists srv)"

definition Local_AddGRPCWireLocal_Handler :: "'w LocalServer \<Rightarrow> 'w handler" where
  "Local_AddGRPCWireLocal_Handler srv = unary_handler T_WireDef as_WireDef M_BoolResponse Local_AddGRPCWireLocal_FullMethodName (ls_AddGRPCWireLocal srv)"

definition Local_RemGRPCWire_Handler :: "'w LocalServer \<Rightarrow> 'w handler" where
  "Local_RemGRPCWire_Handler srv = unary_handler T_WireDef as_WireDef M_BoolResponse Local_RemGRPCWire_FullMethodName (ls_RemGRPCWire srv)"

definition Local_GenerateNodeInterfaceName_Handler :: "'w LocalServer \<Rightarrow> 'w handler" where
  "Local_GenerateNodeInterfaceName_Handler srv = unary_handler T_GenerateNodeInterfaceNameRequest as_GenerateNodeInterfaceNameRequest M_GenerateNodeInterfaceNameResponse Local_GenerateNodeInterfaceName_FullMethodName (ls_GenerateNodeInterfaceName srv)"

definition Local_RegisterVxlanLink_Handler :: "'w LocalServer \<Rightarrow> 'w handler" where
  "Local_RegisterVxlanLink_Handler srv = unary_handler T_VxlanLinkDef as_VxlanLinkDef M_BoolResponse Local_RegisterVxlanLink_FullMethodName (ls_RegisterVxlanLink srv)"

definition Local_UnregisterVxlanLink_Handler :: "'w LocalServer \<Rightarrow> 'w handler" where
  "Local_UnregisterVxlanLink_Handler srv = unary_handler T_VxlanLinkDef as_VxlanLinkDef M_BoolResponse Local_UnregisterVxlanLink_FullMethodName (ls_UnregisterVxlanLink srv)"

definition Local_ServiceDesc :: "('w LocalServer, 'w) ServiceDesc" where
  "Local_ServiceDesc = \<lparr>ServiceName = ''meshnet.v1beta1.Local'',
     Methods = [(''Get'', Local_Get_Handler),
       (''SetAlive'', Local_SetAlive_Handler),
       (''SkipReverse'', Local_SkipReverse_Handler),
       (''Skip'', Local_Skip_Handler),
       (''IsSkipped'', Local_IsSkipped_Handler),
       (''GRPCWireExists'', Local_GRPCWireExists_Handler),
       (''AddGRPCWireLocal'', Local_AddGRPCWireLocal_Handler),
       (''RemGRPCWire'', Local_RemGRPCWire_Handler),
       (''GenerateNodeInterfaceName'', Local_GenerateNodeInterfaceName_Handler),
       (''RegisterVxlanLink'', Local_RegisterVxlanLink_Handler),
       (''UnregisterVxlanLink'', Local_UnregisterVxlanLink_Handler)],
     Streams = []\<rparr>"

definition RegisterLocalServer :: "'w service list \<Rightarrow> 'w LocalServer \<Rightarrow> 'w service list" where
  "RegisterLocalServer s srv = RegisterService s Local_ServiceDesc srv"

section \<open>The Remote service\<close>

definition Remote_Update_FullMethodName :: string where "Remote_Update_FullMethodName = ''/meshnet.v1beta1.Remote/Update''"
definition Remote_AddGRPCWireRemote_FullMethodName :: string where "Remote_AddGRPCWireRemote_FullMethodName = ''/meshnet.v1beta1.Remote/AddGRPCWireRemote''"
definition Remote_GRPCWireDownRemote_FullMethodName :: string where "Remote_GRPCWireDownRemote_FullMethodName = ''/meshnet.v1beta1.Remote/GRPCWireDownRemote''"
definition Remote_SetPeerLinkState_FullMethodName :: string where "Remote_SetPeerLinkState_FullMethodName = ''/meshnet.v1beta1.Remote/SetPeerLinkState''"

definition remoteClient_Update :: "'w client_conn \<Rightarrow> RemotePod \<Rightarrow> ('w, BoolResponse res) io" where
  "remoteClient_Update cc m = unary_call cc Remote_Update_FullMethodName (M_RemotePod m) T_BoolResponse as_BoolResponse"

definition remoteClient_AddGRPCWireRemote :: "'w client_conn \<Rightarrow> WireDef \<Rightarrow> ('w, WireCreateResponse res) io" where
  "remoteClient_AddGRPCWireRemote cc m = unary_call cc Remote_AddGRPCWireRemote_FullMethodName (M_WireDef m) T_WireCreateResponse as_WireCreateResponse"

definition remoteClient_GRPCWireDownRemote :: "'w client_conn \<Rightarrow> WireDef \<Rightarrow> ('w, WireDownResponse res) io" where
  "remoteClient_GRPCWireDownRemote cc m = unary_call cc Remote_GRPCWireDownRemote_FullMethodName (M_WireDef m) T_WireDownResponse as_WireDownResponse"

definition remoteClient_SetPeerLinkState :: "'w client_conn \<Rightarrow> WireLinkState \<Rightarrow> ('w, BoolResponse res) io" where
  "remoteClient_SetPeerLinkState cc m = unary_call cc Remote_SetPeerLinkState_FullMethodName (M_WireLinkState m) T_BoolResponse as_BoolResponse"

record 'w RemoteServer =
  rs_Update :: "RemotePod \<Rightarrow> ('w, BoolResponse option \<times> goerr option) io"
  rs_AddGRPCWireRemote :: "WireDef \<Rightarrow> ('w, WireCreateResponse option \<times> goerr option) io"
  rs_GRPCWireDownRemote :: "WireDef \<Rightarrow> ('w, WireDownResponse option \<times> goerr option) io"
  rs_SetPeerLinkState :: "WireLinkState \<Rightarrow> ('w, BoolResponse option \<times> goerr option) io"

definition UnimplementedRemoteServer :: "'w RemoteServer" where
  "UnimplementedRemoteServer = \<lparr>rs_Update = (\<lambda>x. return (None, Some (unimplemented ''Update''))),
     rs_AddGRPCWireRemote = (\<lambda>x. return (None, Some (unimplemented ''AddGRPCWireRemote''))),
     rs_GRPCWireDownRemote = (\<lambda>x. return (None, Some (unimplemented ''GRPCWireDownRemote''))),
     rs_SetPeerLinkState = (\<lambda>x. return (None, Some (unimplemented ''SetPeerLinkState'')))\<rparr>"

definition Remote_Update_Handler :: "'w RemoteServer \<Rightarrow> 'w handler" where
  "Remote_Update_Handler srv = unary_handler T_RemotePod as_RemotePod M_BoolResponse Remote_Update_FullMethodName (rs_Update srv)"

definition Remote_AddGRPCWireRemote_Handler :: "'w RemoteServer \<Rightarrow> 'w handler" where
  "Remote_AddGRPCWireRemote_Handler srv = unary_handler T_WireDef as_WireDef M_WireCreateResponse Remote_AddGRPCWireRemote_FullMethodName (rs_AddGRPCWireRemote srv)"

definition Remote_GRPCWireDownRemote_Handler :: "'w RemoteServer \<Rightarrow> 'w handler" where
  "Remote_GRPCWireDownRemote_Handler srv = unary_handler T_WireDef as_WireDef M_WireDownResponse Remote_GRPCWireDownRemote_FullMethodName (rs_GRPCWireDownRemote srv)"

definition Remote_SetPeerLinkState_Handler :: "'w RemoteServer \<Rightarrow> 'w handler" where
  "Remote_SetPeerLinkState_Handler srv = unary_handler T_WireLinkState as_WireLinkState M_BoolResponse Remote_SetPeerLinkState_FullMethodName (rs_SetPeerLinkState srv)"

definition Remote_ServiceDesc :: "('w RemoteServer, 'w) ServiceDesc" where
  "Remote_ServiceDesc = \<lparr>ServiceName = ''meshnet.v1beta1.Remote'',
     Methods = [(''Update'', Remote_Update_Handler),
       (''AddGRPCWireRemote'', Remote_AddGRPCWireRemote_Handler),
       (''GRPCWireDownRemote'', Remote_GRPCWireDownRemote_Handler),
       (''SetPeerLinkState'', Remote_SetPeerLinkState_Handler)],
     Streams = []\<rparr>"

definition RegisterRemoteServer :: "'w service list \<Rightarrow> 'w RemoteServer \<Rightarrow> 'w service list" where
  "RegisterRemoteServer s srv = RegisterService s Remote_ServiceDesc srv"

section \<open>The WireProtocol service\<close>

definition WireProtocol_SendToOnce_FullMethodName :: string where "WireProtocol_SendToOnce_FullMethodName = ''/meshnet.v1beta1.WireProtocol/SendToOnce''"
definition WireProtocol_SendToStream_FullMethodName :: string where "WireProtocol_SendToStream_FullMethodName = ''/meshnet.v1beta1.WireProtocol/SendToStream''"

definition wireProtocolClient_SendToOnce :: "'w client_conn \<Rightarrow> Packet \<Rightarrow> ('w, BoolResponse res) io" where
  "wireProtocolClient_SendToOnce cc m = unary_call cc WireProtocol_SendToOnce_FullMethodName (M_Packet m) T_BoolResponse as_BoolResponse"

record 'w WireProtocolServer =
  ws_SendToOnce :: "Packet \<Rightarrow> ('w, BoolResponse option \<times> goerr option) io"
  ws_SendToStream :: "'w server_stream \<Rightarrow> ('w, goerr option) io"

definition UnimplementedWireProtocolServer :: "'w WireProtocolServer" where
  "UnimplementedWireProtocolServer = \<lparr>ws_SendToOnce = (\<lambda>x. return (None, Some (unimplemented ''SendToOnce''))),
     ws_SendToStream = (\<lambda>x. return (Some (unimplemented ''SendToStream'')))\<rparr>"

definition WireProtocol_SendToOnce_Handler :: "'w WireProtocolServer \<Rightarrow> 'w handler" where
  "WireProtocol_SendToOnce_Handler srv = unary_handler T_Packet as_Packet M_BoolResponse WireProtocol_SendToOnce_FullMethodName (ws_SendToOnce srv)"

text \<open>
  The streaming method: the stream is handed to the implementation, and the client sends on
  it and at the end receives one reply.
\<close>

definition server_SendAndClose :: "'w server_stream \<Rightarrow> BoolResponse \<Rightarrow> ('w, goerr option) io" where
  "server_SendAndClose x m = ss_SendMsg x (M_BoolResponse m)"

definition server_Recv :: "'w server_stream \<Rightarrow> ('w, Packet res) io" where
  "server_Recv x = do { r \<leftarrow> ss_RecvMsg x (new T_Packet); return (filled as_Packet r) }"

definition WireProtocol_SendToStream_Handler :: "'w WireProtocolServer \<Rightarrow> 'w server_stream \<Rightarrow> ('w, goerr option) io" where
  "WireProtocol_SendToStream_Handler srv stream = ws_SendToStream srv stream"

definition client_Send :: "'w client_stream \<Rightarrow> Packet \<Rightarrow> ('w, goerr option) io" where
  "client_Send x m = cs_SendMsg x (M_Packet m)"

definition client_CloseAndRecv :: "'w client_stream \<Rightarrow> ('w, BoolResponse res) io" where
  "client_CloseAndRecv x = do {
     e \<leftarrow> cs_CloseSend x;
     (case e of
        Some e \<Rightarrow> return (Inl e)
      | None \<Rightarrow> do { r \<leftarrow> cs_RecvMsg x (new T_BoolResponse); return (filled as_BoolResponse r) })
   }"

definition WireProtocol_ServiceDesc :: "('w WireProtocolServer, 'w) ServiceDesc" where
  "WireProtocol_ServiceDesc = \<lparr>ServiceName = ''meshnet.v1beta1.WireProtocol'',
     Methods = [(''SendToOnce'', WireProtocol_SendToOnce_Handler)],
     Streams = [(''SendToStream'', WireProtocol_SendToStream_Handler, True)]\<rparr>"

definition RegisterWireProtocolServer :: "'w service list \<Rightarrow> 'w WireProtocolServer \<Rightarrow> 'w service list" where
  "RegisterWireProtocolServer s srv = RegisterService s WireProtocol_ServiceDesc srv"

definition wireProtocolClient_SendToStream :: "'w client_conn \<Rightarrow> ('w, 'w client_stream res) io" where
  "wireProtocolClient_SendToStream cc =
     NewStream cc ((\<lambda>(n, h, cs). (n, cs)) (Streams (WireProtocol_ServiceDesc :: ('w WireProtocolServer, 'w) ServiceDesc) ! 0))
       WireProtocol_SendToStream_FullMethodName"

lemmas full_method_defs =
  Local_Get_FullMethodName_def Local_SetAlive_FullMethodName_def Local_SkipReverse_FullMethodName_def Local_Skip_FullMethodName_def Local_IsSkipped_FullMethodName_def Local_GRPCWireExists_FullMethodName_def Local_AddGRPCWireLocal_FullMethodName_def Local_RemGRPCWire_FullMethodName_def Local_GenerateNodeInterfaceName_FullMethodName_def Local_RegisterVxlanLink_FullMethodName_def Local_UnregisterVxlanLink_FullMethodName_def
  Remote_Update_FullMethodName_def Remote_AddGRPCWireRemote_FullMethodName_def Remote_GRPCWireDownRemote_FullMethodName_def Remote_SetPeerLinkState_FullMethodName_def
  WireProtocol_SendToOnce_FullMethodName_def

lemmas client_stub_defs =
  localClient_Get_def localClient_SetAlive_def localClient_SkipReverse_def localClient_Skip_def localClient_IsSkipped_def localClient_GRPCWireExists_def localClient_AddGRPCWireLocal_def localClient_RemGRPCWire_def localClient_GenerateNodeInterfaceName_def localClient_RegisterVxlanLink_def localClient_UnregisterVxlanLink_def
  remoteClient_Update_def remoteClient_AddGRPCWireRemote_def remoteClient_GRPCWireDownRemote_def remoteClient_SetPeerLinkState_def
  wireProtocolClient_SendToOnce_def

lemmas handler_defs =
  Local_Get_Handler_def Local_SetAlive_Handler_def Local_SkipReverse_Handler_def Local_Skip_Handler_def Local_IsSkipped_Handler_def Local_GRPCWireExists_Handler_def Local_AddGRPCWireLocal_Handler_def Local_RemGRPCWire_Handler_def Local_GenerateNodeInterfaceName_Handler_def Local_RegisterVxlanLink_Handler_def Local_UnregisterVxlanLink_Handler_def
  Remote_Update_Handler_def Remote_AddGRPCWireRemote_Handler_def Remote_GRPCWireDownRemote_Handler_def Remote_SetPeerLinkState_Handler_def
  WireProtocol_SendToOnce_Handler_def

lemmas service_defs = RegisterLocalServer_def RegisterRemoteServer_def RegisterWireProtocolServer_def RegisterService_def
  Local_ServiceDesc_def Remote_ServiceDesc_def WireProtocol_ServiceDesc_def

end
