(* ===== verification/Grpc_Serve.thy ===== *)
theory Grpc_Serve
  imports Grpc_Stubs
begin

text \<open>
  The daemon behind its gRPC server.  \<open>meshnet.New\<close> registers the daemon's handlers with the
  server; the law \<open>serves\<close> says what the gRPC library makes of a call on a connection to it.
  The clients that the plugin's and the peers' theories use (\<open>client_of\<close>, \<open>daemon_rpc\<close>) are
  then the generated clients, with errors turned into status errors on the way.
\<close>

section \<open>The daemon's implementation of the services\<close>

definition some_reply :: "('w, 'b \<times> goerr option) io \<Rightarrow> ('w, 'b option \<times> goerr option) io" where
  "some_reply m = do { r \<leftarrow> m; return (Some (fst r), snd r) }"

text \<open>
  \<open>Meshnet\<close> embeds the three \<open>Unimplemented\<close> servers; its own methods hide theirs.  The fuel
  is that of \<open>DeletePodWires\<close>.
\<close>

definition Meshnet_Local :: "nat \<Rightarrow> 'w sys \<Rightarrow> linkKey list \<Rightarrow> 'w daemon LocalServer" where
  "Meshnet_Local fuel sy ks = UnimplementedLocalServer
     \<lparr>ls_Get := Get sy,
      ls_SetAlive := (\<lambda>p. some_reply (lift (SetAlive (sy_lib sy) (sy_kube sy) p))),
      ls_SkipReverse := (\<lambda>q. some_reply (lift (SkipReverse (sy_lib sy) (sy_kube sy) q))),
      ls_Skip := (\<lambda>q. some_reply (lift (Skip (sy_lib sy) (sy_kube sy) q))),
      ls_IsSkipped := (\<lambda>q. lift (IsSkipped (sy_lib sy) (sy_kube sy) q)),
      ls_GRPCWireExists := (\<lambda>wd. some_reply (GRPCWireExists wd)),
      ls_AddGRPCWireLocal := (\<lambda>wd. some_reply (AddGRPCWireLocal sy wd)),
      ls_RemGRPCWire := (\<lambda>wd. do {
         r \<leftarrow> RemGRPCWire fuel sy ks wd;
         return (case r of None \<Rightarrow> (None, Some (Err ''still running'')) | Some (b, e) \<Rightarrow> (Some b, e)) }),
      ls_GenerateNodeInterfaceName := (\<lambda>q. some_reply (GenerateNodeInterfaceName q)),
      ls_RegisterVxlanLink := (\<lambda>v. some_reply (RegisterVxlanLink v)),
      ls_UnregisterVxlanLink := (\<lambda>v. some_reply (UnregisterVxlanLink (Some v)))\<rparr>"

definition Meshnet_Remote :: "'w sys \<Rightarrow> linkKey list \<Rightarrow> vxKey list \<Rightarrow> 'w daemon RemoteServer" where
  "Meshnet_Remote sy ks vks = UnimplementedRemoteServer
     \<lparr>rs_Update := (\<lambda>x. some_reply (Update_vxlan sy x)),
      rs_AddGRPCWireRemote := (\<lambda>x. some_reply (AddGRPCWireRemote sy x)),
      rs_GRPCWireDownRemote := (\<lambda>x. some_reply (GRPCWireDownRemote x)),
      rs_SetPeerLinkState := (\<lambda>x. some_reply (SetPeerLinkState sy ks vks x))\<rparr>"

definition Meshnet_WireProtocol :: "'w sys \<Rightarrow> 'w daemon WireProtocolServer" where
  "Meshnet_WireProtocol sy = UnimplementedWireProtocolServer\<lparr>ws_SendToOnce := (\<lambda>x. some_reply (SendToOnce sy x))\<rparr>"

definition register_services :: "nat \<Rightarrow> 'w sys \<Rightarrow> linkKey list \<Rightarrow> vxKey list \<Rightarrow> 'w daemon service list" where
  "register_services fuel sy ks vks =
     (let s1 = RegisterLocalServer [] (Meshnet_Local fuel sy ks);
          s2 = RegisterRemoteServer s1 (Meshnet_Remote sy ks vks)
      in RegisterWireProtocolServer s2 (Meshnet_WireProtocol sy))"

section \<open>What the gRPC library does\<close>

text \<open>
  The protobuf codec, for any type \<open>'f\<close> of encodings: bytes made of a message give the message back to a struct of its type,
  and no bytes, which is what a nil message is sent as, leave a new struct as it is.
\<close>

record 'f codec =
  Marshal :: "msg \<Rightarrow> 'f"
  Unmarshal :: "msg \<Rightarrow> 'f \<Rightarrow> msg res"
  NoBytes :: 'f

definition codec_law :: "'f codec \<Rightarrow> bool" where
  "codec_law c \<longleftrightarrow> (\<forall>m. Unmarshal c (new (type_of m)) (Marshal c m) = Inr m) \<and>
     (\<forall>t. Unmarshal c (new t) (NoBytes c) = Inr (new t))"

text \<open>An interceptor that only looks on, as those for tags and logging do.\<close>

definition looks_on :: "'w interceptor \<Rightarrow> bool" where
  "looks_on ic \<longleftrightarrow> (\<forall>m meth h. ic m meth h = h m)"

text \<open>An error crosses the connection as a status: its code (\<open>Unknown\<close> if it has none) and its text.\<close>

definition over_wire :: "goerr \<Rightarrow> goerr" where
  "over_wire e = Status (status_code e) (err_text e)"

text \<open>
  \<open>serves c ic svs cc\<close>: on the connection \<open>cc\<close>, calling \<open>/service/method\<close> for a registered method
  runs its handler, which decodes what was encoded; its error or its encoded reply comes back.
  A method that is not registered is answered \<open>Unimplemented\<close>.
\<close>

definition method_path :: "string \<Rightarrow> string \<Rightarrow> string" where
  "method_path s m = ''/'' @ s @ ''/'' @ m"

definition carried :: "'f codec \<Rightarrow> 'w interceptor option \<Rightarrow> 'w handler \<Rightarrow> msg \<Rightarrow> msg \<Rightarrow> ('w, msg res) io" where
  "carried c ic h m out = do {
     r \<leftarrow> h (\<lambda>z. Unmarshal c z (Marshal c m)) ic;
     return (case snd r of
         Some e \<Rightarrow> Inl (over_wire e)
       | None \<Rightarrow> Unmarshal c out (case fst r of None \<Rightarrow> NoBytes c | Some b \<Rightarrow> Marshal c b))
   }"

definition serves :: "'f codec \<Rightarrow> 'w interceptor option \<Rightarrow> 'w service list \<Rightarrow> 'w client_conn \<Rightarrow> bool" where
  "serves c ic svs cc \<longleftrightarrow>
     (\<forall>s \<in> set svs. \<forall>(n, h) \<in> set (sv_methods s). \<forall>m out.
        Invoke cc (method_path (sv_name s) n) m out = carried c ic h m out) \<and>
     (\<forall>meth m out. (\<forall>s \<in> set svs. \<forall>(n, h) \<in> set (sv_methods s). meth \<noteq> method_path (sv_name s) n) \<longrightarrow>
        (\<exists>t. Invoke cc meth m out = return (Inl (Status Unimplemented t))))"

section \<open>A call through a stub is a call of the handler\<close>

definition err_map :: "('w, 'a res) io \<Rightarrow> ('w, 'a res) io" where
  "err_map m = do { r \<leftarrow> m; return (map_sum over_wire id r) }"

lemma unary_carried:
  assumes "codec_law c" "\<And>ic. interceptor = Some ic \<Longrightarrow> looks_on ic"
    and "as (m :: msg) = Some x" "type_of m = t" "\<And>b. as' (mk b) = Some b" "\<And>b. type_of (mk b) = t'" "as' (new t') = Some z"
  shows "do { r \<leftarrow> carried c interceptor (unary_handler t as mk meth run) m (new t'); return (filled as' r) } =
     err_map (do { r \<leftarrow> run x; return (rpc_answer z r) })"
proof -
  have d: "Unmarshal c (new t) (Marshal c m) = Inr m" using assms(1,4) unfolding codec_law_def by blast
  have h: "unary_handler t as mk meth run (\<lambda>z. Unmarshal c z (Marshal c m)) interceptor =
      do { r \<leftarrow> run x; return (map_option mk (fst r), snd r) }"
    using assms(2,3) by (cases interceptor) (simp_all add: unary_handler_def d call_with_def looks_on_def)
  have b: "Unmarshal c (new t') (Marshal c (mk b)) = Inr (mk b)" for b
    using assms(1,6) unfolding codec_law_def by metis
  have n: "Unmarshal c (new t') (NoBytes c) = Inr (new t')" using assms(1) by (simp add: codec_law_def)
  have "filled as' (case snd r of Some e \<Rightarrow> Inl (over_wire e)
       | None \<Rightarrow> Unmarshal c (new t') (case map_option mk (fst r) of None \<Rightarrow> NoBytes c | Some b \<Rightarrow> Marshal c b)) =
     map_sum over_wire id (rpc_answer z r)" for r
    by (cases r; cases "fst r"; cases "snd r")
       (simp_all add: filled_def rpc_answer_def b n assms(5,7))
  then show ?thesis by (simp add: carried_def h err_map_def cong: option.case_cong)
qed

lemma rpc_answer_some [simp]: "do { r \<leftarrow> some_reply m; return (rpc_answer z r) } = served m"
  by (auto simp: some_reply_def served_def rpc_answer_def intro!: arg_cong [where f = "State_Monad.bind m"]
      split: option.split prod.split)

section \<open>The clients of the development are the generated ones\<close>

definition NewLocalClient :: "'w client_conn \<Rightarrow> 'w local_client" where
  "NewLocalClient cc =
     \<lparr>lc_Get = localClient_Get cc,
      lc_SetAlive = (\<lambda>m. do { r \<leftarrow> localClient_SetAlive cc m; return (map_sum id Some r) }),
      lc_Skip = (\<lambda>m. do { r \<leftarrow> localClient_Skip cc m; return (map_sum id Some r) }),
      lc_SkipReverse = localClient_SkipReverse cc,
      lc_IsSkipped = localClient_IsSkipped cc,
      lc_RemGRPCWire = localClient_RemGRPCWire cc,
      lc_AddGRPCWireLocal = localClient_AddGRPCWireLocal cc,
      lc_GRPCWireExists = localClient_GRPCWireExists cc,
      lc_GenerateNodeInterfaceName = localClient_GenerateNodeInterfaceName cc,
      lc_RegisterVxlanLink = localClient_RegisterVxlanLink cc,
      lc_UnregisterVxlanLink = localClient_UnregisterVxlanLink cc\<rparr>"

text \<open>
  \<open>conn u\<close> is the connection that dialing \<open>u\<close> gives; the clients of the remote and of the wire
  service are made on it.
\<close>

definition peer_clients :: "(string \<Rightarrow> ('w, goerr option) io) \<Rightarrow> (string \<Rightarrow> 'w client_conn) \<Rightarrow> 'w rpc_env" where
  "peer_clients dial conn =
     \<lparr>Dial = dial,
      RemUpdate = (\<lambda>u m. do { r \<leftarrow> remoteClient_Update (conn u) m; return (map_sum id Some r) }),
      RemAddGRPCWireRemote = (\<lambda>u. remoteClient_AddGRPCWireRemote (conn u)),
      RemGRPCWireDownRemote = (\<lambda>u. remoteClient_GRPCWireDownRemote (conn u)),
      RemSetPeerLinkState = (\<lambda>u m. do { r \<leftarrow> remoteClient_SetPeerLinkState (conn u) m; return (map_sum id Some r) }),
      RemSendToOnce = (\<lambda>u. wireProtocolClient_SendToOnce (conn u))\<rparr>"

text \<open>The same client with every error as the status it arrives as.\<close>

definition status_client :: "'w local_client \<Rightarrow> 'w local_client" where
  "status_client lc =
     \<lparr>lc_Get = (\<lambda>m. err_map (lc_Get lc m)), lc_SetAlive = (\<lambda>m. err_map (lc_SetAlive lc m)),
      lc_Skip = (\<lambda>m. err_map (lc_Skip lc m)), lc_SkipReverse = (\<lambda>m. err_map (lc_SkipReverse lc m)),
      lc_IsSkipped = (\<lambda>m. err_map (lc_IsSkipped lc m)), lc_RemGRPCWire = (\<lambda>m. err_map (lc_RemGRPCWire lc m)),
      lc_AddGRPCWireLocal = (\<lambda>m. err_map (lc_AddGRPCWireLocal lc m)), lc_GRPCWireExists = (\<lambda>m. err_map (lc_GRPCWireExists lc m)),
      lc_GenerateNodeInterfaceName = (\<lambda>m. err_map (lc_GenerateNodeInterfaceName lc m)),
      lc_RegisterVxlanLink = (\<lambda>m. err_map (lc_RegisterVxlanLink lc m)),
      lc_UnregisterVxlanLink = (\<lambda>m. err_map (lc_UnregisterVxlanLink lc m))\<rparr>"

text \<open>The constants are the paths under which the services register their methods.\<close>

lemma method_paths:
  "Local_Get_FullMethodName = method_path ''meshnet.v1beta1.Local'' ''Get''"
  "Local_SetAlive_FullMethodName = method_path ''meshnet.v1beta1.Local'' ''SetAlive''"
  "Local_SkipReverse_FullMethodName = method_path ''meshnet.v1beta1.Local'' ''SkipReverse''"
  "Local_Skip_FullMethodName = method_path ''meshnet.v1beta1.Local'' ''Skip''"
  "Local_IsSkipped_FullMethodName = method_path ''meshnet.v1beta1.Local'' ''IsSkipped''"
  "Local_GRPCWireExists_FullMethodName = method_path ''meshnet.v1beta1.Local'' ''GRPCWireExists''"
  "Local_AddGRPCWireLocal_FullMethodName = method_path ''meshnet.v1beta1.Local'' ''AddGRPCWireLocal''"
  "Local_RemGRPCWire_FullMethodName = method_path ''meshnet.v1beta1.Local'' ''RemGRPCWire''"
  "Local_GenerateNodeInterfaceName_FullMethodName = method_path ''meshnet.v1beta1.Local'' ''GenerateNodeInterfaceName''"
  "Local_RegisterVxlanLink_FullMethodName = method_path ''meshnet.v1beta1.Local'' ''RegisterVxlanLink''"
  "Local_UnregisterVxlanLink_FullMethodName = method_path ''meshnet.v1beta1.Local'' ''UnregisterVxlanLink''"
  "Remote_Update_FullMethodName = method_path ''meshnet.v1beta1.Remote'' ''Update''"
  "Remote_AddGRPCWireRemote_FullMethodName = method_path ''meshnet.v1beta1.Remote'' ''AddGRPCWireRemote''"
  "Remote_GRPCWireDownRemote_FullMethodName = method_path ''meshnet.v1beta1.Remote'' ''GRPCWireDownRemote''"
  "Remote_SetPeerLinkState_FullMethodName = method_path ''meshnet.v1beta1.Remote'' ''SetPeerLinkState''"
  "WireProtocol_SendToOnce_FullMethodName = method_path ''meshnet.v1beta1.WireProtocol'' ''SendToOnce''"
  by (simp_all add: full_method_defs method_path_def)

lemma invoke_Local:
  assumes "serves c ic (register_services fuel sy ks vks) cc"
  shows "Invoke cc Local_Get_FullMethodName m out = carried c ic (Local_Get_Handler (Meshnet_Local fuel sy ks)) m out"
    "Invoke cc Local_SetAlive_FullMethodName m out = carried c ic (Local_SetAlive_Handler (Meshnet_Local fuel sy ks)) m out"
    "Invoke cc Local_SkipReverse_FullMethodName m out = carried c ic (Local_SkipReverse_Handler (Meshnet_Local fuel sy ks)) m out"
    "Invoke cc Local_Skip_FullMethodName m out = carried c ic (Local_Skip_Handler (Meshnet_Local fuel sy ks)) m out"
    "Invoke cc Local_IsSkipped_FullMethodName m out = carried c ic (Local_IsSkipped_Handler (Meshnet_Local fuel sy ks)) m out"
    "Invoke cc Local_GRPCWireExists_FullMethodName m out = carried c ic (Local_GRPCWireExists_Handler (Meshnet_Local fuel sy ks)) m out"
    "Invoke cc Local_AddGRPCWireLocal_FullMethodName m out = carried c ic (Local_AddGRPCWireLocal_Handler (Meshnet_Local fuel sy ks)) m out"
    "Invoke cc Local_RemGRPCWire_FullMethodName m out = carried c ic (Local_RemGRPCWire_Handler (Meshnet_Local fuel sy ks)) m out"
    "Invoke cc Local_GenerateNodeInterfaceName_FullMethodName m out = carried c ic (Local_GenerateNodeInterfaceName_Handler (Meshnet_Local fuel sy ks)) m out"
    "Invoke cc Local_RegisterVxlanLink_FullMethodName m out = carried c ic (Local_RegisterVxlanLink_Handler (Meshnet_Local fuel sy ks)) m out"
    "Invoke cc Local_UnregisterVxlanLink_FullMethodName m out = carried c ic (Local_UnregisterVxlanLink_Handler (Meshnet_Local fuel sy ks)) m out"
  using assms by (simp_all add: serves_def register_services_def service_defs method_paths)

lemma invoke_Remote:
  assumes "serves c ic (register_services fuel sy ks vks) cc"
  shows "Invoke cc Remote_Update_FullMethodName m out = carried c ic (Remote_Update_Handler (Meshnet_Remote sy ks vks)) m out"
    "Invoke cc Remote_AddGRPCWireRemote_FullMethodName m out = carried c ic (Remote_AddGRPCWireRemote_Handler (Meshnet_Remote sy ks vks)) m out"
    "Invoke cc Remote_GRPCWireDownRemote_FullMethodName m out = carried c ic (Remote_GRPCWireDownRemote_Handler (Meshnet_Remote sy ks vks)) m out"
    "Invoke cc Remote_SetPeerLinkState_FullMethodName m out = carried c ic (Remote_SetPeerLinkState_Handler (Meshnet_Remote sy ks vks)) m out"
  using assms by (simp_all add: serves_def register_services_def service_defs method_paths)

lemma invoke_WireProtocol:
  assumes "serves c ic (register_services fuel sy ks vks) cc"
  shows "Invoke cc WireProtocol_SendToOnce_FullMethodName m out = carried c ic (WireProtocol_SendToOnce_Handler (Meshnet_WireProtocol sy)) m out"
  using assms by (simp_all add: serves_def register_services_def service_defs method_paths)

lemma err_map_Some: "do { r \<leftarrow> err_map m; return (map_sum id Some r) } = err_map (do { r \<leftarrow> m; return (map_sum id Some r) })"
proof -
  have "map_sum id Some (map_sum over_wire id r) = map_sum over_wire id (map_sum id Some r)" for r :: "'b res"
    by (cases r) simp_all
  then show ?thesis by (simp add: err_map_def)
qed

lemma rem_answer:
  "rpc_answer z (case r of None \<Rightarrow> (None, Some e) | Some (b, x) \<Rightarrow> (Some b, x)) =
     (case r of None \<Rightarrow> Inl e | Some (b, None) \<Rightarrow> Inr b | Some (b, Some x) \<Rightarrow> Inl x)"
  by (simp add: rpc_answer_def split: option.split prod.split)

lemma zero_responses: "zero_BoolResponse = no_response"
  by (simp add: zero_BoolResponse_def)

lemma stub_calls:
  assumes "serves c ic (register_services fuel sy ks vks) cc" "codec_law c" "\<And>i. ic = Some i \<Longrightarrow> looks_on i"
  shows "localClient_Get cc x0 = err_map (do { r \<leftarrow> ls_Get (Meshnet_Local fuel sy ks) x0; return (rpc_answer zero_Pod r) })"
    "localClient_SetAlive cc x1 = err_map (do { r \<leftarrow> ls_SetAlive (Meshnet_Local fuel sy ks) x1; return (rpc_answer zero_BoolResponse r) })"
    "localClient_SkipReverse cc x2 = err_map (do { r \<leftarrow> ls_SkipReverse (Meshnet_Local fuel sy ks) x2; return (rpc_answer zero_BoolResponse r) })"
    "localClient_Skip cc x3 = err_map (do { r \<leftarrow> ls_Skip (Meshnet_Local fuel sy ks) x3; return (rpc_answer zero_BoolResponse r) })"
    "localClient_IsSkipped cc x4 = err_map (do { r \<leftarrow> ls_IsSkipped (Meshnet_Local fuel sy ks) x4; return (rpc_answer zero_BoolResponse r) })"
    "localClient_GRPCWireExists cc x5 = err_map (do { r \<leftarrow> ls_GRPCWireExists (Meshnet_Local fuel sy ks) x5; return (rpc_answer zero_WireCreateResponse r) })"
    "localClient_AddGRPCWireLocal cc x6 = err_map (do { r \<leftarrow> ls_AddGRPCWireLocal (Meshnet_Local fuel sy ks) x6; return (rpc_answer zero_BoolResponse r) })"
    "localClient_RemGRPCWire cc x7 = err_map (do { r \<leftarrow> ls_RemGRPCWire (Meshnet_Local fuel sy ks) x7; return (rpc_answer zero_BoolResponse r) })"
    "localClient_GenerateNodeInterfaceName cc x8 = err_map (do { r \<leftarrow> ls_GenerateNodeInterfaceName (Meshnet_Local fuel sy ks) x8; return (rpc_answer zero_GenerateNodeInterfaceNameResponse r) })"
    "localClient_RegisterVxlanLink cc x9 = err_map (do { r \<leftarrow> ls_RegisterVxlanLink (Meshnet_Local fuel sy ks) x9; return (rpc_answer zero_BoolResponse r) })"
    "localClient_UnregisterVxlanLink cc x10 = err_map (do { r \<leftarrow> ls_UnregisterVxlanLink (Meshnet_Local fuel sy ks) x10; return (rpc_answer zero_BoolResponse r) })"
    "remoteClient_Update cc x11 = err_map (do { r \<leftarrow> rs_Update (Meshnet_Remote sy ks vks) x11; return (rpc_answer zero_BoolResponse r) })"
    "remoteClient_AddGRPCWireRemote cc x12 = err_map (do { r \<leftarrow> rs_AddGRPCWireRemote (Meshnet_Remote sy ks vks) x12; return (rpc_answer zero_WireCreateResponse r) })"
    "remoteClient_GRPCWireDownRemote cc x13 = err_map (do { r \<leftarrow> rs_GRPCWireDownRemote (Meshnet_Remote sy ks vks) x13; return (rpc_answer zero_WireDownResponse r) })"
    "remoteClient_SetPeerLinkState cc x14 = err_map (do { r \<leftarrow> rs_SetPeerLinkState (Meshnet_Remote sy ks vks) x14; return (rpc_answer zero_BoolResponse r) })"
    "wireProtocolClient_SendToOnce cc x15 = err_map (do { r \<leftarrow> ws_SendToOnce (Meshnet_WireProtocol sy) x15; return (rpc_answer zero_BoolResponse r) })"
  unfolding client_stub_defs unary_call_def invoke_Local [OF assms(1)] invoke_Remote [OF assms(1)] invoke_WireProtocol [OF assms(1)] handler_defs
  by (rule unary_carried [OF assms(2,3)]; simp)+

section \<open>Properties\<close>

lemmas meshnet_defs = Meshnet_Local_def Meshnet_Remote_def Meshnet_WireProtocol_def
  UnimplementedLocalServer_def UnimplementedRemoteServer_def UnimplementedWireProtocolServer_def

text \<open>
  C19: The client that the plugin works with is the daemon's code. On a connection that serves
  the daemon's registered services, through any interceptor that only looks on, the
  generated local client is, method by method and state by state, the daemon's handlers run
  in place, with every error turned into the status that keeps its code and its text.
\<close>

theorem local_client_is_the_daemon:
  assumes "serves c ic (register_services fuel sy ks vks) cc" "codec_law c" "\<And>i. ic = Some i \<Longrightarrow> looks_on i"
  shows "NewLocalClient cc = status_client (client_of fuel sy ks) \<and> status_code (over_wire e) = status_code e"
proof -
  note calls = stub_calls [OF assms]
  show ?thesis
    by (simp add: NewLocalClient_def status_client_def client_of_def fun_eq_iff calls err_map_Some meshnet_defs
        rem_answer zero_responses over_wire_def)
qed

text \<open>
  C20: The same for the peers: a daemon that dials a peer's address and makes the generated
  clients of the remote and of the wire service on that connection runs the peer's handlers,
  as the composition of two daemons assumes, with errors as statuses.
\<close>

theorem peer_clients_are_the_peer:
  assumes "serves c ic (register_services fuel sy ks vks) (conn url)" "codec_law c" "\<And>i. ic = Some i \<Longrightarrow> looks_on i"
  shows "RemUpdate (peer_clients dial conn) url x1 = err_map (RemUpdate (daemon_rpc sy ks vks url) url x1) \<and>
     RemAddGRPCWireRemote (peer_clients dial conn) url x2 = err_map (RemAddGRPCWireRemote (daemon_rpc sy ks vks url) url x2) \<and>
     RemGRPCWireDownRemote (peer_clients dial conn) url x3 = err_map (RemGRPCWireDownRemote (daemon_rpc sy ks vks url) url x3) \<and>
     RemSetPeerLinkState (peer_clients dial conn) url x4 = err_map (RemSetPeerLinkState (daemon_rpc sy ks vks url) url x4) \<and>
     RemSendToOnce (peer_clients dial conn) url x5 = err_map (RemSendToOnce (daemon_rpc sy ks vks url) url x5)"
proof -
  note calls = stub_calls [OF assms]
  show ?thesis by (simp add: peer_clients_def daemon_rpc_def calls err_map_Some meshnet_defs)
qed

lemma unary_refuses: "\<forall>t. decode (new t) = Inl e \<Longrightarrow> unary_handler t as mk meth run decode ic = return (None, Some e)"
  by (simp add: unary_handler_def)

text \<open>
  What reaches no handler. A request that cannot be decoded is answered with the
  decoder's error by every method of every service, the interceptor is not asked, and the
  daemon's state does not change; and the streaming method, which the daemon does not
  implement, answers \<open>Unimplemented\<close> without touching the stream.
\<close>

theorem refused_requests_change_nothing:
  assumes "s \<in> set (register_services fuel sy ks vks)"
  shows "((n, h) \<in> set (sv_methods s) \<longrightarrow> (\<forall>t. decode (new t) = Inl e) \<longrightarrow> run_state (h decode ic) d = ((None, Some e), d)) \<and>
     ((n, g) \<in> set (sv_streams s) \<longrightarrow> g stream = return (Some (unimplemented n)))"
  using assms
  by (auto simp: register_services_def service_defs handler_defs unary_refuses WireProtocol_SendToStream_Handler_def meshnet_defs)

section \<open>The tables of the descriptor\<close>

text \<open>A connection that answers what it was asked, by \<open>g\<close>; and that answer of a stub.\<close>

definition probe :: "(string \<Rightarrow> msg_type \<Rightarrow> msg_type \<Rightarrow> goerr) \<Rightarrow> unit client_conn" where
  "probe g = \<lparr>Invoke = (\<lambda>meth m out. return (Inl (g meth (type_of m) (type_of out)))),
     NewStream = (\<lambda>d meth. return (Inl (g meth T_Packet T_BoolResponse)))\<rparr>"

definition answer :: "(unit, 'a res) io \<Rightarrow> goerr option" where
  "answer m = (case fst (run_state m ()) of Inl e \<Rightarrow> Some e | Inr x \<Rightarrow> None)"

text \<open>
  Client, server and descriptor agree on every unary method. In the order in which the
  services list their methods: the client's full method name is the path the server
  registers, the client sends and the handler decodes the request type that the descriptor's
  tables give the method, and the client expects its reply type.
\<close>

theorem stubs_agree_with_descriptor:
  "map (\<lambda>(n, h). fst (run_state (h (\<lambda>z. Inl (f (type_of z))) ic) d)) (concat (map sv_methods (register_services fuel sy ks vks))) =
     map (\<lambda>k. (None, Some (f (request_type k)))) [0..<16] \<and>
   (let cc = probe g in
     [answer (localClient_Get cc x1), answer (localClient_SetAlive cc x2), answer (localClient_SkipReverse cc x3),
      answer (localClient_Skip cc x4), answer (localClient_IsSkipped cc x5), answer (localClient_GRPCWireExists cc x6),
      answer (localClient_AddGRPCWireLocal cc x7), answer (localClient_RemGRPCWire cc x8),
      answer (localClient_GenerateNodeInterfaceName cc x9), answer (localClient_RegisterVxlanLink cc x10),
      answer (localClient_UnregisterVxlanLink cc x11), answer (remoteClient_Update cc x12),
      answer (remoteClient_AddGRPCWireRemote cc x13), answer (remoteClient_GRPCWireDownRemote cc x14),
      answer (remoteClient_SetPeerLinkState cc x15), answer (wireProtocolClient_SendToOnce cc x16)]) =
     map (\<lambda>k. Some (g (concat (map (\<lambda>s. map (\<lambda>(n, h). method_path (sv_name s) n) (sv_methods s))
         (register_services fuel sy ks vks)) ! k) (request_type k) (reply_type k))) [0..<16]"
proof -
  have upt: "[0..<16] = [0, 1, 2, 3, 4, 5, 6, 7, 8, 9, 10, 11, 12, 13, 14, 15]" by (simp add: upt_rec)
  have paths: "concat (map (\<lambda>s. map (\<lambda>(n, h). method_path (sv_name s) n) (sv_methods s)) (register_services fuel sy ks vks)) =
     [Local_Get_FullMethodName, Local_SetAlive_FullMethodName, Local_SkipReverse_FullMethodName, Local_Skip_FullMethodName,
      Local_IsSkipped_FullMethodName, Local_GRPCWireExists_FullMethodName, Local_AddGRPCWireLocal_FullMethodName,
      Local_RemGRPCWire_FullMethodName, Local_GenerateNodeInterfaceName_FullMethodName, Local_RegisterVxlanLink_FullMethodName,
      Local_UnregisterVxlanLink_FullMethodName, Remote_Update_FullMethodName, Remote_AddGRPCWireRemote_FullMethodName,
      Remote_GRPCWireDownRemote_FullMethodName, Remote_SetPeerLinkState_FullMethodName, WireProtocol_SendToOnce_FullMethodName]"
    by (simp add: register_services_def service_defs method_paths)
  have types: "map request_type [0..<16] = [T_PodQuery, T_Pod, T_SkipQuery, T_SkipQuery, T_SkipQuery, T_WireDef, T_WireDef, T_WireDef,
      T_GenerateNodeInterfaceNameRequest, T_VxlanLinkDef, T_VxlanLinkDef, T_RemotePod, T_WireDef, T_WireDef, T_WireLinkState, T_Packet]"
    "map reply_type [0..<16] = [T_Pod, T_BoolResponse, T_BoolResponse, T_BoolResponse, T_BoolResponse, T_WireCreateResponse,
      T_BoolResponse, T_BoolResponse, T_GenerateNodeInterfaceNameResponse, T_BoolResponse, T_BoolResponse, T_BoolResponse,
      T_WireCreateResponse, T_WireDownResponse, T_BoolResponse, T_BoolResponse]"
    by (simp_all add: upt request_type_def reply_type_def go_types_def dep_idxs_def)
  show ?thesis unfolding paths
    using types unfolding upt
    by (simp add: register_services_def service_defs handler_defs unary_handler_def client_stub_defs unary_call_def probe_def
        answer_def filled_def Let_def)
qed

section \<open>A connection that serves\<close>

text \<open>The dispatcher that the law describes, and a codec whose encodings are the messages.\<close>

definition direct_conn :: "'f codec \<Rightarrow> 'w interceptor option \<Rightarrow> 'w service list \<Rightarrow> 'w client_conn" where
  "direct_conn c ic svs =
     \<lparr>Invoke = (\<lambda>meth m out.
        (case map_of (concat (map (\<lambda>s. map (\<lambda>(n, h). (method_path (sv_name s) n, h)) (sv_methods s)) svs)) meth of
           None \<Rightarrow> return (Inl (Status Unimplemented ''unknown method''))
         | Some h \<Rightarrow> carried c ic h m out)),
      NewStream = (\<lambda>d meth. return (Inl (Status Unimplemented ''unknown method'')))\<rparr>"

definition msg_codec :: "msg option codec" where
  "msg_codec = \<lparr>Marshal = Some,
     Unmarshal = (\<lambda>z b. case b of None \<Rightarrow> Inr z
                        | Some m \<Rightarrow> if type_of m = type_of z then Inr m else Inl (Err ''wrong type'')),
     NoBytes = None\<rparr>"

lemma msg_codec_law: "codec_law msg_codec"
  by (simp add: codec_law_def msg_codec_def)

lemma direct_serves:
  "serves c ic (register_services fuel sy ks vks) (direct_conn c ic (register_services fuel sy ks vks))"
proof -
  let ?svs = "register_services fuel sy ks vks"
  let ?tab = "concat (map (\<lambda>s. map (\<lambda>(n, h). (method_path (sv_name s) n, h)) (sv_methods s)) ?svs)"
  have "distinct (map fst ?tab)"
    by (simp add: register_services_def service_defs method_path_def)
  then have "map_of ?tab (method_path (sv_name s) n) = Some h" if "s \<in> set ?svs" "(n, h) \<in> set (sv_methods s)" for s n h
    using that by (intro map_of_is_SomeI) auto
  moreover have "map_of ?tab meth = None" if "\<forall>s \<in> set ?svs. \<forall>(n, h) \<in> set (sv_methods s). meth \<noteq> method_path (sv_name s) n" for meth
  proof -
    have "meth \<notin> fst ` set ?tab" using that by fastforce
    then show ?thesis by (simp add: map_of_eq_None_iff)
  qed
  ultimately show ?thesis by (auto simp: serves_def direct_conn_def)
qed

abbreviation demo_services :: "api daemon service list" where
  "demo_services \<equiv> register_services 1 (ref_sys demo_env) [] []"

abbreviation demo_conn :: "api daemon client_conn" where
  "demo_conn \<equiv> direct_conn msg_codec (Some (\<lambda>m meth h. h m)) demo_services"

theorem local_client_is_the_daemon_witness:
  "NewLocalClient demo_conn = status_client (client_of 1 (ref_sys demo_env) []) \<and>
     status_code (over_wire (Wrap ''get: '' (Status NotFound ''no pod''))) = NotFound"
  using local_client_is_the_daemon [OF direct_serves msg_codec_law, of "Some (\<lambda>m meth h. h m)" 1 "ref_sys demo_env" "[]" "[]"
      "Wrap ''get: '' (Status NotFound ''no pod'')"]
  by (simp add: looks_on_def)

theorem peer_clients_are_the_peer_witness:
  "RemAddGRPCWireRemote (peer_clients (\<lambda>u. return None) (\<lambda>u. demo_conn)) ''peer'' demo_def =
     err_map (RemAddGRPCWireRemote (daemon_rpc (ref_sys demo_env) [] [] ''peer'') ''peer'' demo_def)"
proof -
  have s: "serves msg_codec (Some (\<lambda>m meth h. h m)) demo_services ((\<lambda>u. demo_conn) ''peer'')" by (rule direct_serves)
  show ?thesis
    using peer_clients_are_the_peer [OF s msg_codec_law, where ?x2.0 = demo_def and dial = "\<lambda>u. return None"]
    by (simp add: looks_on_def)
qed

theorem refused_requests_change_nothing_witness:
  "run_state (WireProtocol_SendToOnce_Handler (Meshnet_WireProtocol (ref_sys demo_env)) (\<lambda>z. Inl (Err ''bad bytes'')) None) demo_daemon =
     ((None, Some (Err ''bad bytes'')), demo_daemon) \<and>
   (\<forall>stream. WireProtocol_SendToStream_Handler (Meshnet_WireProtocol (ref_sys demo_env)) stream =
      return (Some (unimplemented ''SendToStream'')))"
proof -
  let ?s = "\<lparr>sv_name = ''meshnet.v1beta1.WireProtocol'',
     sv_methods = [(''SendToOnce'', WireProtocol_SendToOnce_Handler (Meshnet_WireProtocol (ref_sys demo_env)))],
     sv_streams = [(''SendToStream'', WireProtocol_SendToStream_Handler (Meshnet_WireProtocol (ref_sys demo_env)))]\<rparr>"
  have "?s \<in> set demo_services" by (simp add: register_services_def service_defs)
  from refused_requests_change_nothing [OF this, where decode = "\<lambda>z. Inl (Err ''bad bytes'')" and d = demo_daemon and ic = None]
  show ?thesis by auto
qed

end
