(* ===== verification/Trigger_Steps.thy ===== *)
theory Trigger_Steps
  imports Daemon_Calls
begin

text \<open>
  \<open>AddGRPCWireRemote\<close> under concurrency.  gRPC runs every call in a goroutine of its own, so
  several triggers for the same wire may be under way at once, and none of the locks spans a
  whole handler.  The handler is cut into stages: its look-up of the wire, the check of the
  interface that is in the way, the making of the interfaces, the opening of the host's end, and
  the filing of the new wire.  A system of any number of calls steps one of them at a time.
  A call that is left alone is the handler of \<open>Handler\<close>, and every stage keeps what the other
  calls have in hand.
\<close>

section \<open>The stages of a call\<close>

datatype trigger =
    Arrived WireDef
  | Clearing WireDef nat string string VEth
  | Making WireDef nat string string VEth
  | Opening WireDef nat string VEth
  | Adding WireDef nat nat
  | Answered "WireCreateResponse \<times> goerr option"

definition failed :: "WireDef \<Rightarrow> goerr \<Rightarrow> trigger" where
  "failed wd e = Answered (\<lparr>wcr_Response = False, wcr_PeerIntfId = wd_WireIfIdOnPeerNode wd\<rparr>, Some e)"

text \<open>\<open>go RecvFrmLocalPodThread(wire, ...)\<close> and the answer.\<close>

definition started :: "nat \<Rightarrow> ('w, trigger) dio" where
  "started a = do {
     w \<leftarrow> wire_of a;
     start_thread a (gw_LocalNodeIfaceName w);
     return (Answered (\<lparr>wcr_Response = True, wcr_PeerIntfId = gw_LocalNodeIfaceID w\<rparr>, None))
   }"

text \<open>A channel is made; a wire that exists is updated; otherwise names are chosen.\<close>

definition arrive :: "'w sys \<Rightarrow> WireDef \<Rightarrow> ('w, trigger) dio" where
  "arrive sy wd = do {
     stopC \<leftarrow> on_wires make_chan;
     known \<leftarrow> on_wires (UpdateWireByUID (wd_LocalPodNetNs wd) (wd_LinkUid wd) (wd_WireIfIdOnPeerNode wd) stopC);
     (case known of
        Some a \<Rightarrow> do {
          w \<leftarrow> wire_of a;
          err \<leftarrow> lift (K8sStoreGWire (sy_lib sy) (sy_os sy) (sy_kube sy) w);
          started a
        }
      | None \<Rightarrow> do {
          g \<leftarrow> reads dm_index;
          (case GenNodeIfaceName (wd_LocalPodName wd) (wd_IntfNameInPod wd) g of
             (Inl e, g') \<Rightarrow> return (failed wd (errorf_v ''[ADD-WIRE:REMOTE-END] could not get current network namespace: '' e))
           | (Inr outIfNm, g') \<Rightarrow> do {
               modifies (\<lambda>d. d\<lparr>dm_index := g'\<rparr>);
               rc \<leftarrow> lift (GetCurrentNS (sy_net sy));
               return (case rc of
                  Inl e \<Rightarrow> failed wd (errorf_v ''[ADD-WIRE:REMOTE-END] could not get current network namespace: '' e)
                | Inr currNs \<Rightarrow>
                    (case remote_veth (sy_net sy) wd of
                       Inl e \<Rightarrow> failed wd e
                     | Inr inVeth \<Rightarrow> Clearing wd stopC outIfNm (ns_Path currNs) inVeth))
             })
        })
   }"

text \<open>The interface is opened; the wire is made, but not filed yet.\<close>

definition open_end :: "'w sys \<Rightarrow> WireDef \<Rightarrow> nat \<Rightarrow> string \<Rightarrow> VEth \<Rightarrow> ('w, trigger) dio" where
  "open_end sy wd stopC outIfNm inVeth = do {
     et \<leftarrow> lift (SetTxChecksumOff (sy_net sy) (ve_LinkName inVeth) (ve_NsName inVeth));
     rl \<leftarrow> lift (LinkByName (sy_net sy) CurrentNs outIfNm);
     (case rl of
        Inl e \<Rightarrow> return (failed wd e)
      | Inr locIface \<Rightarrow> do {
          a \<leftarrow> alloc_wire (word_of_int (nl_Index locIface)) outIfNm stopC wd (\<lambda>w. w);
          rh \<leftarrow> lift (PcapOpenLive (sy_net sy) outIfNm);
          return (case rh of Inl e \<Rightarrow> failed wd e | Inr wrHandle \<Rightarrow> Adding wd a wrHandle)
        })
   }"

fun trigger_step :: "'w sys \<Rightarrow> trigger \<Rightarrow> ('w, trigger) dio" where
  "trigger_step sy (Arrived wd) = arrive sy wd"
| "trigger_step sy (Clearing wd c nm here v) = do {
     es \<leftarrow> ensureNoStaleRemoteEnd sy v wd;
     return (case es of Some e \<Rightarrow> failed wd e | None \<Rightarrow> Making wd c nm here v)
   }"
| "trigger_step sy (Making wd c nm here v) = do {
     em \<leftarrow> lift (MakeVeth (sy_net sy) (sy_os sy) v \<lparr>ve_NsName = here, ve_LinkName = nm, ve_IPAddr = [], ve_MTU = 0\<rparr>);
     return (case em of Some e \<Rightarrow> failed wd e | None \<Rightarrow> Opening wd c nm v)
   }"
| "trigger_step sy (Opening wd c nm v) = open_end sy wd c nm v"
| "trigger_step sy (Adding wd a h) = do { AddWireInMemNDataStore sy a h; started a }"
| "trigger_step sy (Answered r) = return (Answered r)"

fun trigger_run :: "nat \<Rightarrow> 'w sys \<Rightarrow> trigger \<Rightarrow> ('w, trigger) dio" where
  "trigger_run 0 sy p = return p"
| "trigger_run (Suc n) sy p = do { q \<leftarrow> trigger_step sy p; trigger_run n sy q }"

section \<open>Alone, the stages are the handler\<close>

lemma run_answered [simp]: "trigger_run n sy (Answered r) = return (Answered r)" "trigger_run n sy (failed wd e) = return (failed wd e)"
  by (induction n) (simp_all add: failed_def)

lemma ext_run: "(\<And>s. run_state m s = run_state n s) \<Longrightarrow> m = n"
  by (cases m; cases n) (simp add: fun_eq_iff)

lemma step_failed [simp]: "trigger_step sy (failed wd e) = return (failed wd e)"
  by (simp add: failed_def)

definition as_answer :: "nat res \<Rightarrow> WireDef \<Rightarrow> ('w, trigger) dio" where
  "as_answer r wd = (case r of Inr a \<Rightarrow> started a | Inl e \<Rightarrow> return (failed wd e))"

lemma opening_runs:
  "trigger_run (Suc (Suc n)) sy (Opening wd c nm v) =
     do { et \<leftarrow> lift (SetTxChecksumOff (sy_net sy) (ve_LinkName v) (ve_NsName v));
          r \<leftarrow> file_remote_wire sy wd c nm;
          as_answer r wd }"
proof (rule ext_run)
  fix d :: "'a daemon"
  obtain et w1 where t: "run_state (SetTxChecksumOff (sy_net sy) (ve_LinkName v) (ve_NsName v)) (dm_world d) = (et, w1)" by fastforce
  obtain l w2 where l: "run_state (LinkByName (sy_net sy) CurrentNs nm) w1 = (l, w2)" by fastforce
  obtain h w3 where h: "run_state (PcapOpenLive (sy_net sy) nm) w2 = (h, w3)" by fastforce
  show "run_state (trigger_run (Suc (Suc n)) sy (Opening wd c nm v)) d = run_state (do {
      et \<leftarrow> lift (SetTxChecksumOff (sy_net sy) (ve_LinkName v) (ve_NsName v));
      r \<leftarrow> file_remote_wire sy wd c nm; as_answer r wd }) d"
    by (cases l; cases h)
       (simp_all add: open_end_def file_remote_wire_def as_answer_def alloc_wire_def t l h started_def split: prod.split)
qed

text \<open>
  Run one after the other with nothing between them, the stages are the handler: the same
  answer and the same state of the daemon, for every request and state.
\<close>

lemma undisturbed_run:
  "run_state (trigger_run 5 sy (Arrived wd)) d =
     (case run_state (AddGRPCWireRemote sy wd) d of (r, d') \<Rightarrow> (Answered r, d'))"
proof -
  let ?c = "chnext (dm_wires d)" and ?d0 = "d\<lparr>dm_wires := (dm_wires d)\<lparr>chnext := Suc (chnext (dm_wires d))\<rparr>\<rparr>"
  have five: "(5 :: nat) = Suc (Suc (Suc (Suc (Suc 0))))" by simp
  have h: "run_state (AddGRPCWireRemote sy wd) d =
      (case run_state (CreateUpdateGRPCWireRemoteTriggered sy wd ?c) ?d0 of (r, d1) \<Rightarrow>
         run_state (case r of Inr a \<Rightarrow> do { w \<leftarrow> wire_of a; start_thread a (gw_LocalNodeIfaceName w);
              return (\<lparr>wcr_Response = True, wcr_PeerIntfId = gw_LocalNodeIfaceID w\<rparr>, None) }
            | Inl e \<Rightarrow> return (\<lparr>wcr_Response = False, wcr_PeerIntfId = wd_WireIfIdOnPeerNode wd\<rparr>, Some e)) d1)"
    by (simp add: AddGRPCWireRemote_def make_chan_def)
  have answer: "(case run_state m s of (r, d1) \<Rightarrow> run_state (as_answer r wd) d1) =
      (case (case run_state m s of (r, d1) \<Rightarrow>
         run_state (case r of Inr a \<Rightarrow> do { w \<leftarrow> wire_of a; start_thread a (gw_LocalNodeIfaceName w);
              return (\<lparr>wcr_Response = True, wcr_PeerIntfId = gw_LocalNodeIfaceID w\<rparr>, None) }
            | Inl e \<Rightarrow> return (\<lparr>wcr_Response = False, wcr_PeerIntfId = wd_WireIfIdOnPeerNode wd\<rparr>, Some e)) d1)
       of (r, d') \<Rightarrow> (Answered r, d'))" for m :: "('a, nat res) dio" and s
    by (auto simp: as_answer_def started_def failed_def start_thread_def wire_of_def split: prod.split sum.split)
  have "run_state (trigger_run 5 sy (Arrived wd)) d =
      (case run_state (CreateUpdateGRPCWireRemoteTriggered sy wd ?c) ?d0 of (r, d1) \<Rightarrow> run_state (as_answer r wd) d1)"
  proof -
    obtain k m1 where k: "UpdateWireByUID (wd_LocalPodNetNs wd) (wd_LinkUid wd) (wd_WireIfIdOnPeerNode wd) ?c (dm_wires ?d0) = (k, m1)"
      by fastforce
    obtain gn g' where gn: "GenNodeIfaceName (wd_LocalPodName wd) (wd_IntfNameInPod wd) (dm_index d) = (gn, g')" by fastforce
    obtain cn w1 where cn: "run_state (GetCurrentNS (sy_net sy)) (dm_world d) = (cn, w1)" by fastforce
    show ?thesis
    proof (cases k)
      case (Some a)
      then show ?thesis using k
        by (simp add: five arrive_def make_chan_def CreateUpdateGRPCWireRemoteTriggered_def started_def as_answer_def wire_of_def
            start_thread_def split: prod.split)
    next
      case None
      show ?thesis
      proof (cases "\<exists>nm ns v. gn = Inr nm \<and> cn = Inr ns \<and> remote_veth (sy_net sy) wd = Inr v")
        case False
        then show ?thesis using k None gn cn
          by (cases gn; cases cn; cases "remote_veth (sy_net sy) wd")
             (simp_all add: five arrive_def make_chan_def CreateUpdateGRPCWireRemoteTriggered_def as_answer_def)
      next
        case True
        then obtain nm ns v where g: "gn = Inr nm" "cn = Inr ns" "remote_veth (sy_net sy) wd = Inr v" by blast
        let ?d1 = "d\<lparr>dm_wires := m1, dm_index := g', dm_world := w1\<rparr>"
        obtain es d2 where es: "run_state (ensureNoStaleRemoteEnd sy v wd) ?d1 = (es, d2)" by fastforce
        obtain em w2 where em: "run_state (MakeVeth (sy_net sy) (sy_os sy) v
            \<lparr>ve_NsName = ns_Path ns, ve_LinkName = nm, ve_IPAddr = [], ve_MTU = 0\<rparr>) (dm_world d2) = (em, w2)" by fastforce
        show ?thesis
        proof (cases "es = None \<and> em = None")
          case True
          have "run_state (trigger_run 5 sy (Arrived wd)) d =
              run_state (trigger_run (Suc (Suc 0)) sy (Opening wd ?c nm v)) (d2\<lparr>dm_world := w2\<rparr>)"
            using k None gn cn g es em True
            by (simp add: five arrive_def make_chan_def del: trigger_step.simps(4) split: prod.split)
          then show ?thesis using k None gn cn g es em True unfolding opening_runs
            by (simp add: make_chan_def CreateUpdateGRPCWireRemoteTriggered_def split: prod.split)
        next
          case False
          then show ?thesis using k None gn cn g es em
            by (cases es; cases em)
               (simp_all add: five arrive_def make_chan_def CreateUpdateGRPCWireRemoteTriggered_def as_answer_def)
        qed
      qed
    qed
  qed
  then show ?thesis unfolding h answer by simp
qed

section \<open>Any number of calls at once\<close>

text \<open>The channel a call holds, and the wire it has made, until it files them.\<close>

fun chans_held :: "trigger \<Rightarrow> nat list" where
  "chans_held (Clearing wd c nm here v) = [c]"
| "chans_held (Making wd c nm here v) = [c]"
| "chans_held (Opening wd c nm v) = [c]"
| "chans_held p = []"

fun wires_made :: "trigger \<Rightarrow> nat list" where
  "wires_made (Adding wd a h) = [a]"
| "wires_made p = []"

lemma held_failed [simp]: "chans_held (failed wd e) = []" "wires_made (failed wd e) = []"
  by (simp_all add: failed_def)

text \<open>Channels in hand that no wire has, and wires in hand that no key leads to.\<close>

definition spare :: "nat set \<Rightarrow> nat set \<Rightarrow> wireMap \<Rightarrow> bool" where
  "spare C A m \<longleftrightarrow> chans_ok m C \<and> (\<forall>a \<in> A. unfiled a m)"

lemma spare_less: "spare C A m \<Longrightarrow> C' \<subseteq> C \<Longrightarrow> A' \<subseteq> A \<Longrightarrow> spare C' A' m"
  unfolding spare_def chans_ok_def by blast

lemma wires_okD: "wires_ok m \<Longrightarrow> chans_ok m C \<Longrightarrow> wire_inv (sys_of m C Map.empty)"
  by (simp add: wires_ok_def wire_inv_def)

lemma wires_okI: "wire_inv (sys_of m C Map.empty) \<Longrightarrow> wires_ok m \<and> chans_ok m C"
  by (simp add: wires_ok_def wire_inv_def chans_ok_def)

lemma unfiled_kept:
  assumes "unfiled a m" "wires_ok m'" "wheap m' a = wheap m a" "\<And>k. wires m' k = Some a \<Longrightarrow> wires m k = Some a"
    and "\<And>w. wheap m a = Some w \<Longrightarrow> gw_StopC w \<in> chclosed m' \<Longrightarrow> gw_StopC w \<in> chclosed m"
  shows "unfiled a m'"
  using assms unfolding unfiled_def live_def by metis

lemma make_spare:
  assumes "wires_ok m" "spare C A m" "make_chan m = (c, m')"
  shows "grows m m' \<and> wires_ok m' \<and> c \<notin> C \<and> spare (insert c C) A m'"
proof -
  from assms(2) have ch: "chans_ok m C" and un: "\<forall>a \<in> A. unfiled a m" by (simp_all add: spare_def)
  have inv: "wires_ok m'" "chans_ok m' (insert c C)"
    using wires_okI [of m' "insert c C"] inv_make [OF wires_okD [OF assms(1) ch], of c m'] assms(3) by simp_all
  have m': "c = chnext m" "m' = m\<lparr>chnext := Suc (chnext m)\<rparr>" using assms(3) by (auto simp: make_chan_def)
  have "unfiled a m'" if "a \<in> A" for a
    by (rule unfiled_kept [OF un [rule_format, OF that] inv(1)]) (simp_all add: m')
  moreover have "c \<notin> C" using ch unfolding chans_ok_def m' by blast
  ultimately show ?thesis using inv make_ok [OF assms(1,3)] by (simp add: spare_def)
qed

lemma update_spare:
  assumes "wires_ok m" "spare (insert c C) A m" "c \<notin> C" "UpdateWireByUID ns uid p c m = (r, m')"
  shows "grows m m' \<and> wires_ok m' \<and> (case r of None \<Rightarrow> m' = m | Some a \<Rightarrow> allocated m' a \<and> spare C A m')"
proof -
  from assms(2) have ch: "chans_ok m (insert c C)" and un: "\<forall>a \<in> A. unfiled a m" by (simp_all add: spare_def)
  have "holds_chan c m" unfolding holds_chan_def
    by (rule wires_okD [OF assms(1)]) (use ch in \<open>simp add: chans_ok_def\<close>)
  note old = update_ok [OF this assms(4)]
  show ?thesis
  proof (cases r)
    case None
    then show ?thesis using old assms(1) by auto
  next
    case (Some a)
    have inv: "wires_ok m'" "chans_ok m' C"
      using wires_okI [of m' C] inv_update [OF wires_okD [OF assms(1) ch], of c ns uid p a m'] assms(3,4) Some
      by (simp_all add: insert_Diff_if)
    have m': "wires m (ns, uid) = Some a" "wires m' = wires m" "chclosed m' = chclosed m"
      "\<And>b. b \<noteq> a \<Longrightarrow> wheap m' b = wheap m b"
      using assms(4) Some by (auto simp: UpdateWireByUID_def split: option.splits)
    have "unfiled b m'" if b: "b \<in> A" for b
    proof -
      have "b \<noteq> a" using un b m'(1) by (auto simp: unfiled_def)
      then show ?thesis by (intro unfiled_kept [OF un [rule_format, OF b] inv(1)]) (simp_all add: m')
    qed
    then show ?thesis using old inv Some by (simp add: spare_def)
  qed
qed

lemma new_spare:
  assumes "wires_ok m" "spare (insert c C) A m" "c \<notin> C" "gw_StopC w = c" "new_wire w m = (a, m')"
  shows "grows m m' \<and> wires_ok m' \<and> a \<notin> A \<and> spare C (insert a A) m'"
proof -
  from assms(2) have ch: "chans_ok m (insert c C)" and un: "\<forall>a \<in> A. unfiled a m" by (simp_all add: spare_def)
  have "holds_chan c m" unfolding holds_chan_def
    by (rule wires_okD [OF assms(1)]) (use ch in \<open>simp add: chans_ok_def\<close>)
  note new = new_ok [OF this assms(4,5)]
  have m': "a = wnext m" "m' = m\<lparr>wheap := (wheap m)(a \<mapsto> w), wnext := Suc a\<rparr>"
    using assms(5) by (auto simp: new_wire_def)
  have "heap_ok m" using assms(1) by (simp add: wires_ok_def wire_inv_def)
  then have fresh: "wheap m a = None" unfolding heap_ok_def m'(1) by (metis less_irrefl not_None_eq)
  have ok: "wires_ok m'" using new unfiled_ok by blast
  have old: "b \<noteq> a" if "b \<in> A" for b using un that fresh by (auto simp: unfiled_def)
  have "unfiled b m'" if "b \<in> A" for b
    by (rule unfiled_kept [OF un [rule_format, OF that] ok]) (use old [OF that] in \<open>simp_all add: m'(2)\<close>)
  moreover have "chans_ok m' C" using ch assms(3,4) unfolding chans_ok_def m'(2) by auto
  ultimately show ?thesis using new ok old by (auto simp: spare_def)
qed

text \<open>Marking a wire in hand ready, and filing it, leave the others in hand.\<close>

definition ready_wire :: "nat \<Rightarrow> nat set \<Rightarrow> wireMap \<Rightarrow> bool" where
  "ready_wire a A m \<longleftrightarrow> a \<notin> A \<and> unfiled a m \<and> gw_IsReady (wire_at m a)"

lemma ready_spare:
  assumes "spare C (insert a A) m" "a \<notin> A" "m' = upd_wire a (\<lambda>w. w\<lparr>gw_IsReady := True\<rparr>) m"
  shows "grows m m' \<and> wires_ok m' \<and> ready_wire a A m' \<and> spare C A m'"
proof -
  from assms(1) have ch: "chans_ok m C" and un: "unfiled a m" "\<forall>b \<in> A. unfiled b m" by (simp_all add: spare_def)
  note r = ready_ok [OF un(1) assms(3)]
  have "unfiled b m'" if b: "b \<in> A" for b
    by (rule unfiled_kept [OF un(2) [rule_format, OF b] unfiled_ok [OF conjunct1 [OF r]]])
       (use b assms(2) in \<open>auto simp: assms(3)\<close>)
  moreover have "chans_ok m' C" using ch unfolding chans_ok_def assms(3) by (auto split: if_splits) blast
  ultimately show ?thesis using r unfiled_ok assms(2) by (auto simp: spare_def ready_wire_def)
qed

lemma file_spare:
  assumes "spare C A m" "ready_wire a A m" "m' = m\<lparr>wires := (wires m)(key_of (wire_at m a) \<mapsto> a)\<rparr>"
  shows "grows m m' \<and> wires_ok m' \<and> allocated m' a \<and> spare C A m'"
proof -
  from assms(1,2) have ch: "chans_ok m C" and un: "\<forall>b \<in> A. unfiled b m"
    and a: "a \<notin> A" "unfiled a m" "gw_IsReady (wire_at m a)" by (simp_all add: spare_def ready_wire_def)
  have ok: "wires_ok m'" "allocated m a" using file_ok [OF a(2,3)] assms(3) by simp_all
  have "unfiled b m'" if b: "b \<in> A" for b
    by (rule unfiled_kept [OF un [rule_format, OF b] ok(1)]) (use b a(1) in \<open>auto simp: assms(3) split: if_splits\<close>)
  moreover have "chans_ok m' C" using ch unfolding chans_ok_def assms(3) by simp
  ultimately show ?thesis using ok by (simp add: spare_def grows_def allocated_def assms(3))
qed

lemma handle_spare:
  "wires_ok m \<Longrightarrow> spare C A m \<Longrightarrow> spare C A (m\<lparr>handles := h\<rparr>)"
  unfolding spare_def unfiled_def chans_ok_def live_def by simp

lemma down_spare:
  assumes "wires_ok m" "spare C A m" "WireDownByUID ns uid m = (e, m')"
  shows "grows m m' \<and> wires_ok m' \<and> spare C A m'"
proof -
  from assms(2) have ch: "chans_ok m C" and un: "\<forall>b \<in> A. unfiled b m" by (simp_all add: spare_def)
  have inv: "wires_ok m'" "chans_ok m' C"
    using wires_okI [of m' C] inv_down [OF wires_okD [OF assms(1) ch], of ns uid e m'] assms(3) by simp_all
  have hp: "heap_ok m" and tr: "tracked_ok m" using assms(1) by (simp_all add: wires_ok_def wire_inv_def)
  have "unfiled b m'" if b: "b \<in> A" for b
  proof (cases "wires m (ns, uid)")
    case None
    then show ?thesis using un b assms(3) by (auto simp: WireDownByUID_def)
  next
    case (Some a)
    obtain w where w: "wheap m a = Some w" using tracked_okD [OF tr Some] by blast
    have "b \<noteq> a" using un b Some by (auto simp: unfiled_def)
    let ?n = "if gw_IsReady w then close_chan (gw_StopC w) m else m"
    have n: "close_if_ready a m = ?n" using w by (simp add: close_if_ready_def)
    have m: "m' = mark_down a ?n" using assms(3) Some by (simp add: WireDownByUID_def stop_wire_def n)
    have m': "wires m' = wires m" "wheap m' b = wheap m b" "chclosed m' \<subseteq> insert (gw_StopC w) (chclosed m)"
      using \<open>b \<noteq> a\<close> by (simp_all add: m mark_down_def subset_insertI)
    have "gw_StopC v \<noteq> gw_StopC w" if "wheap m b = Some v" for v
      using hp that w \<open>b \<noteq> a\<close> unfolding heap_ok_def by metis
    then show ?thesis by (intro unfiled_kept [OF un [rule_format, OF b] inv(1)]) (use m' in auto)
  qed
  then show ?thesis using inv down_ok [OF assms(1,3)] by (simp add: spare_def)
qed

section \<open>Each stage keeps what it and the others have in hand\<close>

text \<open>A call at some stage, beside calls that have \<open>C\<close> and \<open>A\<close> in hand.\<close>

definition beside :: "nat set \<Rightarrow> nat set \<Rightarrow> trigger \<Rightarrow> wireMap \<Rightarrow> bool" where
  "beside C A p m \<longleftrightarrow> set (chans_held p) \<inter> C = {} \<and> set (wires_made p) \<inter> A = {} \<and>
     spare (set (chans_held p) \<union> C) (set (wires_made p) \<union> A) m"

lemma return_beside:
  "(\<And>m. wires_ok m \<Longrightarrow> P m \<Longrightarrow> beside C A p m) \<Longrightarrow> hoare (with_wires P) (return p) (\<lambda>q. with_wires (beside C A q))"
  by (rule hoare_return) (simp add: with_wires_def well_formed_def)

lemma hoare_thread_spare:
  "hoare (with_wires (\<lambda>m. allocated m a \<and> P m)) (start_thread a ifc) (\<lambda>x. with_wires P)"
  by (auto simp: hoare_def start_thread_def with_wires_def well_formed_def threads_ok_def)

lemma started_beside:
  "hoare (with_wires (\<lambda>m. allocated m a \<and> spare C A m)) (started a) (\<lambda>q. with_wires (beside C A q))"
  unfolding started_def wire_of_def
  by (rule hoare_bind [OF hoare_reads_keep], rule hoare_seq [OF hoare_thread_spare], rule return_beside)
     (simp add: beside_def)

lemma chan_spare:
  "hoare (with_wires (spare C A)) (on_wires make_chan) (\<lambda>c. with_wires (\<lambda>m. c \<notin> C \<and> spare (insert c C) A m))"
  by (rule hoare_wires) (use make_spare in blast)

lemma filed_beside:
  "hoare (with_wires (beside C A (Adding wd a h))) (AddWireInMemNDataStore sy a h)
     (\<lambda>x. with_wires (\<lambda>m. allocated m a \<and> spare C A m))"
proof -
  have ready: "hoare (with_wires (beside C A (Adding wd a h))) (on_wires (\<lambda>m. ((), upd_wire a (\<lambda>w. w\<lparr>gw_IsReady := True\<rparr>) m)))
      (\<lambda>x. with_wires (\<lambda>m. ready_wire a A m \<and> spare C A m))"
    by (rule hoare_wires) (use ready_spare in \<open>auto simp: beside_def\<close>)
  have filed: "hoare (with_wires (\<lambda>m. (ready_wire a A m \<and> spare C A m) \<and> w = wire_at m a))
      (on_wires (\<lambda>m. ((), m\<lparr>wires := (wires m)(key_of w \<mapsto> a)\<rparr>))) (\<lambda>x. with_wires (\<lambda>m. allocated m a \<and> spare C A m))" for w
    by (rule hoare_wires) (use file_spare in auto)
  have hnd: "hoare (with_wires (\<lambda>m. allocated m a \<and> spare C A m)) (on_wires (\<lambda>m. ((), m\<lparr>handles := (handles m)(i \<mapsto> h)\<rparr>)))
      (\<lambda>x. with_wires (\<lambda>m. allocated m a \<and> spare C A m))" for i
    by (rule hoare_wires) (use handle_spare in \<open>auto simp: grows_def allocated_def\<close>)
  have both: "hoare (with_wires (\<lambda>m. (ready_wire a A m \<and> spare C A m) \<and> w = wire_at m a))
      (do { on_wires (\<lambda>m. ((), m\<lparr>wires := (wires m)(key_of w \<mapsto> a)\<rparr>));
            err \<leftarrow> lift (K8sStoreGWire (sy_lib sy) (sy_os sy) (sy_kube sy) w);
            on_wires (\<lambda>m. ((), m\<lparr>handles := (handles m)(gw_LocalNodeIfaceID w \<mapsto> h)\<rparr>)) })
      (\<lambda>x. with_wires (\<lambda>m. allocated m a \<and> spare C A m))" for w
    by (rule hoare_seq [OF filed], rule hoare_bind [OF hoare_lift_wires hnd])
  have add: "hoare (with_wires (\<lambda>m. ready_wire a A m \<and> spare C A m)) (AddInMemNDataStore sy a h)
      (\<lambda>x. with_wires (\<lambda>m. allocated m a \<and> spare C A m))"
    unfolding AddInMemNDataStore_def wire_of_def
    by (rule hoare_reads, rule hoare_weaken [OF both]) (auto simp: with_wires_def)
  show ?thesis unfolding AddWireInMemNDataStore_def by (rule hoare_seq [OF ready add])
qed

lemma adding_beside:
  "hoare (with_wires (beside C A (Adding wd a h))) (do { AddWireInMemNDataStore sy a h; started a })
     (\<lambda>q. with_wires (beside C A q))"
  by (rule hoare_seq [OF filed_beside started_beside])

lemma spare_made:
  assumes "\<And>w. gw_StopC (f w) = gw_StopC w"
  shows "hoare (with_wires (\<lambda>m. c \<notin> C \<and> spare (insert c C) A m)) (alloc_wire i nm c wd f)
    (\<lambda>a. with_wires (beside C A (Adding wd a 0)))"
  unfolding alloc_wire_def
proof (rule hoare_wires)
  fix m a m' assume "wires_ok m" "c \<notin> C \<and> spare (insert c C) A m" "new_wire (f (CreateGWire i nm c wd)) m = (a, m')"
  from new_spare [OF this(1) conjunct2 [OF this(2)] conjunct1 [OF this(2)] _ this(3)] assms
  show "grows m m' \<and> wires_ok m' \<and> beside C A (Adding wd a 0) m'" by (simp add: beside_def CreateGWire_def)
qed

lemma opening_beside:
  "hoare (with_wires (beside C A (Opening wd c nm v))) (open_end sy wd c nm v) (\<lambda>q. with_wires (beside C A q))"
proof -
  have err: "hoare (with_wires (beside C A (Opening wd c nm v))) (return (failed wd e)) (\<lambda>q. with_wires (beside C A q))" for e
    by (rule return_beside) (auto simp: beside_def intro: spare_less)
  have alloc: "hoare (with_wires (beside C A (Opening wd c nm v))) (alloc_wire i nm c wd (\<lambda>w. w))
      (\<lambda>a. with_wires (beside C A (Adding wd a 0)))" for i
    by (rule hoare_weaken [OF spare_made]) (simp_all add: beside_def with_wires_def)
  have adding: "hoare (with_wires (beside C A (Adding wd a 0))) (return (case rh of Inl e \<Rightarrow> failed wd e | Inr h \<Rightarrow> Adding wd a h))
      (\<lambda>q. with_wires (beside C A q))" for a rh
    by (rule return_beside, cases rh) (auto simp: beside_def intro: spare_less)
  show ?thesis unfolding open_end_def
    by (rule hoare_bind [OF hoare_lift_wires], rule hoare_bind [OF hoare_lift_wires], rule hoare_sum [OF err],
        rule hoare_seq [OF alloc], rule hoare_bind [OF hoare_lift_wires adding])
qed

lemma arrive_beside:
  "hoare (with_wires (beside C A (Arrived wd))) (arrive sy wd) (\<lambda>q. with_wires (beside C A q))"
proof -
  have mk: "hoare (with_wires (beside C A (Arrived wd))) (on_wires make_chan)
      (\<lambda>c. with_wires (\<lambda>m. c \<notin> C \<and> spare (insert c C) A m))"
    by (rule hoare_weaken [OF chan_spare]) (simp_all add: beside_def with_wires_def)
  have upd: "hoare (with_wires (\<lambda>m. c \<notin> C \<and> spare (insert c C) A m)) (on_wires (UpdateWireByUID ns uid i c))
      (\<lambda>r. with_wires (\<lambda>m. case r of None \<Rightarrow> c \<notin> C \<and> spare (insert c C) A m | Some a \<Rightarrow> allocated m a \<and> spare C A m))"
    for c ns uid i
  proof (rule hoare_wires)
    fix m r m' assume ok: "wires_ok m" and c: "c \<notin> C \<and> spare (insert c C) A m" and u: "UpdateWireByUID ns uid i c m = (r, m')"
    from update_spare [OF ok conjunct2 [OF c] conjunct1 [OF c] u] c
    show "grows m m' \<and> wires_ok m' \<and>
        (case r of None \<Rightarrow> c \<notin> C \<and> spare (insert c C) A m' | Some a \<Rightarrow> allocated m' a \<and> spare C A m')"
      by (cases r) auto
  qed
  have known: "hoare (with_wires (\<lambda>m. allocated m a \<and> spare C A m))
      (do { w \<leftarrow> wire_of a; err \<leftarrow> lift (K8sStoreGWire (sy_lib sy) (sy_os sy) (sy_kube sy) w); started a })
      (\<lambda>q. with_wires (beside C A q))" for a
    unfolding wire_of_def by (rule hoare_bind [OF hoare_reads_keep], rule hoare_bind [OF hoare_lift_wires started_beside])
  have err: "hoare (with_wires (\<lambda>m. c \<notin> C \<and> spare (insert c C) A m)) (return (failed wd e)) (\<lambda>q. with_wires (beside C A q))" for c e
    by (rule return_beside) (auto simp: beside_def intro: spare_less)
  have names: "hoare (with_wires (\<lambda>m. c \<notin> C \<and> spare (insert c C) A m))
      (return (case rc of Inl e \<Rightarrow> failed wd (f e)
         | Inr ns \<Rightarrow> (case rv of Inl e \<Rightarrow> failed wd e | Inr v \<Rightarrow> Clearing wd c nm (g ns) v))) (\<lambda>q. with_wires (beside C A q))"
    for c nm rv f g and rc :: "(goerr + 'b)"
    by (rule return_beside, cases rc; cases rv) (auto simp: beside_def intro: spare_less)
  show ?thesis unfolding arrive_def
    by (rule hoare_seq [OF mk], rule hoare_seq [OF upd], rule hoare_option, hypsubst, unfold option.case,
        rule hoare_bind [OF hoare_reads_keep], rule hoare_prod, rule hoare_sum [OF err],
        rule hoare_bind [OF hoare_index], rule hoare_bind [OF hoare_lift_wires names], hypsubst, unfold option.case, rule known)
qed

lemma stage_beside:
  "hoare (with_wires (beside C A p)) (trigger_step sy p) (\<lambda>q. with_wires (beside C A q))"
proof (cases p)
  case (Arrived wd)
  then show ?thesis using arrive_beside by simp
next
  case (Clearing wd c nm here v)
  have "hoare (with_wires (beside C A p)) (return (case es of Some e \<Rightarrow> failed wd e | None \<Rightarrow> Making wd c nm here v))
      (\<lambda>q. with_wires (beside C A q))" for es
    by (rule return_beside, cases es) (auto simp: Clearing beside_def intro: spare_less)
  from hoare_bind [OF stale_ok this] show ?thesis by (simp add: Clearing)
next
  case (Making wd c nm here v)
  have "hoare (with_wires (beside C A p)) (return (case em of Some e \<Rightarrow> failed wd e | None \<Rightarrow> Opening wd c nm v))
      (\<lambda>q. with_wires (beside C A q))" for em
    by (rule return_beside, cases em) (auto simp: Making beside_def intro: spare_less)
  from hoare_bind [OF hoare_lift_wires this] show ?thesis by (simp add: Making)
next
  case (Opening wd c nm v)
  then show ?thesis using opening_beside by simp
next
  case (Adding wd a h)
  then show ?thesis using adding_beside by simp
next
  case (Answered r)
  then show ?thesis by (simp add: hoare_return)
qed

lemma runs_keep:
  assumes "\<And>p. hoare (P p) (trigger_step sy p) P"
  shows "hoare (P p) (trigger_run n sy p) P"
proof (induction n arbitrary: p)
  case (Suc n)
  show ?case by (simp del: run_bind) (rule hoare_seq [OF assms Suc])
qed (simp add: hoare_return)

end
