(* ===== verification/Trigger_Calls.thy ===== *)
theory Trigger_Calls
  imports Trigger_Steps
begin

text \<open>
  What else runs while calls of \<open>AddGRPCWireRemote\<close> are under way: every other call of the
  daemon, and the ticks of its background threads, each as one step.  None of them touches
  the channels and wires that the calls under way have in hand.  The traffic of a daemon is
  any sequence of such steps and of stages.
\<close>

section \<open>Calls that leave the wires alone\<close>

definition on_map :: "(wireMap \<Rightarrow> bool) \<Rightarrow> 'w daemon \<Rightarrow> bool" where
  "on_map P d \<longleftrightarrow> P (dm_wires d)"

lemma map_rules:
  "hoare (on_map P) (lift m) (\<lambda>x. on_map P)" "hoare (on_map P) (modifies (\<lambda>d. d\<lparr>dm_index := g d\<rparr>)) (\<lambda>x. on_map P)"
  "hoare (on_map P) (start_thread a ifc) (\<lambda>x. on_map P)" "hoare (on_map P) (reads f) (\<lambda>x. on_map P)"
  "hoare (on_map P) (modifies (\<lambda>d. d\<lparr>dm_echo := t d\<rparr>)) (\<lambda>x. on_map P)"
  "hoare (on_map P) (modifies (\<lambda>d. d\<lparr>dm_ips := c d\<rparr>)) (\<lambda>x. on_map P)"
  "hoare (on_map P) (modifies (\<lambda>d. d\<lparr>dm_links := l d\<rparr>)) (\<lambda>x. on_map P)"
  by (auto simp: hoare_def on_map_def start_thread_def split: prod.splits)

lemma map_wires:
  "(\<And>m r m'. P m \<Longrightarrow> f m = (r, m') \<Longrightarrow> Q r m') \<Longrightarrow> hoare (on_map P) (on_wires f) (\<lambda>r. on_map (Q r))"
  by (auto simp: hoare_def on_map_def split: prod.splits)

lemma map_return: "(\<And>m. P m \<Longrightarrow> Q x m) \<Longrightarrow> hoare (on_map P) (return x) (\<lambda>r. on_map (Q r))"
  by (rule hoare_return) (simp add: on_map_def)

lemma map_stale: "hoare (on_map P) (ensureNoStaleRemoteEnd sy v wd) (\<lambda>x. on_map P)"
  by (rule hoareI) (auto simp: on_map_def dest!: ensure_frame)

lemmas keeps_rules = hoare_bind hoare_option hoare_sum hoare_prod hoare_bool hoare_if map_rules map_return

lemma get_keeps: "hoare (on_map P) (Get sy q) (\<lambda>x. on_map P)"
proof -
  have v: "hoare (on_map P) (ValidatePeerNodeIP os k ip) (\<lambda>x. on_map P)" for os :: "'a os_env" and k ip
    unfolding ValidatePeerNodeIP_def validatePeerNodeIP_def refreshNodeIPs_def Let_def by (intro keeps_rules)
  show ?thesis unfolding Get_def Let_def
    by (intro hoare_bind [OF map_rules(1)] hoare_bind [OF hoare_if] v map_return hoare_sum hoare_prod hoare_option hoare_bool)
qed

lemma wire_edges_keeps: "hoare (on_map P) (wire_edges rpc ks es) (\<lambda>x. on_map P)"
proof (induction es)
  case (Cons e es)
  have "hoare (on_map P) (propagateEdge rpc ks i up) (\<lambda>x. on_map P)" for i up
    unfolding propagateEdge_def by (intro keeps_rules)
  then show ?case unfolding wire_edges.simps
    by (intro hoare_bind [OF map_rules(4)] hoare_prod hoare_bool hoare_bind [OF map_rules(5)] hoare_bind Cons.IH)
qed (simp add: hoare_def)

lemma vx_edges_keeps: "hoare (on_map P) (vx_edges rpc ks es) (\<lambda>x. on_map P)"
proof (induction es)
  case (Cons e es)
  have "hoare (on_map P) (vx_propagateEdge rpc ks i up) (\<lambda>x. on_map P)" for i up
    unfolding vx_propagateEdge_def by (intro keeps_rules)
  then show ?case unfolding vx_edges.simps
    by (intro hoare_bind [OF map_rules(4)] hoare_prod hoare_bool hoare_bind [OF map_rules(5)] hoare_bind Cons.IH)
qed (simp add: hoare_def)

lemma ticks_keep:
  "hoare (on_map P) (carrier_tick sy ks order now deb) (\<lambda>x. on_map P)"
  "hoare (on_map P) (vx_tick nt rpc vks order now deb) (\<lambda>x. on_map P)"
  unfolding carrier_tick_def vx_tick_def
  by (intro hoare_bind [OF map_rules(4)] hoare_bind [OF map_rules(1)] hoare_prod hoare_bind [OF wire_edges_keeps]
      hoare_bind [OF vx_edges_keeps] map_return; assumption)+

lemma other_keeps:
  "hoare (on_map P) (Update_vxlan sy pod) (\<lambda>x. on_map P)" "hoare (on_map P) (RegisterVxlanLink def) (\<lambda>x. on_map P)"
  "hoare (on_map P) (UnregisterVxlanLink v) (\<lambda>x. on_map P)" "hoare (on_map P) (GenerateNodeInterfaceName req) (\<lambda>x. on_map P)"
  "hoare (on_map P) (SendToOnce sy pkt) (\<lambda>x. on_map P)" "hoare (on_map P) (SetPeerLinkState sy ks vks st) (\<lambda>x. on_map P)"
  "hoare (on_map P) (GRPCWireExists wd) (\<lambda>x. on_map P)" "hoare (on_map P) (ReassertLocalLinkStates sy ks) (\<lambda>x. on_map P)"
  "hoare (on_map P) (vx_ReassertLocalLinkStates nt rpc vks) (\<lambda>x. on_map P)"
  unfolding Update_vxlan_def RegisterVxlanLink_def UnregisterVxlanLink_def RegisterFromRemotePod_def RegisterFromDef_def
    GenerateNodeInterfaceName_def SendToOnce_def SetPeerLinkState_def SetLocalVethState_def SetLocalLinkState_def
    GRPCWireExists_def ReassertLocalLinkStates_def vx_ReassertLocalLinkStates_def
  by (intro keeps_rules; assumption)+

section \<open>Calls that change the wires\<close>

lemma local_spare: "hoare (with_wires (spare C A)) (AddGRPCWireLocal sy wd) (\<lambda>x. with_wires (spare C A))"
proof -
  have core: "hoare (with_wires (spare C A))
      (do { stopC \<leftarrow> on_wires make_chan;
            a \<leftarrow> alloc_wire i nm stopC wd (\<lambda>w. w\<lparr>gw_IsReady := False, gw_Originator := HOST_CREATED_WIRE, gw_OriginatorIP := ''unknown''\<rparr>);
            AddWireInMemNDataStore sy a h;
            w \<leftarrow> wire_of a;
            start_thread a (gw_LocalNodeIfaceName w);
            return (ok_response, None) }) (\<lambda>x. with_wires (spare C A))" for i nm h
  proof (rule hoare_seq [OF chan_spare], rule hoare_seq [OF spare_made])
    fix c a
    have h: "beside C A (Adding wd a 0) = beside C A (Adding wd a h)" by (rule ext) (simp add: beside_def)
    have "hoare (with_wires (beside C A (Adding wd a 0))) (AddWireInMemNDataStore sy a h)
        (\<lambda>x. with_wires (\<lambda>m. allocated m a \<and> spare C A m))" unfolding h by (rule filed_beside)
    then show "hoare (with_wires (beside C A (Adding wd a 0)))
        (do { AddWireInMemNDataStore sy a h; w \<leftarrow> wire_of a; start_thread a (gw_LocalNodeIfaceName w); return (ok_response, None) })
        (\<lambda>x. with_wires (spare C A))"
      unfolding wire_of_def
      by (rule hoare_seq) (rule hoare_bind [OF hoare_reads_keep], rule hoare_seq [OF hoare_thread_spare], rule hoare_return)
  qed simp
  have err: "hoare (with_wires (spare C A)) (return (no_response, Some e)) (\<lambda>x. with_wires (spare C A))" for e :: goerr
    by (rule hoare_return)
  show ?thesis unfolding AddGRPCWireLocal_def CreateGRPCWireLocal_def
    by (rule hoare_bind [OF hoare_lift_wires], rule hoare_sum [OF err], rule hoare_bind [OF hoare_lift_wires],
        rule hoare_bind [OF hoare_lift_wires], rule hoare_sum [OF err core])
qed

lemma remote_spare: "hoare (with_wires (spare C A)) (AddGRPCWireRemote sy wd) (\<lambda>x. with_wires (spare C A))"
proof (rule hoareI)
  fix d r d' assume "with_wires (spare C A) d" "run_state (AddGRPCWireRemote sy wd) d = (r, d')"
  then have "with_wires (beside C A (Arrived wd)) d" "run_state (trigger_run 5 sy (Arrived wd)) d = (Answered r, d')"
    by (simp_all add: beside_def undisturbed_run with_wires_def)
  from hoareD [OF runs_keep [where P = "\<lambda>q. with_wires (beside C A q)", OF stage_beside] this]
  show "with_wires (spare C A) d'" by (simp add: beside_def with_wires_def)
qed

lemma down_call_spare: "hoare (with_wires (spare C A)) (GRPCWireDownRemote wd) (\<lambda>x. with_wires (spare C A))"
proof -
  have "hoare (with_wires (spare C A)) (on_wires (WireDownByUID ns uid)) (\<lambda>x. with_wires (spare C A))" for ns uid
    by (rule hoare_wires) (use down_spare in blast)
  then show ?thesis unfolding GRPCWireDownRemote_def GRPCWireDownRemoteTriggered_def
    by (intro hoare_rules | assumption)+
qed

text \<open>A wire that is taken out to be stopped is none of those in hand.\<close>

definition taken :: "nat set \<Rightarrow> nat set \<Rightarrow> nat \<Rightarrow> wireMap \<Rightarrow> bool" where
  "taken C A a m \<longleftrightarrow> wire_inv (sys_of m C [a \<mapsto> AtTest]) \<and> a \<notin> A \<and> (\<forall>b \<in> A. unfiled b m)"

lemma taken_ok: "taken C A a m \<Longrightarrow> wires_ok m"
  by (simp add: taken_def wires_ok_def wire_inv_def stopping_ok_def chans_ok_def)

lemma extract_spare:
  assumes "wires_ok m" "spare C A m" "ExtractOneWireByPod ks ns pod m = ((r, b), m')"
  shows "grows m m' \<and> wires_ok m' \<and> (case r of None \<Rightarrow> spare C A m' | Some a \<Rightarrow> taken C A a m')"
proof (cases r)
  case None
  then show ?thesis using assms extract_none [of ks ns pod m b m'] by (auto simp: grows_def)
next
  case (Some a)
  from assms(2) have ch: "chans_ok m C" and un: "\<forall>b \<in> A. unfiled b m" by (simp_all add: spare_def)
  have inv: "wire_inv (sys_of m' C [a \<mapsto> AtTest])"
    using inv_extract [OF wires_okD [OF assms(1) ch], of ks ns pod a b m'] assms(3) Some by simp
  then have ok: "wires_ok m'" by (simp add: wires_ok_def wire_inv_def stopping_ok_def chans_ok_def)
  obtain k w where k: "wires m k = Some a" "wheap m a = Some w" "m' = AtomicDelete a m"
    using extract_spec [OF assms(3) [unfolded Some]] by blast
  have "a \<notin> A" using un k(1) by (cases k) (auto simp: unfiled_def)
  moreover have "unfiled c m'" if "c \<in> A" for c
    by (rule unfiled_kept [OF un [rule_format, OF that] ok]) (use k in \<open>auto split: if_splits\<close>)
  ultimately show ?thesis using inv ok Some k by (simp add: taken_def grows_def allocated_def)
qed

lemma stop_spare:
  assumes "taken C A a m"
  shows "grows m (stop_wire a m) \<and> wires_ok (stop_wire a m) \<and> spare C A (stop_wire a m)"
proof -
  from assms have inv: "wire_inv (sys_of m C [a \<mapsto> AtTest])" and a: "a \<notin> A" and un: "\<forall>b \<in> A. unfiled b m"
    by (simp_all add: taken_def)
  then obtain w where w: "wheap m a = Some w"
    by (simp add: wire_inv_def stopping_ok_def) (metis option.distinct(1))
  let ?n = "if gw_IsReady w then close_chan (gw_StopC w) m else m"
  have n: "close_if_ready a m = ?n" using w by (simp add: close_if_ready_def)
  have t: "wire_inv (sys_of m C [a \<mapsto> (if gw_IsReady w then AtClose else AtMark)])"
    using inv_test [OF inv, of a w] w by simp
  have c: "wire_inv (sys_of ?n C [a \<mapsto> AtMark])"
    using t w inv_close [of "sys_of m C [a \<mapsto> AtClose]" a w] by (cases "gw_IsReady w") simp_all
  have s: "stop_wire a m = mark_down a ?n" by (simp add: stop_wire_def n)
  have ok: "wires_ok (stop_wire a m)" "chans_ok (stop_wire a m) C"
    using wires_okI [of "stop_wire a m" C] inv_mark [OF c, of a] by (simp_all add: s)
  have hp: "heap_ok m" using inv by (simp add: wire_inv_def)
  have "unfiled b (stop_wire a m)" if b: "b \<in> A" for b
  proof -
    have ba: "b \<noteq> a" using b a by auto
    have ch: "gw_StopC v \<noteq> gw_StopC w" if "wheap m b = Some v" for v
      using hp that w ba unfolding heap_ok_def by metis
    show ?thesis
      by (rule unfiled_kept [OF un [rule_format, OF b] ok(1)]) (use ch ba in \<open>auto simp: s mark_down_def split: if_splits\<close>)
  qed
  then show ?thesis using ok w by (auto simp: spare_def grows_def allocated_def s mark_down_def)
qed

lemma drain_spare: "hoare (with_wires (spare C A)) (drain_pod fuel sy ks ns pod errs) (\<lambda>x. with_wires (spare C A))"
proof (induction fuel arbitrary: errs)
  case 0
  show ?case by (simp add: hoare_def)
next
  case (Suc fuel)
  have take: "hoare (with_wires (spare C A)) (on_wires (ExtractOneWireByPod ks ns pod))
      (\<lambda>x. with_wires (\<lambda>m. case fst x of None \<Rightarrow> spare C A m | Some a \<Rightarrow> taken C A a m))"
    by (rule hoare_wires) (use extract_spare in \<open>auto simp: prod_eq_iff\<close>)
  have stop: "hoare (with_wires (taken C A a)) (on_wires (\<lambda>m. ((), stop_wire a m))) (\<lambda>x. with_wires (spare C A))" for a
    by (rule hoare_wires) (use stop_spare in blast)
  have remove: "hoare (with_wires (taken C A a)) (RemoveWireAcrosAll sy (Some a) False) (\<lambda>x. with_wires (spare C A))" for a
    unfolding RemoveWireAcrosAll_def wire_of_def option.case
    by (rule hoare_seq [OF stop]) (unfold if_False, intro hoare_rules)
  show ?case unfolding drain_pod.simps
  proof (rule hoare_seq [OF take], rule hoare_option)
    fix x :: "nat option \<times> bool" and a assume x: "fst x = Some a"
    show "hoare (with_wires (\<lambda>m. case fst x of None \<Rightarrow> spare C A m | Some a \<Rightarrow> taken C A a m))
        (do { e \<leftarrow> RemoveWireAcrosAll sy (Some a) False;
              drain_pod fuel sy ks ns pod (case e of None \<Rightarrow> errs | Some e \<Rightarrow> errs @ [e]) }) (\<lambda>x. with_wires (spare C A))"
      unfolding x option.case by (rule hoare_seq [OF remove], rule Suc.IH)
  qed (simp add: hoare_def with_wires_def)
qed

lemma rem_spare: "hoare (with_wires (spare C A)) (RemGRPCWire fuel sy ks wd) (\<lambda>x. with_wires (spare C A))"
proof -
  have "hoare (with_wires (spare C A)) (DeletePodWires fuel sy ks ns pod) (\<lambda>x. with_wires (spare C A))" for ns pod
    unfolding DeletePodWires_def by (rule hoare_bind [OF drain_spare]) (intro hoare_rules)
  then show ?thesis unfolding RemGRPCWire_def by (intro hoare_bind hoare_return)
qed

text \<open>Every call of the daemon leaves what is in hand as it is.\<close>

lemma perform_spare:
  assumes "with_wires (spare C A) d" "run_state (perform sy c) d = ((), d')"
  shows "with_wires (spare C A) d'"
proof -
  have d: "hoare P m (\<lambda>x. P) \<Longrightarrow> hoare P (drop_result m) (\<lambda>x. P)" for m :: "('a, 'b) dio" and P
    by (intro hoare_bind hoare_return)
  have ok: "well_formed d'" using hoareD [OF perform_ok _ assms(2)] assms(1) by (simp add: with_wires_def)
  have quiet: ?thesis if "hoare (on_map (spare C A)) (perform sy c) (\<lambda>x. on_map (spare C A))"
    using hoareD [OF that _ assms(2)] assms(1) ok by (simp add: with_wires_def on_map_def)
  have busy: ?thesis if "hoare (with_wires (spare C A)) (perform sy c) (\<lambda>x. with_wires (spare C A))"
    using hoareD [OF that assms(1,2)] .
  note q = d [OF get_keeps] d [OF map_rules(1)] d [OF other_keeps(1)] d [OF other_keeps(2)] d [OF other_keeps(3)]
    d [OF other_keeps(4)] d [OF other_keeps(5)] d [OF other_keeps(6)] d [OF other_keeps(7)] other_keeps(8,9)
    d [OF ticks_keep(1)] d [OF ticks_keep(2)]
  note b = d [OF rem_spare] d [OF local_spare] d [OF remote_spare] d [OF down_call_spare]
  show ?thesis
    by (cases c) ((rule quiet, (simp only: perform.simps q; fail)) | (rule busy, (simp only: perform.simps b; fail)))+
qed

section \<open>Traffic\<close>

text \<open>
  A new call arrives; one of the calls takes its next stage; another call, or a tick of a
  background thread, runs from start to end; the world outside changes.
\<close>

inductive traffic_step :: "'w sys \<Rightarrow> trigger list \<times> 'w daemon \<Rightarrow> trigger list \<times> 'w daemon \<Rightarrow> bool" for sy where
  call: "traffic_step sy (ps, d) (ps @ [Arrived wd], d)"
| turn: "run_state (trigger_step sy p) d = (q, d') \<Longrightarrow> traffic_step sy (xs @ p # ys, d) (xs @ q # ys, d')"
| other: "run_state (perform sy c) d = ((), d') \<Longrightarrow> traffic_step sy (ps, d) (ps, d')"
| outside: "traffic_step sy (ps, d) (ps, d\<lparr>dm_world := w\<rparr>)"

inductive traffic :: "'w sys \<Rightarrow> 'w daemon \<Rightarrow> trigger list \<times> 'w daemon \<Rightarrow> bool" for sy d0 where
  quiet: "traffic sy d0 ([], d0)"
| more: "traffic sy d0 s \<Longrightarrow> traffic_step sy s s' \<Longrightarrow> traffic sy d0 s'"

text \<open>What all calls have in hand, and a set \<open>B\<close> of further wires that no key leads to.\<close>

abbreviation all_held :: "trigger list \<Rightarrow> nat list" where
  "all_held ps \<equiv> concat (map chans_held ps)"

abbreviation all_made :: "trigger list \<Rightarrow> nat list" where
  "all_made ps \<equiv> concat (map wires_made ps)"

definition all_in_hand :: "nat set \<Rightarrow> trigger list \<Rightarrow> 'w daemon \<Rightarrow> bool" where
  "all_in_hand B ps d \<longleftrightarrow> distinct (all_held ps) \<and> distinct (all_made ps) \<and> B \<inter> set (all_made ps) = {} \<and>
     with_wires (spare (set (all_held ps)) (set (all_made ps) \<union> B)) d"

lemma held_once [simp]: "distinct (chans_held p)" "distinct (wires_made p)"
  by (cases p; simp)+

lemma in_hand_beside:
  "all_in_hand B (xs @ p # ys) d \<longleftrightarrow>
     distinct (all_held (xs @ ys)) \<and> distinct (all_made (xs @ ys)) \<and> B \<inter> set (all_made (xs @ ys)) = {} \<and>
     with_wires (beside (set (all_held (xs @ ys))) (set (all_made (xs @ ys)) \<union> B) p) d"
proof -
  have "set (chans_held p) \<union> set (all_held (xs @ ys)) = set (all_held (xs @ p # ys))"
    "set (wires_made p) \<union> (set (all_made (xs @ ys)) \<union> B) = set (all_made (xs @ p # ys)) \<union> B" by auto
  then have sp: "beside (set (all_held (xs @ ys))) (set (all_made (xs @ ys)) \<union> B) p m \<longleftrightarrow>
      set (chans_held p) \<inter> set (all_held (xs @ ys)) = {} \<and> set (wires_made p) \<inter> (set (all_made (xs @ ys)) \<union> B) = {} \<and>
      spare (set (all_held (xs @ p # ys))) (set (all_made (xs @ p # ys)) \<union> B) m" for m
    by (simp only: beside_def)
  have one: "distinct (concat (map f (xs @ p # ys))) \<longleftrightarrow>
      distinct (f p) \<and> distinct (concat (map f (xs @ ys))) \<and> set (f p) \<inter> set (concat (map f (xs @ ys))) = {}"
    for f :: "trigger \<Rightarrow> nat list" by auto
  have "B \<inter> set (all_made (xs @ p # ys)) = {} \<longleftrightarrow> B \<inter> set (all_made (xs @ ys)) = {} \<and> set (wires_made p) \<inter> B = {}" by auto
  then show ?thesis unfolding all_in_hand_def with_wires_def sp one
    by (simp only: held_once Int_Un_distrib Un_empty simp_thms) blast
qed

lemma traffic_in_hand:
  assumes "traffic_step sy s s'" "all_in_hand B (fst s) (snd s)"
  shows "all_in_hand B (fst s') (snd s')"
  using assms
proof (cases rule: traffic_step.cases)
  case (turn p d q d' xs ys)
  then show ?thesis using assms(2) hoareD [OF stage_beside _ turn(3)] by (simp add: in_hand_beside)
next
  case (other c d d' ps)
  then show ?thesis using assms(2) perform_spare [OF _ other(3)] by (simp add: all_in_hand_def)
qed (simp_all add: all_in_hand_def)

lemma traffic_keeps:
  assumes "traffic sy d0 s" "well_formed d0" "\<forall>b \<in> B. unfiled b (dm_wires d0)"
  shows "all_in_hand B (fst s) (snd s)"
  using assms(1)
proof induction
  case quiet
  then show ?case using assms(2,3) by (simp add: all_in_hand_def with_wires_def spare_def chans_ok_def)
next
  case (more s s')
  then show ?case using traffic_in_hand by blast
qed

end
