(* ===== verification/Trigger_Race.thy ===== *)
theory Trigger_Race
  imports Trigger_Calls
begin

text \<open>
  Calls of \<open>AddGRPCWireRemote\<close> at once: every interleaving of their stages keeps the daemon's
  state well formed; yet two calls for the same wire may both make one, because what a call
  has seen need not hold when it acts, and the wire filed first is then lost.
\<close>

section \<open>Two calls for one wire\<close>

text \<open>A call that sees the wire untracked keeps acting on what it saw.\<close>

fun saw_none :: "WireDef \<Rightarrow> (string \<times> int64 \<rightharpoonup> nat) \<Rightarrow> trigger \<Rightarrow> wireMap \<Rightarrow> bool" where
  "saw_none wd W (Arrived wd') m \<longleftrightarrow> wd' = wd \<and> wires m = W"
| "saw_none wd W (Adding wd' a h) m \<longleftrightarrow> wd' = wd \<and> wires m = W \<and> W (wd_LocalPodNetNs wd, wd_LinkUid wd) = None \<and>
     key_of (wire_at m a) = (wd_LocalPodNetNs wd, wd_LinkUid wd)"
| "saw_none wd W (Answered r) m \<longleftrightarrow> True"
| "saw_none wd W (Clearing wd' c nm here v) m \<longleftrightarrow> wd' = wd \<and> wires m = W \<and> W (wd_LocalPodNetNs wd, wd_LinkUid wd) = None"
| "saw_none wd W (Making wd' c nm here v) m \<longleftrightarrow> wd' = wd \<and> wires m = W \<and> W (wd_LocalPodNetNs wd, wd_LinkUid wd) = None"
| "saw_none wd W (Opening wd' c nm v) m \<longleftrightarrow> wd' = wd \<and> wires m = W \<and> W (wd_LocalPodNetNs wd, wd_LinkUid wd) = None"

lemma saw_failed [simp]: "saw_none wd W (failed wd' e) m"
  by (simp add: failed_def)

lemma answers_map: "hoare P (started a) (\<lambda>q. on_map (saw_none wd W q))"
  by (auto simp: hoare_def on_map_def started_def wire_of_def start_thread_def)

lemma arrive_saw: "hoare (on_map (saw_none wd W (Arrived wd))) (arrive sy wd) (\<lambda>q. on_map (saw_none wd W q))"
proof -
  let ?k = "(wd_LocalPodNetNs wd, wd_LinkUid wd)"
  have mk: "hoare (on_map (saw_none wd W (Arrived wd))) (on_wires make_chan) (\<lambda>c. on_map (\<lambda>m. wires m = W))"
    by (rule map_wires) (auto simp: make_chan_def)
  have upd: "hoare (on_map (\<lambda>m. wires m = W)) (on_wires (UpdateWireByUID (wd_LocalPodNetNs wd) (wd_LinkUid wd) i c))
      (\<lambda>r. on_map (\<lambda>m. r = None \<longrightarrow> wires m = W \<and> W ?k = None))" for i c
    by (rule map_wires) (auto simp: UpdateWireByUID_def split: option.splits)
  have known: "hoare (on_map P) (do { w \<leftarrow> wire_of a; err \<leftarrow> lift (K8sStoreGWire (sy_lib sy) (sy_os sy) (sy_kube sy) w); started a })
      (\<lambda>q. on_map (saw_none wd W q))" for P a
    unfolding wire_of_def by (rule hoare_bind [OF hoare_reads_keep], rule hoare_bind [OF map_rules(1) answers_map])
  have err: "hoare (on_map P) (return (failed wd e)) (\<lambda>q. on_map (saw_none wd W q))" for P e
    by (rule map_return) simp
  have names: "hoare (on_map (\<lambda>m. wires m = W \<and> W ?k = None))
      (return (case rc of Inl e \<Rightarrow> failed wd (f e)
         | Inr ns \<Rightarrow> (case rv of Inl e \<Rightarrow> failed wd e | Inr v \<Rightarrow> Clearing wd c nm (g ns) v))) (\<lambda>q. on_map (saw_none wd W q))"
    for c nm rv f g and rc :: "(goerr + 'b)"
    by (rule map_return, cases rc; cases rv) auto
  show ?thesis unfolding arrive_def
    by (rule hoare_seq [OF mk], rule hoare_seq [OF upd], rule hoare_option, hypsubst, unfold simp_thms,
        rule hoare_bind [OF hoare_reads_keep], rule hoare_prod, rule hoare_sum [OF err],
        rule hoare_bind [OF map_rules(2)], rule hoare_bind [OF map_rules(1) names], rule known)
qed

lemma opening_saw: "hoare (on_map (saw_none wd W (Opening wd c nm v))) (open_end sy wd c nm v) (\<lambda>q. on_map (saw_none wd W q))"
proof -
  have err: "hoare (on_map P) (return (failed wd e)) (\<lambda>q. on_map (saw_none wd W q))" for P e
    by (rule map_return) simp
  have alloc: "hoare (on_map (saw_none wd W (Opening wd c nm v))) (alloc_wire i nm c wd (\<lambda>w. w))
      (\<lambda>a. on_map (saw_none wd W (Adding wd a 0)))" for i
    unfolding alloc_wire_def
    by (rule map_wires) (auto simp: new_wire_def wire_at_def CreateGWire_def key_of_def)
  have adding: "hoare (on_map (saw_none wd W (Adding wd a 0))) (return (case rh of Inl e \<Rightarrow> failed wd e | Inr h \<Rightarrow> Adding wd a h))
      (\<lambda>q. on_map (saw_none wd W q))" for a rh
    by (rule map_return, cases rh) auto
  show ?thesis unfolding open_end_def
    by (rule hoare_bind [OF map_rules(1)], rule hoare_bind [OF map_rules(1)], rule hoare_sum [OF err],
        rule hoare_seq [OF alloc], rule hoare_bind [OF map_rules(1) adding])
qed

lemma stage_saw: "hoare (on_map (saw_none wd W p)) (trigger_step sy p) (\<lambda>q. on_map (saw_none wd W q))"
proof (cases "\<exists>m. saw_none wd W p m")
  case False
  then show ?thesis by (auto simp: hoare_def on_map_def)
next
  case True
  show ?thesis
  proof (cases p)
    case (Arrived wd')
    then show ?thesis using arrive_saw True by auto
  next
    case (Clearing wd' c nm here v)
    have "hoare (on_map (saw_none wd W p)) (return (case es of Some e \<Rightarrow> failed wd' e | None \<Rightarrow> Making wd' c nm here v))
        (\<lambda>q. on_map (saw_none wd W q))" for es
      by (rule map_return, cases es) (auto simp: Clearing)
    from hoare_bind [OF map_stale this] show ?thesis by (simp add: Clearing)
  next
    case (Making wd' c nm here v)
    have "hoare (on_map (saw_none wd W p)) (return (case em of Some e \<Rightarrow> failed wd' e | None \<Rightarrow> Opening wd' c nm v))
        (\<lambda>q. on_map (saw_none wd W q))" for em
      by (rule map_return, cases em) (auto simp: Making)
    from hoare_bind [OF map_rules(1) this] show ?thesis by (simp add: Making)
  next
    case (Opening wd' c nm v)
    then show ?thesis using opening_saw True by auto
  next
    case (Adding wd' a h)
    have "hoare P (AddWireInMemNDataStore sy a h) (\<lambda>x. on_map (\<lambda>m. True))" for P by (simp add: hoare_def on_map_def)
    from hoare_seq [OF this answers_map] show ?thesis by (simp add: Adding)
  next
    case (Answered r)
    then show ?thesis by (simp add: hoare_return on_map_def)
  qed
qed

text \<open>No handler changes the key of a wire that exists.\<close>

definition has_key :: "nat \<Rightarrow> string \<times> int64 \<Rightarrow> wireMap \<Rightarrow> bool" where
  "has_key a k m \<longleftrightarrow> a < wnext m \<and> (\<exists>w. wheap m a = Some w \<and> key_of w = k)"

lemma keyed_wires:
  "hoare (on_map (has_key a k)) (on_wires make_chan) (\<lambda>x. on_map (has_key a k))"
  "hoare (on_map (has_key a k)) (on_wires (UpdateWireByUID ns uid p c)) (\<lambda>x. on_map (has_key a k))"
  "hoare (on_map (has_key a k)) (on_wires (new_wire w)) (\<lambda>x. on_map (has_key a k))"
  "hoare (on_map (has_key a k)) (on_wires (\<lambda>m. ((), upd_wire b (\<lambda>w. w\<lparr>gw_IsReady := r\<rparr>) m))) (\<lambda>x. on_map (has_key a k))"
  "hoare (on_map (has_key a k)) (on_wires (\<lambda>m. ((), m\<lparr>wires := (wires m)(k' \<mapsto> b)\<rparr>))) (\<lambda>x. on_map (has_key a k))"
  "hoare (on_map (has_key a k)) (on_wires (\<lambda>m. ((), m\<lparr>handles := (handles m)(i \<mapsto> h)\<rparr>))) (\<lambda>x. on_map (has_key a k))"
  by (rule map_wires, auto simp: has_key_def make_chan_def new_wire_def UpdateWireByUID_def split: option.splits)+

lemma remote_keyed: "hoare (on_map (has_key a k)) (AddGRPCWireRemote sy wd) (\<lambda>x. on_map (has_key a k))"
  unfolding AddGRPCWireRemote_def CreateUpdateGRPCWireRemoteTriggered_def file_remote_wire_def alloc_wire_def
    AddWireInMemNDataStore_def AddInMemNDataStore_def wire_of_def
  by (intro hoare_bind hoare_option hoare_sum hoare_prod keyed_wires map_rules map_stale map_return)

lemma adding_run:
  assumes "run_state (trigger_step sy (Adding wd a h)) d = (q, d')" "wheap (dm_wires d) a = Some w"
  shows "wires (dm_wires d') = (wires (dm_wires d))(key_of w \<mapsto> a) \<and> chclosed (dm_wires d') = chclosed (dm_wires d) \<and>
    (\<forall>b. b \<noteq> a \<longrightarrow> wheap (dm_wires d') b = wheap (dm_wires d) b) \<and> set (dm_threads d) \<subseteq> set (dm_threads d')"
  using assms
  by (auto simp: AddWireInMemNDataStore_def AddInMemNDataStore_def started_def wire_of_def wire_at_def start_thread_def
      upd_wire_def split: prod.splits)

text \<open>A call that is about to file its wire, and what a second call leaves of that.\<close>

lemma about_to_file:
  assumes "well_formed d0" "run_state (trigger_run 4 sy (Arrived wd)) d0 = (Adding wd a h, d1)"
  shows "well_formed d1 \<and> unfiled a (dm_wires d1) \<and> GetWire (wd_LocalPodNetNs wd) (wd_LinkUid wd) (dm_wires d1) = None \<and>
    has_key a (wd_LocalPodNetNs wd, wd_LinkUid wd) (dm_wires d1)"
proof -
  have "with_wires (beside {} {} (Arrived wd)) d0"
    using assms(1) by (simp add: with_wires_def beside_def spare_def chans_ok_def)
  from hoareD [OF runs_keep [where P = "\<lambda>q. with_wires (beside {} {} q)", OF stage_beside] this assms(2)]
  have d1: "well_formed d1" "unfiled a (dm_wires d1)" by (simp_all add: with_wires_def beside_def spare_def)
  have "on_map (saw_none wd (wires (dm_wires d0)) (Arrived wd)) d0" by (simp add: on_map_def)
  from hoareD [OF runs_keep [where P = "\<lambda>q. on_map (saw_none wd (wires (dm_wires d0)) q)", OF stage_saw] this assms(2)]
  have s1: "wires (dm_wires d1) (wd_LocalPodNetNs wd, wd_LinkUid wd) = None"
    "key_of (wire_at (dm_wires d1) a) = (wd_LocalPodNetNs wd, wd_LinkUid wd)" by (simp_all add: on_map_def)
  obtain x where x: "wheap (dm_wires d1) a = Some x" "key_of x = (wd_LocalPodNetNs wd, wd_LinkUid wd)"
    using d1(2) s1(2) by (auto simp: unfiled_def wire_at_def)
  have "heap_ok (dm_wires d1)" using d1(1) by (simp add: well_formed_def wires_ok_def wire_inv_def)
  then show ?thesis using d1 s1(1) x unfolding heap_ok_def by (auto simp: GetWire_def has_key_def)
qed

lemma second_call_leaves:
  assumes "well_formed d" "unfiled a (dm_wires d)" "has_key a k (dm_wires d)" "run_state (AddGRPCWireRemote sy wd) d = (r, d')"
  shows "well_formed d' \<and> unfiled a (dm_wires d') \<and> has_key a k (dm_wires d')"
proof -
  have "with_wires (spare {} {a}) d" using assms(1,2) by (simp add: with_wires_def spare_def chans_ok_def)
  from hoareD [OF remote_spare this assms(4)] hoareD [OF remote_keyed _ assms(4), of a k] assms(3)
  show ?thesis by (simp add: with_wires_def spare_def on_map_def)
qed

text \<open>
  C6: Suppose a second call for the same wire is served while the first is about to file its
  wire, and is answered without an error. Then the daemon has made a wire of its own for it: the
  interface exists but nothing tracks it yet.  When the first call then files its wire, the second
  one's is orphaned: its peer was told its interface id, it is ready and its receive thread runs,
  but the key leads to the first wire.  And it stays so: whatever the daemon serves from
  then on (deletions of pods, wires taken down, triggers, any of them interleaved), no key
  leads to the orphan and its stop channel is never closed.
\<close>

theorem racing_trigger_orphans_wire:
  assumes "well_formed d0" "run_state (trigger_run 4 sy (Arrived wd)) d0 = (Adding wd a h, d1)"
    and "run_state (AddGRPCWireRemote sy wd) (d1\<lparr>dm_world := v\<rparr>) = ((resp, None), d2)"
    and "run_state (trigger_step sy (Adding wd a h)) d2 = (q, d3)"
  shows "\<exists>b w. b \<noteq> a \<and> wheap (dm_wires d3) b = Some w \<and> gw_IsReady w \<and> wcr_PeerIntfId resp = gw_LocalNodeIfaceID w \<and>
    (b, gw_LocalNodeIfaceName w) \<in> set (dm_threads d3) \<and>
    GetWire (wd_LocalPodNetNs wd) (wd_LinkUid wd) (dm_wires d3) = Some a \<and>
    (\<forall>ps d. traffic sy d3 (ps, d) \<longrightarrow>
       (\<exists>w. wheap (dm_wires d) b = Some w \<and> gw_StopC w \<notin> chclosed (dm_wires d)) \<and>
       (\<forall>ns uid. GetWire ns uid (dm_wires d) \<noteq> Some b))"
proof -
  let ?k = "(wd_LocalPodNetNs wd, wd_LinkUid wd)" and ?d = "d1\<lparr>dm_world := v\<rparr>"
  have d1: "well_formed ?d" "unfiled a (dm_wires ?d)" "has_key a ?k (dm_wires ?d)"
    "GetWire (wd_LocalPodNetNs wd) (wd_LinkUid wd) (dm_wires ?d) = None"
    using about_to_file [OF assms(1,2)] by simp_all
  from second_call_leaves [OF d1(1-3) assms(3)] obtain y where
    d2: "well_formed d2" "unfiled a (dm_wires d2)" and y: "wheap (dm_wires d2) a = Some y" "key_of y = ?k"
    by (auto simp: has_key_def)
  from add_remote_run [OF assms(3) d1(4)] obtain b w hb where
    b: "filed_wire d2 b wd (chnext (dm_wires ?d)) w hb" "chclosed (dm_wires d2) = chclosed (dm_wires ?d)"
      "dm_threads d2 = dm_threads ?d @ [(b, gw_LocalNodeIfaceName w)]"
      "resp = \<lparr>wcr_Response = True, wcr_PeerIntfId = gw_LocalNodeIfaceID w\<rparr>" by blast
  then have f: "wheap (dm_wires d2) b = Some w" "gw_IsReady w" "wires (dm_wires d2) ?k = Some b"
    by (simp_all add: filed_wire_def GetWire_def)
  have ok2: "tracked_ok (dm_wires d2)" using d2(1) by (simp add: well_formed_def wires_ok_def wire_inv_def)
  have open_w: "gw_StopC w \<notin> chclosed (dm_wires d2)" using tracked_okD [OF ok2 f(3)] f(1,2) by (simp add: live_def)
  have ba: "b \<noteq> a" using d2(2) f(3) by (auto simp: unfiled_def)
  note run = adding_run [OF assms(4) y(1)]
  have "with_wires (beside {} {} (Adding wd a h)) d2"
    using d2 by (simp add: with_wires_def beside_def spare_def chans_ok_def)
  from hoareD [OF stage_beside this assms(4)] have ok3: "well_formed d3" "wires_ok (dm_wires d3)"
    by (simp_all add: with_wires_def well_formed_def)
  have un: "wires (dm_wires d3) k \<noteq> Some b" for k
    using run y(2) ba tracked_okD [OF ok2, of k b] f(1) tracked_okD [OF ok2 f(3)] by (auto split: if_splits)
  have w3: "wheap (dm_wires d3) b = Some w" "gw_StopC w \<notin> chclosed (dm_wires d3)" using run ba f(1) open_w by simp_all
  have "GetWire (wd_LocalPodNetNs wd) (wd_LinkUid wd) (dm_wires d3) = Some a" "(b, gw_LocalNodeIfaceName w) \<in> set (dm_threads d3)"
    using run y(2) b(3) by (auto simp: GetWire_def)
  moreover have "unfiled b (dm_wires d)" if "traffic sy d3 (ps, d)" for ps d
    using traffic_keeps [OF that ok3(1), of "{b}"] un w3 ok3(2)
    by (simp add: all_in_hand_def with_wires_def spare_def unfiled_def live_def)
  then have "(\<exists>w. wheap (dm_wires d) b = Some w \<and> gw_StopC w \<notin> chclosed (dm_wires d)) \<and>
      (\<forall>ns uid. GetWire ns uid (dm_wires d) \<noteq> Some b)" if "traffic sy d3 (ps, d)" for ps d
    using that by (simp add: unfiled_def live_def GetWire_def)
  ultimately show ?thesis using ba w3(1) f(2) b(4)
    by (intro exI [where x = b], intro exI [where x = w]) simp
qed

lemma ref_four:
  assumes "GetWire (wd_LocalPodNetNs wd) (wd_LinkUid wd) (dm_wires d) = None" "wd_LocalPodNetNs wd \<noteq> ''''"
    and "a_gw (dm_world d) = []" "wd_LocalPodIp wd = ''''"
  shows "\<exists>a h d'. run_state (trigger_run 4 (ref_sys demo_env) (Arrived wd)) d = (Adding wd a h, d')"
proof -
  have four: "(4 :: nat) = Suc (Suc (Suc (Suc 0)))" by simp
  let ?c = "chnext (dm_wires d)" and ?d = "d\<lparr>dm_wires := (dm_wires d)\<lparr>chnext := Suc (chnext (dm_wires d))\<rparr>\<rparr>"
  let ?v = "\<lparr>ve_NsName = wd_LocalPodNetNs wd, ve_LinkName = wd_IntfNameInPod wd, ve_IPAddr = [], ve_MTU = sint (wd_Mtu wd)\<rparr>"
  have v: "remote_veth (ref_net :: api net_env) wd = Inr ?v" using assms(4) by (simp add: remote_veth_def)
  have u: "UpdateWireByUID (wd_LocalPodNetNs wd) (wd_LinkUid wd) i c (dm_wires ?d) = (None, dm_wires ?d)" for i c
    using assms(1) by (simp add: UpdateWireByUID_def GetWire_def)
  obtain nm g where nm: "GenNodeIfaceName (wd_LocalPodName wd) (wd_IntfNameInPod wd) (dm_index d) = (Inr nm, g)"
    by (cases "NextIndex (dm_index d)") (simp add: GenNodeIfaceName_def Let_def)
  let ?d1 = "?d\<lparr>dm_index := g\<rparr>" and ?here = "''/proc/1/ns/net''"
  have one: "run_state (arrive (ref_sys demo_env) wd) d = (Clearing wd ?c nm ?here ?v, ?d1)"
    using u nm v by (simp add: arrive_def make_chan_def)
  have "GetWire (wd_LocalPodNetNs wd) (wd_LinkUid wd) (dm_wires ?d1) = None" using assms(1) by (simp add: GetWire_def)
  then obtain w1 where e: "run_state (ensureNoStaleRemoteEnd (ref_sys demo_env) ?v wd) ?d1 = (None, ?d1\<lparr>dm_world := w1\<rparr>)"
    using ref_ensure [of wd ?d1 ?v] assms(2,3) by auto
  obtain w2 where m: "run_state (MakeVeth (ref_net :: api net_env) (ref_os demo_env) ?v
      \<lparr>ve_NsName = ?here, ve_LinkName = nm, ve_IPAddr = [], ve_MTU = 0\<rparr>) w1 = (None, w2)"
    using ref_make_veth [of ?v "\<lparr>ve_NsName = ?here, ve_LinkName = nm, ve_IPAddr = [], ve_MTU = 0\<rparr>"
        "ref_os demo_env" w1] assms(2) by auto
  have "\<exists>a h d'. run_state (open_end (ref_sys demo_env) wd ?c nm ?v) (?d1\<lparr>dm_world := w2\<rparr>) = (Adding wd a h, d')"
    by (simp add: open_end_def alloc_wire_def new_wire_def split: prod.split)
  then show ?thesis using one e m by (simp add: four)
qed

lemma demo_well_formed: "well_formed demo_daemon"
  using wire_inv_init by (simp add: well_formed_def wires_ok_def demo_daemon_def sys_init_def links_keyed_def threads_ok_def)

lemma demo_race:
  "\<exists>a h d1 resp d2 q d3. run_state (trigger_run 4 (ref_sys demo_env) (Arrived demo_def)) demo_daemon = (Adding demo_def a h, d1) \<and>
     run_state (AddGRPCWireRemote (ref_sys demo_env) demo_def) (d1\<lparr>dm_world := dm_world demo_daemon\<rparr>) = ((resp, None), d2) \<and>
     run_state (trigger_step (ref_sys demo_env) (Adding demo_def a h)) d2 = (q, d3)"
proof -
  let ?sy = "ref_sys demo_env"
  have d: "a_gw (dm_world demo_daemon) = []" "wd_LocalPodNetNs demo_def \<noteq> ''''" "wd_LocalPodIp demo_def = ''''"
    by (simp_all add: demo_daemon_def demo_def_def zero_WireDef_def)
  have un: "GetWire (wd_LocalPodNetNs demo_def) (wd_LinkUid demo_def) (dm_wires demo_daemon) = None"
    by (simp add: demo_daemon_def empty_wires_def GetWire_def)
  obtain a h d1 where one: "run_state (trigger_run 4 ?sy (Arrived demo_def)) demo_daemon = (Adding demo_def a h, d1)"
    using ref_four [OF un d(2,1,3)] by blast
  have "on_map (saw_none demo_def (wires (dm_wires demo_daemon)) (Arrived demo_def)) demo_daemon" by (simp add: on_map_def)
  from hoareD [OF runs_keep [where P = "\<lambda>q. on_map (saw_none demo_def (wires (dm_wires demo_daemon)) q)", OF stage_saw] this one]
  have "GetWire (wd_LocalPodNetNs demo_def) (wd_LinkUid demo_def) (dm_wires (d1\<lparr>dm_world := dm_world demo_daemon\<rparr>)) = None"
    by (simp add: on_map_def GetWire_def)
  then obtain resp d2 where two: "run_state (AddGRPCWireRemote ?sy demo_def) (d1\<lparr>dm_world := dm_world demo_daemon\<rparr>) = ((resp, None), d2)"
    using ref_add_remote [of demo_def "d1\<lparr>dm_world := dm_world demo_daemon\<rparr>"] d by auto
  obtain q d3 where three: "run_state (trigger_step ?sy (Adding demo_def a h)) d2 = (q, d3)" by fastforce
  show ?thesis using one two three by blast
qed

theorem racing_trigger_orphans_wire_witness:
  "\<exists>d3 a b w. b \<noteq> a \<and> wheap (dm_wires d3) b = Some w \<and> gw_IsReady w \<and> (b, gw_LocalNodeIfaceName w) \<in> set (dm_threads d3) \<and>
     GetWire ''/ns/a'' 7 (dm_wires d3) = Some a \<and>
     (\<forall>ps d. traffic (ref_sys demo_env) d3 (ps, d) \<longrightarrow> (\<forall>ns uid. GetWire ns uid (dm_wires d) \<noteq> Some b))"
proof -
  obtain a h d1 resp d2 q d3 where
    r: "run_state (trigger_run 4 (ref_sys demo_env) (Arrived demo_def)) demo_daemon = (Adding demo_def a h, d1)"
      "run_state (AddGRPCWireRemote (ref_sys demo_env) demo_def) (d1\<lparr>dm_world := dm_world demo_daemon\<rparr>) = ((resp, None), d2)"
      "run_state (trigger_step (ref_sys demo_env) (Adding demo_def a h)) d2 = (q, d3)"
    using demo_race by blast
  have k: "wd_LocalPodNetNs demo_def = ''/ns/a''" "wd_LinkUid demo_def = 7" by (simp_all add: demo_def_def)
  from racing_trigger_orphans_wire [OF demo_well_formed r] show ?thesis unfolding k by blast
qed

section \<open>The state stays well formed\<close>

text \<open>
  C5: Any number of calls of \<open>AddGRPCWireRemote\<close>, for the same wires or others, in any
  interleaving of their stages, with any other calls of the daemon and ticks of its threads
  running and the world changing between any two of them, keep the daemon's state well
  formed: the map's invariant holds, no channel is closed twice, every receive thread has
  its wire.  No two calls have the same channel in hand or have made the same wire; a channel
  in hand is open and no wire has it; a wire that is made and not filed has an open channel and
  no key leads to it.
\<close>

theorem interleaved_triggers_well_formed:
  assumes "well_formed d0" "traffic sy d0 (ps, d)"
  shows "well_formed d \<and> \<not> panicked (dm_wires d) \<and> distinct (all_held ps) \<and> distinct (all_made ps) \<and>
    (\<forall>p \<in> set ps. (\<forall>c \<in> set (chans_held p). c \<notin> chclosed (dm_wires d) \<and>
         (\<forall>a w. wheap (dm_wires d) a = Some w \<longrightarrow> gw_StopC w \<noteq> c)) \<and>
       (\<forall>a \<in> set (wires_made p). unfiled a (dm_wires d)))"
proof -
  have h: "all_in_hand {} ps d" using traffic_keeps [OF assms(2,1), of "{}"] by simp
  then have "\<not> panicked (dm_wires d)"
    by (simp add: all_in_hand_def with_wires_def well_formed_def wires_ok_def wire_inv_def heap_ok_def)
  then show ?thesis using h unfolding all_in_hand_def with_wires_def spare_def chans_ok_def by auto
qed

text \<open>A call and its stages, with no other step between, as traffic.\<close>

lemma traffic_turns:
  "traffic sy d0 (xs @ p # ys, d) \<Longrightarrow> run_state (trigger_run n sy p) d = (q, d') \<Longrightarrow> traffic sy d0 (xs @ q # ys, d')"
proof (induction n arbitrary: p d)
  case (Suc n)
  obtain p1 d1 where one: "run_state (trigger_step sy p) d = (p1, d1)" by fastforce
  from traffic.more [OF Suc.prems(1) traffic_step.turn [OF one]] Suc.prems(2) one show ?case
    by (intro Suc.IH [of p1 d1]) simp_all
qed simp

theorem interleaved_triggers_well_formed_witness:
  "\<exists>d a h r. traffic (ref_sys demo_env) demo_daemon ([Adding demo_def a h, Answered r], d) \<and> well_formed d \<and> unfiled a (dm_wires d)"
proof -
  let ?sy = "ref_sys demo_env"
  obtain a h d1 resp d2 where
    r: "run_state (trigger_run 4 ?sy (Arrived demo_def)) demo_daemon = (Adding demo_def a h, d1)"
      "run_state (AddGRPCWireRemote ?sy demo_def) (d1\<lparr>dm_world := dm_world demo_daemon\<rparr>) = ((resp, None), d2)"
    using demo_race by blast
  have five: "run_state (trigger_run 5 ?sy (Arrived demo_def)) (d1\<lparr>dm_world := dm_world demo_daemon\<rparr>) = (Answered (resp, None), d2)"
    using undisturbed_run [of ?sy demo_def "d1\<lparr>dm_world := dm_world demo_daemon\<rparr>"] r(2) by simp
  have "traffic ?sy demo_daemon ([] @ Arrived demo_def # [], demo_daemon)"
    using traffic.more [OF traffic.quiet traffic_step.call] by simp
  from traffic_turns [OF this r(1)] have "traffic ?sy demo_daemon ([Adding demo_def a h], d1)" by simp
  from traffic.more [OF traffic.more [OF this traffic_step.call [of _ _ _ demo_def]] traffic_step.outside [of _ _ _ "dm_world demo_daemon"]]
  have "traffic ?sy demo_daemon ([Adding demo_def a h] @ Arrived demo_def # [], d1\<lparr>dm_world := dm_world demo_daemon\<rparr>)" by simp
  from traffic_turns [OF this five] have t: "traffic ?sy demo_daemon ([Adding demo_def a h, Answered (resp, None)], d2)" by simp
  from interleaved_triggers_well_formed [OF demo_well_formed t] have "well_formed d2 \<and> unfiled a (dm_wires d2)" by simp
  with t show ?thesis by blast
qed

end
