(* ===== verification/Spec2Isabelle.thy ===== *)
theory Spec2Isabelle
  imports Cluster_Links Grpc_Protocol Taint Daemon_Calls Topology_Client Carrier_Watch Deep_Copy Restart Processes
    Grpc_Serve Trigger_Race
begin

text \<open>
  A verification development for meshnet-cni, a CNI plugin with a per-node daemon that
  connects the pods of an emulated network topology by point-to-point links.

  \<^bold>\<open>The program.\<close>  The kubelet runs the plugin (\<open>plugin/\<close>) once for every pod that is
  created or deleted.  The plugin asks the daemon of its node (\<open>daemon/\<close>, gRPC) for the
  pod's Topology object, marks the pod alive, and makes each link: a veth pair when both
  pods are on the node, and between nodes a grpc wire or a VXLAN interface.  Of two pods of
  a link the one that comes up later, or else the one with the greater name, does the work;
  who skipped whom is kept in the topology's status.  For a grpc wire each daemon keeps a
  wire struct per end, a handle to write to the pod's interface and a thread that reads
  from it and sends every frame to the peer's daemon; a copy of each wire is kept in a
  Kubernetes object so that a restarted daemon finds its wires again.

  \<^bold>\<open>How the code is modelled.\<close>  A struct is a record with the fields' names behind a
  prefix, a 64-bit or 32-bit Go integer is a word, and an \<open>error\<close> is a \<open>goerr\<close>; a
  function that can fail answers \<open>goerr + 'a\<close> (\<open>res\<close>) or \<open>goerr option\<close>.  Code with
  effects is a program of the state monad over a world of any type \<open>'w\<close>
  (\<open>Meshnet_Prelude\<close>).  What is not in the repository (netlink, Kubernetes, the CNI
  library, gRPC clients, gopacket, the clock) is a record of operations (\<open>Environment\<close>:
  \<open>net_env\<close>, \<open>kube_env\<close>, \<open>os_env\<close>, \<open>rpc_env\<close>, \<open>unstr_lib\<close>, \<open>pkt_lib\<close>, together
  \<open>sys\<close>); what the proofs use of them is stated as named laws, and \<open>Reference_Env\<close>
  instantiates every record and law for the witnesses.  Pointers that are shared live in a
  heap of addresses (\<open>Wire_Map\<close>).  The order in which Go visits a map is an argument.

  \<^bold>\<open>Foundations.\<close>
  \<^item> \<open>Meshnet_Prelude\<close>: the monad, errors, strings and numbers as text.
  \<^item> \<open>Messages\<close>: the gRPC messages and custom resources.
  \<^item> \<open>Proto_Messages\<close> (\<open>meshnet.pb.go\<close>): the type of all messages, the getters, for nil
    receivers too, and the tables of the messages' and the methods' types.
  \<^item> \<open>Environment\<close>, \<open>Reference_Env\<close>: the outside world and its laws.
  \<^item> \<open>Registry\<close>: the interface (locale) of a keyed table, interpreted on the wire map, the
    handle map and the VXLAN link table.
  \<^item> \<open>Frames\<close>: the interface (locale) of a relation that every call of a program keeps,
    interpreted on clocks, files and the wires of one and of two daemons.
  \<^item> \<open>Polling\<close>: loops that poll until a deadline, and that they end.
  \<^item> \<open>Deep_Copy\<close> (\<open>zz_generated.deepcopy.go\<close>, \<open>zz_generated_grpcwire.deepcopy.go\<close>): the
    custom resources over a memory of arrays, where slices share; a deep copy reads as its
    original and shares nothing with it, proved once in the locale \<open>item_copies\<close> and
    interpreted for the two lists of objects.

  \<^bold>\<open>The daemon.\<close>
  \<^item> \<open>Iface_Names\<close> (\<open>grpcwire.go\<close>: \<open>GenNodeIfaceName\<close>, \<open>SeedIndexFromHost\<close>): names that
    fit the kernel's limit, that are fresh after a restart, and when they repeat.
  \<^item> \<open>Carrier_Prop\<close> (\<open>internal/carrierprop\<close>): debouncing of carrier changes and the
    suppression of echoes; emitted edges alternate, and each was seen for the whole interval.
  \<^item> \<open>Wire_Map\<close>, \<open>Wire_Steps\<close> (\<open>gwire_map.go\<close>): the wires in memory, and the step relation
    of any number of threads on them: no stop channel is closed twice.
  \<^item> \<open>Wire_Store\<close> (\<open>gwire_recon.go\<close>): the copy of the wires in Kubernetes.
  \<^item> \<open>Link_Map\<close>, \<open>Vxlan\<close> (\<open>daemon/vxlan\<close>): the VXLAN end points and their interfaces.
  \<^item> \<open>Peer_IP\<close> (\<open>peerip.go\<close>): the check that an address is a cluster node's.
  \<^item> \<open>Cni_Conf\<close>, \<open>Koko\<close> (\<open>internal/cniconf\<close>, \<open>internal/koko\<close>, \<open>utils/wireutil\<close>): the settings
    files and the sequences of netlink calls.
  \<^item> \<open>Frame_Decode\<close> (\<open>wire-decode.go\<close>): the description of large frames, with its panics.
  \<^item> \<open>Daemon_State\<close>, \<open>Wire_Ops\<close>, \<open>Skip_Ledger\<close>, \<open>Handler\<close> (\<open>gwire_rpc_handlers.go\<close>,
    \<open>grpcwire.go\<close>, \<open>carrier.go\<close>, \<open>daemon/meshnet/handler.go\<close>): the daemon's globals as one
    record, and every handler and background loop over it.
  \<^item> \<open>Taint\<close> (\<open>taint.go\<close>), \<open>Cni_Init\<close> (\<open>daemon/cni/cni.go\<close>), \<open>Startup\<close>
    (\<open>daemon/main.go\<close>, \<open>daemon/meshnet/meshnet.go\<close>): the gate on the node, the installation of
    the configuration and the start.
  \<^item> \<open>Topology_Client\<close>, \<open>Api_Clients\<close> (\<open>api/clientset\<close>, \<open>gwire_recon.go\<close>): the clients, from
    \<open>NewForConfig\<close> to each request, over the library's dynamic client, and the scheme.
  \<^item> \<open>Carrier_Watch\<close> (\<open>grpcwire/carrier.go\<close>, \<open>vxlan/carrier.go\<close>): the watch loops over the
    events they meet, in the locale \<open>overlay_watch\<close> that both overlays interpret, refined to
    the debounced edges of \<open>Carrier_Prop\<close>.
  \<^item> \<open>Daemon_Calls\<close>: the started daemon as a state machine over all its calls and ticks; its
    reachable states are well formed.
  \<^item> \<open>Trigger_Steps\<close>, \<open>Trigger_Calls\<close>, \<open>Trigger_Race\<close> (\<open>AddGRPCWireRemote\<close>,
    \<open>gwire_rpc_handlers.go\<close>): the one handler that peers call at will, cut into the stages
    between which other calls may run, and which are the handler when none does.  Any number of calls
    interleaved with every other call of the daemon keeps the state well formed; and of two
    calls for one wire, one may leave a wire that nothing the daemon serves later stops.
  \<^item> \<open>Restart\<close>: a wire that was stored is tracked again by the daemon that starts anew.
  \<^item> \<open>Processes\<close> (\<open>main\<close> of the daemon and of the plugin): how each process ends, and what
    it leaves on the node.

  \<^bold>\<open>The plugin.\<close>
  \<^item> \<open>Plugin_Client\<close>, \<open>Plugin_Wire\<close>, \<open>Plugin\<close> (\<open>plugin/meshnet.go\<close>,
    \<open>plugin/grpcwires-plugin.go\<close>): ADD, DEL and the set-up of a grpc wire.
  \<^item> \<open>Link_Protocol\<close>: two ADDs of one link on one node, interleaved as a step relation in which
    every call to the daemon or the kernel is a step of its own (the two interface checks are
    two, \<open>koko.MakeVeth\<close> is three) and any call may fail.  Its decisions are those of
    \<open>cmdAdd\<close>; that the plugin's \<open>add_link\<close> makes these calls in this order is read off the
    code, not proved.  Two runs that both end without an error leave one pair with both its ends,
    or nothing; but the checks are not atomic, so a pair may be torn down and made again, and a
    link may be left to a peer that never makes it.
  \<^item> \<open>Grpc_Protocol\<close>: the same for a grpc wire between two nodes, with the clock that bounds
    the wait for the peer: one creator at most, every run ends, and when a link is lost.

  \<^bold>\<open>Composition.\<close>  \<open>Node\<close> gives the plugin the daemon's handlers as its local client: when ADD
  may succeed, and where DEL panics;
  \<open>Cluster\<close> puts a second node's daemon behind the peer's address: the wire that ADD makes
  joins the two ends, and frames sent at one end arrive at the other, in order.
  \<open>Cluster_Links\<close> adds a DEL that stops the peer's end, the VXLAN link that both ends then
  know, and a carrier change that crosses a wire once.

  \<^bold>\<open>Fuel and bounds.\<close>  A loop that may run for ever takes the number of rounds and answers
  \<open>None\<close> when they are used up.  With a clock that runs, waiting for the daemon needs 32
  rounds (60 seconds, one round every 2), the wait for the base configuration 92 (180
  seconds), the readiness gate 152 (300 seconds); decoding a frame needs one round and one
  recursion more than the frame has bytes; \<open>drain_pod\<close> one round more than the pod has
  tracked wires.  Each of these is proved to be enough, and what is proved of a result
  holds for any fuel.  The receive thread and the wait for a valid peer address run over
  the list of the events they meet.

  \<^bold>\<open>Not modelled.\<close>  Log output; the texts that libraries give their errors; the parsing
  of the daemon's flags; \<open>Serve\<close> and \<open>Stop\<close> of the gRPC server and the delivery of watch
  events, which are the libraries'; of the code that protoc writes, the methods that only call
  into the protobuf runtime (\<open>Reset\<close>, \<open>String\<close>, \<open>ProtoReflect\<close>, the descriptor's bytes and
  their registration).  A handler runs as one step of \<open>Daemon_Calls\<close>: interleavings inside
  handlers are covered for the wire map (\<open>Wire_Steps\<close>), for the calls of two ADDs
  (\<open>Link_Protocol\<close>, \<open>Grpc_Protocol\<close>) and for the peers' triggers (\<open>Trigger_Race\<close>), whose
  stages are coarser than the code's: a stage that touches the wires does so without a break.
\<close>

end
